(* ===== verification/Prelude.thy ===== *)
theory Prelude
  imports Main "HOL-Library.Word" "HOL-Library.Monad_Syntax"
begin

text \<open>
  What every other theory shares: the machine types of the target (an ESP32: 32-bit,
  little-endian, \<open>char\<close> unsigned), C arithmetic that truncates towards zero, objects
  in memory as byte lists whose accesses are checked, C strings, the interface of a
  binary wire format (\<open>wire_codec\<close>) and the generic list lemmas of the codecs.

  A function of the code that may read outside an object, overflow a signed integer,
  use an indeterminate value or not return has a result of type \<open>option\<close>:
  \<open>None\<close> says that the C call has no defined result.
\<close>

unbundle bit_operations_syntax

section \<open>Machine types\<close>

type_synonym u8 = "8 word"
type_synonym u16 = "16 word"
type_synonym u32 = "32 word"
type_synonym u64 = "64 word"
type_synonym bytes = "u8 list"

named_theorems c_mem \<open>checked accesses to objects in memory\<close>
named_theorems c_arith \<open>C integer arithmetic\<close>
named_theorems wire \<open>encoders and decoders of the wire formats\<close>

section \<open>C integers\<close>

text \<open>Division and remainder of C: truncation towards zero.\<close>

definition c_div :: "int \<Rightarrow> int \<Rightarrow> int" where
  "c_div a b = sgn a * sgn b * (\<bar>a\<bar> div \<bar>b\<bar>)"

definition c_mod :: "int \<Rightarrow> int \<Rightarrow> int" where
  "c_mod a b = a - c_div a b * b"

text \<open>A signed 32-bit result: an overflow is undefined behaviour.\<close>

definition c_int :: "int \<Rightarrow> int option" where
  "c_int n = (if - (2 ^ 31) \<le> n \<and> n < 2 ^ 31 then Some n else None)"

lemma c_div_nonneg [c_arith]: "0 \<le> a \<Longrightarrow> 0 < b \<Longrightarrow> c_div a b = a div b"
  by (auto simp: c_div_def sgn_if)

lemma c_mod_nonneg [c_arith]: "0 \<le> a \<Longrightarrow> 0 < b \<Longrightarrow> c_mod a b = a mod b"
  by (simp add: c_mod_def c_div_nonneg minus_div_mult_eq_mod)

lemma c_div_neg: "a < 0 \<Longrightarrow> 0 < b \<Longrightarrow> c_div a b \<le> 0"
  by (simp add: c_div_def sgn_if pos_imp_zdiv_nonneg_iff)

lemma c_int_Some [simp]: "c_int n = Some m \<longleftrightarrow> m = n \<and> - (2 ^ 31) \<le> n \<and> n < 2 ^ 31"
  by (auto simp: c_int_def)

lemma uint_u8_bounds: "0 \<le> uint (b :: u8)" "uint (b :: u8) < 256"
  using uint_bounded [of b] by simp_all

lemma u8_of_int_uint [simp]: "word_of_int (uint (b :: u8)) = b"
  by simp

lemma uint_of_int_u8: "0 \<le> n \<Longrightarrow> n < 256 \<Longrightarrow> uint (word_of_int n :: u8) = n"
  by (simp add: uint_word_of_int)

text \<open>An unsigned 32-bit value read as a signed one.\<close>

lemma sint_small: "uint (w :: u32) < 2 ^ 31 \<Longrightarrow> sint w = uint w"
proof -
  assume "uint w < 2 ^ 31"
  moreover have "- (2 ^ 31) \<le> uint w" by (rule order_trans [OF _ uint_ge_0]) simp
  ultimately have "signed_take_bit 31 (uint w) = uint w" by (intro signed_take_bit_int_eq_self)
  then show ?thesis by (simp add: sint_uint)
qed

section \<open>Objects in memory\<close>

text \<open>One byte of an object, and a run of bytes as \<open>memcpy\<close> reads it.\<close>

definition rd :: "bytes \<Rightarrow> nat \<Rightarrow> u8 option" where
  "rd m i = (if i < length m then Some (m ! i) else None)"

definition mem_slice :: "bytes \<Rightarrow> nat \<Rightarrow> nat \<Rightarrow> bytes option" where
  "mem_slice m i n = (if i + n \<le> length m then Some (take n (drop i m)) else None)"

lemma rd_inside [c_mem]: "i < length m \<Longrightarrow> rd m i = Some (m ! i)"
  by (simp add: rd_def)

lemma rd_outside [c_mem]: "length m \<le> i \<Longrightarrow> rd m i = None"
  by (simp add: rd_def)

lemma rd_append [c_mem]:
  "rd (xs @ ys) i = (if i < length xs then Some (xs ! i) else rd ys (i - length xs))"
  by (auto simp: rd_def nth_append)

lemma rd_Cons [c_mem]: "rd (x # xs) i = (if i = 0 then Some x else rd xs (i - 1))"
  by (auto simp: rd_def nth_Cons')

lemma rd_at [c_mem]: "i = length xs \<Longrightarrow> rd (xs @ y # ys) i = Some y"
  by (simp add: rd_def)

lemma rd_drop: "drop i m = b # bs \<Longrightarrow> rd m i = Some b \<and> drop (Suc i) m = bs"
  by (metis Cons_nth_drop_Suc drop_eq_Nil leI list.inject neq_Nil_conv rd_inside)

lemma rd_Some_iff: "rd m i = Some b \<longleftrightarrow> i < length m \<and> m ! i = b"
  by (simp add: rd_def)

lemma rd_None_iff: "rd m i = None \<longleftrightarrow> length m \<le> i"
  by (simp add: rd_def not_less)

lemma mem_slice_inside [c_mem]:
  "i + n \<le> length m \<Longrightarrow> mem_slice m i n = Some (take n (drop i m))"
  by (simp add: mem_slice_def)

lemma mem_slice_length: "mem_slice m i n = Some xs \<Longrightarrow> length xs = n"
  by (auto simp: mem_slice_def split: if_splits)

lemma mem_slice_prefix [c_mem]: "mem_slice (xs @ ys) 0 (length xs) = Some xs"
  by (simp add: mem_slice_def)

lemma take_Cons_cases:
  assumes "0 < n" and "n \<le> length xs"
  obtains y ys where "xs = y # ys" and "n - 1 \<le> length ys"
  using assms by (cases xs) auto

section \<open>C strings\<close>

text \<open>
  A C string is a pointer to the bytes of an object; what the string functions see are
  the bytes before the first NUL. \<open>c_str\<close> gives them, \<open>c_strlen\<close> counts them. The
  object is written without its final NUL.
\<close>

definition c_str :: "bytes \<Rightarrow> bytes" where
  "c_str s = takeWhile (\<lambda>b. b \<noteq> 0) s"

definition c_strlen :: "bytes \<Rightarrow> nat" where
  "c_strlen s = length (c_str s)"

definition is_c_str :: "bytes \<Rightarrow> bool" where
  "is_c_str s \<longleftrightarrow> 0 \<notin> set s"

lemma c_str_ident [simp]: "is_c_str s \<Longrightarrow> c_str s = s"
  by (auto simp: c_str_def is_c_str_def takeWhile_eq_all_conv)

lemma c_strlen_ident [simp]: "is_c_str s \<Longrightarrow> c_strlen s = length s"
  by (simp add: c_strlen_def)

lemma is_c_str_c_str [simp]: "is_c_str (c_str s)"
  by (auto simp: c_str_def is_c_str_def dest: set_takeWhileD)

lemma is_c_str_simps [simp]:
  "is_c_str []"
  "is_c_str (b # s) \<longleftrightarrow> b \<noteq> 0 \<and> is_c_str s"
  "is_c_str (s @ t) \<longleftrightarrow> is_c_str s \<and> is_c_str t"
  by (auto simp: is_c_str_def)

text \<open>The bytes of a string literal of the source.\<close>

definition ascii :: "string \<Rightarrow> bytes" where
  "ascii s = map (\<lambda>c. of_nat (of_char c)) s"

section \<open>The interface of a wire format\<close>

text \<open>
  A wire format is an encoder, the values it can encode, and a decoder that reads one
  value at the start of a byte sequence and says how many bytes it consumed. The law
  is the round trip with anything behind the encoding. From it: no encoding is a proper
  prefix of another, so a sequence of values can be read back one after the other.
\<close>

locale wire_codec =
  fixes enc :: "'a \<Rightarrow> bytes"
    and dec :: "bytes \<Rightarrow> ('a \<times> nat) option"
    and encodable :: "'a \<Rightarrow> bool"
  assumes dec_enc: "encodable x \<Longrightarrow> dec (enc x @ rest) = Some (x, length (enc x))"
begin

lemma enc_prefix_free:
  assumes "encodable x" and "encodable y" and "enc x @ r = enc y @ s"
  shows "x = y \<and> r = s"
proof -
  have "dec (enc x @ r) = Some (x, length (enc x))" using assms(1) by (rule dec_enc)
  moreover have "dec (enc x @ r) = Some (y, length (enc y))"
    using dec_enc [OF assms(2), of s] assms(3) by simp
  ultimately show ?thesis using assms(3) by auto
qed

lemma enc_injective: "encodable x \<Longrightarrow> encodable y \<Longrightarrow> enc x = enc y \<Longrightarrow> x = y"
  using enc_prefix_free [of x y "[]" "[]"] by simp

fun dec_many :: "nat \<Rightarrow> bytes \<Rightarrow> ('a list \<times> nat) option" where
  "dec_many 0 bs = Some ([], 0)"
| "dec_many (Suc n) bs =
     do { (x, k) \<leftarrow> dec bs;
          (xs, m) \<leftarrow> dec_many n (drop k bs);
          Some (x # xs, k + m) }"

lemma dec_many_enc:
  "\<forall>x \<in> set xs. encodable x \<Longrightarrow>
    dec_many (length xs) (concat (map enc xs) @ rest) = Some (xs, length (concat (map enc xs)))"
  by (induction xs arbitrary: rest) (auto simp: dec_enc)

lemma sequence_unambiguous:
  assumes "\<forall>x \<in> set xs. encodable x" and "\<forall>x \<in> set ys. encodable x"
    and "length xs = length ys" and "concat (map enc xs) = concat (map enc ys)"
  shows "xs = ys"
  using dec_many_enc [OF assms(1), of "[]"] dec_many_enc [OF assms(2), of "[]"] assms(3,4)
  by simp

end

section \<open>Taking a run apart\<close>

text \<open>
  A run of fallible code that delivered a result, one construct at a time: what the first
  step delivered, which branch was taken, what a pair consists of. Used with \<open>elim\<close>, they
  turn the run of a function into the runs of the functions it calls.
\<close>

lemma bind_SomeE:
  "Option.bind m f = Some r \<Longrightarrow> (\<And>x. m = Some x \<Longrightarrow> f x = Some r \<Longrightarrow> thesis) \<Longrightarrow> thesis"
  by (cases m) simp_all

lemma bind2_SomeE:
  "Option.bind m (\<lambda>(a, b). f a b) = Some r
     \<Longrightarrow> (\<And>a b. m = Some (a, b) \<Longrightarrow> f a b = Some r \<Longrightarrow> thesis) \<Longrightarrow> thesis"
  by (cases m) auto

lemma bind3_SomeE:
  "Option.bind m (\<lambda>(a, b, d). f a b d) = Some r
     \<Longrightarrow> (\<And>a b d. m = Some (a, b, d) \<Longrightarrow> f a b d = Some r \<Longrightarrow> thesis) \<Longrightarrow> thesis"
  by (cases m) auto

lemma if_SomeE:
  "(if b then x else y) = Some r \<Longrightarrow> (b \<Longrightarrow> x = Some r \<Longrightarrow> thesis) \<Longrightarrow> (\<not> b \<Longrightarrow> y = Some r \<Longrightarrow> thesis)
     \<Longrightarrow> thesis"
  by (cases b) simp_all

lemma pair_SomeE:
  "(case p of (a, b) \<Rightarrow> f a b) = Some r \<Longrightarrow> (\<And>a b. p = (a, b) \<Longrightarrow> f a b = Some r \<Longrightarrow> thesis) \<Longrightarrow> thesis"
  by (cases p) simp_all

lemma let_SomeE: "Let v f = Some r \<Longrightarrow> (f v = Some r \<Longrightarrow> thesis) \<Longrightarrow> thesis"
  by simp

lemma Some_SomeE: "Some x = Some y \<Longrightarrow> (x = y \<Longrightarrow> thesis) \<Longrightarrow> thesis"
  by simp

lemmas run_elims = bind3_SomeE bind2_SomeE bind_SomeE if_SomeE pair_SomeE let_SomeE Some_SomeE

end
