(* ===== verification/Mqtt_Packet.thy ===== *)
theory Mqtt_Packet
  imports Prelude
begin

text \<open>
  The MQTT 3.1.1 packet codec: \<open>mqtt/MQTTPacket.c\<close>, \<open>MQTTConnectClient.c\<close>,
  \<open>MQTTSerializePublish.c\<close>, \<open>MQTTDeserializePublish.c\<close>, \<open>MQTTSubscribeClient.c\<close> and
  \<open>MQTTUnsubscribeClient.c\<close>.

  A serializer writes through a pointer \<open>ptr\<close> that starts at \<open>buf\<close> and only moves
  forward; here it appends to the list \<open>out\<close> of the bytes written, and \<open>ptr - buf\<close> is
  its length. The result is \<open>Inl rc\<close> for an error code or \<open>Inr out\<close>, where the C
  function returns \<open>length out\<close>. A deserializer reads the object \<open>buf\<close> at a position;
  the parameter \<open>buflen\<close>, which the code never looks at, is kept. Output parameters are
  passed in with their old values, because some paths leave them as they were.
\<close>

unbundle bit_operations_syntax

type_synonym serialized = "(int + bytes) option"

abbreviation "MQTTPACKET_BUFFER_TOO_SHORT \<equiv> -2 :: int"
abbreviation "MQTTPACKET_READ_ERROR \<equiv> -1 :: int"

section \<open>Control packet types and the header byte\<close>

abbreviation "CONNECT \<equiv> 1 :: u8"
abbreviation "CONNACK \<equiv> 2 :: u8"
abbreviation "PUBLISH \<equiv> 3 :: u8"
abbreviation "PUBACK \<equiv> 4 :: u8"
abbreviation "PUBREC \<equiv> 5 :: u8"
abbreviation "PUBREL \<equiv> 6 :: u8"
abbreviation "PUBCOMP \<equiv> 7 :: u8"
abbreviation "SUBSCRIBE \<equiv> 8 :: u8"
abbreviation "SUBACK \<equiv> 9 :: u8"
abbreviation "UNSUBSCRIBE \<equiv> 10 :: u8"
abbreviation "UNSUBACK \<equiv> 11 :: u8"
abbreviation "PINGREQ \<equiv> 12 :: u8"
abbreviation "PINGRESP \<equiv> 13 :: u8"
abbreviation "DISCONNECT \<equiv> 14 :: u8"

definition MQTT_HEADER_GET_TYPE :: "u8 \<Rightarrow> u8" where
  "MQTT_HEADER_GET_TYPE head = drop_bit 4 (head AND 0xF0)"

definition MQTT_HEADER_GET_DUP :: "u8 \<Rightarrow> u8" where
  "MQTT_HEADER_GET_DUP head = drop_bit 3 (head AND 0x08)"

definition MQTT_HEADER_GET_QOS :: "u8 \<Rightarrow> u8" where
  "MQTT_HEADER_GET_QOS head = drop_bit 1 (head AND 0x06)"

definition MQTT_HEADER_GET_RETAIN :: "u8 \<Rightarrow> u8" where
  "MQTT_HEADER_GET_RETAIN head = head AND 0x01"

definition MQTT_HEADER_SET_TYPE :: "u8 \<Rightarrow> u8 \<Rightarrow> u8" where
  "MQTT_HEADER_SET_TYPE head type = head OR (push_bit 4 type AND 0xF0)"

definition MQTT_HEADER_SET_DUP :: "u8 \<Rightarrow> u8 \<Rightarrow> u8" where
  "MQTT_HEADER_SET_DUP head dup = head OR (push_bit 3 dup AND 0x08)"

definition MQTT_HEADER_SET_QOS :: "u8 \<Rightarrow> u8 \<Rightarrow> u8" where
  "MQTT_HEADER_SET_QOS head qos = head OR (push_bit 1 qos AND 0x06)"

definition MQTT_HEADER_SET_RETAIN :: "u8 \<Rightarrow> u8 \<Rightarrow> u8" where
  "MQTT_HEADER_SET_RETAIN head retain = head OR (retain AND 0x01)"

section \<open>MQTTPacket.c: the remaining length\<close>

text \<open>The \<open>do .. while (length > 0)\<close> loop, one digit per round.\<close>

function MQTTPacket_encode :: "int \<Rightarrow> bytes" where
  "MQTTPacket_encode n =
     (let d = word_of_int (c_mod n 128); n = c_div n 128
      in if n > 0 then (d OR 0x80) # MQTTPacket_encode n else [d])"
  by pat_completeness auto
termination
proof (relation "measure nat", simp)
  fix n y :: int
  assume y: "y = c_div n 128" and pos: "0 < y"
  have "0 < n"
  proof (rule ccontr)
    assume "\<not> 0 < n"
    then have "c_div n 128 \<le> 0" by (cases "n = 0") (simp_all add: c_div_neg, simp add: c_div_def)
    with y pos show False by simp
  qed
  with y show "(y, n) \<in> measure nat" by (simp add: c_div_nonneg)
qed

declare MQTTPacket_encode.simps [simp del]

text \<open>
  The decoder is parameterised by the function that delivers the next character: it takes
  the state of the source, the old character and the count, and returns how many
  characters it read, the new character and the new state.
\<close>

type_synonym 's getcharfn = "'s \<Rightarrow> u8 \<Rightarrow> int \<Rightarrow> (int \<times> u8 \<times> 's) option"

function MQTTPacket_decode_loop ::
    "'s getcharfn \<Rightarrow> 's \<Rightarrow> u8 \<Rightarrow> int \<Rightarrow> int \<Rightarrow> int \<Rightarrow> (int \<times> int \<times> 's) option" where
  "MQTTPacket_decode_loop getcharfn s c multiplier len value =
     (let len = len + 1 in
      if len > 4 then Some (len, value, s)
      else do { (rc, c, s) \<leftarrow> getcharfn s c 1;
                if rc \<noteq> 1 then Some (len, value, s)
                else let value = value + uint (c AND 127) * multiplier
                     in if c AND 128 \<noteq> 0
                        then MQTTPacket_decode_loop getcharfn s c (multiplier * 128) len value
                        else Some (len, value, s) })"
  by pat_completeness auto
termination
  by (relation "measure (\<lambda>(g, s, c, m, len, v). nat (5 - len))") auto

declare MQTTPacket_decode_loop.simps [simp del]

definition MQTTPacket_decode :: "'s getcharfn \<Rightarrow> 's \<Rightarrow> (int \<times> int \<times> 's) option" where
  "MQTTPacket_decode getcharfn s = MQTTPacket_decode_loop getcharfn s 0 1 0 0"

definition MQTTPacket_len :: "int \<Rightarrow> int" where
  "MQTTPacket_len rem_len =
     (let rem_len = rem_len + 1
      in if rem_len < 128 then rem_len + 1
         else if rem_len < 16384 then rem_len + 2
         else if rem_len < 2097151 then rem_len + 3
         else rem_len + 4)"

text \<open>\<open>bufchar\<close> reads through the static pointer \<open>bufptr\<close>: an object and a position in it.\<close>

fun bufchar_loop :: "nat \<Rightarrow> bytes \<times> nat \<Rightarrow> u8 \<Rightarrow> (u8 \<times> bytes \<times> nat) option" where
  "bufchar_loop 0 (buf, p) c = Some (c, buf, p)"
| "bufchar_loop (Suc n) (buf, p) c =
     do { b \<leftarrow> rd buf p; bufchar_loop n (buf, Suc p) b }"

definition bufchar :: "(bytes \<times> nat) getcharfn" where
  "bufchar bufptr c count =
     do { (c, bufptr) \<leftarrow> bufchar_loop (nat count) bufptr c; Some (count, c, bufptr) }"

definition MQTTPacket_decodeBuf :: "bytes \<Rightarrow> nat \<Rightarrow> (int \<times> int) option" where
  "MQTTPacket_decodeBuf buf p =
     do { (len, value, bufptr) \<leftarrow> MQTTPacket_decode bufchar (buf, p); Some (len, value) }"

section \<open>MQTTPacket.c: characters, integers and strings\<close>

definition readInt :: "bytes \<Rightarrow> nat \<Rightarrow> (int \<times> nat) option" where
  "readInt buf p = do { a \<leftarrow> rd buf p; b \<leftarrow> rd buf (p + 1); Some (256 * uint a + uint b, p + 2) }"

definition readChar :: "bytes \<Rightarrow> nat \<Rightarrow> (u8 \<times> nat) option" where
  "readChar buf p = do { c \<leftarrow> rd buf p; Some (c, p + 1) }"

definition writeChar :: "bytes \<Rightarrow> u8 \<Rightarrow> bytes" where
  "writeChar out c = out @ [c]"

definition writeInt :: "bytes \<Rightarrow> int \<Rightarrow> bytes" where
  "writeInt out anInt = out @ [word_of_int (c_div anInt 256), word_of_int (c_mod anInt 256)]"

definition writeCString :: "bytes \<Rightarrow> bytes \<Rightarrow> bytes" where
  "writeCString out string =
     (let len = c_strlen string in writeInt out (int len) @ take len string)"

definition getLenStringLen :: "bytes \<Rightarrow> int option" where
  "getLenStringLen p = do { a \<leftarrow> rd p 0; b \<leftarrow> rd p 1; Some (256 * uint a + uint b) }"

text \<open>
  A string of the API: a C string or a pointer with a length. A pointer is the object
  from the place it points to onward, NULL is \<open>None\<close>.
\<close>

record MQTTLenString =
  ls_len :: int
  ls_data :: "bytes option"

record MQTTString =
  cstring :: "bytes option"
  lenstring :: MQTTLenString

definition MQTTString_initializer :: MQTTString where
  "MQTTString_initializer = \<lparr>cstring = None, lenstring = \<lparr>ls_len = 0, ls_data = None\<rparr>\<rparr>"

definition writeMQTTString :: "bytes \<Rightarrow> MQTTString \<Rightarrow> bytes option" where
  "writeMQTTString out mqttstring =
     (if ls_len (lenstring mqttstring) > 0
      then do { d \<leftarrow> ls_data (lenstring mqttstring);
                body \<leftarrow> mem_slice d 0 (nat (ls_len (lenstring mqttstring)));
                Some (writeInt out (ls_len (lenstring mqttstring)) @ body) }
      else case cstring mqttstring of
             Some s \<Rightarrow> Some (writeCString out s)
           | None \<Rightarrow> Some (writeInt out 0))"

text \<open>\<open>enddata\<close> is a position too; it may lie outside the object.\<close>

definition readMQTTLenString ::
    "MQTTString \<Rightarrow> bytes \<Rightarrow> nat \<Rightarrow> int \<Rightarrow> (int \<times> MQTTString \<times> nat) option" where
  "readMQTTLenString mqttstring buf p enddata =
     (if enddata - int p > 1
      then do { (len, p) \<leftarrow> readInt buf p;
                let s = mqttstring\<lparr>cstring := None,
                                   lenstring := (lenstring mqttstring)\<lparr>ls_len := len\<rparr>\<rparr>
                in if int p + len \<le> enddata
                   then Some (1, s\<lparr>lenstring := (lenstring s)\<lparr>ls_data := Some (drop p buf)\<rparr>\<rparr>,
                              p + nat len)
                   else Some (0, s, p) }
      else Some (0, mqttstring\<lparr>cstring := None\<rparr>, p))"

definition MQTTstrlen :: "MQTTString \<Rightarrow> int" where
  "MQTTstrlen mqttstring =
     (case cstring mqttstring of
        Some s \<Rightarrow> int (c_strlen s)
      | None \<Rightarrow> ls_len (lenstring mqttstring))"

text \<open>\<open>memcmp\<close> is evaluated only when the lengths agree, and reads that many bytes of both.\<close>

definition MQTTPacket_equals :: "MQTTString \<Rightarrow> bytes \<Rightarrow> bool option" where
  "MQTTPacket_equals a bptr =
     (let (aptr, alen) =
        (case cstring a of
           Some s \<Rightarrow> (Some (c_str s), int (c_strlen s))
         | None \<Rightarrow> (ls_data (lenstring a), ls_len (lenstring a)))
      in if alen = int (c_strlen bptr)
         then do { d \<leftarrow> aptr; x \<leftarrow> mem_slice d 0 (nat alen); Some (x = c_str bptr) }
         else Some False)"

section \<open>The digits of the remaining length\<close>

lemma and_127_take_bit: "b AND 127 = take_bit 7 (b :: u8)"
  by (simp add: take_bit_eq_mask mask_eq_exp_minus_1)

lemma digit_value: "0 \<le> k \<Longrightarrow> k < 128 \<Longrightarrow> uint (word_of_int k AND 127 :: u8) = k"
  unfolding and_127_take_bit
  by (simp add: take_bit_eq_mod uint_mod uint_of_int_u8)

lemma last_digit_flag: "0 \<le> k \<Longrightarrow> k < 128 \<Longrightarrow> (word_of_int k AND 128 :: u8) = 0"
proof -
  assume k: "0 \<le> k" "k < 128"
  have "word_of_int k = take_bit 7 (word_of_int k :: u8)"
    using k by (intro word_uint_eqI) (simp add: take_bit_eq_mod uint_mod uint_of_int_u8)
  then have "(word_of_int k AND 128 :: u8) = (word_of_int k AND 127) AND 128"
    by (simp add: and_127_take_bit)
  then show ?thesis by (simp add: and.assoc)
qed

lemma more_digit_value: "(d OR 128) AND 127 = (d AND 127 :: u8)"
  by (simp add: bit.conj_disj_distrib2)

lemma more_digit_flag: "(d OR 128 :: u8) AND 128 \<noteq> 0"
proof -
  have "bit ((d OR 128 :: u8) AND 128) 7" by (simp add: bit_and_iff bit_or_iff)
  then show ?thesis by (metis bit_0_eq bot_apply bot_bool_def)
qed

lemma encode_last: "0 \<le> n \<Longrightarrow> n < 128 \<Longrightarrow> MQTTPacket_encode n = [word_of_int n]"
  by (subst MQTTPacket_encode.simps) (simp add: c_arith)

lemma encode_more:
  "128 \<le> n \<Longrightarrow>
    MQTTPacket_encode n = (word_of_int (n mod 128) OR 128) # MQTTPacket_encode (n div 128)"
  by (subst MQTTPacket_encode.simps) (simp add: c_arith pos_imp_zdiv_pos_iff)

lemmas encode_unfold = encode_last encode_more

lemma encode_length_cases:
  assumes "0 \<le> n" and "n < 268435456"
  shows "length (MQTTPacket_encode n)
           = (if n < 128 then 1 else if n < 16384 then 2 else if n < 2097152 then 3 else 4)"
proof -
  have d: "n div 128 div 128 = n div 16384" "n div 128 div 128 div 128 = n div 2097152"
    by (simp_all add: zdiv_zmult2_eq [symmetric])
  consider "n < 128" | "128 \<le> n" "n < 16384" | "16384 \<le> n" "n < 2097152"
    | "2097152 \<le> n" using assms by linarith
  then show ?thesis
  proof cases
    case 1
    with assms show ?thesis by (simp add: encode_last)
  next
    case 2
    then have "n div 128 < 128" by simp
    with 2 show ?thesis by (simp add: encode_unfold)
  next
    case 3
    then have "128 \<le> n div 128" "n div 128 div 128 < 128" by (simp_all add: d)
    with 3 show ?thesis by (simp add: encode_unfold)
  next
    case 4
    then have "128 \<le> n div 128" "128 \<le> n div 128 div 128" "n div 128 div 128 div 128 < 128"
      using assms by (simp_all add: d)
    with 4 show ?thesis by (simp add: encode_unfold)
  qed
qed

lemma encode_nonempty: "MQTTPacket_encode n \<noteq> []"
  by (subst MQTTPacket_encode.simps) (simp add: Let_def)

lemma MQTTPacket_len_covers:
  assumes "0 \<le> n" and "n < 268435456"
  shows "1 + int (length (MQTTPacket_encode n)) + n \<le> MQTTPacket_len n"
  using encode_length_cases [OF assms] by (simp add: MQTTPacket_len_def Let_def)

section \<open>The source of characters as an interface\<close>

text \<open>
  The decoder relies on one law of the function it calls: as long as bytes are available,
  asking for one character delivers the first and leaves the others.
\<close>

locale byte_source =
  fixes getc :: "'s getcharfn"
    and avail :: "'s \<Rightarrow> bytes"
  assumes getc_next: "avail s = b # bs \<Longrightarrow> \<exists>s'. getc s c 1 = Some (1, b, s') \<and> avail s' = bs"
begin

lemma decode_loop_encode:
  "\<lbrakk> avail s = MQTTPacket_encode n @ rest; 0 \<le> n; 0 \<le> len;
     len + int (length (MQTTPacket_encode n)) \<le> 4 \<rbrakk> \<Longrightarrow>
   \<exists>s'. MQTTPacket_decode_loop getc s c multiplier len v
          = Some (len + int (length (MQTTPacket_encode n)), v + n * multiplier, s')
        \<and> avail s' = rest"
proof (induction n arbitrary: s c multiplier len v rule: MQTTPacket_encode.induct)
  case (1 n)
  show ?case
  proof (cases "n < 128")
    case True
    then have enc: "MQTTPacket_encode n = [word_of_int n]" using 1 by (simp add: encode_last)
    with 1 obtain s' where "getc s c 1 = Some (1, word_of_int n, s')" "avail s' = rest"
      using getc_next [of s "word_of_int n" rest c] by auto
    with 1 True enc show ?thesis
      by (subst MQTTPacket_decode_loop.simps)
        (simp add: digit_value last_digit_flag)
  next
    case False
    let ?d = "word_of_int (n mod 128) OR 128 :: u8"
    have enc: "MQTTPacket_encode n = ?d # MQTTPacket_encode (n div 128)"
      using False by (simp add: encode_more)
    with 1 obtain s1 where s1: "getc s c 1 = Some (1, ?d, s1)"
      "avail s1 = MQTTPacket_encode (n div 128) @ rest"
      using getc_next [of s ?d "MQTTPacket_encode (n div 128) @ rest" c] by auto
    have val: "uint (?d AND 127) = n mod 128"
      using False by (simp add: more_digit_value digit_value)
    have "\<exists>s'. MQTTPacket_decode_loop getc s1 ?d (multiplier * 128) (len + 1)
                 (v + n mod 128 * multiplier)
            = Some (len + 1 + int (length (MQTTPacket_encode (n div 128))),
                    v + n mod 128 * multiplier + n div 128 * (multiplier * 128), s')
          \<and> avail s' = rest"
      using 1 False enc s1(2) by (intro "1.IH") (simp_all add: c_arith pos_imp_zdiv_pos_iff)
    moreover have "n mod 128 * multiplier + n div 128 * (multiplier * 128) = n * multiplier"
    proof -
      have "n mod 128 * multiplier + n div 128 * (multiplier * 128)
              = (128 * (n div 128) + n mod 128) * multiplier"
        by (simp only: algebra_simps)
      then show ?thesis by simp
    qed
    ultimately show ?thesis
      using 1 enc s1(1) val more_digit_flag [of "word_of_int (n mod 128)"]
      by (subst MQTTPacket_decode_loop.simps) (simp add: ac_simps)
  qed
qed

lemma decode_encode:
  assumes "avail s = MQTTPacket_encode n @ rest" and "0 \<le> n" and "n < 268435456"
  shows "\<exists>s'. MQTTPacket_decode getc s = Some (int (length (MQTTPacket_encode n)), n, s')
              \<and> avail s' = rest"
proof -
  have "length (MQTTPacket_encode n) \<le> 4" using encode_length_cases assms by simp
  with decode_loop_encode [of s n rest 0 0 1 0] assms show ?thesis
    by (simp add: MQTTPacket_decode_def)
qed

end

interpretation bufsrc: byte_source bufchar "\<lambda>(buf, p). drop p buf"
proof unfold_locales
  fix s :: "bytes \<times> nat" and b bs c
  assume "(\<lambda>(buf, p). drop p buf) s = b # bs"
  then show "\<exists>s'. bufchar s c 1 = Some (1, b, s') \<and> (\<lambda>(buf, p). drop p buf) s' = bs"
    by (cases s) (auto simp: bufchar_def numeral_eq_Suc dest!: rd_drop)
qed

section \<open>Reading at a cursor\<close>

text \<open>
  The reading primitives at a position of a larger object: what stands there determines
  the result, and the rest stands at the new position.
\<close>

lemma readChar_at [wire]:
  "drop p buf = c # rest \<Longrightarrow> readChar buf p = Some (c, p + 1) \<and> drop (p + 1) buf = rest"
  using rd_drop [of p buf c rest] by (simp add: readChar_def)

lemma uint_div_256: "0 \<le> n \<Longrightarrow> n < 65536 \<Longrightarrow> uint (word_of_int (n div 256) :: u8) = n div 256"
  by (intro uint_of_int_u8) (auto simp: pos_imp_zdiv_nonneg_iff)

lemma uint_mod_256: "uint (word_of_int (n mod 256) :: u8) = n mod 256"
  by (simp add: uint_of_int_u8)

lemma readInt_at [wire]:
  assumes "drop p buf = writeInt [] n @ rest" and "0 \<le> n" and "n < 65536"
  shows "readInt buf p = Some (n, p + 2) \<and> drop (p + 2) buf = rest"
proof -
  let ?h = "word_of_int (n div 256) :: u8" and ?l = "word_of_int (n mod 256) :: u8"
  have two: "drop p buf = ?h # ?l # rest"
    using assms by (simp add: writeInt_def c_arith)
  then have "rd buf p = Some ?h" and d: "drop (Suc p) buf = ?l # rest"
    using rd_drop by blast+
  moreover have "rd buf (Suc p) = Some ?l" and "drop (Suc (Suc p)) buf = rest"
    using rd_drop [OF d] by auto
  moreover have "256 * (n div 256) + n mod 256 = n" by simp
  ultimately show ?thesis
    using assms by (simp add: readInt_def uint_div_256 uint_mod_256)
qed

lemma decodeBuf_at [wire]:
  assumes "drop p buf = MQTTPacket_encode n @ rest" and "0 \<le> n" and "n < 268435456"
  shows "MQTTPacket_decodeBuf buf p = Some (int (length (MQTTPacket_encode n)), n)
       \<and> drop (p + length (MQTTPacket_encode n)) buf = rest"
proof -
  have "\<exists>s'. MQTTPacket_decode bufchar (buf, p)
          = Some (int (length (MQTTPacket_encode n)), n, s') \<and> (\<lambda>(buf, p). drop p buf) s' = rest"
    using assms by (intro bufsrc.decode_encode) simp_all
  then have "MQTTPacket_decodeBuf buf p = Some (int (length (MQTTPacket_encode n)), n)"
    by (auto simp: MQTTPacket_decodeBuf_def)
  moreover have "drop (p + length (MQTTPacket_encode n)) buf = rest"
  proof -
    have "drop (length (MQTTPacket_encode n)) (drop p buf) = rest" using assms(1) by simp
    then show ?thesis by (simp add: add.commute)
  qed
  ultimately show ?thesis by simp
qed

lemma writeCString_plain:
  "is_c_str s \<Longrightarrow> writeCString out s = out @ writeInt [] (int (length s)) @ s"
  by (simp add: writeCString_def writeInt_def Let_def)

lemma length_writeInt [simp]: "length (writeInt out n) = length out + 2"
  by (simp add: writeInt_def)

lemma readMQTTLenString_at [wire]:
  assumes "drop p buf = writeInt [] (int (length s)) @ s @ rest"
    and "length s < 65536" and "int p + 2 + int (length s) \<le> enddata"
  shows "readMQTTLenString s0 buf p enddata
           = Some (1, \<lparr>cstring = None, lenstring = \<lparr>ls_len = int (length s), ls_data = Some (s @ rest)\<rparr>\<rparr>,
                   p + 2 + length s)
       \<and> drop (p + 2 + length s) buf = rest"
proof -
  have ri: "readInt buf p = Some (int (length s), p + 2)" "drop (p + 2) buf = s @ rest"
    using readInt_at [OF assms(1)] assms(2) by simp_all
  have tail: "drop (p + 2 + length s) buf = rest"
    using ri(2) by (metis add.commute append_eq_conv_conj drop_drop)
  show ?thesis
    using ri assms tail
    by (cases s0, cases "lenstring s0")
      (simp add: readMQTTLenString_def add.commute add.left_commute)
qed

text \<open>The formats as wire codecs: remaining length, 16-bit integer, counted string.\<close>

interpretation rem_len: wire_codec MQTTPacket_encode
  "\<lambda>bs. map_option (\<lambda>(len, v). (v, nat len)) (MQTTPacket_decodeBuf bs 0)"
  "\<lambda>n. 0 \<le> n \<and> n < 268435456"
  by unfold_locales (simp add: decodeBuf_at)

interpretation int16: wire_codec "writeInt []" "\<lambda>bs. readInt bs 0" "\<lambda>n. 0 \<le> n \<and> n < 65536"
  by unfold_locales (simp add: readInt_at)

definition read_counted :: "bytes \<Rightarrow> (bytes \<times> nat) option" where
  "read_counted bs =
     do { (rc, s, p) \<leftarrow> readMQTTLenString MQTTString_initializer bs 0 (int (length bs));
          d \<leftarrow> ls_data (lenstring s);
          x \<leftarrow> mem_slice d 0 (nat (ls_len (lenstring s)));
          if rc = 1 then Some (x, p) else None }"

interpretation counted: wire_codec "writeCString []" read_counted
  "\<lambda>s. is_c_str s \<and> length s < 65536"
proof unfold_locales
  fix s rest :: bytes
  let ?b = "writeCString [] s @ rest"
  assume s: "is_c_str s \<and> length s < 65536"
  then have "readMQTTLenString MQTTString_initializer ?b 0 (int (length ?b))
     = Some (1, \<lparr>cstring = None, lenstring = \<lparr>ls_len = int (length s), ls_data = Some (s @ rest)\<rparr>\<rparr>,
             0 + 2 + length s)"
    using readMQTTLenString_at [of 0 ?b s rest "int (length ?b)" MQTTString_initializer]
    by (simp add: writeCString_plain)
  with s show "read_counted (writeCString [] s @ rest) = Some (s, length (writeCString [] s))"
    by (simp add: read_counted_def mem_slice_prefix writeCString_plain)
qed

text \<open>
  Property C40: \<open>MQTTPacket_decodeBuf\<close> reads back every remaining length MQTT can
  express (up to 268435455) wherever it stands in a buffer and whatever follows, from
  the one to four bytes \<open>MQTTPacket_encode\<close> wrote, and reports that many bytes.
\<close>

theorem remaining_length_round_trip:
  assumes "0 \<le> n" and "n < 268435456"
  shows "MQTTPacket_decodeBuf (pre @ MQTTPacket_encode n @ rest) (length pre)
           = Some (int (length (MQTTPacket_encode n)), n)
       \<and> length (MQTTPacket_encode n) \<in> {1..4}"
  using decodeBuf_at [of "length pre" "pre @ MQTTPacket_encode n @ rest" n rest]
    encode_length_cases [OF assms] assms by simp

theorem remaining_length_round_trip_witness:
  "MQTTPacket_decodeBuf ([7] @ MQTTPacket_encode 321 @ [9]) 1
     = Some (int (length (MQTTPacket_encode 321)), 321)
   \<and> MQTTPacket_encode 321 = [193, 2]"
  using remaining_length_round_trip [of 321 "[7]" "[9]"]
  by (simp add: encode_unfold)

text \<open>
  A sequence of counted strings (the topic filters of a SUBSCRIBE, the fields
  of a CONNECT) can be read in one way only: two sequences of C strings of less than 64 KiB
  each with the same encoding are equal.
\<close>

lemma counted_strings_unambiguous:
  assumes "\<forall>s \<in> set xs. is_c_str s \<and> length s < 65536"
    and "\<forall>s \<in> set ys. is_c_str s \<and> length s < 65536"
    and "length xs = length ys"
    and "concat (map (writeCString []) xs) = concat (map (writeCString []) ys)"
  shows "xs = ys"
  using assms by (rule counted.sequence_unambiguous)

end
