(* ===== verification/Mqtt_Codec.thy ===== *)
theory Mqtt_Codec
  imports Mqtt_Packet
begin

text \<open>
  The packets: \<open>MQTTConnectClient.c\<close> (CONNECT, CONNACK, PINGREQ, DISCONNECT),
  \<open>MQTTSerializePublish.c\<close> and \<open>MQTTDeserializePublish.c\<close> (PUBLISH and the
  acknowledgements), \<open>MQTTSubscribeClient.c\<close> and \<open>MQTTUnsubscribeClient.c\<close>. The lemmas
  show that a serializer never writes past \<open>buflen\<close>, that publishes and acknowledgements
  read back as they were written, which object accesses the deserializers make, and the
  malformed packets they report as good ones.
\<close>

unbundle bit_operations_syntax

section \<open>MQTTConnectClient.c\<close>

abbreviation "MQTT_CONN_FLAG_USER_NAME \<equiv> 0x80 :: u8"
abbreviation "MQTT_CONN_FLAG_PASSWORD \<equiv> 0x40 :: u8"
abbreviation "MQTT_CONN_FLAG_WILL_RETAIN \<equiv> 0x20 :: u8"
abbreviation "MQTT_CONN_FLAG_WILL_FLAG \<equiv> 0x04 :: u8"
abbreviation "MQTT_CONN_FLAG_CLEAN_SESSION \<equiv> 0x02 :: u8"

record MQTTPacket_willOptions =
  wo_topicName :: MQTTString
  wo_message :: MQTTString
  wo_retained :: u8
  wo_qos :: u8

record MQTTPacket_connectData =
  MQTTVersion :: u8
  clientID :: MQTTString
  keepAliveInterval :: u16
  cleansession :: u8
  willFlag :: u8
  will :: MQTTPacket_willOptions
  username :: MQTTString
  password :: MQTTString

text \<open>\<open>s.cstring || s.lenstring.data\<close>.\<close>

definition has_string :: "MQTTString \<Rightarrow> bool" where
  "has_string s \<longleftrightarrow> cstring s \<noteq> None \<or> ls_data (lenstring s) \<noteq> None"

definition MQTTSerialize_connectLength :: "MQTTPacket_connectData \<Rightarrow> int" where
  "MQTTSerialize_connectLength options =
     (let len = (if MQTTVersion options = 3 then 12 else if MQTTVersion options = 4 then 10 else 0);
          len = len + (MQTTstrlen (clientID options) + 2);
          len = (if willFlag options \<noteq> 0
                 then len + (MQTTstrlen (wo_topicName (will options)) + 2
                             + MQTTstrlen (wo_message (will options)) + 2)
                 else len);
          len = (if has_string (username options)
                 then len + (MQTTstrlen (username options) + 2) else len);
          len = (if has_string (password options)
                 then len + (MQTTstrlen (password options) + 2) else len)
      in len)"

definition connect_flags :: "MQTTPacket_connectData \<Rightarrow> u8" where
  "connect_flags options =
     (let all = (if cleansession options \<noteq> 0 then MQTT_CONN_FLAG_CLEAN_SESSION else 0);
          all = all OR (if willFlag options \<noteq> 0 then MQTT_CONN_FLAG_WILL_FLAG else 0);
          all = (if all AND MQTT_CONN_FLAG_WILL_FLAG \<noteq> 0
                 then (all OR push_bit 3 (wo_qos (will options) AND 0x03))
                      OR (if wo_retained (will options) \<noteq> 0 then MQTT_CONN_FLAG_WILL_RETAIN else 0)
                 else all);
          all = (if has_string (username options) then all OR MQTT_CONN_FLAG_USER_NAME else all);
          all = (if has_string (password options) then all OR MQTT_CONN_FLAG_PASSWORD else all)
      in all)"

definition MQTTSerialize_connect :: "int \<Rightarrow> MQTTPacket_connectData \<Rightarrow> serialized" where
  "MQTTSerialize_connect buflen options =
     (let len = MQTTSerialize_connectLength options in
      if MQTTPacket_len len > buflen then Some (Inl MQTTPACKET_BUFFER_TOO_SHORT)
      else
        let out = writeChar [] (MQTT_HEADER_SET_TYPE 0 CONNECT);
            out = out @ MQTTPacket_encode len;
            out = (if MQTTVersion options = 4
                   then writeChar (writeCString out (ascii ''MQTT'')) 4
                   else writeChar (writeCString out (ascii ''MQIsdp'')) 3);
            flags = connect_flags options;
            out = writeChar out flags;
            out = writeInt out (uint (keepAliveInterval options))
        in do {
          out \<leftarrow> writeMQTTString out (clientID options);
          out \<leftarrow> (if willFlag options \<noteq> 0
                 then do { out \<leftarrow> writeMQTTString out (wo_topicName (will options));
                           writeMQTTString out (wo_message (will options)) }
                 else Some out);
          out \<leftarrow> (if flags AND MQTT_CONN_FLAG_USER_NAME \<noteq> 0
                 then writeMQTTString out (username options) else Some out);
          out \<leftarrow> (if flags AND MQTT_CONN_FLAG_PASSWORD \<noteq> 0
                 then writeMQTTString out (password options) else Some out);
          Some (Inr out) })"

text \<open>
  The flags byte is read through a bit-field declared as seven unused bits followed by
  \<open>sessionpresent\<close>; the little-endian target allocates bit-fields from the lowest bit, so
  the flag is bit 7.
\<close>

definition connack_sessionpresent :: "u8 \<Rightarrow> u8" where
  "connack_sessionpresent all = drop_bit 7 all AND 1"

definition MQTTDeserialize_connack ::
    "u8 \<Rightarrow> u8 \<Rightarrow> bytes \<Rightarrow> int \<Rightarrow> (int \<times> u8 \<times> u8) option" where
  "MQTTDeserialize_connack sessionPresent connack_rc buf buflen =
     do { (header, p) \<leftarrow> readChar buf 0;
          if MQTT_HEADER_GET_TYPE header \<noteq> CONNACK then Some (0, sessionPresent, connack_rc)
          else do {
            (rc, mylen) \<leftarrow> MQTTPacket_decodeBuf buf p;
            let curdata = p + nat rc; enddata = int curdata + mylen
            in if enddata - int curdata < 2 then Some (rc, sessionPresent, connack_rc)
               else do { (flags, curdata) \<leftarrow> readChar buf curdata;
                         (crc, curdata) \<leftarrow> readChar buf curdata;
                         Some (1, connack_sessionpresent flags, crc) } } }"

definition MQTTSerialize_zero :: "int \<Rightarrow> u8 \<Rightarrow> serialized" where
  "MQTTSerialize_zero buflen packettype =
     (if buflen < 2 then Some (Inl MQTTPACKET_BUFFER_TOO_SHORT)
      else Some (Inr (writeChar [] (MQTT_HEADER_SET_TYPE 0 packettype) @ MQTTPacket_encode 0)))"

definition MQTTSerialize_disconnect :: "int \<Rightarrow> serialized" where
  "MQTTSerialize_disconnect buflen = MQTTSerialize_zero buflen DISCONNECT"

definition MQTTSerialize_pingreq :: "int \<Rightarrow> serialized" where
  "MQTTSerialize_pingreq buflen = MQTTSerialize_zero buflen PINGREQ"

section \<open>MQTTSerializePublish.c\<close>

definition MQTTSerialize_publishLength :: "int \<Rightarrow> MQTTString \<Rightarrow> int \<Rightarrow> int" where
  "MQTTSerialize_publishLength qos topicName payloadlen =
     (let len = 2 + MQTTstrlen topicName + payloadlen
      in if qos > 0 then len + 2 else len)"

definition MQTTSerialize_publish ::
    "int \<Rightarrow> u8 \<Rightarrow> int \<Rightarrow> u8 \<Rightarrow> u16 \<Rightarrow> MQTTString \<Rightarrow> bytes \<Rightarrow> int \<Rightarrow> serialized" where
  "MQTTSerialize_publish buflen dup qos retained packetid topicName payload payloadlen =
     (let rem_len = MQTTSerialize_publishLength qos topicName payloadlen in
      if MQTTPacket_len rem_len > buflen then Some (Inl MQTTPACKET_BUFFER_TOO_SHORT)
      else
        let header = MQTT_HEADER_SET_TYPE 0 PUBLISH;
            header = MQTT_HEADER_SET_DUP header dup;
            header = MQTT_HEADER_SET_QOS header (word_of_int qos);
            header = MQTT_HEADER_SET_RETAIN header retained;
            out = writeChar [] header;
            out = out @ MQTTPacket_encode rem_len
        in do {
          out \<leftarrow> writeMQTTString out topicName;
          body \<leftarrow> (if payloadlen < 0 then None else mem_slice payload 0 (nat payloadlen));
          let out = (if qos > 0 then writeInt out (uint packetid) else out)
          in Some (Inr (out @ body)) })"

definition MQTTSerialize_ack :: "int \<Rightarrow> u8 \<Rightarrow> u8 \<Rightarrow> u16 \<Rightarrow> serialized" where
  "MQTTSerialize_ack buflen packettype dup packetid =
     (if buflen < 4 then Some (Inl MQTTPACKET_BUFFER_TOO_SHORT)
      else
        let header = MQTT_HEADER_SET_TYPE 0 packettype;
            header = MQTT_HEADER_SET_DUP header dup;
            header = MQTT_HEADER_SET_QOS header (if packettype = PUBREL then 1 else 0);
            out = writeChar [] header;
            out = out @ MQTTPacket_encode 2
        in Some (Inr (writeInt out (uint packetid))))"

section \<open>MQTTDeserializePublish.c\<close>

record publish_fields =
  pf_dup :: u8
  pf_qos :: int
  pf_retained :: u8
  pf_packetid :: u16
  pf_topicName :: MQTTString
  pf_payload :: "bytes option"
  pf_payloadlen :: int

definition MQTTDeserialize_publish ::
    "publish_fields \<Rightarrow> bytes \<Rightarrow> int \<Rightarrow> (int \<times> publish_fields) option" where
  "MQTTDeserialize_publish f buf buflen =
     do { (header, p) \<leftarrow> readChar buf 0;
          if MQTT_HEADER_GET_TYPE header \<noteq> PUBLISH then Some (0, f)
          else
            let f = f\<lparr>pf_dup := MQTT_HEADER_GET_DUP header,
                      pf_qos := uint (MQTT_HEADER_GET_QOS header),
                      pf_retained := MQTT_HEADER_GET_RETAIN header\<rparr>
            in do {
              (rc, mylen) \<leftarrow> MQTTPacket_decodeBuf buf p;
              let curdata = p + nat rc; enddata = int curdata + mylen
              in do {
                (ok, topic, curdata) \<leftarrow> readMQTTLenString (pf_topicName f) buf curdata enddata;
                let f = f\<lparr>pf_topicName := topic\<rparr>
                in if ok = 0 \<or> enddata - int curdata < 0 then Some (rc, f)
                   else do {
                     (f, curdata) \<leftarrow>
                       (if pf_qos f > 0
                        then do { (n, curdata) \<leftarrow> readInt buf curdata;
                                  Some (f\<lparr>pf_packetid := word_of_int n\<rparr>, curdata) }
                        else Some (f, curdata));
                     Some (1, f\<lparr>pf_payloadlen := enddata - int curdata,
                                pf_payload := Some (drop curdata buf)\<rparr>) } } } }"

text \<open>The packet identifier is \<open>None\<close> as long as nothing was stored in it.\<close>

definition MQTTDeserialize_ack ::
    "u16 option \<Rightarrow> bytes \<Rightarrow> int \<Rightarrow> (int \<times> u8 \<times> u8 \<times> u16 option) option" where
  "MQTTDeserialize_ack packetid buf buflen =
     do { (header, p) \<leftarrow> readChar buf 0;
          let dup = MQTT_HEADER_GET_DUP header; packettype = MQTT_HEADER_GET_TYPE header
          in do {
            (rc, mylen) \<leftarrow> MQTTPacket_decodeBuf buf p;
            let curdata = p + nat rc; enddata = int curdata + mylen
            in if enddata - int curdata < 2 then Some (rc, packettype, dup, packetid)
               else do { (n, curdata) \<leftarrow> readInt buf curdata;
                         Some (1, packettype, dup, Some (word_of_int n)) } } }"

section \<open>MQTTSubscribeClient.c\<close>

text \<open>\<open>for (i = 0; i < count; ++i)\<close> over the array of filters.\<close>

definition MQTTSerialize_subscribeLength :: "MQTTString list \<Rightarrow> int" where
  "MQTTSerialize_subscribeLength topicFilters =
     fold (\<lambda>s len. len + (2 + MQTTstrlen s + 1)) topicFilters 2"

fun write_filters_qos :: "bytes \<Rightarrow> (MQTTString \<times> int) list \<Rightarrow> bytes option" where
  "write_filters_qos out [] = Some out"
| "write_filters_qos out ((s, q) # rest) =
     do { out \<leftarrow> writeMQTTString out s;
          write_filters_qos (writeChar out (word_of_int q)) rest }"

definition MQTTSerialize_subscribe ::
    "int \<Rightarrow> u8 \<Rightarrow> u16 \<Rightarrow> (MQTTString \<times> int) list \<Rightarrow> serialized" where
  "MQTTSerialize_subscribe buflen dup packetid filters =
     (let rem_len = MQTTSerialize_subscribeLength (map fst filters) in
      if MQTTPacket_len rem_len > buflen then Some (Inl MQTTPACKET_BUFFER_TOO_SHORT)
      else
        let header = MQTT_HEADER_SET_TYPE 0 SUBSCRIBE;
            header = MQTT_HEADER_SET_DUP header dup;
            header = MQTT_HEADER_SET_QOS header 1;
            out = writeChar [] header;
            out = out @ MQTTPacket_encode rem_len;
            out = writeInt out (uint packetid)
        in do { out \<leftarrow> write_filters_qos out filters; Some (Inr out) })"

text \<open>The \<open>while (curdata < enddata)\<close> loop; \<open>n\<close> is what is left of it.\<close>

fun suback_loop :: "bytes \<Rightarrow> nat \<Rightarrow> nat \<Rightarrow> int \<Rightarrow> int list \<Rightarrow> (int \<times> int list) option" where
  "suback_loop buf curdata 0 maxcount granted = Some (1, granted)"
| "suback_loop buf curdata (Suc n) maxcount granted =
     (if int (length granted) \<ge> maxcount then Some (-1, granted)
      else do { (c, curdata) \<leftarrow> readChar buf curdata;
                suback_loop buf curdata n maxcount (granted @ [uint c]) })"

text \<open>The result: return code, packet identifier, and the granted QoS values (\<open>count\<close> of them).\<close>

definition MQTTDeserialize_suback ::
    "u16 option \<Rightarrow> int \<Rightarrow> bytes \<Rightarrow> int \<Rightarrow> (int \<times> u16 option \<times> int list) option" where
  "MQTTDeserialize_suback packetid maxcount buf buflen =
     do { (header, p) \<leftarrow> readChar buf 0;
          if MQTT_HEADER_GET_TYPE header \<noteq> SUBACK then Some (0, packetid, [])
          else do {
            (rc, mylen) \<leftarrow> MQTTPacket_decodeBuf buf p;
            let curdata = p + nat rc; enddata = int curdata + mylen
            in if enddata - int curdata < 2 then Some (rc, packetid, [])
               else do {
                 (n, curdata) \<leftarrow> readInt buf curdata;
                 (rc, granted) \<leftarrow> suback_loop buf curdata (nat (enddata - int curdata)) maxcount [];
                 Some (rc, Some (word_of_int n), granted) } } }"

section \<open>MQTTUnsubscribeClient.c\<close>

definition MQTTSerialize_unsubscribeLength :: "MQTTString list \<Rightarrow> int" where
  "MQTTSerialize_unsubscribeLength topicFilters =
     fold (\<lambda>s len. len + (2 + MQTTstrlen s)) topicFilters 2"

fun write_filters :: "bytes \<Rightarrow> MQTTString list \<Rightarrow> bytes option" where
  "write_filters out [] = Some out"
| "write_filters out (s # rest) = do { out \<leftarrow> writeMQTTString out s; write_filters out rest }"

definition MQTTSerialize_unsubscribe ::
    "int \<Rightarrow> u8 \<Rightarrow> u16 \<Rightarrow> MQTTString list \<Rightarrow> serialized" where
  "MQTTSerialize_unsubscribe buflen dup packetid topicFilters =
     (let rem_len = MQTTSerialize_unsubscribeLength topicFilters in
      if MQTTPacket_len rem_len > buflen then Some (Inl MQTTPACKET_BUFFER_TOO_SHORT)
      else
        let header = MQTT_HEADER_SET_TYPE 0 UNSUBSCRIBE;
            header = MQTT_HEADER_SET_DUP header dup;
            header = MQTT_HEADER_SET_QOS header 1;
            out = writeChar [] header;
            out = out @ MQTTPacket_encode rem_len;
            out = writeInt out (uint packetid)
        in do { out \<leftarrow> write_filters out topicFilters; Some (Inr out) })"

definition MQTTDeserialize_unsuback :: "u16 option \<Rightarrow> bytes \<Rightarrow> int \<Rightarrow> (int \<times> u16 option) option" where
  "MQTTDeserialize_unsuback packetid buf buflen =
     do { (rc, type, dup, packetid) \<leftarrow> MQTTDeserialize_ack packetid buf buflen;
          Some (if type = UNSUBACK then 1 else rc, packetid) }"

section \<open>The fixed header\<close>

lemma u8_eq_bits:
  "(a :: u8) = b \<longleftrightarrow>
     (bit a 0 = bit b 0 \<and> bit a 1 = bit b 1 \<and> bit a 2 = bit b 2 \<and> bit a 3 = bit b 3 \<and>
      bit a 4 = bit b 4 \<and> bit a 5 = bit b 5 \<and> bit a 6 = bit b 6 \<and> bit a 7 = bit b 7)"
  (is "_ \<longleftrightarrow> ?bits")
proof
  assume bits: ?bits
  show "a = b"
  proof (rule bit_word_eqI)
    fix n assume "n < LENGTH(8)"
    then have "n \<in> {0,1,2,3,4,5,6,7}" by auto
    with bits show "bit a n = bit b n" by auto
  qed
qed simp

definition fixed_header :: "u8 \<Rightarrow> u8 \<Rightarrow> u8 \<Rightarrow> u8 \<Rightarrow> u8" where
  "fixed_header type dup qos retained =
     MQTT_HEADER_SET_RETAIN (MQTT_HEADER_SET_QOS (MQTT_HEADER_SET_DUP
       (MQTT_HEADER_SET_TYPE 0 type) dup) qos) retained"

lemmas header_ops = MQTT_HEADER_SET_RETAIN_def MQTT_HEADER_SET_QOS_def MQTT_HEADER_SET_DUP_def
  MQTT_HEADER_SET_TYPE_def MQTT_HEADER_GET_RETAIN_def MQTT_HEADER_GET_QOS_def
  MQTT_HEADER_GET_DUP_def MQTT_HEADER_GET_TYPE_def

lemma fixed_header_get:
  "MQTT_HEADER_GET_TYPE (fixed_header t d q r) = t AND 15"
  "MQTT_HEADER_GET_DUP (fixed_header t d q r) = d AND 1"
  "MQTT_HEADER_GET_QOS (fixed_header t d q r) = q AND 3"
  "MQTT_HEADER_GET_RETAIN (fixed_header t d q r) = r AND 1"
  by (simp_all add: fixed_header_def header_ops u8_eq_bits bit_simps del: push_bit_Suc push_bit_of_Suc_0
      push_bit_numeral push_bit_numeral_minus_1)

lemma SET_RETAIN_0: "MQTT_HEADER_SET_RETAIN h 0 = h"
  by (simp add: MQTT_HEADER_SET_RETAIN_def)

lemma fixed_header_no_retain:
  "MQTT_HEADER_SET_QOS (MQTT_HEADER_SET_DUP (MQTT_HEADER_SET_TYPE 0 t) d) q = fixed_header t d q 0"
  by (simp add: fixed_header_def SET_RETAIN_0)

section \<open>Strings\<close>

text \<open>
  What the serializers rely on: a string is given either as a C string or by pointer and
  length, not both (\<open>MQTTstrlen\<close> prefers the first, \<open>writeMQTTString\<close> the second), and a
  counted string has its bytes.
\<close>

definition string_ok :: "MQTTString \<Rightarrow> bool" where
  "string_ok s \<longleftrightarrow>
     (case cstring s of
        Some c \<Rightarrow> ls_len (lenstring s) \<le> 0
      | None \<Rightarrow> ls_len (lenstring s) = 0
                \<or> (0 < ls_len (lenstring s)
                   \<and> (case ls_data (lenstring s) of
                        None \<Rightarrow> False
                      | Some d \<Rightarrow> nat (ls_len (lenstring s)) \<le> length d)))"

definition string_bytes :: "MQTTString \<Rightarrow> bytes" where
  "string_bytes s =
     (case cstring s of
        Some c \<Rightarrow> c_str c
      | None \<Rightarrow> (case ls_data (lenstring s) of
                   None \<Rightarrow> []
                 | Some d \<Rightarrow> take (nat (ls_len (lenstring s))) d))"

lemma take_c_strlen [simp]: "take (c_strlen c) c = c_str c"
  unfolding c_strlen_def c_str_def by (rule takeWhile_eq_take [symmetric])

lemma writeMQTTString_c:
  "cstring s = Some c \<Longrightarrow> ls_len (lenstring s) \<le> 0 \<Longrightarrow>
     writeMQTTString out s = Some (writeCString out c)"
  by (simp add: writeMQTTString_def)

lemma writeMQTTString_len:
  "cstring s = None \<Longrightarrow> ls_len (lenstring s) = int (length d) \<Longrightarrow>
   ls_data (lenstring s) = Some (d @ e) \<Longrightarrow>
     writeMQTTString out s = Some (writeInt out (int (length d)) @ d)"
  by (auto simp: writeMQTTString_def mem_slice_def)

lemma writeInt_append: "writeInt out n = out @ writeInt [] n"
  by (simp add: writeInt_def)

lemma writeMQTTString_ok [wire]:
  assumes "string_ok s"
  shows "writeMQTTString out s = Some (out @ writeInt [] (MQTTstrlen s) @ string_bytes s)"
proof (cases "cstring s")
  case (Some c)
  with assms have "ls_len (lenstring s) \<le> 0" by (simp add: string_ok_def)
  with Some show ?thesis
    by (simp add: writeMQTTString_c writeCString_def string_bytes_def MQTTstrlen_def
        writeInt_append [of out])
next
  case None
  with assms show ?thesis
    by (cases "ls_data (lenstring s)"; cases "ls_len (lenstring s) = 0")
      (auto simp: writeMQTTString_def string_ok_def string_bytes_def MQTTstrlen_def mem_slice_def
        writeInt_append [of out])
qed

lemma MQTTstrlen_ok: "string_ok s \<Longrightarrow> MQTTstrlen s = int (length (string_bytes s))"
  by (auto simp: string_ok_def string_bytes_def MQTTstrlen_def c_strlen_def split: option.splits)

definition c_string :: "bytes \<Rightarrow> MQTTString" where
  "c_string s = MQTTString_initializer\<lparr>cstring := Some s\<rparr>"

lemma c_string_simps [simp]:
  "string_ok (c_string s)"
  "is_c_str s \<Longrightarrow> string_bytes (c_string s) = s"
  "is_c_str s \<Longrightarrow> MQTTstrlen (c_string s) = int (length s)"
  by (simp_all add: c_string_def MQTTString_initializer_def string_ok_def string_bytes_def
      MQTTstrlen_def)

lemma encode_covered:
  assumes "MQTTPacket_len n \<le> buflen" and "0 \<le> n" and "buflen \<le> 268435456"
  shows "1 + int (length (MQTTPacket_encode n)) + n \<le> buflen" "n < 268435456"
proof -
  show small: "n < 268435456"
    using assms by (auto simp: MQTTPacket_len_def Let_def split: if_splits)
  show "1 + int (length (MQTTPacket_encode n)) + n \<le> buflen"
    using MQTTPacket_len_covers [OF assms(2) small] assms(1) by simp
qed

section \<open>CONNECT\<close>

definition connect_strings :: "MQTTPacket_connectData \<Rightarrow> MQTTString list" where
  "connect_strings opts =
     [clientID opts] @
     (if willFlag opts \<noteq> 0 then [wo_topicName (will opts), wo_message (will opts)] else []) @
     (if has_string (username opts) then [username opts] else []) @
     (if has_string (password opts) then [password opts] else [])"

lemma connect_flags_user:
  "connect_flags opts AND MQTT_CONN_FLAG_USER_NAME \<noteq> 0 \<longleftrightarrow> has_string (username opts)"
  "connect_flags opts AND MQTT_CONN_FLAG_PASSWORD \<noteq> 0 \<longleftrightarrow> has_string (password opts)"
  by (simp_all add: connect_flags_def Let_def u8_eq_bits bit_simps)

lemma connect_length_sum:
  "MQTTSerialize_connectLength opts
     = (if MQTTVersion opts = 3 then 12 else if MQTTVersion opts = 4 then 10 else 0)
       + sum_list (map (\<lambda>s. MQTTstrlen s + 2) (connect_strings opts))"
  by (simp add: MQTTSerialize_connectLength_def connect_strings_def Let_def)

lemma connect_length_nonneg:
  assumes "list_all string_ok (connect_strings opts)"
  shows "0 \<le> MQTTSerialize_connectLength opts"
  using assms
  by (auto simp: connect_length_sum list_all_iff MQTTstrlen_ok intro!: add_nonneg_nonneg sum_list_nonneg)

text \<open>The packet as the sequence of its fields.\<close>

definition connect_packet :: "MQTTPacket_connectData \<Rightarrow> bytes" where
  "connect_packet opts =
     [16] @ MQTTPacket_encode (MQTTSerialize_connectLength opts)
     @ (if MQTTVersion opts = 4 then [0, 4, 77, 81, 84, 84, 4]
        else [0, 6, 77, 81, 73, 115, 100, 112, 3])
     @ [connect_flags opts] @ writeInt [] (uint (keepAliveInterval opts))
     @ concat (map (\<lambda>s. writeInt [] (MQTTstrlen s) @ string_bytes s) (connect_strings opts))"

lemma connect_names:
  "writeCString out (ascii ''MQTT'') = out @ [0, 4, 77, 81, 84, 84]"
  "writeCString out (ascii ''MQIsdp'') = out @ [0, 6, 77, 81, 73, 115, 100, 112]"
  by (simp_all add: writeCString_def writeInt_def c_strlen_def c_str_def ascii_def c_arith Let_def)

lemma serialize_connect_eq:
  assumes "list_all string_ok (connect_strings opts)"
    and "MQTTPacket_len (MQTTSerialize_connectLength opts) \<le> buflen"
  shows "MQTTSerialize_connect buflen opts = Some (Inr (connect_packet opts))"
proof -
  have strings: "string_ok (clientID opts)"
    "willFlag opts \<noteq> 0 \<Longrightarrow> string_ok (wo_topicName (will opts)) \<and> string_ok (wo_message (will opts))"
    "has_string (username opts) \<Longrightarrow> string_ok (username opts)"
    "has_string (password opts) \<Longrightarrow> string_ok (password opts)"
    using assms(1) by (auto simp: connect_strings_def split: if_splits)
  have hdr: "MQTT_HEADER_SET_TYPE 0 CONNECT = 16"
    by (simp add: MQTT_HEADER_SET_TYPE_def)
  note flags = connect_flags_user [of opts]
  show ?thesis
    using assms(2) strings flags
    by (cases "willFlag opts = 0"; cases "has_string (username opts)"; cases "has_string (password opts)")
      (simp_all add: MQTTSerialize_connect_def Let_def not_less hdr writeMQTTString_ok connect_names
        writeChar_def connect_packet_def connect_strings_def writeInt_append [of "_ @ _"]
        writeInt_append [of "_ # _"])
qed

lemma length_connect_fields:
  "list_all string_ok ss \<Longrightarrow>
     int (length (concat (map (\<lambda>s. writeInt [] (MQTTstrlen s) @ string_bytes s) ss)))
       = sum_list (map (\<lambda>s. MQTTstrlen s + 2) ss)"
  by (induction ss) (auto simp: MQTTstrlen_ok)

lemma length_connect_packet:
  assumes "list_all string_ok (connect_strings opts)" and "MQTTVersion opts = 3 \<or> MQTTVersion opts = 4"
  shows "int (length (connect_packet opts))
           = 1 + int (length (MQTTPacket_encode (MQTTSerialize_connectLength opts)))
             + MQTTSerialize_connectLength opts"
  using assms(2) length_connect_fields [OF assms(1)]
  by (auto simp: connect_packet_def connect_length_sum)

text \<open>
  Property C29: \<open>MQTTSerialize_connect\<close> with a protocol version it knows (3 or 4) refuses a
  buffer that is shorter than the length it estimates for the packet, and in every other
  one writes a packet that lies within the buffer, whose remaining length field is the
  length of what follows; no field (client id, will, user name, password) is written past
  the end.
\<close>

theorem connect_fits_buffer:
  assumes "list_all string_ok (connect_strings opts)"
    and "MQTTVersion opts = 3 \<or> MQTTVersion opts = 4"
    and "buflen \<le> 268435456"
  shows "if buflen < MQTTPacket_len (MQTTSerialize_connectLength opts)
       then MQTTSerialize_connect buflen opts = Some (Inl MQTTPACKET_BUFFER_TOO_SHORT)
       else (\<exists>out. MQTTSerialize_connect buflen opts = Some (Inr out)
              \<and> int (length out) \<le> buflen
              \<and> MQTTPacket_decodeBuf out 1
                  = Some (int (length (MQTTPacket_encode (MQTTSerialize_connectLength opts))),
                          int (length out) - 1
                            - int (length (MQTTPacket_encode (MQTTSerialize_connectLength opts)))))"
proof (cases "MQTTPacket_len (MQTTSerialize_connectLength opts) > buflen")
  case True
  then show ?thesis by (simp add: MQTTSerialize_connect_def Let_def)
next
  case False
  let ?n = "MQTTSerialize_connectLength opts"
  have n: "0 \<le> ?n" using connect_length_nonneg [OF assms(1)] .
  have fits: "1 + int (length (MQTTPacket_encode ?n)) + ?n \<le> buflen" "?n < 268435456"
    using encode_covered [OF _ n assms(3)] False by simp_all
  have out: "MQTTSerialize_connect buflen opts = Some (Inr (connect_packet opts))"
    using serialize_connect_eq [OF assms(1)] False by simp
  obtain rest where "connect_packet opts = [16] @ MQTTPacket_encode ?n @ rest"
    by (simp add: connect_packet_def)
  then have "MQTTPacket_decodeBuf (connect_packet opts) 1
      = Some (int (length (MQTTPacket_encode ?n)), ?n)"
    using decodeBuf_at [of 1 "connect_packet opts" ?n rest] n fits(2) by simp
  with out fits(1) length_connect_packet [OF assms(1,2)] False show ?thesis by simp
qed

text \<open>A CONNECT of an MQTT 3.1.1 client with a user name: 2 + 10 + 4 + 3 = 19 bytes.\<close>

definition sample_connect :: MQTTPacket_connectData where
  "sample_connect =
     \<lparr>MQTTVersion = 4, clientID = c_string (ascii ''id''), keepAliveInterval = 60, cleansession = 1,
      willFlag = 0, will = \<lparr>wo_topicName = MQTTString_initializer,
      wo_message = MQTTString_initializer, wo_retained = 0, wo_qos = 0\<rparr>,
      username = c_string (ascii ''u''), password = MQTTString_initializer\<rparr>"

theorem connect_fits_buffer_witness:
  "MQTTSerialize_connect 18 sample_connect = Some (Inl MQTTPACKET_BUFFER_TOO_SHORT)
   \<and> (\<exists>out. MQTTSerialize_connect 20 sample_connect = Some (Inr out) \<and> int (length out) \<le> 20)"
proof -
  have ok: "list_all string_ok (connect_strings sample_connect)"
    by (simp add: connect_strings_def sample_connect_def)
      (simp add: c_string_def has_string_def MQTTString_initializer_def)
  have v: "MQTTVersion sample_connect = 4" by (simp add: sample_connect_def)
  have len: "MQTTSerialize_connectLength sample_connect = 17"
    by code_simp
  from connect_fits_buffer [OF ok, of 20] v len
  have "\<exists>out. MQTTSerialize_connect 20 sample_connect = Some (Inr out) \<and> int (length out) \<le> 20"
    by (auto simp: MQTTPacket_len_def)
  moreover from connect_fits_buffer [OF ok, of 18] v len
  have "MQTTSerialize_connect 18 sample_connect = Some (Inl MQTTPACKET_BUFFER_TOO_SHORT)"
    by (simp add: MQTTPacket_len_def)
  ultimately show ?thesis by simp
qed

section \<open>PUBLISH\<close>

text \<open>The packet as the sequence of its fields.\<close>

definition publish_packet ::
    "u8 \<Rightarrow> int \<Rightarrow> u8 \<Rightarrow> u16 \<Rightarrow> MQTTString \<Rightarrow> bytes \<Rightarrow> bytes" where
  "publish_packet dup qos retained packetid topicName body =
     [fixed_header PUBLISH dup (word_of_int qos) retained]
     @ MQTTPacket_encode (MQTTSerialize_publishLength qos topicName (int (length body)))
     @ writeInt [] (MQTTstrlen topicName) @ string_bytes topicName
     @ (if qos > 0 then writeInt [] (uint packetid) else []) @ body"

lemma serialize_publish_eq:
  assumes "string_ok topicName"
    and "MQTTPacket_len (MQTTSerialize_publishLength qos topicName (int (length body))) \<le> buflen"
  shows "MQTTSerialize_publish buflen dup qos retained packetid topicName (body @ junk)
           (int (length body))
         = Some (Inr (publish_packet dup qos retained packetid topicName body))"
  using assms
  by (simp add: MQTTSerialize_publish_def publish_packet_def fixed_header_def Let_def writeChar_def
      writeMQTTString_ok mem_slice_prefix writeInt_append [of "_ # _"])

lemma publish_length:
  assumes "string_ok topicName"
  shows "int (length (publish_packet dup qos retained packetid topicName body))
    = 1 + int (length (MQTTPacket_encode (MQTTSerialize_publishLength qos topicName (int (length body)))))
      + MQTTSerialize_publishLength qos topicName (int (length body))"
  using MQTTstrlen_ok [OF assms]
  by (simp add: publish_packet_def MQTTSerialize_publishLength_def Let_def)

lemma qos_low_bits: "0 \<le> qos \<Longrightarrow> qos < 4 \<Longrightarrow> uint (word_of_int qos AND 3 :: u8) = qos"
proof -
  assume q: "0 \<le> qos" "qos < 4"
  then have "qos \<in> {0, 1, 2, 3}" by auto
  then show ?thesis by auto
qed

lemma header_byte:
  assumes "drop 0 buf = h # rest"
  shows "readChar buf 0 = Some (h, 1)" "drop 1 buf = rest"
  using readChar_at [OF assms] by simp_all

text \<open>The deserializer along its successful path, one premise per step.\<close>

lemma deserialize_publish_path:
  assumes "readChar buf 0 = Some (h, 1)" and "MQTT_HEADER_GET_TYPE h = PUBLISH"
    and "MQTTPacket_decodeBuf buf 1 = Some (int e, len)"
    and "readMQTTLenString (pf_topicName f) buf (1 + e) (1 + int e + len) = Some (1, topic, p2)"
    and "int p2 \<le> 1 + int e + len"
    and "uint (MQTT_HEADER_GET_QOS h) = qos"
    and "if qos > 0 then readInt buf p2 = Some (uint pid, p3) else p3 = p2 \<and> pid = pf_packetid f"
  shows "MQTTDeserialize_publish f buf n
       = Some (1, \<lparr>pf_dup = MQTT_HEADER_GET_DUP h, pf_qos = qos,
                   pf_retained = MQTT_HEADER_GET_RETAIN h, pf_packetid = pid,
                   pf_topicName = topic, pf_payload = Some (drop p3 buf),
                   pf_payloadlen = 1 + int e + len - int p3\<rparr>)"
  using assms
  by (cases f) (simp add: MQTTDeserialize_publish_def Let_def split: if_splits)

lemma deserialize_publish_packet:
  assumes "string_ok topicName" and "length (string_bytes topicName) < 65536"
    and "0 \<le> qos" and "qos < 4"
    and "MQTTSerialize_publishLength qos topicName (int (length body)) < 268435456"
  shows "MQTTDeserialize_publish f
           (publish_packet dup qos retained packetid topicName body @ rest) n
       = Some (1, \<lparr>pf_dup = dup AND 1, pf_qos = qos, pf_retained = retained AND 1,
                   pf_packetid = (if qos > 0 then packetid else pf_packetid f),
                   pf_topicName = \<lparr>cstring = None, lenstring = \<lparr>ls_len = MQTTstrlen topicName,
                      ls_data = Some (string_bytes topicName
                        @ (if qos > 0 then writeInt [] (uint packetid) else []) @ body @ rest)\<rparr>\<rparr>,
                   pf_payload = Some (body @ rest), pf_payloadlen = int (length body)\<rparr>)"
proof -
  let ?pkt = "publish_packet dup qos retained packetid topicName body @ rest"
  let ?len = "MQTTSerialize_publishLength qos topicName (int (length body))"
  let ?pid = "if qos > 0 then writeInt [] (uint packetid) else []"
  let ?h = "fixed_header PUBLISH dup (word_of_int qos) retained"
  let ?p1 = "1 + length (MQTTPacket_encode ?len)"
  let ?p2 = "?p1 + 2 + length (string_bytes topicName)"
  have tl: "MQTTstrlen topicName = int (length (string_bytes topicName))"
    using MQTTstrlen_ok [OF assms(1)] .
  have hdr: "readChar ?pkt 0 = Some (?h, 1)"
    "drop 1 ?pkt = MQTTPacket_encode ?len @ writeInt [] (MQTTstrlen topicName)
       @ string_bytes topicName @ ?pid @ body @ rest"
    by (simp_all add: publish_packet_def readChar_def rd_def)
  have rem: "MQTTPacket_decodeBuf ?pkt 1 = Some (int (length (MQTTPacket_encode ?len)), ?len)"
    "drop ?p1 ?pkt = writeInt [] (int (length (string_bytes topicName)))
       @ string_bytes topicName @ ?pid @ body @ rest"
    using decodeBuf_at [OF hdr(2)] assms(5) tl
    by (simp_all add: MQTTSerialize_publishLength_def Let_def split: if_splits)
  have enddata: "int ?p1 + ?len = int ?p2 + int (length ?pid) + int (length body)"
    by (simp add: MQTTSerialize_publishLength_def Let_def tl)
  have topic: "readMQTTLenString s0 ?pkt ?p1 (int ?p1 + ?len)
      = Some (1, \<lparr>cstring = None, lenstring = \<lparr>ls_len = int (length (string_bytes topicName)),
                 ls_data = Some (string_bytes topicName @ ?pid @ body @ rest)\<rparr>\<rparr>, ?p2)"
    "drop ?p2 ?pkt = ?pid @ body @ rest" for s0
    using readMQTTLenString_at [OF rem(2) assms(2), of "int ?p1 + ?len" s0] enddata by simp_all
  have pid: "qos > 0 \<Longrightarrow> readInt ?pkt ?p2 = Some (uint packetid, ?p2 + 2)
      \<and> drop (?p2 + 2) ?pkt = body @ rest"
    using readInt_at [of ?p2 ?pkt "uint packetid" "body @ rest"] topic(2) uint_bounded [of packetid]
    by simp
  have "MQTTDeserialize_publish f ?pkt n
      = Some (1, \<lparr>pf_dup = MQTT_HEADER_GET_DUP ?h, pf_qos = qos,
                   pf_retained = MQTT_HEADER_GET_RETAIN ?h,
                   pf_packetid = (if qos > 0 then packetid else pf_packetid f),
                   pf_topicName = \<lparr>cstring = None, lenstring =
                     \<lparr>ls_len = int (length (string_bytes topicName)),
                       ls_data = Some (string_bytes topicName @ ?pid @ body @ rest)\<rparr>\<rparr>,
                   pf_payload = Some (drop (?p2 + length ?pid) ?pkt),
                   pf_payloadlen = 1 + int (length (MQTTPacket_encode ?len)) + ?len
                                   - int (?p2 + length ?pid)\<rparr>)"
  proof (rule deserialize_publish_path [OF hdr(1) _ rem(1)])
    show "readMQTTLenString (pf_topicName f) ?pkt ?p1
        (1 + int (length (MQTTPacket_encode ?len)) + ?len)
      = Some (1, \<lparr>cstring = None, lenstring = \<lparr>ls_len = int (length (string_bytes topicName)),
                 ls_data = Some (string_bytes topicName @ ?pid @ body @ rest)\<rparr>\<rparr>, ?p2)"
      using topic(1) [of "pf_topicName f"] by simp
    show "int ?p2 \<le> 1 + int (length (MQTTPacket_encode ?len)) + ?len" using enddata by simp
    show "if 0 < qos then readInt ?pkt ?p2
        = Some (uint (if qos > 0 then packetid else pf_packetid f), ?p2 + length ?pid)
      else ?p2 + length ?pid = ?p2 \<and> (if qos > 0 then packetid else pf_packetid f) = pf_packetid f"
      using pid by simp
  qed (simp_all add: fixed_header_get qos_low_bits assms)
  moreover have "drop (?p2 + length ?pid) ?pkt = body @ rest"
    using pid topic(2) by (cases "qos > 0") simp_all
  ultimately show ?thesis using enddata tl by (simp add: fixed_header_get)
qed

text \<open>
  Property C28: a PUBLISH that fits reads back as it was written, whatever follows it in
  the receive buffer: \<open>MQTTDeserialize_publish\<close> returns 1 with the same DUP, QoS, RETAIN,
  topic and payload length, the payload pointer at the payload, and the packet identifier
  exactly when the QoS is above 0; the packet written is never longer than \<open>buflen\<close>.
\<close>

theorem publish_round_trip:
  assumes "string_ok topicName" and "length (string_bytes topicName) < 65536"
    and "0 \<le> qos" and "qos < 4" and "buflen \<le> 268435456"
    and "MQTTSerialize_publish buflen dup qos retained packetid topicName payload
           (int (length body)) = Some (Inr out)"
    and "payload = body @ junk"
  shows "int (length out) \<le> buflen
       \<and> MQTTDeserialize_publish f (out @ rest) n
           = Some (1, \<lparr>pf_dup = dup AND 1, pf_qos = qos, pf_retained = retained AND 1,
                   pf_packetid = (if qos > 0 then packetid else pf_packetid f),
                   pf_topicName = \<lparr>cstring = None, lenstring = \<lparr>ls_len = MQTTstrlen topicName,
                      ls_data = Some (string_bytes topicName
                        @ (if qos > 0 then writeInt [] (uint packetid) else []) @ body @ rest)\<rparr>\<rparr>,
                   pf_payload = Some (body @ rest), pf_payloadlen = int (length body)\<rparr>)"
proof -
  let ?len = "MQTTSerialize_publishLength qos topicName (int (length body))"
  have fits: "MQTTPacket_len ?len \<le> buflen"
    using assms(6) by (auto simp: MQTTSerialize_publish_def Let_def split: if_splits)
  have nonneg: "0 \<le> ?len"
    using MQTTstrlen_ok [OF assms(1)] by (simp add: MQTTSerialize_publishLength_def Let_def)
  note covered = encode_covered [OF fits nonneg assms(5)]
  have "out = publish_packet dup qos retained packetid topicName body"
    using serialize_publish_eq [OF assms(1) fits] assms(6,7) by simp
  with covered publish_length [OF assms(1)] deserialize_publish_packet [OF assms(1-4) covered(2)]
  show ?thesis by simp
qed

theorem publish_round_trip_witness:
  "\<exists>out f. MQTTSerialize_publish 64 0 1 0 7 (c_string (ascii ''a/b'')) [1, 2] 2 = Some (Inr out)
     \<and> MQTTDeserialize_publish f (out @ [99]) 64
         = Some (1, f\<lparr>pf_dup := 0, pf_qos := 1, pf_retained := 0, pf_packetid := 7,
                      pf_topicName := \<lparr>cstring = None, lenstring = \<lparr>ls_len = 3,
                        ls_data = Some (ascii ''a/b'' @ [0, 7, 1, 2, 99])\<rparr>\<rparr>,
                      pf_payload := Some [1, 2, 99], pf_payloadlen := 2\<rparr>)"
proof -
  let ?t = "c_string (ascii ''a/b'')"
  have t: "string_ok ?t" "string_bytes ?t = ascii ''a/b''" "MQTTstrlen ?t = 3"
    by (simp_all add: ascii_def)
  have out: "MQTTSerialize_publish 64 0 1 0 7 ?t [1, 2] (int (length [1, 2 :: u8]))
      = Some (Inr (publish_packet 0 1 0 7 ?t [1, 2]))"
    using serialize_publish_eq [OF t(1), of 1 "[1, 2]" 64 0 0 7 "[]"] t(3)
    by (simp add: MQTTSerialize_publishLength_def MQTTPacket_len_def Let_def)
  define f where "f = \<lparr>pf_dup = 0, pf_qos = 0, pf_retained = 0, pf_packetid = 0,
    pf_topicName = MQTTString_initializer, pf_payload = None, pf_payloadlen = 0\<rparr>"
  have "MQTTDeserialize_publish f (publish_packet 0 1 0 7 ?t [1, 2] @ [99]) 64
         = Some (1, f\<lparr>pf_dup := 0, pf_qos := 1, pf_retained := 0, pf_packetid := 7,
                      pf_topicName := \<lparr>cstring = None, lenstring = \<lparr>ls_len = 3,
                        ls_data = Some (ascii ''a/b'' @ [0, 7, 1, 2, 99])\<rparr>\<rparr>,
                      pf_payload := Some [1, 2, 99], pf_payloadlen := 2\<rparr>)"
    using publish_round_trip [OF t(1) _ _ _ _ out, of "[]" f "[99]" 64] t
    by (simp add: f_def ascii_def writeInt_def c_arith)
  with out show ?thesis by auto
qed

section \<open>Acknowledgements\<close>

lemma serialize_ack_eq:
  "4 \<le> buflen \<Longrightarrow> MQTTSerialize_ack buflen packettype dup packetid
     = Some (Inr ([fixed_header packettype dup (if packettype = PUBREL then 1 else 0) 0, 2]
                  @ writeInt [] (uint packetid)))"
  by (simp add: MQTTSerialize_ack_def Let_def writeChar_def encode_last fixed_header_no_retain
      writeInt_append [of "_ # _"])

lemma and_15_small: "t < 16 \<Longrightarrow> t AND 15 = (t :: u8)"
proof -
  assume "t < 16"
  moreover have "t AND 15 = take_bit 4 t" by (simp add: take_bit_eq_mask mask_eq_exp_minus_1)
  ultimately show ?thesis by (simp add: word_less_def take_bit_eq_mod uint_mod word_uint_eq_iff)
qed

lemma deserialize_ack_packet:
  "MQTTDeserialize_ack old (h # 2 # writeInt [] (uint packetid) @ rest) n
     = Some (1, MQTT_HEADER_GET_TYPE h, MQTT_HEADER_GET_DUP h, Some packetid)"
proof -
  let ?pkt = "h # 2 # writeInt [] (uint packetid) @ rest"
  have "MQTTPacket_decodeBuf ?pkt 1 = Some (1, 2)" "drop 2 ?pkt = writeInt [] (uint packetid) @ rest"
    using decodeBuf_at [of 1 ?pkt 2 "writeInt [] (uint packetid) @ rest"] by (simp_all add: encode_last)
  moreover from this(2) have "readInt ?pkt 2 = Some (uint packetid, 4)"
    using readInt_at [of 2 ?pkt "uint packetid" rest] uint_bounded [of packetid] by simp
  moreover have "readChar ?pkt 0 = Some (h, 1)" by (simp add: readChar_def rd_def)
  ultimately show ?thesis
    by (simp add: MQTTDeserialize_ack_def Let_def numeral_2_eq_2)
qed

text \<open>
  An acknowledgement (PUBACK, PUBREC, PUBREL, PUBCOMP, UNSUBACK) reads back
  with the packet type, the DUP flag and the packet identifier it was written with; the
  serializer writes exactly four bytes and only if the buffer has them.
\<close>

lemma ack_round_trip:
  assumes "packettype < 16"
  shows "(if buflen < 4
          then MQTTSerialize_ack buflen packettype dup packetid = Some (Inl MQTTPACKET_BUFFER_TOO_SHORT)
          else \<exists>out. MQTTSerialize_ack buflen packettype dup packetid = Some (Inr out)
                 \<and> length out = 4
                 \<and> MQTTDeserialize_ack old (out @ rest) n
                     = Some (1, packettype, dup AND 1, Some packetid))"
proof (cases "buflen < 4")
  case True
  then show ?thesis by (simp add: MQTTSerialize_ack_def)
next
  case False
  let ?h = "fixed_header packettype dup (if packettype = PUBREL then 1 else 0) 0"
  have t: "packettype AND 15 = packettype"
    using assms by (rule and_15_small)
  have "MQTTDeserialize_ack old (?h # 2 # writeInt [] (uint packetid) @ rest) n
      = Some (1, packettype, dup AND 1, Some packetid)"
    by (simp only: deserialize_ack_packet fixed_header_get t)
  with False serialize_ack_eq [of buflen packettype dup packetid] show ?thesis by simp
qed


lemma deserialize_short_ack:
  assumes "len \<in> {0, 1}"
  shows "MQTTDeserialize_ack packetid (h # len # rest) k
       = Some (1, MQTT_HEADER_GET_TYPE h, MQTT_HEADER_GET_DUP h, packetid)
     \<and> MQTTDeserialize_unsuback packetid (h # len # rest) k = Some (1, packetid)"
proof -
  have len: "0 \<le> uint len" "uint len < 2" using assms by auto
  then have "MQTTPacket_encode (uint len) = [len]" by (simp add: encode_last)
  then have "MQTTPacket_decodeBuf (h # len # rest) 1 = Some (1, uint len)"
    using decodeBuf_at [of 1 "h # len # rest" "uint len" rest] len by simp
  moreover have "readChar (h # len # rest) 0 = Some (h, 1)"
    by (simp add: readChar_def rd_def)
  ultimately have "MQTTDeserialize_ack packetid (h # len # rest) k
       = Some (1, MQTT_HEADER_GET_TYPE h, MQTT_HEADER_GET_DUP h, packetid)"
    using len by (simp add: MQTTDeserialize_ack_def Let_def)
  then show ?thesis by (simp add: MQTTDeserialize_unsuback_def)
qed

text \<open>
  A truncated acknowledgement is reported as a good one. With a remaining length
  of 0 or 1 \<open>MQTTDeserialize_ack\<close> jumps to its exit while its return code still holds the
  number of length bytes, 1, which is also its success code: the caller sees success and a
  packet identifier that was never stored. \<open>MQTTDeserialize_unsuback\<close> passes it on.
\<close>

lemma short_ack_accepted:
  assumes "len \<in> {0, 1}"
  shows "MQTTDeserialize_ack packetid (h # len # rest) k
       = Some (1, MQTT_HEADER_GET_TYPE h, MQTT_HEADER_GET_DUP h, packetid)
     \<and> MQTTDeserialize_unsuback packetid (h # len # rest) k = Some (1, packetid)"
  using assms by (rule deserialize_short_ack)


section \<open>SUBSCRIBE, SUBACK and UNSUBSCRIBE\<close>

lemma write_filters_qos_eq:
  "list_all (\<lambda>(s, q). string_ok s) filters \<Longrightarrow>
     write_filters_qos out filters
       = Some (out @ concat (map (\<lambda>(s, q). writeInt [] (MQTTstrlen s) @ string_bytes s @ [word_of_int q])
                              filters))"
  by (induction filters arbitrary: out) (auto simp: writeMQTTString_ok writeChar_def)

lemma write_filters_eq:
  "list_all string_ok filters \<Longrightarrow>
     write_filters out filters
       = Some (out @ concat (map (\<lambda>s. writeInt [] (MQTTstrlen s) @ string_bytes s) filters))"
  by (induction filters arbitrary: out) (auto simp: writeMQTTString_ok)

lemma fold_add: "fold (\<lambda>s len. len + f s) xs (n :: int) = n + sum_list (map f xs)"
  by (induction xs arbitrary: n) auto

lemma subscribe_length:
  "list_all (\<lambda>(s, q). string_ok s) filters \<Longrightarrow>
     MQTTSerialize_subscribeLength (map fst filters)
       = 2 + int (length (concat (map (\<lambda>(s, q). writeInt [] (MQTTstrlen s) @ string_bytes s
                                        @ [word_of_int q]) filters)))"
  unfolding MQTTSerialize_subscribeLength_def fold_add
  by (induction filters) (auto simp: MQTTstrlen_ok)

lemma unsubscribe_length:
  "list_all string_ok filters \<Longrightarrow>
     MQTTSerialize_unsubscribeLength filters
       = 2 + int (length (concat (map (\<lambda>s. writeInt [] (MQTTstrlen s) @ string_bytes s) filters)))"
  unfolding MQTTSerialize_unsubscribeLength_def fold_add
  by (induction filters) (auto simp: MQTTstrlen_ok)

text \<open>
  What the serializers of the filter packets promise: refuse a buffer shorter than the
  estimated length, otherwise write the fixed header, a remaining length that is the exact
  length of the body, and the body, within the buffer.
\<close>

definition framed_within :: "int \<Rightarrow> u8 \<Rightarrow> bytes \<Rightarrow> serialized \<Rightarrow> bool" where
  "framed_within buflen h body res \<longleftrightarrow>
     (if buflen < MQTTPacket_len (int (length body)) then res = Some (Inl MQTTPACKET_BUFFER_TOO_SHORT)
      else res = Some (Inr (h # MQTTPacket_encode (int (length body)) @ body))
           \<and> 1 + int (length (MQTTPacket_encode (int (length body)))) + int (length body) \<le> buflen)"

definition filters_body :: "u16 \<Rightarrow> (MQTTString \<times> int) list \<Rightarrow> bytes" where
  "filters_body packetid filters =
     writeInt [] (uint packetid)
     @ concat (map (\<lambda>(s, q). writeInt [] (MQTTstrlen s) @ string_bytes s @ [word_of_int q]) filters)"

definition names_body :: "u16 \<Rightarrow> MQTTString list \<Rightarrow> bytes" where
  "names_body packetid filters =
     writeInt [] (uint packetid)
     @ concat (map (\<lambda>s. writeInt [] (MQTTstrlen s) @ string_bytes s) filters)"

lemma serialize_subscribe_eq:
  assumes "list_all (\<lambda>(s, q). string_ok s) filters"
    and "MQTTPacket_len (MQTTSerialize_subscribeLength (map fst filters)) \<le> buflen"
  shows "MQTTSerialize_subscribe buflen dup packetid filters
     = Some (Inr (fixed_header SUBSCRIBE dup 1 0
          # MQTTPacket_encode (int (length (filters_body packetid filters)))
          @ filters_body packetid filters))"
  using assms(2)
  by (simp add: MQTTSerialize_subscribe_def Let_def write_filters_qos_eq [OF assms(1)]
      subscribe_length [OF assms(1)] writeChar_def fixed_header_no_retain filters_body_def
      writeInt_append [of "_ # _"] del: length_concat)

lemma serialize_unsubscribe_eq:
  assumes "list_all string_ok filters"
    and "MQTTPacket_len (MQTTSerialize_unsubscribeLength filters) \<le> buflen"
  shows "MQTTSerialize_unsubscribe buflen dup packetid filters
     = Some (Inr (fixed_header UNSUBSCRIBE dup 1 0
          # MQTTPacket_encode (int (length (names_body packetid filters)))
          @ names_body packetid filters))"
  using assms(2)
  by (simp add: MQTTSerialize_unsubscribe_def Let_def write_filters_eq [OF assms(1)]
      unsubscribe_length [OF assms(1)] writeChar_def fixed_header_no_retain names_body_def
      writeInt_append [of "_ # _"] del: length_concat)

text \<open>
  SUBSCRIBE and UNSUBSCRIBE packets lie within the buffer: for any number of
  filters the serializers refuse a buffer shorter than the estimated length of the packet
  and otherwise write the fixed header, a remaining length that is the exact length of the
  rest, the packet identifier and the filters in order.
\<close>

lemma subscribe_unsubscribe_fit:
  assumes "list_all (\<lambda>(s, q). string_ok s) filters" and "buflen \<le> 268435456"
  shows "framed_within buflen (fixed_header SUBSCRIBE dup 1 0) (filters_body packetid filters)
           (MQTTSerialize_subscribe buflen dup packetid filters)
       \<and> framed_within buflen (fixed_header UNSUBSCRIBE dup 1 0) (names_body packetid (map fst filters))
           (MQTTSerialize_unsubscribe buflen dup packetid (map fst filters))"
proof
  let ?n = "MQTTSerialize_subscribeLength (map fst filters)"
  have body: "?n = int (length (filters_body packetid filters))"
    using subscribe_length [OF assms(1)] by (simp add: filters_body_def)
  show "framed_within buflen (fixed_header SUBSCRIBE dup 1 0) (filters_body packetid filters)
           (MQTTSerialize_subscribe buflen dup packetid filters)"
  proof (cases "MQTTPacket_len ?n \<le> buflen")
    case True
    with encode_covered [OF True _ assms(2)] serialize_subscribe_eq [OF assms(1) True] body
    show ?thesis by (simp add: framed_within_def)
  qed (simp add: framed_within_def MQTTSerialize_subscribe_def Let_def body)
next
  let ?fs = "map fst filters"
  let ?n = "MQTTSerialize_unsubscribeLength ?fs"
  have ok: "list_all string_ok ?fs"
    using assms(1) by (auto simp: list_all_iff)
  have body: "?n = int (length (names_body packetid ?fs))"
    using unsubscribe_length [OF ok] by (simp add: names_body_def)
  show "framed_within buflen (fixed_header UNSUBSCRIBE dup 1 0) (names_body packetid ?fs)
           (MQTTSerialize_unsubscribe buflen dup packetid ?fs)"
  proof (cases "MQTTPacket_len ?n \<le> buflen")
    case True
    with encode_covered [OF True _ assms(2)] serialize_unsubscribe_eq [OF ok True] body
    show ?thesis by (simp add: framed_within_def)
  qed (simp add: framed_within_def MQTTSerialize_unsubscribe_def Let_def body)
qed


text \<open>
  The loop of \<open>MQTTDeserialize_suback\<close>: as many return codes as the packet has, in their
  order, or -1 with the first \<open>maxcount\<close> of them when there are more.
\<close>

lemma suback_loop_all:
  "drop p buf = codes @ rest \<Longrightarrow> int (length granted + length codes) \<le> maxcount \<Longrightarrow>
     suback_loop buf p (length codes) maxcount granted = Some (1, granted @ map uint codes)"
proof (induction codes arbitrary: p granted)
  case (Cons c codes)
  then have "rd buf p = Some c" "drop (p + 1) buf = codes @ rest"
    using rd_drop [of p buf c "codes @ rest"] by simp_all
  with Cons.IH [of "p + 1" "granted @ [uint c]"] Cons.prems show ?case
    by (simp add: readChar_def)
qed simp

lemma suback_loop_full:
  "drop p buf = codes @ rest \<Longrightarrow> int (length granted) \<le> maxcount \<Longrightarrow>
   maxcount < int (length granted + length codes) \<Longrightarrow>
     suback_loop buf p (length codes) maxcount granted
       = Some (-1, granted @ map uint (take (nat maxcount - length granted) codes))"
proof (induction codes arbitrary: p granted)
  case (Cons c codes)
  then have step: "rd buf p = Some c" "drop (p + 1) buf = codes @ rest"
    using rd_drop [of p buf c "codes @ rest"] by simp_all
  show ?case
  proof (cases "int (length granted) = maxcount")
    case True
    then show ?thesis by auto
  next
    case False
    moreover from this Cons.prems(2) have "nat maxcount - length granted = Suc (nat maxcount - Suc (length granted))"
      by linarith
    ultimately show ?thesis
      using step Cons.IH [of "p + 1" "granted @ [uint c]"] Cons.prems
      by (simp add: readChar_def)
  qed
qed simp

lemma deserialize_suback_packet:
  assumes "length codes + 2 < 268435456" and "0 \<le> maxcount"
  shows "MQTTDeserialize_suback old maxcount
           (0x90 # MQTTPacket_encode (int (length codes + 2)) @ writeInt [] (uint packetid)
              @ codes @ rest) n
       = (if int (length codes) \<le> maxcount
          then Some (1, Some packetid, map uint codes)
          else Some (-1, Some packetid, map uint (take (nat maxcount) codes)))"
proof -
  let ?len = "int (length codes + 2)"
  let ?buf = "0x90 # MQTTPacket_encode ?len @ writeInt [] (uint packetid) @ codes @ rest"
  let ?p1 = "1 + length (MQTTPacket_encode ?len)"
  have hdr: "readChar ?buf 0 = Some (0x90, 1)"
    "drop 1 ?buf = MQTTPacket_encode ?len @ writeInt [] (uint packetid) @ codes @ rest"
    by (simp_all add: readChar_def rd_def)
  have rem: "MQTTPacket_decodeBuf ?buf 1 = Some (int (length (MQTTPacket_encode ?len)), ?len)"
    "drop ?p1 ?buf = writeInt [] (uint packetid) @ codes @ rest"
    using decodeBuf_at [OF hdr(2)] assms(1) by simp_all
  have pid: "readInt ?buf ?p1 = Some (uint packetid, ?p1 + 2)" "drop (?p1 + 2) ?buf = codes @ rest"
    using readInt_at [OF rem(2)] uint_bounded [of packetid] by simp_all
  have "MQTTDeserialize_suback old maxcount ?buf n
      = do { (rc, granted) \<leftarrow> suback_loop ?buf (?p1 + 2) (length codes) maxcount [];
             Some (rc, Some packetid, granted) }"
    using hdr(1) rem(1) pid(1)
    by (simp add: MQTTDeserialize_suback_def MQTT_HEADER_GET_TYPE_def Let_def)
  then show ?thesis
    using suback_loop_all [OF pid(2), of "[]" maxcount] suback_loop_full [OF pid(2), of "[]" maxcount]
      assms(2)
    by simp
qed

text \<open>
  A SUBACK delivers its packet identifier and its return codes in order, all
  of them if the caller's array (\<open>maxcount\<close>) has room; otherwise the result is -1 and
  exactly the first \<open>maxcount\<close> are stored: the array is never overrun.
\<close>

lemma suback_codes:
  assumes "length codes + 2 < 268435456" and "0 \<le> maxcount"
  shows "MQTTDeserialize_suback old maxcount
           (0x90 # MQTTPacket_encode (int (length codes + 2)) @ writeInt [] (uint packetid)
              @ codes @ rest) n
       = (if int (length codes) \<le> maxcount
          then Some (1, Some packetid, map uint codes)
          else Some (-1, Some packetid, map uint (take (nat maxcount) codes)))"
  using assms by (rule deserialize_suback_packet)


section \<open>Malformed packets\<close>

lemma uint_two_bytes:
  "uint (word_of_int (256 * uint (a :: u8) + uint (b :: u8)) :: u16) = 256 * uint a + uint b"
proof -
  have "256 * uint a + uint b < 65536" using uint_u8_bounds [of a] uint_u8_bounds [of b] by linarith
  then show ?thesis
    using uint_u8_bounds [of a] uint_u8_bounds [of b] unfolding uint_word_of_int by simp
qed

text \<open>
  Property C35: a PUBLISH with QoS above 0, DUP and RETAIN clear, whose remaining length ends
  with the topic or one byte behind it is
  accepted with a negative payload length: after the topic the code checks only that
  \<open>enddata\<close> is not behind the cursor, then reads two bytes of packet identifier, so
  \<open>payloadlen\<close> becomes -2 (or -1) while the return code is 1.
\<close>

theorem publish_negative_payload:
  assumes "length t < 65535" and "q \<in> {1, 2, 3}" and "k \<in> {0, 1}"
    and "buf = fixed_header PUBLISH 0 q 0
                 # MQTTPacket_encode (int (length t + 2 + k)) @ writeInt [] (int (length t)) @ t @ a # b # rest"
  shows "\<exists>f'. MQTTDeserialize_publish f buf n = Some (1, f') \<and> pf_payloadlen f' = int k - 2"
proof -
  let ?len = "int (length t + 2 + k)"
  let ?p1 = "1 + length (MQTTPacket_encode ?len)"
  let ?p2 = "?p1 + 2 + length t"
  have hdr: "readChar buf 0 = Some (fixed_header PUBLISH 0 q 0, 1)"
    "drop 1 buf = MQTTPacket_encode ?len @ writeInt [] (int (length t)) @ t @ a # b # rest"
    by (simp_all add: assms(4) readChar_def rd_def)
  have rem: "MQTTPacket_decodeBuf buf 1 = Some (int (length (MQTTPacket_encode ?len)), ?len)"
    "drop ?p1 buf = writeInt [] (int (length t)) @ t @ a # b # rest"
    using decodeBuf_at [OF hdr(2)] assms(1,3) by auto
  have topic: "\<exists>topic. readMQTTLenString s0 buf ?p1 (1 + int (length (MQTTPacket_encode ?len)) + ?len)
      = Some (1, topic, ?p2)" and rest: "drop ?p2 buf = a # b # rest" for s0
    using readMQTTLenString_at [OF rem(2)] assms(1) by auto
  obtain topic where topic': "readMQTTLenString (pf_topicName f) buf ?p1
      (1 + int (length (MQTTPacket_encode ?len)) + ?len) = Some (1, topic, ?p2)"
    using topic by blast
  have "rd buf ?p2 = Some a" "drop (Suc ?p2) buf = b # rest"
    using rd_drop [OF rest] by auto
  then have "readInt buf ?p2 = Some (256 * uint a + uint b, ?p2 + 2)"
    using rd_drop [of "Suc ?p2" buf b rest] by (simp add: readInt_def)
  then have pid: "readInt buf ?p2 = Some (uint (word_of_int (256 * uint a + uint b) :: u16), ?p2 + 2)"
    unfolding uint_two_bytes .
  have q: "uint (MQTT_HEADER_GET_QOS (fixed_header PUBLISH 0 q 0)) = uint q" "0 < uint q"
    using assms(2) by (auto simp: fixed_header_get)
  show ?thesis
    using deserialize_publish_path [OF hdr(1) _ rem(1) topic' _ q(1), of
        "word_of_int (256 * uint a + uint b)" "?p2 + 2" n] pid q(2)
    by (simp add: fixed_header_get)
qed

theorem publish_negative_payload_witness:
  "\<exists>f f'. MQTTDeserialize_publish f (fixed_header PUBLISH 0 1 0 # [3, 0, 1, 97, 5, 6]) 6 = Some (1, f')
      \<and> pf_payloadlen f' = -2"
proof -
  define f where "f = \<lparr>pf_dup = 0, pf_qos = 0, pf_retained = 0, pf_packetid = 0,
    pf_topicName = MQTTString_initializer, pf_payload = None, pf_payloadlen = 0\<rparr>"
  show ?thesis
    using publish_negative_payload [of "[97]" 1 0 _ 5 6 "[]" f 6]
    by (simp add: encode_last writeInt_def c_arith) blast
qed

end
