(* ===== verification/Infra_String.thy ===== *)
theory Infra_String
  imports Prelude
begin

text \<open>
  \<open>infra/infra_string.c\<close>: hexadecimal and decimal conversions and the tokenizer
  \<open>infra_strtok\<close>. Output buffers are the lists of the bytes the code stores, in order.
  The lemmas are the round trips between the printers and the parsers, the bounds of the
  stored digits, and what the tokenizer returns and loses.
\<close>

unbundle bit_operations_syntax

section \<open>Hexadecimal\<close>

definition infra_hex2char :: "u8 \<Rightarrow> 8 word" where
  "infra_hex2char hex =
     (let hex = hex AND 0xF in if hex < 10 then 48 + hex else hex - 10 + 97)"

definition zEncode_upper :: bytes where
  "zEncode_upper = ascii ''0123456789ABCDEF''"

definition zEncode_lower :: bytes where
  "zEncode_lower = ascii ''0123456789abcdef''"

text \<open>The two digits of a byte, from a table of 16 characters.\<close>

definition hex_pair :: "bytes \<Rightarrow> u8 \<Rightarrow> bytes" where
  "hex_pair tab b =
     [tab ! unat (drop_bit 4 b AND 0xF), tab ! unat (b AND 0xF)]"

text \<open>\<open>for (i = 0; i < input_len; i++)\<close> over the input object.\<close>

fun infra_hex2str_loop :: "bytes \<Rightarrow> nat \<Rightarrow> nat \<Rightarrow> bytes option" where
  "infra_hex2str_loop input i 0 = Some []"
| "infra_hex2str_loop input i (Suc n) =
     do { b \<leftarrow> rd input i;
          rest \<leftarrow> infra_hex2str_loop input (Suc i) n;
          Some (hex_pair zEncode_upper b @ rest) }"

definition infra_hex2str :: "bytes \<Rightarrow> u16 \<Rightarrow> bytes option" where
  "infra_hex2str input input_len = infra_hex2str_loop input 0 (unat input_len)"

fun LITE_hexbuf_convert_loop :: "bytes \<Rightarrow> bytes \<Rightarrow> nat \<Rightarrow> nat \<Rightarrow> bytes option" where
  "LITE_hexbuf_convert_loop tab digest i 0 = Some []"
| "LITE_hexbuf_convert_loop tab digest i (Suc n) =
     do { b \<leftarrow> rd digest i;
          rest \<leftarrow> LITE_hexbuf_convert_loop tab digest (Suc i) n;
          Some (hex_pair tab b @ rest) }"

definition LITE_hexbuf_convert :: "bytes \<Rightarrow> int \<Rightarrow> int \<Rightarrow> bytes option" where
  "LITE_hexbuf_convert digest in_len uppercase =
     LITE_hexbuf_convert_loop (if uppercase \<noteq> 0 then zEncode_upper else zEncode_lower)
       digest 0 (nat in_len)"

definition hexval_of_char :: "u8 \<Rightarrow> u8" where
  "hexval_of_char hex =
     (if hex \<le> 57 \<and> hex \<ge> 48 then hex - 48
      else if hex \<ge> 97 \<and> hex \<le> 102 then hex - 97 + 10
      else if hex \<ge> 65 \<and> hex \<le> 70 then hex - 65 + 10
      else 0)"

fun LITE_hexstr_convert_loop :: "bytes \<Rightarrow> nat \<Rightarrow> nat \<Rightarrow> bytes option" where
  "LITE_hexstr_convert_loop input i 0 = Some []"
| "LITE_hexstr_convert_loop input i (Suc n) =
     do { c0 \<leftarrow> rd input (2 * i);
          c1 \<leftarrow> rd input (2 * i + 1);
          rest \<leftarrow> LITE_hexstr_convert_loop input (Suc i) n;
          Some ((push_bit 4 (hexval_of_char c0) OR hexval_of_char c1) # rest) }"

text \<open>
  An odd length stores nothing; the loop runs while \<open>i < input_len / 2\<close> and
  \<open>i < output_len\<close>.
\<close>

definition LITE_hexstr_convert :: "bytes \<Rightarrow> int \<Rightarrow> int \<Rightarrow> bytes option" where
  "LITE_hexstr_convert input input_len output_len =
     (if c_mod input_len 2 \<noteq> 0 then Some []
      else LITE_hexstr_convert_loop input 0 (min (nat (c_div input_len 2)) (nat output_len)))"

section \<open>Decimal\<close>

text \<open>The first loop stores the digits from the lowest, the second reverses them.\<close>

function int2str_digits :: "u32 \<Rightarrow> bytes" where
  "int2str_digits input =
     (ucast (input mod 10) + 48) # (if input div 10 > 0 then int2str_digits (input div 10) else [])"
  by pat_completeness auto
termination
  by (relation "measure unat") (auto simp: word_less_nat_alt unat_div_distrib)

definition infra_int2str :: "u32 \<Rightarrow> bytes" where
  "infra_int2str input = rev (int2str_digits input)"

declare int2str_digits.simps [simp del]

text \<open>
  \<open>infra_str2int\<close> on the bytes before the final NUL: leading blanks, one sign, digits up
  to the first other character. \<open>temp\<close> is a signed 32-bit integer.
\<close>

fun str2int_skip :: "bytes \<Rightarrow> bytes" where
  "str2int_skip [] = []"
| "str2int_skip (c # s) = (if c = 32 then str2int_skip s else c # s)"

fun str2int_digits :: "bytes \<Rightarrow> int \<Rightarrow> int option" where
  "str2int_digits [] temp = Some temp"
| "str2int_digits (c # s) temp =
     (if c < 48 \<or> c > 57 then Some temp
      else do { temp' \<leftarrow> c_int (temp * 10 + (uint c - 48)); str2int_digits s temp' })"

definition infra_str2int :: "bytes option \<Rightarrow> int option \<Rightarrow> (int \<times> int option) option" where
  "infra_str2int input val =
     (case (input, val) of
        (Some s, Some _) \<Rightarrow>
          let s = str2int_skip (c_str s);
              (sign, s) = (case s of
                             c # s' \<Rightarrow> if c = 43 then (0, s')
                                        else if c = 45 then (-1, s') else (0, s)
                           | [] \<Rightarrow> (0::int, s))
          in do { temp \<leftarrow> str2int_digits s 0;
                  Some (0, Some (if sign = -1 then - temp else temp)) }
      | _ \<Rightarrow> Some (-1, val))"

section \<open>infra_strtok\<close>

text \<open>
  The two static variables are \<open>pos\<close> (kept between calls, here the string it points to
  or NULL) and \<open>target\<close> (the token being returned). The code cuts tokens out of the
  buffer by storing NULs over the delimiter; what a token pointer then reads is the
  string up to that delimiter. \<open>strtok_scan\<close> is the \<open>while\<close> loop: \<open>tok\<close> is what
  lies between \<open>target\<close> and \<open>pos\<close>, \<open>s\<close> the string at \<open>pos\<close>. The result is the
  returned string (\<open>None\<close> for NULL) and the string \<open>pos\<close> points to afterwards.
\<close>

function strtok_scan :: "bytes \<Rightarrow> bool \<Rightarrow> bytes \<Rightarrow> bytes \<Rightarrow> bytes option \<times> bytes" where
  "strtok_scan delim only_delim tok s =
     (if length s < length delim \<or> delim = [] then (Some (tok @ s), s)
      else if take (length delim) s \<noteq> delim
        then strtok_scan delim False (tok @ [hd s]) (tl s)
      else if length s = length delim then (if only_delim then None else Some tok, [])
      else if tok = [] then strtok_scan delim only_delim [] (drop (length delim) s)
      else (Some tok, drop (length delim) s))"
  by pat_completeness auto
termination
  by (relation "measure (\<lambda>(delim, only_delim, tok, s). length s)")
    (auto simp: not_less intro!: diff_less intro: order_less_le_trans [of 0 "length _"])

declare strtok_scan.simps [simp del]

text \<open>An empty delimiter never advances \<open>pos\<close>: on a non-empty string the loop does not end.\<close>

definition infra_strtok ::
    "bytes option \<Rightarrow> bytes option \<Rightarrow> bytes option \<Rightarrow> (bytes option \<times> bytes option) option" where
  "infra_strtok pos str delim =
     (let pos = (case str of None \<Rightarrow> pos | Some s \<Rightarrow> Some (c_str s)) in
      case (pos, delim) of
        (Some p, Some d) \<Rightarrow>
          if length p \<le> c_strlen d then Some (None, pos)
          else if c_str d = [] then None
          else let (tok, p') = strtok_scan (c_str d) True [] p in Some (tok, Some p')
      | _ \<Rightarrow> Some (None, pos))"

section \<open>Round trips\<close>

lemma nibble_bound: "unat (b AND 0xF :: u8) < 16"
proof -
  have "b AND 0xF \<le> (0xF :: u8)" by (rule word_and_le1)
  then show ?thesis by (simp add: word_le_nat_alt)
qed

lemma hexval_of_digits:
  "list_all (\<lambda>k. hexval_of_char (zEncode_upper ! k) = of_nat k
               \<and> hexval_of_char (zEncode_lower ! k) = of_nat k) [0..<16]"
  by code_simp

lemma hexval_of_digit:
  assumes "tab = zEncode_upper \<or> tab = zEncode_lower"
  shows "hexval_of_char (tab ! unat (b AND 0xF)) = b AND 0xF"
proof -
  have "hexval_of_char (tab ! k) = of_nat k" if "k < 16" for k
    using hexval_of_digits assms that by (auto simp: list_all_iff)
  from this [OF nibble_bound] show ?thesis by simp
qed

lemma and_15_take_bit: "b AND 0xF = take_bit 4 (b :: u8)"
  by (simp add: take_bit_eq_mask mask_eq_exp_minus_1)

lemma nibbles_join: "push_bit 4 (drop_bit 4 b AND 0xF) OR (b AND 0xF) = (b :: u8)"
  unfolding and_15_take_bit
  by (rule bit_word_eqI) (auto simp: bit_simps)

lemma hexbuf_loop_eq:
  "i + n \<le> length d \<Longrightarrow>
     LITE_hexbuf_convert_loop tab d i n = Some (concat (map (hex_pair tab) (take n (drop i d))))"
proof (induction n arbitrary: i)
  case 0
  then show ?case by simp
next
  case (Suc n)
  then have "take (Suc n) (drop i d) = d ! i # take n (drop (Suc i) d)"
    by (metis Cons_nth_drop_Suc Suc_le_lessD add_Suc_right le_add1 order_le_less_trans take_Suc_Cons)
  with Suc show ?case by (simp add: rd_inside)
qed

lemma hexstr_loop_eq:
  assumes "tab = zEncode_upper \<or> tab = zEncode_lower"
  shows "length pre = 2 * i \<Longrightarrow>
     LITE_hexstr_convert_loop (pre @ concat (map (hex_pair tab) ds)) i (length ds) = Some ds"
proof (induction ds arbitrary: pre i)
  case Nil
  then show ?case by simp
next
  case (Cons b ds)
  let ?p = "hex_pair tab b"
  have "LITE_hexstr_convert_loop ((pre @ ?p) @ concat (map (hex_pair tab) ds)) (Suc i) (length ds)
          = Some ds"
    using Cons.prems by (intro Cons.IH) (simp add: hex_pair_def)
  moreover have "push_bit 4 (hexval_of_char (?p ! 0)) OR hexval_of_char (?p ! 1) = b"
    by (simp add: hex_pair_def [of tab b] hexval_of_digit [OF assms] nibbles_join del: push_bit_and)
  ultimately show ?case
    using Cons.prems by (simp add: rd_append rd_Cons hex_pair_def [of tab b] del: push_bit_and)
qed

lemma length_hex_pairs: "length (concat (map (hex_pair tab) ds)) = 2 * length ds"
  by (induction ds) (auto simp: hex_pair_def)

text \<open>
  For every buffer and either case of the digits, \<open>LITE_hexstr_convert\<close>
  reads back what \<open>LITE_hexbuf_convert\<close> wrote, and the hexadecimal text has two
  characters per byte.
\<close>

lemma hex_round_trip:
  "\<exists>h. LITE_hexbuf_convert d (int (length d)) uppercase = Some h
       \<and> length h = 2 * length d
       \<and> LITE_hexstr_convert h (int (length h)) (int (length d)) = Some d"
proof -
  let ?tab = "if uppercase \<noteq> 0 then zEncode_upper else zEncode_lower"
  let ?h = "concat (map (hex_pair ?tab) d)"
  have "LITE_hexbuf_convert d (int (length d)) uppercase = Some ?h"
    by (simp add: LITE_hexbuf_convert_def hexbuf_loop_eq del: LITE_hexbuf_convert_loop.simps)
  moreover have "LITE_hexstr_convert_loop ?h 0 (length d) = Some d"
    using hexstr_loop_eq [of ?tab "[]" 0 d] by simp
  ultimately show ?thesis
    by (simp add: LITE_hexstr_convert_def c_arith length_hex_pairs)
qed

section \<open>Decimal round trip\<close>

definition digit_byte :: "u32 \<Rightarrow> u8" where
  "digit_byte n = ucast (n mod 10) + 48"

lemma uint_mod_10: "uint (n mod 10 :: u32) = uint n mod 10"
  by (simp add: uint_mod)

lemma uint_digit_byte: "uint (digit_byte n) = uint n mod 10 + 48"
proof -
  have small: "uint (n mod 10) < 10" and "0 \<le> uint (n mod 10)"
    by (simp_all add: uint_mod_10)
  then have "uint (ucast (n mod 10) :: u8) = uint n mod 10"
    by (simp add: unsigned_ucast_eq take_bit_eq_mod uint_mod_10)
  then show ?thesis
    by (simp add: digit_byte_def uint_word_ariths)
qed

lemma digit_byte_range: "\<not> (digit_byte n < 48 \<or> digit_byte n > 57)"
  using uint_digit_byte [of n] by (auto simp: word_less_def)

lemma int2str_digits_unfold:
  "int2str_digits n = digit_byte n # (if n div 10 > 0 then int2str_digits (n div 10) else [])"
  by (subst int2str_digits.simps) (simp add: digit_byte_def)

lemma str2int_digits_append:
  "\<forall>c \<in> set xs. \<not> (c < 48 \<or> c > 57) \<Longrightarrow>
     str2int_digits (xs @ ys) t = Option.bind (str2int_digits xs t) (str2int_digits ys)"
proof (induction xs arbitrary: t)
  case Nil
  show ?case by simp
next
  case (Cons c xs)
  then show ?case
    by (cases "c_int (t * 10 + (uint c - 48))") (simp_all del: c_int_Some)
qed

lemma int2str_digits_are_digits: "\<forall>c \<in> set (int2str_digits n). \<not> (c < 48 \<or> c > 57)"
proof (induction n rule: int2str_digits.induct)
  case (1 n)
  show ?case
    using 1 digit_byte_range [of n] by (subst int2str_digits_unfold) auto
qed

lemma str2int_int2str_digits:
  "uint n < 2 ^ 31 \<Longrightarrow> str2int_digits (rev (int2str_digits n)) 0 = Some (uint n)"
proof (induction n rule: int2str_digits.induct)
  case (1 n)
  let ?q = "n div 10"
  have q: "uint ?q = uint n div 10" by (simp add: uint_div)
  have bound: "uint n div 10 * 10 + uint n mod 10 = uint n" by simp
  have last: "str2int_digits [digit_byte n] (uint n div 10) = Some (uint n)"
    using digit_byte_range [of n] uint_digit_byte [of n] "1.prems" bound
      order_trans [OF _ uint_ge_0 [of n], of "- (2 ^ 31)"]
    by (simp add: c_int_def del: mod_div_mult_eq)
  show ?case
  proof (cases "?q > 0")
    case True
    then have "str2int_digits (rev (int2str_digits ?q)) 0 = Some (uint n div 10)"
      using "1.IH" "1.prems" q by simp
    with True last show ?thesis
      using int2str_digits_are_digits [of ?q]
      by (subst int2str_digits_unfold) (simp add: str2int_digits_append)
  next
    case False
    then have "uint n div 10 = 0" using q by (simp add: word_less_def)
    with False last show ?thesis
      by (subst int2str_digits_unfold) simp
  qed
qed

lemma length_int2str_digits: "unat n < 10 ^ Suc k \<Longrightarrow> length (int2str_digits n) \<le> Suc k"
proof (induction k arbitrary: n)
  case 0
  then have "n div 10 = 0" by (simp add: word_unat_eq_iff unat_div)
  then show ?case by (subst int2str_digits_unfold) simp
next
  case (Suc k)
  have "unat (n div 10) < 10 ^ Suc k" using Suc.prems by (simp add: unat_div)
  from Suc.IH [OF this] show ?case by (subst int2str_digits_unfold) auto
qed

lemma length_infra_int2str: "1 \<le> length (infra_int2str n) \<and> length (infra_int2str n) \<le> 10"
proof -
  have "unat n < 10 ^ Suc 9" using unsigned_less [of n, where 'a = nat] by simp
  from length_int2str_digits [OF this] show ?thesis
    by (simp add: infra_int2str_def) (subst int2str_digits_unfold, simp)
qed

lemma int2str_no_sign:
  "\<exists>c s. infra_int2str n = c # s \<and> c \<noteq> 32 \<and> c \<noteq> 43 \<and> c \<noteq> 45"
proof -
  obtain c s where cs: "infra_int2str n = c # s"
    using length_infra_int2str [of n] by (cases "infra_int2str n") auto
  then have "\<not> (c < 48 \<or> c > 57)"
    using int2str_digits_are_digits [of n] by (metis infra_int2str_def list.set_intros(1) set_rev)
  with cs show ?thesis by auto
qed

text \<open>
  \<open>infra_int2str\<close> stores between one and ten digits (its buffer has ten
  bytes), and \<open>infra_str2int\<close> reads the number back as long as it fits a signed 32-bit
  integer, whatever non-digit text follows.
\<close>

lemma decimal_round_trip:
  assumes "uint n < 2 ^ 31" and "rest = [] \<or> hd rest < 48 \<or> hd rest > 57"
    and "is_c_str (infra_int2str n @ rest)"
  shows "infra_str2int (Some (infra_int2str n @ rest)) (Some v) = Some (0, Some (uint n))
       \<and> length (infra_int2str n) \<in> {1..10}"
proof -
  obtain c s where cs: "infra_int2str n = c # s" "c \<noteq> 32" "c \<noteq> 43" "c \<noteq> 45"
    using int2str_no_sign by blast
  have "str2int_digits (infra_int2str n @ rest) 0
          = Option.bind (str2int_digits (infra_int2str n) 0) (str2int_digits rest)"
    using int2str_digits_are_digits [of n]
    by (intro str2int_digits_append) (simp add: infra_int2str_def)
  also have "\<dots> = str2int_digits rest (uint n)"
    using str2int_int2str_digits [OF assms(1)] by (simp add: infra_int2str_def)
  also have "\<dots> = Some (uint n)"
    using assms(2) by (cases rest) auto
  finally have "str2int_digits (c # s @ rest) 0 = Some (uint n)" using cs(1) by simp
  then have "infra_str2int (Some (infra_int2str n @ rest)) (Some v) = Some (0, Some (uint n))"
    using assms(3) cs by (simp add: infra_str2int_def)
  then show ?thesis using length_infra_int2str by simp
qed

section \<open>What the tokenizer returns\<close>

text \<open>A token without a delimiter in it, followed by one.\<close>

lemma strtok_scan_token:
  assumes "d \<notin> set w" and "tok @ w \<noteq> []" and "s \<noteq> []"
  shows "strtok_scan [d] od tok (w @ d # s) = (Some (tok @ w), s)"
  using assms
proof (induction w arbitrary: tok od)
  case Nil
  then show ?case by (subst strtok_scan.simps) simp
next
  case (Cons c w)
  then have "strtok_scan [d] False (tok @ [c]) (w @ d # s) = (Some (tok @ c # w), s)"
    using Cons.IH [where tok = "tok @ [c]" and od = False] by simp
  with Cons.prems show ?case by (subst strtok_scan.simps) auto
qed

text \<open>The last token: no delimiter behind it.\<close>

lemma strtok_scan_last:
  "d \<notin> set w \<Longrightarrow> strtok_scan [d] od tok w = (Some (tok @ w), [])"
proof (induction w arbitrary: tok od)
  case Nil
  show ?case by (subst strtok_scan.simps) simp
next
  case (Cons c w)
  then have "strtok_scan [d] False (tok @ [c]) w = (Some (tok @ c # w), [])"
    using Cons.IH [where tok = "tok @ [c]" and od = False] by simp
  with Cons.prems show ?case by (subst strtok_scan.simps) auto
qed

lemma strtok_next_token:
  assumes "d \<noteq> 0" and "d \<notin> set w" and "w \<noteq> []" and "s \<noteq> []"
  shows "infra_strtok (Some (w @ d # s)) None (Some [d]) = Some (Some w, Some s)"
  using assms strtok_scan_token [of d w "[]" s True]
  by (simp add: infra_strtok_def c_strlen_def c_str_def)

text \<open>A last token of two or more characters is returned; one of a single character is lost.\<close>

lemma strtok_last_token:
  assumes "d \<noteq> 0" and "d \<notin> set w" and "2 \<le> length w"
  shows "infra_strtok (Some w) None (Some [d]) = Some (Some w, Some [])"
  using assms strtok_scan_last [of d w True "[]"]
  by (simp add: infra_strtok_def c_strlen_def c_str_def)

lemma strtok_single_lost:
  "d \<noteq> 0 \<Longrightarrow> infra_strtok (Some [c]) None (Some [d]) = Some (None, Some [c])"
  by (simp add: infra_strtok_def c_strlen_def c_str_def)

end
