(* ===== verification/Mqtt_Topic.thy ===== *)
theory Mqtt_Topic
  imports Infra_String Mqtt_Packet
begin

text \<open>
  Topic names and filters in \<open>mqtt/iotx_mqtt_client.c\<close>: the syntax check
  (\<open>iotx_mc_check_rule\<close>, \<open>iotx_mc_check_topic\<close>, on top of \<open>infra_strtok\<close>) and the
  matching of a received topic against a filter (\<open>iotx_mc_is_topic_matched\<close>), translated
  pointer by pointer. The lemmas relate both to the levels of a topic: which topics are
  accepted, and that matching agrees with the wildcard rules of MQTT, with the places where
  it does not.
\<close>

section \<open>The syntax check\<close>

datatype iotx_mc_topic_type_t = TOPIC_NAME_TYPE | TOPIC_FILTER_TYPE

abbreviation "CONFIG_MQTT_TOPIC_MAXLEN \<equiv> 128 :: nat"
abbreviation "SUCCESS_RETURN \<equiv> 0 :: int"
abbreviation "FAIL_RETURN \<equiv> -1 :: int"

text \<open>The loop over the characters of \<open>iterm\<close>, \<open>len\<close> its length.\<close>

fun iotx_mc_check_rule_loop :: "bytes \<Rightarrow> nat \<Rightarrow> iotx_mc_topic_type_t \<Rightarrow> int" where
  "iotx_mc_check_rule_loop [] len type = SUCCESS_RETURN"
| "iotx_mc_check_rule_loop (c # cs) len type =
     (if type = TOPIC_FILTER_TYPE \<and> (c = 43 \<or> c = 35) \<and> len \<noteq> 1 then FAIL_RETURN
      else if type \<noteq> TOPIC_FILTER_TYPE \<and> (c = 43 \<or> c = 35) then FAIL_RETURN
      else if c < 32 \<or> c \<ge> 127 then FAIL_RETURN
      else iotx_mc_check_rule_loop cs len type)"

definition iotx_mc_check_rule :: "bytes option \<Rightarrow> iotx_mc_topic_type_t \<Rightarrow> int" where
  "iotx_mc_check_rule iterm type =
     (case iterm of
        None \<Rightarrow> FAIL_RETURN
      | Some s \<Rightarrow> iotx_mc_check_rule_loop (c_str s) (c_strlen s) type)"

lemma strtok_scan_unfold:
  "strtok_scan [d] od tok (c # s) =
     (if c \<noteq> d then strtok_scan [d] False (tok @ [c]) s
      else if s = [] then (if od then None else Some tok, [])
      else if tok = [] then strtok_scan [d] od [] s
      else (Some tok, s))"
  "strtok_scan [d] od tok [] = (Some tok, [])"
  by (subst strtok_scan.simps; auto)+

lemma strtok_scan_shorter:
  "strtok_scan [d] od tok s = (t, s') \<Longrightarrow> s' = [] \<or> length s' < length s"
proof (induction s arbitrary: od tok)
  case (Cons c s)
  then show ?case
    by (cases "c = d"; cases "s = []"; cases "tok = []")
      (auto simp: strtok_scan_unfold less_Suc_eq dest!: Cons.IH)
qed (simp add: strtok_scan_unfold)

lemma strtok_shorter:
  assumes "infra_strtok pos None (Some (ascii ''/'')) = Some (Some tok, pos')"
  shows "\<exists>p p'. pos = Some p \<and> pos' = Some p' \<and> length p' < length p"
proof -
  have d: "c_str (ascii ''/'') = [47]" by (simp add: ascii_def)
  from assms obtain p where p: "pos = Some p" "1 < length p"
    by (auto simp: infra_strtok_def c_strlen_def d Let_def split: option.splits if_splits)
  with assms obtain p' where "strtok_scan [47] True [] p = (Some tok, p')" "pos' = Some p'"
    by (auto simp: infra_strtok_def c_strlen_def d split: prod.splits)
  with p strtok_scan_shorter [of 47 True "[]" p "Some tok" p'] show ?thesis by auto
qed

text \<open>The \<open>for (;;)\<close> loop; \<open>pos\<close> is the static variable of \<open>infra_strtok\<close>.\<close>

function iotx_mc_check_topic_loop ::
    "iotx_mc_topic_type_t \<Rightarrow> int \<Rightarrow> bytes option \<Rightarrow> int option" where
  "iotx_mc_check_topic_loop type hash pos =
     (case infra_strtok pos None (Some (ascii ''/'')) of
        None \<Rightarrow> None
      | Some (None, pos') \<Rightarrow> Some SUCCESS_RETURN
      | Some (Some iterm, pos') \<Rightarrow>
          if hash = 1 then Some FAIL_RETURN
          else if iotx_mc_check_rule (Some iterm) type \<noteq> SUCCESS_RETURN then Some FAIL_RETURN
          else iotx_mc_check_topic_loop type (if take 1 iterm = [35] then 1 else hash) pos')"
  by pat_completeness auto
termination
  by (relation "measure (\<lambda>(type, hash, pos). case pos of None \<Rightarrow> 0 | Some p \<Rightarrow> length p)")
    (auto dest: strtok_shorter)

declare iotx_mc_check_topic_loop.simps [simp del]

definition iotx_mc_check_topic ::
    "bytes option \<Rightarrow> iotx_mc_topic_type_t \<Rightarrow> bytes option \<Rightarrow> int option" where
  "iotx_mc_check_topic topicName type pos =
     (case topicName of
        None \<Rightarrow> Some FAIL_RETURN
      | Some s \<Rightarrow>
          if take 1 (c_str s) \<noteq> [47] then Some FAIL_RETURN
          else if c_strlen s > CONFIG_MQTT_TOPIC_MAXLEN then Some FAIL_RETURN
          else
            let topicString = take (CONFIG_MQTT_TOPIC_MAXLEN - 1) (c_str s)
            in do { (iterm, pos) \<leftarrow> infra_strtok pos (Some topicString) (Some (ascii ''/''));
                    if iotx_mc_check_rule iterm type \<noteq> SUCCESS_RETURN then Some FAIL_RETURN
                    else iotx_mc_check_topic_loop type 0 pos })"

section \<open>Matching\<close>

text \<open>The inner loop of the wildcard \<open>+\<close>: the position of the last character of the level.\<close>

function skip_level :: "bytes \<Rightarrow> nat \<Rightarrow> int \<Rightarrow> nat option" where
  "skip_level d curn curn_end =
     (if int (curn + 1) < curn_end
      then do { c \<leftarrow> rd d (curn + 1);
                if c \<noteq> 47 then skip_level d (curn + 1) curn_end else Some curn }
      else Some curn)"
  by pat_completeness auto
termination
  by (relation "measure (\<lambda>(d, curn, curn_end). nat (curn_end - int curn))") auto

declare skip_level.simps [simp del]

text \<open>
  The outer loop: the rest of the filter, the object of the name, the position and the end.
  It returns where both pointers stand when it is left.
\<close>

fun topic_match_loop :: "bytes \<Rightarrow> bytes \<Rightarrow> nat \<Rightarrow> int \<Rightarrow> (bytes \<times> nat) option" where
  "topic_match_loop [] d curn curn_end = Some ([], curn)"
| "topic_match_loop (f # fs) d curn curn_end =
     (if \<not> int curn < curn_end then Some (f # fs, curn)
      else do {
        c \<leftarrow> rd d curn;
        if c = 47 \<and> f \<noteq> 47 then Some (f # fs, curn)
        else if f \<noteq> 43 \<and> f \<noteq> 35 \<and> f \<noteq> c then Some (f # fs, curn)
        else do {
          curn \<leftarrow> (if f = 43 then skip_level d curn curn_end
                  else if f = 35 then Some (nat (curn_end - 1))
                  else Some curn);
          topic_match_loop fs d (curn + 1) curn_end } })"

text \<open>A NULL name (\<open>data\<close>) is an empty object: no character of it can be read.\<close>

definition iotx_mc_is_topic_matched :: "bytes option \<Rightarrow> MQTTString option \<Rightarrow> u8 option" where
  "iotx_mc_is_topic_matched topicFilter topicName =
     (case (topicFilter, topicName) of
        (Some f, Some t) \<Rightarrow>
          let d = (case ls_data (lenstring t) of None \<Rightarrow> [] | Some d \<Rightarrow> d);
              curn_end = ls_len (lenstring t)
          in do { (curf, curn) \<leftarrow> topic_match_loop (c_str f) d 0 curn_end;
                  Some (if int curn = curn_end \<and> curf = [] then 1 else 0) }
      | _ \<Rightarrow> Some 0)"

section \<open>Matching on what is left of the filter and the name\<close>

fun match_rest :: "bytes \<Rightarrow> bytes \<Rightarrow> bool" where
  "match_rest [] n \<longleftrightarrow> n = []"
| "match_rest (f # fs) [] \<longleftrightarrow> False"
| "match_rest (f # fs) (c # n) \<longleftrightarrow>
     (if c = 47 \<and> f \<noteq> 47 then False
      else if f \<noteq> 43 \<and> f \<noteq> 35 \<and> f \<noteq> c then False
      else if f = 43 then match_rest fs (dropWhile (\<lambda>x. x \<noteq> 47) n)
      else if f = 35 then match_rest fs []
      else match_rest fs n)"

text \<open>A level is skipped to its last character.\<close>

lemma skip_level_rest:
  assumes "drop i d = c # n" and "int (length d) = e"
  shows "\<exists>j. skip_level d i e = Some j \<and> i \<le> j \<and> j < length d
           \<and> drop (j + 1) d = dropWhile (\<lambda>x. x \<noteq> 47) n"
  using assms
proof (induction n arbitrary: i c)
  case Nil
  then have "length d = i + 1"
    using length_drop [of i d] by (cases "i < length d") auto
  with Nil show ?case by (subst skip_level.simps) auto
next
  case (Cons b n)
  have next': "drop (i + 1) d = b # n" using rd_drop [OF Cons.prems(1)] by simp
  then have "rd d (i + 1) = Some b" and lt: "i + 1 < length d"
    using rd_drop [OF next'] by (auto simp: rd_Some_iff)
  moreover obtain j where "skip_level d (i + 1) e = Some j" "i + 1 \<le> j" "j < length d"
    "drop (j + 1) d = dropWhile (\<lambda>x. x \<noteq> 47) n"
    using Cons.IH [OF next' Cons.prems(2)] by blast
  ultimately show ?case
    using Cons.prems(2) next' by (subst skip_level.simps) auto
qed

lemma topic_match_loop_rest:
  assumes "int (length d) = e" and "i \<le> length d"
  shows "\<exists>curf curn. topic_match_loop fs d i e = Some (curf, curn)
           \<and> (int curn = e \<and> curf = [] \<longleftrightarrow> match_rest fs (drop i d))"
  using assms(2)
proof (induction fs arbitrary: i)
  case Nil
  with assms(1) show ?case by auto
next
  case (Cons f fs)
  show ?case
  proof (cases "drop i d")
    case Nil
    with Cons.prems assms(1) show ?thesis by auto
  next
    case (Cons c n)
    then have c: "rd d i = Some c" "drop (i + 1) d = n" "i < length d"
      using rd_drop [OF Cons] by (auto simp: rd_Some_iff)
    obtain j where j: "skip_level d i e = Some j" "j < length d"
      "drop (j + 1) d = dropWhile (\<lambda>x. x \<noteq> 47) n"
      using skip_level_rest [OF Cons assms(1)] by blast
    have last: "Suc (nat (e - 1)) = length d" using assms(1) c(3) by linarith
    show ?thesis
      using Cons.IH [of "i + 1"] Cons.IH [of "j + 1"] Cons.IH [of "length d"] c j last assms(1) Cons
      by auto
  qed
qed

text \<open>What lies behind the name in the receive buffer does not matter.\<close>

lemma skip_level_behind:
  "e \<le> int (length n) \<Longrightarrow> skip_level (n @ junk) i e = skip_level n i e"
proof (induction n i e rule: skip_level.induct)
  case (1 n i e)
  show ?case
  proof (cases "int (i + 1) < e")
    case True
    with "1.prems" have "rd (n @ junk) (i + 1) = rd n (i + 1)" "rd n (i + 1) = Some (n ! (i + 1))"
      by (simp_all add: rd_def nth_append)
    with "1.IH" [OF True] "1.prems" show ?thesis
      by (subst (1 2) skip_level.simps) simp
  qed (subst (1 2) skip_level.simps, simp)
qed

lemma topic_match_loop_behind:
  "e \<le> int (length n) \<Longrightarrow> topic_match_loop fs (n @ junk) i e = topic_match_loop fs n i e"
proof (induction fs arbitrary: i)
  case (Cons f fs)
  then have "int i < e \<Longrightarrow> rd (n @ junk) i = rd n i"
    by (simp add: rd_def nth_append)
  with Cons show ?case
      by (cases "rd n i") (auto simp: skip_level_behind split: option.splits)
qed simp

text \<open>The topic name of a received PUBLISH: a pointer into the buffer and a length.\<close>

definition received_topic :: "bytes \<Rightarrow> bytes \<Rightarrow> MQTTString" where
  "received_topic n behind =
     \<lparr>cstring = None, lenstring = \<lparr>ls_len = int (length n), ls_data = Some (n @ behind)\<rparr>\<rparr>"

lemma is_topic_matched_rest:
  assumes "is_c_str f"
  shows "iotx_mc_is_topic_matched (Some f) (Some (received_topic n behind))
       = Some (if match_rest f n then 1 else 0)"
  using topic_match_loop_rest [of n "int (length n)" 0 f] assms
  by (auto simp: iotx_mc_is_topic_matched_def received_topic_def topic_match_loop_behind)

section \<open>The levels a topic consists of\<close>

text \<open>A topic as the code builds them: every level behind a slash.\<close>

definition topic_of :: "bytes list \<Rightarrow> bytes" where
  "topic_of ws = concat (map (\<lambda>w. 47 # w) ws)"

definition plain_level :: "bytes \<Rightarrow> bool" where
  "plain_level w \<longleftrightarrow> w \<noteq> [] \<and> 47 \<notin> set w \<and> 0 \<notin> set w"

definition wildcard_free :: "bytes \<Rightarrow> bool" where
  "wildcard_free w \<longleftrightarrow> 43 \<notin> set w \<and> 35 \<notin> set w"

definition level_ok :: "iotx_mc_topic_type_t \<Rightarrow> bytes \<Rightarrow> bool" where
  "level_ok type w \<longleftrightarrow>
     list_all (\<lambda>c. \<not> (c < 32 \<or> c \<ge> 127)) w
     \<and> (wildcard_free w \<or> type = TOPIC_FILTER_TYPE \<and> (w = [43] \<or> w = [35]))"

lemma topic_of_simps [simp]:
  "topic_of [] = []"
  "topic_of (w # ws) = 47 # w @ topic_of ws"
  by (simp_all add: topic_of_def)

lemma is_c_str_topic_of: "list_all plain_level ws \<Longrightarrow> is_c_str (topic_of ws)"
  by (induction ws) (auto simp: plain_level_def is_c_str_def)

lemma check_rule_loop_iff:
  "iotx_mc_check_rule_loop cs len type = SUCCESS_RETURN \<longleftrightarrow>
     list_all (\<lambda>c. \<not> (c < 32 \<or> c \<ge> 127)
        \<and> (c = 43 \<or> c = 35 \<longrightarrow> type = TOPIC_FILTER_TYPE \<and> len = 1)) cs"
  by (induction cs) auto

lemma check_rule_loop_fail:
  "iotx_mc_check_rule_loop cs len type \<noteq> SUCCESS_RETURN \<Longrightarrow>
   iotx_mc_check_rule_loop cs len type = FAIL_RETURN"
  by (induction cs) (auto split: if_splits)

lemma check_rule_iff:
  assumes "plain_level w"
  shows "iotx_mc_check_rule (Some w) type = SUCCESS_RETURN \<longleftrightarrow> level_ok type w"
proof -
  have w: "is_c_str w" using assms by (auto simp: plain_level_def is_c_str_def)
  have "list_all (\<lambda>c. c = 43 \<or> c = 35 \<longrightarrow> type = TOPIC_FILTER_TYPE \<and> length w = 1) w
      \<longleftrightarrow> wildcard_free w \<or> type = TOPIC_FILTER_TYPE \<and> (w = [43] \<or> w = [35])"
    by (cases w) (auto simp: list_all_iff wildcard_free_def)
  moreover have "list_all (\<lambda>c. \<not> (c < 32 \<or> c \<ge> 127)
        \<and> (c = 43 \<or> c = 35 \<longrightarrow> type = TOPIC_FILTER_TYPE \<and> length w = 1)) w
      \<longleftrightarrow> list_all (\<lambda>c. \<not> (c < 32 \<or> c \<ge> 127)) w
        \<and> list_all (\<lambda>c. c = 43 \<or> c = 35 \<longrightarrow> type = TOPIC_FILTER_TYPE \<and> length w = 1) w"
    unfolding list_all_iff by blast
  ultimately show ?thesis
    using w unfolding level_ok_def
    by (simp only: iotx_mc_check_rule_def check_rule_loop_iff c_str_ident c_strlen_ident option.case)
qed

text \<open>The levels behind the first one that the loop sees: a last one of one character is lost.\<close>

definition seen_levels :: "bytes list \<Rightarrow> bytes list" where
  "seen_levels ws = (if ws \<noteq> [] \<and> length (last ws) = 1 then butlast ws else ws)"

fun levels_accepted :: "iotx_mc_topic_type_t \<Rightarrow> int \<Rightarrow> bytes list \<Rightarrow> bool" where
  "levels_accepted type m [] \<longleftrightarrow> True"
| "levels_accepted type m (w # ws) \<longleftrightarrow>
     m \<noteq> 1 \<and> level_ok type w \<and> levels_accepted type (if take 1 w = [35] then 1 else m) ws"

lemma levels_accepted_1: "levels_accepted type 1 ws \<longleftrightarrow> ws = []"
  by (cases ws) auto

lemma levels_accepted_iff:
  "levels_accepted type 0 ws \<longleftrightarrow>
     list_all (level_ok type) ws \<and> list_all (\<lambda>w. w \<noteq> [35]) (butlast ws)"
proof (induction ws)
  case (Cons w ws)
  have "level_ok type w \<Longrightarrow> take 1 w = [35] \<longleftrightarrow> w = [35]"
    by (cases w) (auto simp: level_ok_def wildcard_free_def)
  with Cons show ?case
    by (cases "take 1 w = [35]") (auto simp: levels_accepted_1)
qed simp

text \<open>One call of the tokenizer, at a level and at the end.\<close>

lemma strtok_level:
  assumes "plain_level w" and "list_all plain_level ws"
  shows "infra_strtok (Some (w @ topic_of ws)) None (Some (ascii ''/''))
       = (if ws = [] \<and> length w = 1 then Some (None, Some w)
          else Some (Some w, Some (tl (topic_of ws))))"
proof -
  have d: "ascii ''/'' = [47]" by (simp add: ascii_def)
  show ?thesis
  proof (cases ws)
    case Nil
    show ?thesis
    proof (cases "length w = 1")
      case True
      then have "w = [hd w]" by (cases w) auto
      with True Nil strtok_single_lost [of 47 "hd w"] show ?thesis by (simp add: d)
    next
      case False
      then have "2 \<le> length w" using assms(1) by (cases w; cases "tl w") (auto simp: plain_level_def)
      with False Nil assms(1) strtok_last_token [of 47 w] show ?thesis
        by (simp add: d plain_level_def)
    qed
  next
    case (Cons v vs)
    then have "v @ topic_of vs \<noteq> []" using assms(2) by (auto simp: plain_level_def)
    with Cons assms(1) strtok_next_token [of 47 w "v @ topic_of vs"]
    show ?thesis by (simp add: d plain_level_def)
  qed
qed

lemma check_topic_loop_levels:
  "list_all plain_level ws \<Longrightarrow>
     iotx_mc_check_topic_loop type m (Some (tl (topic_of ws)))
       = Some (if levels_accepted type m (seen_levels ws) then SUCCESS_RETURN else FAIL_RETURN)"
proof (induction ws arbitrary: m)
  case Nil
  show ?case
    by (subst iotx_mc_check_topic_loop.simps) (simp add: infra_strtok_def seen_levels_def)
next
  case (Cons w ws)
  then have tok: "infra_strtok (Some (tl (topic_of (w # ws)))) None (Some (ascii ''/''))
       = (if ws = [] \<and> length w = 1 then Some (None, Some w)
          else Some (Some w, Some (tl (topic_of ws))))"
    using strtok_level [of w ws] by simp
  have rule: "iotx_mc_check_rule (Some w) type = SUCCESS_RETURN \<longleftrightarrow> level_ok type w"
    using Cons.prems by (intro check_rule_iff) simp
  show ?case
  proof (cases "ws = [] \<and> length w = 1")
    case True
    with tok show ?thesis
      by (subst iotx_mc_check_topic_loop.simps) (simp add: seen_levels_def)
  next
    case False
    then have seen: "seen_levels (w # ws) = w # seen_levels ws"
      by (auto simp: seen_levels_def)
    show ?thesis
      using tok rule False Cons
      by (subst iotx_mc_check_topic_loop.simps) (simp add: seen seen_levels_def [of "[]"])
  qed
qed

lemma check_topic_levels:
  assumes "plain_level w" and "list_all plain_level ws" and "length (topic_of (w # ws)) < 128"
  shows "iotx_mc_check_topic (Some (topic_of (w # ws))) type pos
       = Some (if level_ok type w \<and> levels_accepted type 0 (seen_levels ws)
               then SUCCESS_RETURN else FAIL_RETURN)"
proof -
  have str: "is_c_str (topic_of (w # ws))"
    using is_c_str_topic_of [of "w # ws"] assms by simp
  then have c: "c_str (47 # w @ topic_of ws) = 47 # w @ topic_of ws" by simp
  have d: "ascii ''/'' = [47]" by (simp add: ascii_def)
  have w: "w \<noteq> []" "47 \<notin> set w" using assms(1) by (auto simp: plain_level_def)
  have len: "length (w @ topic_of ws) < 127" using assms(3) by simp
  have skip: "strtok_scan [47] True [] (47 # w @ topic_of ws) = strtok_scan [47] True [] (w @ topic_of ws)"
    using w by (simp add: strtok_scan_unfold)
  have scan: "strtok_scan [47] True [] (w @ topic_of ws) = (Some w, tl (topic_of ws))"
  proof (cases ws)
    case Nil
    with w strtok_scan_last [of 47 w True "[]"] show ?thesis by simp
  next
    case (Cons v vs)
    then have "v @ topic_of vs \<noteq> []" using assms(2) by (auto simp: plain_level_def)
    with w Cons strtok_scan_token [of 47 w "[]" "v @ topic_of vs" True] show ?thesis by simp
  qed
  have first: "infra_strtok pos (Some (topic_of (w # ws))) (Some (ascii ''/''))
      = Some (Some w, Some (tl (topic_of ws)))"
    using w skip scan c by (simp add: infra_strtok_def d c_strlen_def)
  then show ?thesis
    using check_rule_iff [OF assms(1), of type] check_topic_loop_levels [OF assms(2), of type 0] c len
      check_rule_loop_fail
    by (simp add: iotx_mc_check_topic_def c_strlen_def)
qed

text \<open>
  Property C26: what \<open>iotx_mc_check_topic\<close> accepts, for a topic of non-empty levels of
  less than 128 characters: printable levels, wildcards only in filters and only as a whole
  level, and \<open>#\<close> only as the last of the levels behind the first. Two gaps of the code are
  part of the result: a last level of one character is never looked at (\<open>infra_strtok\<close>
  loses it), so \<open>/a/#\<close> passes as a topic name, and the first level does not set the mask,
  so the filter \<open>/#/ab\<close> passes.
\<close>

theorem check_topic_verdict:
  assumes "plain_level w" and "list_all plain_level ws" and "length (topic_of (w # ws)) < 128"
  shows "iotx_mc_check_topic (Some (topic_of (w # ws))) type pos
       = Some (if list_all (level_ok type) (w # seen_levels ws)
                  \<and> list_all (\<lambda>v. v \<noteq> [35]) (butlast (seen_levels ws))
               then SUCCESS_RETURN else FAIL_RETURN)"
  using check_topic_levels [OF assms, of type pos] by (simp add: levels_accepted_iff)

theorem check_topic_verdict_witness:
  "iotx_mc_check_topic (Some (ascii ''/a/#'')) TOPIC_NAME_TYPE None = Some SUCCESS_RETURN
   \<and> iotx_mc_check_topic (Some (ascii ''/#/ab'')) TOPIC_FILTER_TYPE None = Some SUCCESS_RETURN
   \<and> iotx_mc_check_topic (Some (ascii ''/ab/#/cd'')) TOPIC_FILTER_TYPE None = Some FAIL_RETURN
   \<and> iotx_mc_check_topic (Some (ascii ''/a/b#'')) TOPIC_FILTER_TYPE None = Some FAIL_RETURN"
  using check_topic_verdict [of "[97]" "[[35]]" TOPIC_NAME_TYPE None]
    check_topic_verdict [of "[35]" "[[97, 98]]" TOPIC_FILTER_TYPE None]
    check_topic_verdict [of "[97, 98]" "[[35], [99, 100]]" TOPIC_FILTER_TYPE None]
    check_topic_verdict [of "[97]" "[[98, 35]]" TOPIC_FILTER_TYPE None]
  by (simp add: plain_level_def seen_levels_def level_ok_def wildcard_free_def ascii_def)

section \<open>Matching agrees with the wildcard rules of MQTT\<close>

text \<open>
  The rules of MQTT 3.1.1 on levels: \<open>+\<close> stands for one level, \<open>#\<close> for any number of levels
  at the end. The code differs where \<open>#\<close> stands for no level at all (the parent topic).
\<close>

fun mqtt_match :: "bytes list \<Rightarrow> bytes list \<Rightarrow> bool" where
  "mqtt_match [] ns \<longleftrightarrow> ns = []"
| "mqtt_match (f # fs) ns \<longleftrightarrow>
     (if f = [35] then fs = []
      else case ns of [] \<Rightarrow> False | n # ns' \<Rightarrow> (f = [43] \<or> f = n) \<and> mqtt_match fs ns')"

definition filter_levels :: "bytes list \<Rightarrow> bool" where
  "filter_levels fs \<longleftrightarrow>
     list_all (\<lambda>f. plain_level f \<and> (f = [43] \<or> f = [35] \<or> wildcard_free f)) fs
     \<and> list_all (\<lambda>f. f \<noteq> [35]) (butlast fs)"

lemma match_rest_literal:
  "wildcard_free f \<Longrightarrow> 47 \<notin> set f \<Longrightarrow> 47 \<notin> set n \<Longrightarrow>
   fs = [] \<or> hd fs = 47 \<Longrightarrow> ns = [] \<or> hd ns = 47 \<Longrightarrow>
     match_rest (f @ fs) (n @ ns) \<longleftrightarrow> f = n \<and> match_rest fs ns"
proof (induction f arbitrary: n)
  case Nil
  show ?case
  proof (cases n)
    case (Cons c n')
    with Nil.prems show ?thesis by (cases fs) auto
  qed simp
next
  case (Cons x f)
  show ?case
  proof (cases n)
    case Nil
    with Cons.prems show ?thesis by (cases ns) (auto simp: wildcard_free_def)
  next
    case (Cons c n')
    with Cons.prems Cons.IH [of n'] show ?thesis by (auto simp: wildcard_free_def)
  qed
qed

lemma match_rest_plus:
  "47 \<notin> set n \<Longrightarrow> n \<noteq> [] \<Longrightarrow> ns = [] \<or> hd ns = 47 \<Longrightarrow>
     match_rest (43 # fs) (n @ ns) \<longleftrightarrow> match_rest fs ns"
proof -
  assume n: "47 \<notin> set n" "n \<noteq> []" and ns: "ns = [] \<or> hd ns = 47"
  from n(2) obtain c n' where c: "n = c # n'" by (cases n) auto
  have "dropWhile (\<lambda>x. x \<noteq> 47) (n' @ ns) = ns"
    using n ns c by (subst dropWhile_append2) (auto simp: dropWhile_eq_Nil_conv, cases ns, auto)
  with n c show ?thesis by auto
qed

lemma topic_of_start: "topic_of ws = [] \<or> hd (topic_of ws) = 47"
  by (cases ws) auto

lemma match_topic_of:
  "filter_levels fs \<Longrightarrow> list_all plain_level ns \<Longrightarrow>
     match_rest (topic_of fs) (topic_of ns)
       \<longleftrightarrow> mqtt_match fs ns \<and> (fs \<noteq> [] \<and> last fs = [35] \<longrightarrow> length fs \<le> length ns)"
proof (induction fs arbitrary: ns)
  case Nil
  then show ?case by (cases ns) auto
next
  case (Cons f fs)
  then have fs: "filter_levels fs" "plain_level f" "f = [43] \<or> f = [35] \<or> wildcard_free f"
    "fs \<noteq> [] \<Longrightarrow> f \<noteq> [35]"
    by (auto simp: filter_levels_def split: if_splits)
  show ?case
  proof (cases ns)
    case Nil
    with fs show ?thesis by auto
  next
    case (Cons n ns')
    then have n: "plain_level n" "list_all plain_level ns'" using Cons.prems by auto
    note IH = Cons.IH [OF fs(1) n(2)]
    consider "f = [43]" | "f = [35]" | "wildcard_free f" "f \<noteq> [43]" "f \<noteq> [35]" using fs(3) by blast
    then show ?thesis
    proof cases
      case 1
      with Cons n match_rest_plus [of n "topic_of ns'" "topic_of fs"] topic_of_start [of ns'] IH
      show ?thesis by (auto simp: plain_level_def)
    next
      case 2
      with fs(4) have "fs = []" by auto
      moreover obtain c n' where "n = c # n'" "c \<noteq> 47" using n(1) by (cases n) (auto simp: plain_level_def)
      ultimately show ?thesis using 2 Cons by auto
    next
      case 3
      with Cons n fs match_rest_literal [of f n "topic_of fs" "topic_of ns'"]
        topic_of_start [of ns'] topic_of_start [of fs] IH
      show ?thesis by (auto simp: plain_level_def)
    qed
  qed
qed

text \<open>
  Property C25: for a filter of non-empty levels in which a wildcard is a whole level and
  \<open>#\<close> is the last one, and a received topic of non-empty levels,
  \<open>iotx_mc_is_topic_matched\<close> answers 1 exactly when the wildcard rules of MQTT match the
  levels, except that \<open>#\<close> needs at least one level (\<open>/a/#\<close> does not match \<open>/a\<close>); what
  follows the topic in the buffer has no influence and nothing outside it is read.
\<close>

theorem topic_match_verdict:
  assumes "filter_levels fs" and "list_all plain_level ns"
  shows "iotx_mc_is_topic_matched (Some (topic_of fs)) (Some (received_topic (topic_of ns) behind))
       = Some (if mqtt_match fs ns \<and> (fs \<noteq> [] \<and> last fs = [35] \<longrightarrow> length fs \<le> length ns)
               then 1 else 0)"
proof -
  have "is_c_str (topic_of fs)"
    using assms(1) by (intro is_c_str_topic_of) (auto simp: filter_levels_def list_all_iff)
  with match_topic_of [OF assms] show ?thesis by (simp add: is_topic_matched_rest)
qed

theorem topic_match_verdict_witness:
  "iotx_mc_is_topic_matched (Some (ascii ''/a/+/c'')) (Some (received_topic (ascii ''/a/bb/c'') [0])) = Some 1
   \<and> iotx_mc_is_topic_matched (Some (ascii ''/a/#'')) (Some (received_topic (ascii ''/a/b/c'') [])) = Some 1
   \<and> iotx_mc_is_topic_matched (Some (ascii ''/a/#'')) (Some (received_topic (ascii ''/a'') [])) = Some 0"
  using topic_match_verdict [of "[[97], [43], [99]]" "[[97], [98, 98], [99]]" "[0]"]
    topic_match_verdict [of "[[97], [35]]" "[[97], [98], [99]]" "[]"]
    topic_match_verdict [of "[[97], [35]]" "[[97]]" "[]"]
  by (simp add: filter_levels_def plain_level_def wildcard_free_def ascii_def)

text \<open>A filter without wildcards matches exactly itself.\<close>

lemma match_rest_self: "wildcard_free f \<Longrightarrow> match_rest f n \<longleftrightarrow> f = n"
proof (induction f arbitrary: n)
  case (Cons x f)
  then show ?case by (cases n) (auto simp: wildcard_free_def)
qed auto

lemma literal_filter_exact:
  "is_c_str f \<Longrightarrow> wildcard_free f \<Longrightarrow>
     iotx_mc_is_topic_matched (Some f) (Some (received_topic n behind)) = Some (if f = n then 1 else 0)"
  by (simp add: is_topic_matched_rest match_rest_self)

lemma received_topic_equals:
  "is_c_str f \<Longrightarrow> MQTTPacket_equals (received_topic n behind) f = Some (f = n)"
  by (auto simp: MQTTPacket_equals_def received_topic_def mem_slice_def Let_def)

end
