(* ===== verification/Infra_Timer.thy ===== *)
theory Infra_Timer
  imports Prelude
begin

text \<open>
  \<open>infra/infra_timer.c\<close>: the millisecond timers every protocol of the SDK uses. A timer
  holds the low 32 bits of an uptime; the platform's clock \<open>HAL_UptimeMs\<close> is 64 bits
  wide and is an argument here (\<open>now\<close>; two arguments where the code reads it twice).
  The NULL pointer is \<open>None\<close>. The lemmas show that the unsigned arithmetic measures
  elapsed time correctly although the 32-bit value wraps every 49.7 days, and for how
  long an expired timer stays expired.
\<close>

record iotx_time_t =
  time :: u32

definition HAL_UptimeMs_32 :: "u64 \<Rightarrow> u32" where
  "HAL_UptimeMs_32 now = ucast now"

definition iotx_time_start :: "u64 \<Rightarrow> iotx_time_t option \<Rightarrow> iotx_time_t option" where
  "iotx_time_start now timer =
     (case timer of None \<Rightarrow> None | Some t \<Rightarrow> Some (t\<lparr>time := HAL_UptimeMs_32 now\<rparr>))"

definition utils_time_spend :: "u64 \<Rightarrow> iotx_time_t option \<Rightarrow> u32" where
  "utils_time_spend now start =
     (case start of None \<Rightarrow> 0 | Some t \<Rightarrow> HAL_UptimeMs_32 now - time t)"

text \<open>\<open>UINT32_MAX / 2\<close>.\<close>

definition half_range :: u32 where
  "half_range = 2147483647"

definition utils_time_is_expired :: "u64 \<Rightarrow> iotx_time_t option \<Rightarrow> u32" where
  "utils_time_is_expired now timer =
     (case timer of
        None \<Rightarrow> 1
      | Some t \<Rightarrow>
          let cur_time = HAL_UptimeMs_32 now
          in if cur_time - time t < half_range then 1 else 0)"

definition iotx_time_left :: "u64 \<Rightarrow> u64 \<Rightarrow> iotx_time_t option \<Rightarrow> u32" where
  "iotx_time_left now now' end_t =
     (case end_t of
        None \<Rightarrow> 0
      | Some t \<Rightarrow>
          if utils_time_is_expired now end_t \<noteq> 0 then 0
          else time t - HAL_UptimeMs_32 now')"

definition iotx_time_init :: "iotx_time_t option \<Rightarrow> iotx_time_t option" where
  "iotx_time_init timer = (case timer of None \<Rightarrow> None | Some t \<Rightarrow> Some (t\<lparr>time := 0\<rparr>))"

definition utils_time_countdown_ms ::
    "u64 \<Rightarrow> iotx_time_t option \<Rightarrow> u32 \<Rightarrow> iotx_time_t option" where
  "utils_time_countdown_ms now timer millisecond =
     (case timer of
        None \<Rightarrow> None
      | Some t \<Rightarrow> Some (t\<lparr>time := ucast (now + ucast millisecond)\<rparr>))"

definition utils_time_get_ms :: "u64 \<Rightarrow> u32" where
  "utils_time_get_ms now = HAL_UptimeMs_32 now"

section \<open>Arithmetic modulo the width of the clock\<close>

lemma ucast_add_32: "(ucast (a + b :: u64) :: u32) = ucast a + ucast b"
  by (rule word_uint_eqI)
    (simp add: unsigned_ucast_eq uint_word_ariths take_bit_eq_mod mod_mod_cancel mod_add_eq)

lemma ucast_of_u32 [simp]: "(ucast (ucast (ms :: u32) :: u64) :: u32) = ms"
  by transfer simp

lemma unat_ucast_small: "unat (e :: u64) < 2 ^ 32 \<Longrightarrow> unat (ucast e :: u32) = unat e"
  by (simp add: unsigned_ucast_eq take_bit_nat_eq_self)

text \<open>What the expiry test subtracts: the elapsed time minus the interval.\<close>

lemma countdown_difference [c_arith]:
  "HAL_UptimeMs_32 (t + e) - ucast (t + ucast ms) = (ucast e :: u32) - ms"
  by (simp add: HAL_UptimeMs_32_def ucast_add_32)

lemma below_half_range:
  assumes "unat ms \<le> 2 ^ 31 + 1" and "unat d < unat ms + (2 ^ 31 - 1)" and "unat d < 2 ^ 32"
  shows "(d :: u32) - ms < half_range \<longleftrightarrow> unat ms \<le> unat d"
proof (cases "unat ms \<le> unat d")
  case True
  then have "unat (d - ms) = unat d - unat ms"
    by (simp add: unat_sub word_le_nat_alt)
  with assms(2) True show ?thesis
    by (simp add: word_less_nat_alt half_range_def)
next
  case False
  then have "unat (d - ms) = 2 ^ 32 - (unat ms - unat d)"
    using unsigned_less [of ms] by (simp add: unat_sub_if_size word_size)
  with assms(1) False show ?thesis
    by (simp add: word_less_nat_alt half_range_def)
qed

lemma countdown_expired:
  assumes "unat ms \<le> 2 ^ 31 + 1" and "unat e < unat ms + (2 ^ 31 - 1)"
  shows "utils_time_is_expired (t + e) (utils_time_countdown_ms t (Some tm) ms)
           = (if unat ms \<le> unat e then 1 else 0)"
proof -
  have small: "unat e < 2 ^ 32" using assms by simp
  have "(ucast e :: u32) - ms < half_range \<longleftrightarrow> unat ms \<le> unat e"
    using below_half_range [of ms "ucast e"] assms unat_ucast_small [OF small] small by simp
  then show ?thesis
    by (simp add: utils_time_is_expired_def utils_time_countdown_ms_def countdown_difference)
qed

lemma countdown_left:
  assumes "unat ms \<le> 2 ^ 31 + 1" and "unat e < unat ms"
  shows "unat (iotx_time_left (t + e) (t + e) (utils_time_countdown_ms t (Some tm) ms))
           = unat ms - unat e"
proof -
  have "unat e < unat ms + (2 ^ 31 - 1)" and small: "unat e < 2 ^ 32" using assms by simp_all
  then have "utils_time_is_expired (t + e) (utils_time_countdown_ms t (Some tm) ms) = 0"
    using countdown_expired assms by simp
  moreover have "ucast (t + ucast ms) - HAL_UptimeMs_32 (t + e) = ms - (ucast e :: u32)"
    by (simp add: HAL_UptimeMs_32_def ucast_add_32)
  moreover have "unat (ms - ucast e) = unat ms - unat e"
    using assms(2) unat_ucast_small [OF small] by (simp add: unat_sub word_le_nat_alt)
  ultimately show ?thesis
    by (simp add: iotx_time_left_def utils_time_countdown_ms_def)
qed

lemma time_spent: "utils_time_spend (t + e) (iotx_time_start t (Some tm)) = ucast e"
  by (simp add: utils_time_spend_def iotx_time_start_def HAL_UptimeMs_32_def ucast_add_32)

text \<open>
  Property C39: a countdown of at most 2147483649 ms started at any uptime is reported as
  expired exactly when the interval has passed, and the time left is what is missing of
  the interval, as long as it is polled within 2147483647 ms after its end; the wrap of
  the 32-bit clock in between does not matter.
\<close>

theorem countdown_timer_correct:
  assumes "unat ms \<le> 2 ^ 31 + 1" and "unat e < unat ms + (2 ^ 31 - 1)"
  shows "utils_time_is_expired (t + e) (utils_time_countdown_ms t (Some tm) ms)
           = (if unat ms \<le> unat e then 1 else 0)
       \<and> unat (iotx_time_left (t + e) (t + e) (utils_time_countdown_ms t (Some tm) ms))
           = unat ms - unat e"
proof (cases "unat ms \<le> unat e")
  case True
  with countdown_expired [OF assms] have
    "utils_time_is_expired (t + e) (utils_time_countdown_ms t (Some tm) ms) = 1" by simp
  moreover from this have
    "iotx_time_left (t + e) (t + e) (utils_time_countdown_ms t (Some tm) ms) = 0"
    by (simp add: iotx_time_left_def utils_time_countdown_ms_def)
  ultimately show ?thesis using True by simp
next
  case False
  then show ?thesis using countdown_expired [OF assms] countdown_left [OF assms(1)] by simp
qed

theorem countdown_timer_correct_witness:
  "utils_time_is_expired (18446744073709551000 + 1999)
     (utils_time_countdown_ms 18446744073709551000 (Some \<lparr>time = 7\<rparr>) 2000) = 0
   \<and> unat (iotx_time_left (18446744073709551000 + 1999) (18446744073709551000 + 1999)
     (utils_time_countdown_ms 18446744073709551000 (Some \<lparr>time = 7\<rparr>) 2000)) = 1"
  using countdown_timer_correct [of 2000 1999 18446744073709551000 "\<lparr>time = 7\<rparr>"] by simp

text \<open>
  An expired timer that nobody polls for 2147483647 ms more counts as running again: the
  comparison is only meaningful within half the range of the clock.
\<close>

lemma countdown_reverts:
  "utils_time_is_expired (t + 2147484647) (utils_time_countdown_ms t (Some tm) 1000) = 0"
proof -
  have "HAL_UptimeMs_32 (t + 2147484647) - ucast (t + ucast (1000 :: u32))
          = (ucast (2147484647 :: u64) :: u32) - 1000"
    by (rule countdown_difference)
  also have "\<dots> = 2147483647" by simp
  finally show ?thesis
    unfolding utils_time_is_expired_def utils_time_countdown_ms_def half_range_def Let_def
    by simp
qed

end
