(* ===== verification/Mqtt_Client.thy ===== *)
theory Mqtt_Client
  imports Mqtt_Codec Mqtt_Topic Infra_Timer
begin

text \<open>
  The MQTT client's state (\<open>mqtt/iotx_mqtt_client.h\<close>, struct \<open>Client\<close>) and the lowest layer
  of \<open>mqtt/iotx_mqtt_client.c\<close>: the platform it runs on, timers, the dynamic buffers,
  sending, the connection parameters and the initialisation. The configuration is the one
  of the repository: dynamic memory, dynamic buffers (\<open>WITH_MQTT_DYN_BUF\<close>), QoS 1
  (\<open>WITH_MQTT_ONLY_QOS0\<close> off), no topic compression, no asynchronous protocol stack.

  A client is a value here, so the tests \<open>if (!c)\<close> at the head of the functions, which
  return before they touch any state, have no counterpart. Mutexes protect against other
  threads and do nothing in a single one; they are left out.
\<close>

section \<open>Return codes and constants\<close>

abbreviation "NULL_VALUE_ERROR \<equiv> -2 :: int"
abbreviation "MQTT_PUBLISH_ACK_TYPE_ERROR \<equiv> -13 :: int"
abbreviation "MQTT_NETWORK_ERROR \<equiv> -14 :: int"
abbreviation "MQTT_UNSUBSCRIBE_ACK_PACKET_ERROR \<equiv> -15 :: int"
abbreviation "MQTT_PUBLISH_ACK_PACKET_ERROR \<equiv> -19 :: int"
abbreviation "MQTT_PUBLISH_QOS_ERROR \<equiv> -20 :: int"
abbreviation "MQTT_PUBLISH_PACKET_ERROR \<equiv> -21 :: int"
abbreviation "MQTT_UNSUBSCRIBE_PACKET_ERROR \<equiv> -22 :: int"
abbreviation "MQTT_SUBSCRIBE_ACK_PACKET_ERROR \<equiv> -25 :: int"
abbreviation "MQTT_SUBSCRIBE_PACKET_ERROR \<equiv> -26 :: int"
abbreviation "MQTT_STATE_ERROR \<equiv> -27 :: int"
abbreviation "MQTT_NETWORK_CONNECT_ERROR \<equiv> -28 :: int"
abbreviation "MQTT_CONNECT_ACK_PACKET_ERROR \<equiv> -29 :: int"
abbreviation "MQTT_CONNECT_PACKET_ERROR \<equiv> -30 :: int"
abbreviation "MQTT_PING_PACKET_ERROR \<equiv> -31 :: int"
abbreviation "MQTT_CONNECT_ERROR \<equiv> -33 :: int"
abbreviation "MQTT_CONNACK_NOT_AUTHORIZED_ERROR \<equiv> -34 :: int"
abbreviation "MQTT_CONNACK_BAD_USERDATA_ERROR \<equiv> -35 :: int"
abbreviation "MQTT_CONNACK_SERVER_UNAVAILABLE_ERROR \<equiv> -36 :: int"
abbreviation "MQTT_CONNACK_IDENTIFIER_REJECTED_ERROR \<equiv> -37 :: int"
abbreviation "MQTT_CONANCK_UNACCEPTABLE_PROTOCOL_VERSION_ERROR \<equiv> -38 :: int"
abbreviation "MQTT_CONNACK_UNKNOWN_ERROR \<equiv> -39 :: int"
abbreviation "MQTT_TOPIC_FORMAT_ERROR \<equiv> -41 :: int"
abbreviation "MQTT_PUSH_TO_LIST_ERROR \<equiv> -42 :: int"
abbreviation "MQTT_CONNECT_BLOCK \<equiv> -44 :: int"
abbreviation "ERROR_CERT_VERIFY_FAIL \<equiv> -309 :: int"
abbreviation "ERROR_MALLOC \<equiv> -1014 :: int"
abbreviation "ERROR_CERTIFICATE_EXPIRED \<equiv> -1015 :: int"

abbreviation "IOTX_MC_REPUB_NUM_MAX \<equiv> 20 :: nat"
abbreviation "IOTX_MC_PACKET_ID_MAX \<equiv> 65535 :: u32"
abbreviation "IOTX_MC_RECONNECT_INTERVAL_MIN_MS \<equiv> 1000 :: u32"
abbreviation "IOTX_MC_RECONNECT_INTERVAL_MAX_MS \<equiv> 60000 :: u32"
abbreviation "IOTX_MC_KEEPALIVE_PROBE_MAX \<equiv> 1 :: u8"
abbreviation "IOTX_MC_MQTT_VERSION \<equiv> 4 :: u8"
abbreviation "MQTT_DYNBUF_SEND_MARGIN \<equiv> 64 :: int"
abbreviation "MQTT_DYNBUF_RECV_MARGIN \<equiv> 8 :: int"
abbreviation "CONFIG_MQTT_KEEPALIVE_INTERVAL \<equiv> 60 :: u16"
abbreviation "CONFIG_MQTT_KEEPALIVE_INTERVAL_MIN \<equiv> 30 :: u16"
abbreviation "CONFIG_MQTT_KEEPALIVE_INTERVAL_MAX \<equiv> 180 :: u16"
abbreviation "CONFIG_MQTT_REQUEST_TIMEOUT \<equiv> 2000 :: u32"
abbreviation "CONFIG_MQTT_REQ_TIMEOUT_MIN \<equiv> 500 :: u32"
abbreviation "CONFIG_MQTT_REQ_TIMEOUT_MAX \<equiv> 5000 :: u32"
abbreviation "MUTLI_SUBSCIRBE_MAX \<equiv> 5 :: int"

section \<open>The client\<close>

datatype iotx_mc_state_t =
    IOTX_MC_STATE_INVALID
  | IOTX_MC_STATE_INITIALIZED
  | IOTX_MC_STATE_CONNECTED
  | IOTX_MC_STATE_DISCONNECTED
  | IOTX_MC_STATE_DISCONNECTED_RECONNECTING
  | IOTX_MC_STATE_CONNECT_BLOCK

datatype iotx_mqtt_event_type_t =
    IOTX_MQTT_EVENT_UNDEF
  | IOTX_MQTT_EVENT_DISCONNECT
  | IOTX_MQTT_EVENT_RECONNECT
  | IOTX_MQTT_EVENT_SUBCRIBE_SUCCESS
  | IOTX_MQTT_EVENT_SUBCRIBE_TIMEOUT
  | IOTX_MQTT_EVENT_SUBCRIBE_NACK
  | IOTX_MQTT_EVENT_UNSUBCRIBE_SUCCESS
  | IOTX_MQTT_EVENT_UNSUBCRIBE_TIMEOUT
  | IOTX_MQTT_EVENT_UNSUBCRIBE_NACK
  | IOTX_MQTT_EVENT_PUBLISH_SUCCESS
  | IOTX_MQTT_EVENT_PUBLISH_TIMEOUT
  | IOTX_MQTT_EVENT_PUBLISH_NACK
  | IOTX_MQTT_EVENT_PUBLISH_RECEIVED
  | IOTX_MQTT_EVENT_BUFFER_OVERFLOW

record iotx_mqtt_topic_info_t =
  ti_packet_id :: u16
  ti_qos :: u8
  ti_dup :: u8
  ti_retain :: u8
  ti_topic_len :: u16
  ti_payload_len :: u32
  ti_ptopic :: "bytes option"
  ti_payload :: "bytes option"

text \<open>What \<open>msg\<close> of an event carries.\<close>

datatype event_detail = NoDetail | PacketId int | TopicInfo iotx_mqtt_topic_info_t | Detail bytes

text \<open>A callback: the function (its address) and its context.\<close>

record iotx_mqtt_event_handle_t =
  h_fp :: "nat option"
  pcontext :: nat

text \<open>
  What the outside sees, in order: the bytes the network took, the callbacks, the pauses
  and the connections. A callback is recorded and does not call back into the client.
\<close>

datatype observation =
    Sent bytes
  | Callback nat nat iotx_mqtt_event_type_t event_detail
  | Slept int
  | NetConnect int
  | NetDisconnect

record iotx_mc_topic_handle_t =
  th_handle :: iotx_mqtt_event_handle_t
  topic_filter :: bytes

datatype iotx_mc_node_t = IOTX_MC_NODE_STATE_NORMANL | IOTX_MC_NODE_STATE_INVALID

record iotx_mc_pub_info_t =
  pub_start_time :: iotx_time_t
  node_state :: iotx_mc_node_t
  msg_id :: u16
  pi_len :: u32
  pi_buf :: bytes

record iotx_mc_reconnect_param_t =
  reconnect_next_time :: iotx_time_t
  reconnect_time_interval_ms :: u32

record mqtt_sub_sync_node_t =
  ss_packet_id :: int
  ack_type :: iotx_mqtt_event_type_t

text \<open>
  The struct \<open>Client\<close> without its locks, and behind it the static flag
  \<open>_in_yield_cb\<close>, the numbers of platform calls made and of bytes received so far, and the
  observations.
\<close>

record iotx_mc_client_t =
  packet_id :: u32
  request_timeout_ms :: u32
  cycle_timeout_ms :: u32
  buf_size_send :: u32
  buf_size_send_max :: u32
  buf_size_read_max :: u32
  buf_size_read :: u32
  keepalive_probes :: u8
  buf_send :: "bytes option"
  buf_read :: "bytes option"
  list_sub_handle :: "iotx_mc_topic_handle_t list"
  next_ping_time :: iotx_time_t
  ping_mark :: int
  client_state :: iotx_mc_state_t
  reconnect_param :: iotx_mc_reconnect_param_t
  connect_data :: MQTTPacket_connectData
  list_pub_wait_ack :: "iotx_mc_pub_info_t list"
  list_sub_sync_ack :: "mqtt_sub_sync_node_t list"
  handle_event :: iotx_mqtt_event_handle_t
  in_yield_cb :: int
  hal_calls :: nat
  rx_count :: nat
  observed :: "observation list"

section \<open>The platform\<close>

text \<open>
  The functions of the platform, as oracles: what the n-th call of the platform returns.
  A read (which also knows how many bytes were delivered before) delivers the bytes it read
  or, if there are none, a code that is 0 or negative; a write delivers the number of bytes
  the network took or a negative code.
\<close>

record platform =
  clock :: "nat \<Rightarrow> u64"
  malloc_ok :: "nat \<Rightarrow> u32 \<Rightarrow> bool"
  net_write :: "nat \<Rightarrow> bytes \<Rightarrow> u32 \<Rightarrow> int"
  net_read :: "nat \<Rightarrow> nat \<Rightarrow> nat \<Rightarrow> u32 \<Rightarrow> int + bytes"
  net_connect :: "nat \<Rightarrow> int"
  mutex_ok :: "nat \<Rightarrow> bool"

definition hal_call :: "iotx_mc_client_t \<Rightarrow> iotx_mc_client_t" where
  "hal_call c = c\<lparr>hal_calls := Suc (hal_calls c)\<rparr>"

definition observe :: "observation \<Rightarrow> iotx_mc_client_t \<Rightarrow> iotx_mc_client_t" where
  "observe ob c = c\<lparr>observed := observed c @ [ob]\<rparr>"

definition HAL_UptimeMs :: "platform \<Rightarrow> iotx_mc_client_t \<Rightarrow> u64 \<times> iotx_mc_client_t" where
  "HAL_UptimeMs P c = (clock P (hal_calls c), hal_call c)"

definition HAL_Malloc :: "platform \<Rightarrow> u32 \<Rightarrow> iotx_mc_client_t \<Rightarrow> bool \<times> iotx_mc_client_t" where
  "HAL_Malloc P sz c = (malloc_ok P (hal_calls c) sz, hal_call c)"

definition HAL_SleepMs :: "int \<Rightarrow> iotx_mc_client_t \<Rightarrow> iotx_mc_client_t" where
  "HAL_SleepMs ms c = observe (Slept ms) (hal_call c)"

definition ipstack_disconnect :: "iotx_mc_client_t \<Rightarrow> iotx_mc_client_t" where
  "ipstack_disconnect c = observe NetDisconnect (hal_call c)"

definition ipstack_connect :: "platform \<Rightarrow> iotx_mc_client_t \<Rightarrow> int \<times> iotx_mc_client_t" where
  "ipstack_connect P c =
     (let rc = net_connect P (hal_calls c) in (rc, observe (NetConnect rc) (hal_call c)))"

text \<open>Bytes the network took are observed; the network takes no more than it is offered.\<close>

definition ipstack_write :: "platform \<Rightarrow> bytes \<Rightarrow> u32 \<Rightarrow> iotx_mc_client_t \<Rightarrow> int \<times> iotx_mc_client_t" where
  "ipstack_write P data timeout c =
     (let rc = net_write P (hal_calls c) data timeout;
          c = hal_call c
      in (rc, if rc > 0 then observe (Sent (take (nat rc) data)) c else c))"

text \<open>
  A read of \<open>len\<close> bytes to offset \<open>off\<close> of the object \<open>buf\<close>: a write outside of it has no
  defined result. The result is the return code and the object.
\<close>

definition ipstack_read ::
    "platform \<Rightarrow> bytes \<Rightarrow> nat \<Rightarrow> nat \<Rightarrow> u32 \<Rightarrow> iotx_mc_client_t \<Rightarrow> (int \<times> bytes \<times> iotx_mc_client_t) option" where
  "ipstack_read P buf off len timeout c =
     (case net_read P (hal_calls c) (rx_count c) len timeout of
        Inl e \<Rightarrow> if e \<le> 0 then Some (e, buf, hal_call c) else None
      | Inr d \<Rightarrow> if off + length d \<le> length buf
                 then Some (int (length d), take off buf @ d @ drop (off + length d) buf,
                            (hal_call c)\<lparr>rx_count := rx_count c + length d\<rparr>)
                 else None)"

section \<open>Timers\<close>

text \<open>The functions of \<open>infra_timer.c\<close> with the clock of the platform.\<close>

definition mc_countdown_ms ::
    "platform \<Rightarrow> iotx_time_t \<Rightarrow> u32 \<Rightarrow> iotx_mc_client_t \<Rightarrow> iotx_time_t \<times> iotx_mc_client_t" where
  "mc_countdown_ms P t ms c =
     (let (now, c) = HAL_UptimeMs P c
      in case utils_time_countdown_ms now (Some t) ms of None \<Rightarrow> (t, c) | Some t' \<Rightarrow> (t', c))"

definition mc_time_start ::
    "platform \<Rightarrow> iotx_time_t \<Rightarrow> iotx_mc_client_t \<Rightarrow> iotx_time_t \<times> iotx_mc_client_t" where
  "mc_time_start P t c =
     (let (now, c) = HAL_UptimeMs P c
      in case iotx_time_start now (Some t) of None \<Rightarrow> (t, c) | Some t' \<Rightarrow> (t', c))"

definition mc_time_spend :: "platform \<Rightarrow> iotx_time_t \<Rightarrow> iotx_mc_client_t \<Rightarrow> u32 \<times> iotx_mc_client_t" where
  "mc_time_spend P t c =
     (let (now, c) = HAL_UptimeMs P c in (utils_time_spend now (Some t), c))"

definition mc_time_is_expired ::
    "platform \<Rightarrow> iotx_time_t \<Rightarrow> iotx_mc_client_t \<Rightarrow> bool \<times> iotx_mc_client_t" where
  "mc_time_is_expired P t c =
     (let (now, c) = HAL_UptimeMs P c in (utils_time_is_expired now (Some t) \<noteq> 0, c))"

text \<open>\<open>iotx_time_left\<close> reads the clock a second time only if the timer has not expired.\<close>

definition mc_time_left :: "platform \<Rightarrow> iotx_time_t \<Rightarrow> iotx_mc_client_t \<Rightarrow> u32 \<times> iotx_mc_client_t" where
  "mc_time_left P t c =
     (let (now, c) = HAL_UptimeMs P c
      in if utils_time_is_expired now (Some t) \<noteq> 0 then (iotx_time_left now now (Some t), c)
         else let (now', c) = HAL_UptimeMs P c in (iotx_time_left now now' (Some t), c))"

text \<open>\<open>left_t = iotx_time_left(timer); left_t = (left_t == 0) ? 1 : left_t\<close>.\<close>

definition mc_left_or_1 :: "platform \<Rightarrow> iotx_time_t \<Rightarrow> iotx_mc_client_t \<Rightarrow> u32 \<times> iotx_mc_client_t" where
  "mc_left_or_1 P t c =
     (let (left_t, c) = mc_time_left P t c in (if left_t = 0 then 1 else left_t, c))"

text \<open>An uninitialised \<open>iotx_time_t\<close> after \<open>iotx_time_init\<close>.\<close>

definition fresh_timer :: iotx_time_t where
  "fresh_timer = \<lparr>time = 0\<rparr>"

section \<open>State and callbacks\<close>

definition iotx_mc_set_client_state :: "iotx_mc_state_t \<Rightarrow> iotx_mc_client_t \<Rightarrow> iotx_mc_client_t" where
  "iotx_mc_set_client_state newState c = c\<lparr>client_state := newState\<rparr>"

definition iotx_mc_get_client_state :: "iotx_mc_client_t \<Rightarrow> iotx_mc_state_t" where
  "iotx_mc_get_client_state c = client_state c"

definition wrapper_mqtt_check_state :: "iotx_mc_client_t \<Rightarrow> int" where
  "wrapper_mqtt_check_state c =
     (if iotx_mc_get_client_state c = IOTX_MC_STATE_CONNECTED then 1 else 0)"

text \<open>The flag \<open>_in_yield_cb\<close> is 1 while the callback runs.\<close>

definition handle_event_call ::
    "iotx_mqtt_event_handle_t \<Rightarrow> iotx_mqtt_event_type_t \<Rightarrow> event_detail \<Rightarrow> iotx_mc_client_t
      \<Rightarrow> int \<times> iotx_mc_client_t" where
  "handle_event_call handle ty msg c =
     (case h_fp handle of
        None \<Rightarrow> (FAIL_RETURN, c)
      | Some fp \<Rightarrow>
          let c = c\<lparr>in_yield_cb := 1\<rparr>;
              c = observe (Callback fp (pcontext handle) ty msg) c;
              c = c\<lparr>in_yield_cb := 0\<rparr>
          in (0, c))"

text \<open>\<open>if (NULL != c->handle_event.h_fp) { ... _handle_event(&c->handle_event, c, &msg); }\<close>\<close>

definition notify :: "iotx_mqtt_event_type_t \<Rightarrow> event_detail \<Rightarrow> iotx_mc_client_t \<Rightarrow> iotx_mc_client_t" where
  "notify ty msg c =
     (if h_fp (handle_event c) \<noteq> None then snd (handle_event_call (handle_event c) ty msg c) else c)"

section \<open>Buffers\<close>

definition get_connect_length :: "MQTTPacket_connectData \<Rightarrow> int" where
  "get_connect_length options = MQTTPacket_len (MQTTSerialize_connectLength options)"

definition reset_send_buffer :: "iotx_mc_client_t \<Rightarrow> int \<times> iotx_mc_client_t" where
  "reset_send_buffer c =
     (if buf_send c = None then (FAIL_RETURN, c)
      else (0, c\<lparr>buf_send := None, buf_size_send := 0\<rparr>))"

definition reset_recv_buffer :: "iotx_mc_client_t \<Rightarrow> int \<times> iotx_mc_client_t" where
  "reset_recv_buffer c =
     (if buf_read c = None then (FAIL_RETURN, c)
      else (0, c\<lparr>buf_read := None, buf_size_read := 0\<rparr>))"

text \<open>
  \<open>tmp_len\<close> is an \<open>int\<close> that is compared with the unsigned limit: its unsigned value decides.
\<close>

definition alloc_size :: "int \<Rightarrow> u32 \<Rightarrow> u32 option" where
  "alloc_size len limit =
     do { tmp_len \<leftarrow> c_int len;
          Some (if (word_of_int tmp_len :: u32) > limit then limit else word_of_int tmp_len) }"

definition alloc_send_buffer ::
    "platform \<Rightarrow> int \<Rightarrow> iotx_mc_client_t \<Rightarrow> (int \<times> iotx_mc_client_t) option" where
  "alloc_send_buffer P len c =
     do { tmp_len \<leftarrow> alloc_size (MQTT_DYNBUF_SEND_MARGIN + len) (buf_size_send_max c);
          let (ok, c) = HAL_Malloc P tmp_len (c\<lparr>buf_send := None\<rparr>)
          in if \<not> ok then Some (ERROR_MALLOC, c)
             else Some (SUCCESS_RETURN,
                        c\<lparr>buf_send := Some (replicate (unat tmp_len) 0), buf_size_send := tmp_len\<rparr>) }"

text \<open>An existing buffer is reallocated: its bytes are copied as far as they fit.\<close>

definition alloc_recv_buffer ::
    "platform \<Rightarrow> int \<Rightarrow> iotx_mc_client_t \<Rightarrow> (int \<times> iotx_mc_client_t) option" where
  "alloc_recv_buffer P len c =
     do { tmp_len \<leftarrow> alloc_size (MQTT_DYNBUF_RECV_MARGIN + len) (buf_size_read_max c);
          let (ok, c) = HAL_Malloc P tmp_len c
          in if \<not> ok then Some (ERROR_MALLOC, c)
             else case buf_read c of
                    Some old \<Rightarrow>
                      do { let n = (if buf_size_read c < tmp_len then buf_size_read c else tmp_len);
                           copied \<leftarrow> mem_slice old 0 (unat n);
                           Some (SUCCESS_RETURN,
                             c\<lparr>buf_read := Some (copied @ replicate (unat tmp_len - unat n) 0),
                               buf_size_read := tmp_len\<rparr>) }
                  | None \<Rightarrow> Some (SUCCESS_RETURN,
                             c\<lparr>buf_read := Some (replicate (unat tmp_len) 0), buf_size_read := tmp_len\<rparr>) }"

text \<open>
  What a serializer leaves in the send buffer: its bytes at the start. Writing more than the
  buffer holds has no defined result. The result is the length, or the error code.
\<close>

definition store_packet :: "serialized \<Rightarrow> iotx_mc_client_t \<Rightarrow> (int \<times> iotx_mc_client_t) option" where
  "store_packet res c =
     do { r \<leftarrow> res;
          case r of
            Inl e \<Rightarrow> Some (e, c)
          | Inr out \<Rightarrow>
              do { buf \<leftarrow> buf_send c;
                   if length out \<le> length buf
                   then Some (int (length out), c\<lparr>buf_send := Some (out @ drop (length out) buf)\<rparr>)
                   else None } }"

section \<open>Sending\<close>

partial_function (option) send_loop ::
    "platform \<Rightarrow> bytes \<Rightarrow> int \<Rightarrow> iotx_time_t \<Rightarrow> int \<Rightarrow> iotx_mc_client_t \<Rightarrow> (int \<times> iotx_mc_client_t) option"
where
  "send_loop pl buf len timer sent c =
     (if \<not> sent < len then Some (sent, c)
      else let (expired, c) = mc_time_is_expired pl timer c in
        if expired then Some (sent, c)
        else let (left_t, c) = mc_left_or_1 pl timer c in
          do { data \<leftarrow> mem_slice buf (nat sent) (nat (len - sent));
               let (rc, c) = ipstack_write pl data left_t c in
               if rc < 0 then Some (sent, c)
               else do { sent \<leftarrow> c_int (sent + rc); send_loop pl buf len timer sent c } })"

declare send_loop.simps [code]

definition iotx_mc_send_packet ::
    "platform \<Rightarrow> bytes option \<Rightarrow> int \<Rightarrow> iotx_time_t \<Rightarrow> iotx_mc_client_t \<Rightarrow> (int \<times> iotx_mc_client_t) option"
where
  "iotx_mc_send_packet P buf len timer c =
     (case buf of
        None \<Rightarrow> Some (FAIL_RETURN, c)
      | Some b \<Rightarrow> do { (sent, c) \<leftarrow> send_loop P b len timer 0 c;
                       Some (if sent = len then SUCCESS_RETURN else MQTT_NETWORK_ERROR, c) })"

section \<open>Initialisation\<close>

definition iotx_mc_set_connect_params ::
    "MQTTPacket_connectData \<Rightarrow> iotx_mc_client_t \<Rightarrow> int \<times> iotx_mc_client_t" where
  "iotx_mc_set_connect_params pConnectParams c =
     (let cd = pConnectParams
          \<lparr>keepAliveInterval :=
             (if keepAliveInterval pConnectParams < CONFIG_MQTT_KEEPALIVE_INTERVAL_MIN
              then CONFIG_MQTT_KEEPALIVE_INTERVAL
              else if keepAliveInterval pConnectParams > CONFIG_MQTT_KEEPALIVE_INTERVAL_MAX
              then CONFIG_MQTT_KEEPALIVE_INTERVAL
              else keepAliveInterval pConnectParams)\<rparr>
      in (SUCCESS_RETURN, c\<lparr>connect_data := cd\<rparr>))"

record iotx_mqtt_param_t =
  ip_port :: u16
  ip_host :: "bytes option"
  ip_client_id :: "bytes option"
  ip_username :: "bytes option"
  ip_password :: "bytes option"
  ip_clean_session :: u8
  ip_request_timeout_ms :: u32
  ip_keepalive_interval_ms :: u32
  ip_write_buf_size :: u32
  ip_read_buf_size :: u32
  ip_handle_event :: iotx_mqtt_event_handle_t

definition MQTTPacket_connectData_initializer :: MQTTPacket_connectData where
  "MQTTPacket_connectData_initializer =
     \<lparr>MQTTVersion = 4, clientID = MQTTString_initializer,
      keepAliveInterval = CONFIG_MQTT_KEEPALIVE_INTERVAL_MIN, cleansession = 1, willFlag = 0,
      will = \<lparr>wo_topicName = MQTTString_initializer, wo_message = MQTTString_initializer,
              wo_retained = 0, wo_qos = 0\<rparr>,
      username = MQTTString_initializer, password = MQTTString_initializer\<rparr>"

text \<open>The five mutexes in the order they are created: generic, publish list, yield, write, read.\<close>

fun create_mutexes :: "nat \<Rightarrow> platform \<Rightarrow> iotx_mc_client_t \<Rightarrow> bool \<times> iotx_mc_client_t" where
  "create_mutexes 0 P c = (True, c)"
| "create_mutexes (Suc n) P c =
     (if mutex_ok P (hal_calls c) then create_mutexes n P (hal_call c) else (False, hal_call c))"

text \<open>The address \<open>iotx_net_init\<close> keeps is part of the platform; what it returns is not.\<close>

definition iotx_net_init :: "bytes option \<Rightarrow> int" where
  "iotx_net_init host = (if host = None then -1 else 0)"

definition init_connect_data :: "iotx_mqtt_param_t \<Rightarrow> MQTTPacket_connectData" where
  "init_connect_data ps = MQTTPacket_connectData_initializer
     \<lparr>MQTTVersion := IOTX_MC_MQTT_VERSION,
      keepAliveInterval := ucast (ip_keepalive_interval_ms ps div 1000),
      clientID := MQTTString_initializer\<lparr>cstring := ip_client_id ps\<rparr>,
      username := MQTTString_initializer\<lparr>cstring := ip_username ps\<rparr>,
      password := MQTTString_initializer\<lparr>cstring := ip_password ps\<rparr>,
      cleansession := ip_clean_session ps\<rparr>"

definition iotx_mc_init ::
    "platform \<Rightarrow> iotx_mqtt_param_t \<Rightarrow> iotx_mc_client_t \<Rightarrow> int \<times> iotx_mc_client_t" where
  "iotx_mc_init P ps c =
     (if ip_write_buf_size ps = 0 \<or> ip_read_buf_size ps = 0 then (NULL_VALUE_ERROR, c)
      else
        let (generic, c) = create_mutexes 1 P c in
        if \<not> generic then (FAIL_RETURN, c)
        else
          let (locks, c) = create_mutexes 4 P c in
          if \<not> locks then (FAIL_RETURN, iotx_mc_set_client_state IOTX_MC_STATE_INVALID c)
          else
            let c = c\<lparr>request_timeout_ms :=
                    (if ip_request_timeout_ms ps < CONFIG_MQTT_REQ_TIMEOUT_MIN
                        \<or> ip_request_timeout_ms ps > CONFIG_MQTT_REQ_TIMEOUT_MAX
                     then CONFIG_MQTT_REQUEST_TIMEOUT else ip_request_timeout_ms ps)\<rparr>;
                c = c\<lparr>buf_size_send_max := ip_write_buf_size ps,
                      buf_size_read_max := ip_read_buf_size ps,
                      keepalive_probes := 0,
                      handle_event := ip_handle_event ps\<rparr>;
                c = c\<lparr>reconnect_param := (reconnect_param c)
                        \<lparr>reconnect_time_interval_ms := IOTX_MC_RECONNECT_INTERVAL_MIN_MS\<rparr>\<rparr>;
                c = c\<lparr>list_pub_wait_ack := [], list_sub_handle := [], list_sub_sync_ack := []\<rparr>;
                (rc, c) = iotx_mc_set_connect_params (init_connect_data ps) c
            in if rc \<noteq> SUCCESS_RETURN then (rc, iotx_mc_set_client_state IOTX_MC_STATE_INVALID c)
               else
                 let c = c\<lparr>next_ping_time := fresh_timer\<rparr>;
                     c = c\<lparr>reconnect_param := (reconnect_param c)\<lparr>reconnect_next_time := fresh_timer\<rparr>\<rparr>;
                     rc = iotx_net_init (ip_host ps)
                 in if rc \<noteq> SUCCESS_RETURN then (rc, iotx_mc_set_client_state IOTX_MC_STATE_INVALID c)
                    else (SUCCESS_RETURN, iotx_mc_set_client_state IOTX_MC_STATE_INITIALIZED c))"

text \<open>The client after \<open>memset\<close>; the static and external state is taken from \<open>w\<close>.\<close>

definition blank_client :: iotx_mc_client_t where
  "blank_client =
     \<lparr>packet_id = 0, request_timeout_ms = 0, cycle_timeout_ms = 0, buf_size_send = 0,
      buf_size_send_max = 0, buf_size_read_max = 0, buf_size_read = 0, keepalive_probes = 0,
      buf_send = None, buf_read = None, list_sub_handle = [], next_ping_time = fresh_timer,
      ping_mark = 0, client_state = IOTX_MC_STATE_INVALID,
      reconnect_param = \<lparr>reconnect_next_time = fresh_timer, reconnect_time_interval_ms = 0\<rparr>,
      connect_data = MQTTPacket_connectData_initializer
        \<lparr>MQTTVersion := 0, keepAliveInterval := 0, cleansession := 0\<rparr>,
      list_pub_wait_ack = [], list_sub_sync_ack = [], handle_event = \<lparr>h_fp = None, pcontext = 0\<rparr>,
      in_yield_cb = 0, hal_calls = 0, rx_count = 0, observed = []\<rparr>"

definition zeroed_client :: "iotx_mc_client_t \<Rightarrow> iotx_mc_client_t" where
  "zeroed_client w = blank_client
     \<lparr>in_yield_cb := in_yield_cb w, hal_calls := hal_calls w, rx_count := rx_count w,
      observed := observed w\<rparr>"

text \<open>NULL (no memory, or the initialisation failed) is \<open>None\<close>.\<close>

definition wrapper_mqtt_init ::
    "platform \<Rightarrow> u32 \<Rightarrow> iotx_mqtt_param_t \<Rightarrow> iotx_mc_client_t \<Rightarrow> iotx_mc_client_t option" where
  "wrapper_mqtt_init P client_size ps w =
     (let (ok, w) = HAL_Malloc P client_size w in
      if \<not> ok then None
      else let (err, c) = iotx_mc_init P ps (zeroed_client w)
           in if err \<noteq> SUCCESS_RETURN then None else Some c)"

section \<open>What the layers below the protocol change\<close>

text \<open>
  \<open>env_step\<close>: only platform calls were made and observed. \<open>io_step\<close>: besides, the two
  buffers may have changed. Both let the client's protocol state alone, which is what
  the proofs about the layers above use.
\<close>

named_theorems frame \<open>the functions that only touch the buffers and the platform\<close>

definition io_step :: "iotx_mc_client_t \<Rightarrow> iotx_mc_client_t \<Rightarrow> bool" where
  "io_step c c' \<longleftrightarrow>
     packet_id c' = packet_id c \<and> request_timeout_ms c' = request_timeout_ms c
     \<and> cycle_timeout_ms c' = cycle_timeout_ms c \<and> buf_size_send_max c' = buf_size_send_max c
     \<and> buf_size_read_max c' = buf_size_read_max c \<and> keepalive_probes c' = keepalive_probes c
     \<and> list_sub_handle c' = list_sub_handle c \<and> next_ping_time c' = next_ping_time c
     \<and> ping_mark c' = ping_mark c \<and> client_state c' = client_state c
     \<and> reconnect_param c' = reconnect_param c \<and> connect_data c' = connect_data c
     \<and> list_pub_wait_ack c' = list_pub_wait_ack c \<and> list_sub_sync_ack c' = list_sub_sync_ack c
     \<and> handle_event c' = handle_event c \<and> in_yield_cb c' = in_yield_cb c"

definition env_step :: "iotx_mc_client_t \<Rightarrow> iotx_mc_client_t \<Rightarrow> bool" where
  "env_step c c' \<longleftrightarrow>
     io_step c c' \<and> buf_send c' = buf_send c \<and> buf_size_send c' = buf_size_send c
     \<and> buf_read c' = buf_read c \<and> buf_size_read c' = buf_size_read c"

lemma io_step_refl [simp, frame]: "io_step c c"
  by (simp add: io_step_def)

lemma env_step_refl [simp, frame]: "env_step c c"
  by (simp add: env_step_def)

lemma io_step_trans: "io_step c c' \<Longrightarrow> io_step c' c'' \<Longrightarrow> io_step c c''"
  by (simp add: io_step_def)

lemma env_step_trans: "env_step c c' \<Longrightarrow> env_step c' c'' \<Longrightarrow> env_step c c''"
  by (auto simp: env_step_def intro: io_step_trans)

lemma env_io_step: "env_step c c' \<Longrightarrow> io_step c c'"
  by (simp add: env_step_def)

lemmas env_defs = env_step_def io_step_def hal_call_def observe_def

lemma env_step_calls [frame]:
  "env_step c (hal_call c)" "env_step c (observe ob c)"
  "env_step c (HAL_SleepMs ms c)" "env_step c (ipstack_disconnect c)"
  by (simp_all add: env_defs HAL_SleepMs_def ipstack_disconnect_def)

lemma env_step_uptime: "HAL_UptimeMs P c = (now, c') \<Longrightarrow> env_step c c'"
  by (auto simp: HAL_UptimeMs_def env_defs)

lemma env_step_malloc: "HAL_Malloc P n c = (ok, c') \<Longrightarrow> env_step c c'"
  by (auto simp: HAL_Malloc_def env_defs)

lemma env_step_connect: "ipstack_connect P c = (rc, c') \<Longrightarrow> env_step c c'"
  by (auto simp: ipstack_connect_def env_defs Let_def)

lemma env_step_write: "ipstack_write P d t c = (rc, c') \<Longrightarrow> env_step c c'"
  by (auto simp: ipstack_write_def env_defs Let_def)

lemma env_step_read: "ipstack_read P buf off n t c = Some (rc, buf', c') \<Longrightarrow> env_step c c'"
  by (auto simp: ipstack_read_def env_defs split: sum.splits if_splits)

lemma env_step_timers:
  "mc_countdown_ms P t ms c = (t', c') \<Longrightarrow> env_step c c'"
  "mc_time_start P t c = (t', c') \<Longrightarrow> env_step c c'"
  "mc_time_spend P t c = (n, c') \<Longrightarrow> env_step c c'"
  "mc_time_is_expired P t c = (b, c') \<Longrightarrow> env_step c c'"
  "mc_time_left P t c = (n, c') \<Longrightarrow> env_step c c'"
  "mc_left_or_1 P t c = (n, c') \<Longrightarrow> env_step c c'"
  by (auto simp: mc_countdown_ms_def mc_time_start_def mc_time_spend_def mc_time_is_expired_def
      mc_time_left_def mc_left_or_1_def HAL_UptimeMs_def env_defs Let_def
      split: option.splits if_splits)

text \<open>All of them as destruction rules, to \<open>io_step\<close>.\<close>

lemmas env_steps = env_step_uptime env_step_malloc env_step_connect env_step_write env_step_read
  env_step_timers

lemmas io_steps = env_steps [THEN env_io_step]

lemma io_step_calls [frame]:
  "io_step c (hal_call c)" "io_step c (observe ob c)"
  "io_step c (HAL_SleepMs ms c)" "io_step c (ipstack_disconnect c)"
  by (rule env_io_step [OF env_step_calls(1)] env_io_step [OF env_step_calls(2)]
      env_io_step [OF env_step_calls(3)] env_io_step [OF env_step_calls(4)])+

lemma io_step_reset [frame]:
  "io_step c (snd (reset_send_buffer c))" "io_step c (snd (reset_recv_buffer c))"
  by (simp_all add: reset_send_buffer_def reset_recv_buffer_def io_step_def)

lemma io_step_alloc:
  "alloc_send_buffer P n c = Some (rc, c') \<Longrightarrow> io_step c c'"
  "alloc_recv_buffer P n c = Some (rc, c') \<Longrightarrow> io_step c c'"
  by (auto simp: alloc_send_buffer_def alloc_recv_buffer_def HAL_Malloc_def hal_call_def io_step_def
      Let_def split: Option.bind_splits if_splits option.splits)

lemma io_step_store: "store_packet res c = Some (rc, c') \<Longrightarrow> io_step c c'"
  by (auto simp: store_packet_def io_step_def split: Option.bind_splits sum.splits if_splits)

text \<open>
  Induction over the rounds of the sending loop: a property of the bytes sent, the client
  and the result that holds when the loop is left and is kept by every round.
\<close>

lemma send_loop_rule:
  assumes "send_loop P b len t s c = Some r"
    and leave: "\<And>s c c'. env_step c c' \<Longrightarrow> observed c' = observed c \<Longrightarrow> Q s c (s, c')"
    and round: "\<And>s c c1 lt d rc c2 r. \<lbrakk> s < len; env_step c c1; observed c1 = observed c;
        mem_slice b (nat s) (nat (len - s)) = Some d; ipstack_write P d lt c1 = (rc, c2);
        if rc < 0 then r = (s, c2) else Q (s + rc) c2 r \<rbrakk> \<Longrightarrow> Q s c r"
  shows "Q s c r"
proof (rule send_loop.raw_induct [where P = "\<lambda>P' b' len' t' s c r.
      P' = P \<and> b' = b \<and> len' = len \<and> t' = t \<longrightarrow> Q s c r", OF _ assms(1), rule_format])
  fix f P' b' len' t' s c r
  assume IH: "\<And>P' b' len' t' s c r. f P' b' len' t' s c = Some r \<Longrightarrow>
      P' = P \<and> b' = b \<and> len' = len \<and> t' = t \<Longrightarrow> Q s c r"
    and run: "(if \<not> s < len' then Some (s, c)
      else let (expired, c) = mc_time_is_expired P' t' c in
        if expired then Some (s, c)
        else let (left_t, c) = mc_left_or_1 P' t' c in
          do { data \<leftarrow> mem_slice b' (nat s) (nat (len' - s));
               let (rc, c) = ipstack_write P' data left_t c in
               if rc < 0 then Some (s, c)
               else do { sent \<leftarrow> c_int (s + rc); f P' b' len' t' sent c } }) = Some r"
    and eqs: "P' = P \<and> b' = b \<and> len' = len \<and> t' = t"
  obtain ex c1 where c1: "mc_time_is_expired P t c = (ex, c1)" by force
  obtain lt c2 where c2: "mc_left_or_1 P t c1 = (lt, c2)" by force
  have steps: "env_step c c1" "env_step c c2"
    using env_step_timers(4) [OF c1] env_step_timers(6) [OF c2] env_step_trans by blast+
  have obs: "observed c1 = observed c" "observed c2 = observed c"
    using c1 c2 by (auto simp: mc_time_is_expired_def mc_left_or_1_def mc_time_left_def
        HAL_UptimeMs_def hal_call_def Let_def split: if_splits)
  show "Q s c r"
  proof (cases "s < len \<and> \<not> ex")
    case False
    with run eqs c1 have "r = (s, c) \<or> r = (s, c1)" by (auto split: if_splits)
    with leave [OF env_step_refl refl, of s c] leave [OF steps(1) obs(1), of s] show ?thesis by auto
  next
    case True
    with run eqs c1 c2 obtain d where d: "mem_slice b (nat s) (nat (len - s)) = Some d"
      by (auto split: Option.bind_splits)
    obtain rc c3 where rc: "ipstack_write P d lt c2 = (rc, c3)" by force
    have "if rc < 0 then r = (s, c3) else f P b len t (s + rc) c3 = Some r"
      using run eqs True c1 c2 d rc by (auto split: Option.bind_splits)
    then have "if rc < 0 then r = (s, c3) else Q (s + rc) c3 r"
      using IH by auto
    with round [OF _ steps(2) obs(2) d rc] True show ?thesis by blast
  qed
qed simp

lemma env_step_send_loop: "send_loop P b len t s c = Some r \<Longrightarrow> env_step c (snd r)"
  by (erule send_loop_rule)
    (auto dest: env_step_write intro: env_step_trans split: if_splits)

text \<open>The send buffer after an allocation and after a packet was stored in it.\<close>

lemma alloc_send_buffer_size:
  "alloc_send_buffer P n c = Some (rc, c') \<Longrightarrow> \<not> rc < 0 \<Longrightarrow>
     \<exists>b. buf_send c' = Some b \<and> length b = unat (buf_size_send c') \<and> observed c' = observed c"
  by (auto simp: alloc_send_buffer_def HAL_Malloc_def hal_call_def Let_def
      split: Option.bind_splits if_splits)

lemma store_packet_result:
  assumes "store_packet res c = Some (len, c')" and "\<not> len \<le> 0" and "buf_send c = Some b"
    and "\<And>e. res = Some (Inl e) \<Longrightarrow> e \<le> 0"
  obtains out rest where "res = Some (Inr out)" "len = int (length out)" "buf_send c' = Some (out @ rest)"
    "length out \<le> length b" "buf_size_send c' = buf_size_send c" "observed c' = observed c"
  using assms by (force simp: store_packet_def split: Option.bind_splits sum.splits if_splits)

lemma env_step_send: "iotx_mc_send_packet P b len t c = Some (rc, c') \<Longrightarrow> env_step c c'"
  by (auto simp: iotx_mc_send_packet_def split: option.splits Option.bind_splits
      dest!: env_step_send_loop)

section \<open>What sending delivers\<close>

text \<open>The contract of the network: a write takes no more than it was offered.\<close>

definition writes_bounded :: "platform \<Rightarrow> bool" where
  "writes_bounded P \<longleftrightarrow> (\<forall>n d t. net_write P n d t \<le> int (length d))"

lemma ipstack_write_bounded:
  assumes "writes_bounded P" and "ipstack_write P d t c = (rc, c')"
  shows "rc \<le> int (length d)"
    and "0 \<le> rc \<Longrightarrow> \<exists>chunks. observed c' = observed c @ map Sent chunks \<and> concat chunks = take (nat rc) d"
proof -
  show "rc \<le> int (length d)"
    using assms by (auto simp: ipstack_write_def writes_bounded_def Let_def)
  assume rc: "0 \<le> rc"
  show "\<exists>chunks. observed c' = observed c @ map Sent chunks \<and> concat chunks = take (nat rc) d"
  proof (cases "rc = 0")
    case True
    then have "observed c' = observed c @ map Sent []"
      using assms(2) by (auto simp: ipstack_write_def hal_call_def Let_def split: if_splits)
    with True show ?thesis by (intro exI [of _ "[]"]) simp
  next
    case False
    with rc have "observed c' = observed c @ map Sent [take (nat rc) d]"
      using assms(2) by (auto simp: ipstack_write_def hal_call_def observe_def Let_def split: if_splits)
    then show ?thesis by (intro exI [of _ "[take (nat rc) d]"]) simp
  qed
qed

lemma ipstack_write_failed:
  "ipstack_write P d t c = (rc, c') \<Longrightarrow> rc < 0 \<Longrightarrow> observed c' = observed c"
  by (auto simp: ipstack_write_def hal_call_def Let_def split: if_splits)

lemma send_loop_delivers:
  assumes "send_loop P b len t s c = Some (s', c')" and "writes_bounded P"
    and "0 \<le> s" and "s \<le> len" and "nat len \<le> length b"
  shows "s \<le> s' \<and> s' \<le> len \<and> (\<exists>chunks. observed c' = observed c @ map Sent chunks
           \<and> concat chunks = take (nat (s' - s)) (drop (nat s) b))"
proof -
  let ?Q = "\<lambda>s c r. 0 \<le> s \<and> s \<le> len \<longrightarrow> s \<le> fst r \<and> fst r \<le> len
      \<and> (\<exists>chunks. observed (snd r) = observed c @ map Sent chunks
           \<and> concat chunks = take (nat (fst r - s)) (drop (nat s) b))"
  have "?Q s c (s', c')"
    using assms(1)
  proof (rule send_loop_rule, goal_cases)
    case (1 s c c')
    then show ?case by (auto intro!: exI [of _ "[]"])
  next
    case (2 s c c1 lt d rc c2 r)
    note round = 2
    show ?case
    proof
      assume s: "0 \<le> s \<and> s \<le> len"
      have d: "d = take (nat (len - s)) (drop (nat s) b)" "length d = nat (len - s)"
        using round(4) by (auto simp: mem_slice_def split: if_splits)
      show "s \<le> fst r \<and> fst r \<le> len \<and> (\<exists>chunks. observed (snd r) = observed c @ map Sent chunks
           \<and> concat chunks = take (nat (fst r - s)) (drop (nat s) b))"
      proof (cases "rc < 0")
        case True
        with round(6) ipstack_write_failed [OF round(5)] round(3) s show ?thesis
          by (auto intro!: exI [of _ "[]"])
      next
        case False
        from ipstack_write_bounded [OF assms(2) round(5)] False d(2) s
        obtain chunks where rc: "rc \<le> len - s"
          and sent: "observed c2 = observed c1 @ map Sent chunks" "concat chunks = take (nat rc) d"
          by auto
        from round(6) False s rc obtain chunks' where r: "s + rc \<le> fst r" "fst r \<le> len"
          and rest: "observed (snd r) = observed c2 @ map Sent chunks'"
            "concat chunks' = take (nat (fst r - (s + rc))) (drop (nat (s + rc)) b)"
          by auto
        have "concat (chunks @ chunks')
            = take (nat rc) (drop (nat s) b) @ take (nat (fst r - (s + rc))) (drop (nat (s + rc)) b)"
          using sent(2) rest(2) d rc by (simp add: min_absorb1)
        also have "\<dots> = take (nat rc + nat (fst r - (s + rc))) (drop (nat s) b)"
          using False s by (simp add: take_add nat_add_distrib add.commute)
        also have "nat rc + nat (fst r - (s + rc)) = nat (fst r - s)"
          using False r by linarith
        finally show ?thesis
          using False r sent(1) rest(1) round(3)
          by (intro conjI exI [of _ "chunks @ chunks'"]) auto
      qed
    qed
  qed
  with assms(3,4) show ?thesis by simp
qed

text \<open>
  Property C7: \<open>iotx_mc_send_packet\<close> reports success exactly when the network has taken
  every byte of the packet; in every case what the network has taken is a prefix of the
  packet, in order and without gaps or repetitions, however the network splits it.
\<close>

theorem send_packet_delivers:
  assumes "writes_bounded P" and "0 \<le> len" and "nat len \<le> length b"
    and "iotx_mc_send_packet P (Some b) len timer c = Some (rc, c')"
  shows "\<exists>chunks n. observed c' = observed c @ map Sent chunks \<and> concat chunks = take n b
           \<and> n \<le> nat len \<and> rc = (if n = nat len then SUCCESS_RETURN else MQTT_NETWORK_ERROR)"
proof -
  obtain sent where loop: "send_loop P b len timer 0 c = Some (sent, c')"
    and rc: "rc = (if sent = len then SUCCESS_RETURN else MQTT_NETWORK_ERROR)"
    using assms(4) by (auto simp: iotx_mc_send_packet_def split: Option.bind_splits)
  from send_loop_delivers [OF loop assms(1)] assms(2,3) obtain chunks
    where sent: "0 \<le> sent" "sent \<le> len"
      and chunks: "observed c' = observed c @ map Sent chunks" "concat chunks = take (nat sent) b"
    by auto
  have "nat sent \<le> nat len" "sent = len \<longleftrightarrow> nat sent = nat len" using sent by auto
  with chunks rc show ?thesis by (intro exI [of _ chunks] exI [of _ "nat sent"]) simp
qed

lemma send_packet_success:
  assumes "writes_bounded P"
    and "iotx_mc_send_packet P (Some (out @ rest)) (int (length out)) timer c = Some (SUCCESS_RETURN, c')"
  shows "\<exists>chunks. observed c' = observed c @ map Sent chunks \<and> concat chunks = out"
proof -
  obtain sent where loop: "send_loop P (out @ rest) (int (length out)) timer 0 c = Some (sent, c')"
    and "sent = int (length out)"
    using assms(2) by (auto simp: iotx_mc_send_packet_def split: Option.bind_splits if_splits)
  with send_loop_delivers [OF loop assms(1)] show ?thesis by auto
qed

text \<open>
  A platform for concrete runs: the clock counts the calls in milliseconds, memory is never
  short, the network takes at most \<open>k\<close> bytes at a time and delivers the bytes \<open>rx\<close>.
\<close>

definition test_platform :: "nat \<Rightarrow> bytes \<Rightarrow> platform" where
  "test_platform k rx =
     \<lparr>clock = of_nat, malloc_ok = (\<lambda>n s. True),
      net_write = (\<lambda>n d t. int (min k (length d))), net_read = (\<lambda>n pos len t. Inr (take len (drop pos rx))),
      net_connect = (\<lambda>n. 0), mutex_ok = (\<lambda>n. True)\<rparr>"

definition test_params :: iotx_mqtt_param_t where
  "test_params =
     \<lparr>ip_port = 1883, ip_host = Some (ascii ''h''), ip_client_id = Some (ascii ''id''),
      ip_username = Some (ascii ''u''), ip_password = Some (ascii ''p''), ip_clean_session = 0,
      ip_request_timeout_ms = 2000, ip_keepalive_interval_ms = 60000, ip_write_buf_size = 256,
      ip_read_buf_size = 256, ip_handle_event = \<lparr>h_fp = Some 1, pcontext = 0\<rparr>\<rparr>"

definition test_client :: iotx_mc_client_t where
  "test_client = blank_client\<lparr>client_state := IOTX_MC_STATE_CONNECTED, request_timeout_ms := 2000,
     buf_size_send_max := 256, buf_size_read_max := 256, handle_event := \<lparr>h_fp = Some 1, pcontext = 0\<rparr>\<rparr>"

lemma test_platform_bounded: "writes_bounded (test_platform k rx)"
  by (simp add: writes_bounded_def test_platform_def)

section \<open>Sending comes to an end\<close>

lemma timer_calls:
  "mc_time_is_expired P t c = (b, c') \<Longrightarrow>
     hal_calls c' = Suc (hal_calls c)
     \<and> (b \<longleftrightarrow> utils_time_is_expired (clock P (hal_calls c)) (Some t) \<noteq> 0)"
  "mc_left_or_1 P t c = (n, c') \<Longrightarrow> hal_calls c' \<in> {Suc (hal_calls c), Suc (Suc (hal_calls c))}"
  by (auto simp: mc_time_is_expired_def mc_left_or_1_def mc_time_left_def HAL_UptimeMs_def
      hal_call_def Let_def split: if_splits)

lemma write_calls: "ipstack_write P d t c = (rc, c') \<Longrightarrow> hal_calls c' = Suc (hal_calls c)"
  by (auto simp: ipstack_write_def hal_call_def observe_def Let_def split: if_splits)

text \<open>
  \<open>expires_at P t n\<close>: the clock shows the timer as expired for the four calls from the
  n-th on; a round of the loop makes at most four.
\<close>

definition expires_at :: "platform \<Rightarrow> iotx_time_t \<Rightarrow> nat \<Rightarrow> bool" where
  "expires_at P t n \<longleftrightarrow> (\<forall>m \<in> {n..n + 3}. utils_time_is_expired (clock P m) (Some t) \<noteq> 0)"

lemma send_loop_returns:
  assumes "writes_bounded P" and "expires_at P t n" and "nat len \<le> length b" and "len < 2 ^ 31"
  shows "hal_calls c \<le> n + 3 \<Longrightarrow> 0 \<le> s \<Longrightarrow> \<exists>r. send_loop P b len t s c = Some r"
proof (induction "n + 4 - hal_calls c" arbitrary: c s rule: less_induct)
  case less
  obtain ex c1 where c1: "mc_time_is_expired P t c = (ex, c1)" by force
  obtain lt c2 where c2: "mc_left_or_1 P t c1 = (lt, c2)" by force
  note calls = timer_calls(1) [OF c1] timer_calls(2) [OF c2]
  show ?case
  proof (cases "s < len \<and> \<not> ex")
    case False
    then show ?thesis using c1 by (subst send_loop.simps) (auto split: prod.splits)
  next
    case True
    have before: "hal_calls c < n"
    proof (rule ccontr)
      assume "\<not> hal_calls c < n"
      then have "hal_calls c \<in> {n..n + 3}" using less.prems(1) by simp
      with assms(2) calls(1) True show False by (auto simp: expires_at_def)
    qed
    let ?d = "take (nat (len - s)) (drop (nat s) b)"
    have d: "mem_slice b (nat s) (nat (len - s)) = Some ?d" "length ?d = nat (len - s)"
      using True less.prems(2) assms(3) by (auto simp: mem_slice_def nat_le_iff)
    obtain rc c3 where rc: "ipstack_write P ?d lt c2 = (rc, c3)" by force
    have rc_le: "rc \<le> len - s" using ipstack_write_bounded(1) [OF assms(1) rc] d(2) True by simp
    show ?thesis
    proof (cases "rc < 0")
      case True
      then show ?thesis
        using c1 c2 d(1) rc by (subst send_loop.simps) (auto split: prod.splits)
    next
      case False
      then have sum: "c_int (s + rc) = Some (s + rc)"
        using rc_le assms(4) less.prems(2) by simp
      have "hal_calls c3 \<le> n + 3" "n + 4 - hal_calls c3 < n + 4 - hal_calls c"
        using calls write_calls [OF rc] before by auto
      then have "\<exists>r. send_loop P b len t (s + rc) c3 = Some r"
        using less.hyps False less.prems(2) by simp
      with False sum c1 c2 d(1) rc show ?thesis
        by (subst send_loop.simps) (auto split: prod.splits simp del: c_int_Some)
    qed
  qed
qed

text \<open>
  Property C27: \<open>iotx_mc_send_packet\<close> returns: if the clock reaches the deadline and stays
  behind it for four readings, the loop ends, even over a network that never takes a byte.
\<close>

theorem send_packet_returns:
  assumes "writes_bounded P" and "expires_at P timer n" and "hal_calls c \<le> n"
    and "nat len \<le> length b" and "len < 2 ^ 31"
  shows "\<exists>rc c'. iotx_mc_send_packet P (Some b) len timer c = Some (rc, c')
           \<and> rc \<in> {SUCCESS_RETURN, MQTT_NETWORK_ERROR}"
proof -
  obtain sent c' where "send_loop P b len timer 0 c = Some (sent, c')"
    using send_loop_returns [OF assms(1,2,4,5), of c 0] assms(3) by auto
  then show ?thesis by (simp add: iotx_mc_send_packet_def)
qed

theorem send_packet_delivers_witness:
  "\<exists>c'. iotx_mc_send_packet (test_platform 2 []) (Some [1, 2, 3]) 3 \<lparr>time = 100\<rparr> blank_client
       = Some (SUCCESS_RETURN, c') \<and> observed c' = [Sent [1, 2], Sent [3]]"
proof -
  let ?P = "test_platform 2 []"
  obtain c' where run: "iotx_mc_send_packet ?P (Some [1, 2, 3]) 3 \<lparr>time = 100\<rparr> blank_client
      = Some (SUCCESS_RETURN, c')" "observed c' = [Sent [1, 2], Sent [3]]"
    by (simp add: iotx_mc_send_packet_def send_loop.simps mc_time_is_expired_def mc_left_or_1_def
        mc_time_left_def HAL_UptimeMs_def hal_call_def utils_time_is_expired_def iotx_time_left_def
        HAL_UptimeMs_32_def half_range_def test_platform_def blank_client_def mem_slice_def
        ipstack_write_def observe_def c_int_def)
  with send_packet_delivers [OF test_platform_bounded _ _ run(1)] show ?thesis by auto
qed

theorem send_packet_returns_witness:
  "\<exists>rc c'. iotx_mc_send_packet (test_platform 0 []) (Some [1, 2, 3]) 3 \<lparr>time = 9\<rparr> blank_client
       = Some (rc, c')"
proof -
  have "expires_at (test_platform 0 []) \<lparr>time = 9\<rparr> 10"
    unfolding expires_at_def
  proof
    fix m :: nat assume "m \<in> {10..10 + 3}"
    then have "m = 10 \<or> m = 11 \<or> m = 12 \<or> m = 13" by auto
    then show "utils_time_is_expired (clock (test_platform 0 []) m) (Some \<lparr>time = 9\<rparr>) \<noteq> 0"
      by (auto simp: test_platform_def utils_time_is_expired_def HAL_UptimeMs_32_def half_range_def)
  qed
  with send_packet_returns [OF test_platform_bounded, of 0 "[]" "\<lparr>time = 9\<rparr>" 10 blank_client 3 "[1, 2, 3]"]
  show ?thesis by (auto simp: blank_client_def)
qed

end
