(* ===== verification/Mqtt_Publish.thy ===== *)
theory Mqtt_Publish
  imports Mqtt_Client
begin

text \<open>
  Publishing in \<open>mqtt/iotx_mqtt_client.c\<close>: the packet identifiers, the list of publishes that
  wait for their PUBACK (\<open>list_pub_wait_ack\<close>), the republishing of overdue ones, and
  \<open>MQTTPublish\<close> with its public wrapper. The lemmas show that the list is bounded and
  consistent with the packets sent, that a publish whose sending failed leaves no trace in
  it, and that identifiers stay in the range MQTT allows.
\<close>

section \<open>Packet identifiers\<close>

definition iotx_mc_get_next_packetid :: "iotx_mc_client_t \<Rightarrow> int \<times> iotx_mc_client_t" where
  "iotx_mc_get_next_packetid c =
     (let c = c\<lparr>packet_id := (if packet_id c = IOTX_MC_PACKET_ID_MAX then 1 else packet_id c + 1)\<rparr>
      in (sint (packet_id c), c))"

section \<open>The list of publishes waiting for an acknowledgement\<close>

text \<open>\<open>sizeof(iotx_mc_pub_info_t)\<close> on the 32-bit target.\<close>

abbreviation "sizeof_pub_info \<equiv> 28 :: int"

definition iotx_mc_push_pubInfo_to ::
    "platform \<Rightarrow> int \<Rightarrow> u16 \<Rightarrow> iotx_mc_client_t \<Rightarrow> (int \<times> iotx_mc_client_t) option" where
  "iotx_mc_push_pubInfo_to P len msgId c =
     (if len < 0 \<or> (word_of_int len :: u32) > buf_size_send c then Some (FAIL_RETURN, c)
      else if length (list_pub_wait_ack c) \<ge> IOTX_MC_REPUB_NUM_MAX then Some (FAIL_RETURN, c)
      else
        let (ok, c) = HAL_Malloc P (word_of_int (sizeof_pub_info + len)) c in
        if \<not> ok then Some (FAIL_RETURN, c)
        else
          let (start, c) = mc_time_start P fresh_timer c in
          do { buf \<leftarrow> buf_send c;
               data \<leftarrow> mem_slice buf 0 (nat len);
               let node = \<lparr>pub_start_time = start, node_state = IOTX_MC_NODE_STATE_NORMANL,
                           msg_id = msgId, pi_len = word_of_int len, pi_buf = data\<rparr>
               in Some (SUCCESS_RETURN, c\<lparr>list_pub_wait_ack := list_pub_wait_ack c @ [node]\<rparr>) })"

definition iotx_mc_mask_pubInfo_from :: "u16 \<Rightarrow> iotx_mc_client_t \<Rightarrow> int \<times> iotx_mc_client_t" where
  "iotx_mc_mask_pubInfo_from msgId c =
     (SUCCESS_RETURN,
      c\<lparr>list_pub_wait_ack :=
          map (\<lambda>node. if msg_id node = msgId then node\<lparr>node_state := IOTX_MC_NODE_STATE_INVALID\<rparr> else node)
            (list_pub_wait_ack c)\<rparr>)"

definition MQTTRePublish ::
    "platform \<Rightarrow> bytes \<Rightarrow> int \<Rightarrow> iotx_mc_client_t \<Rightarrow> (int \<times> iotx_mc_client_t) option" where
  "MQTTRePublish P buf len c =
     (let (timer, c) = mc_countdown_ms P fresh_timer (request_timeout_ms c) c
      in do { (rc, c) \<leftarrow> iotx_mc_send_packet P (Some buf) len timer c;
              Some (if rc \<noteq> SUCCESS_RETURN then MQTT_NETWORK_ERROR else SUCCESS_RETURN, c) })"

text \<open>
  The loop of \<open>MQTTPubInfoProc\<close> over the nodes; the result is what is left of the list. The
  break after a network error keeps the nodes behind.
\<close>

fun pub_info_loop ::
    "platform \<Rightarrow> iotx_mc_pub_info_t list \<Rightarrow> iotx_mc_client_t
      \<Rightarrow> (iotx_mc_pub_info_t list \<times> iotx_mc_client_t) option" where
  "pub_info_loop P [] c = Some ([], c)"
| "pub_info_loop P (node # rest) c =
     (if node_state node = IOTX_MC_NODE_STATE_INVALID then pub_info_loop P rest c
      else if iotx_mc_get_client_state c \<noteq> IOTX_MC_STATE_CONNECTED
      then do { (rest, c) \<leftarrow> pub_info_loop P rest c; Some (node # rest, c) }
      else
        let (spent, c) = mc_time_spend P (pub_start_time node) c in
        if spent \<le> request_timeout_ms c * 2
        then do { (rest, c) \<leftarrow> pub_info_loop P rest c; Some (node # rest, c) }
        else do {
          (rc, c) \<leftarrow> MQTTRePublish P (pi_buf node) (sint (pi_len node)) c;
          let (start, c) = mc_time_start P (pub_start_time node) c;
              node = node\<lparr>pub_start_time := start\<rparr>
          in if rc = MQTT_NETWORK_ERROR
             then Some (node # rest, iotx_mc_set_client_state IOTX_MC_STATE_DISCONNECTED c)
             else do { (rest, c) \<leftarrow> pub_info_loop P rest c; Some (node # rest, c) } })"

definition MQTTPubInfoProc :: "platform \<Rightarrow> iotx_mc_client_t \<Rightarrow> (int \<times> iotx_mc_client_t) option" where
  "MQTTPubInfoProc P c =
     do { (nodes, c) \<leftarrow> pub_info_loop P (list_pub_wait_ack c) c;
          Some (SUCCESS_RETURN, c\<lparr>list_pub_wait_ack := nodes\<rparr>) }"

section \<open>Publishing\<close>

text \<open>
  The second half of \<open>MQTTPublish\<close>, from the packet in the buffer on. The node pushed for
  this packet is the last one of the list while it is being sent (the list's lock is held),
  so \<open>list_del(&node->linked_list)\<close> removes the last node.
\<close>

definition publish_send ::
    "platform \<Rightarrow> iotx_mqtt_topic_info_t \<Rightarrow> iotx_time_t \<Rightarrow> int \<Rightarrow> iotx_mc_client_t \<Rightarrow> (int \<times> iotx_mc_client_t) option"
where
  "publish_send P msg timer len c =
     do { (rc, c) \<leftarrow> (if ti_qos msg > 0
                       then iotx_mc_push_pubInfo_to P len (ti_packet_id msg) c
                       else Some (SUCCESS_RETURN, c));
          if rc \<noteq> SUCCESS_RETURN then Some (MQTT_PUSH_TO_LIST_ERROR, snd (reset_send_buffer c))
          else do {
            (rc, c) \<leftarrow> iotx_mc_send_packet P (buf_send c) len timer c;
            if rc \<noteq> SUCCESS_RETURN
            then
              let c = (if ti_qos msg > 0
                       then c\<lparr>list_pub_wait_ack := butlast (list_pub_wait_ack c)\<rparr> else c)
              in Some (MQTT_NETWORK_ERROR, snd (reset_send_buffer c))
            else Some (SUCCESS_RETURN, snd (reset_send_buffer c)) } }"

definition MQTTPublish ::
    "platform \<Rightarrow> bytes \<Rightarrow> iotx_mqtt_topic_info_t \<Rightarrow> iotx_mc_client_t \<Rightarrow> (int \<times> iotx_mc_client_t) option" where
  "MQTTPublish P topicName topic_msg c =
     (let topic = MQTTString_initializer\<lparr>cstring := Some topicName\<rparr>;
          (timer, c) = mc_countdown_ms P fresh_timer (request_timeout_ms c) c
      in do {
        (rc, c) \<leftarrow> alloc_send_buffer P
                  (sint (of_nat (c_strlen topicName) + ti_payload_len topic_msg :: u32)) c;
        if rc < 0 then Some (FAIL_RETURN, c)
        else do {
          payload \<leftarrow> ti_payload topic_msg;
          (len, c) \<leftarrow> store_packet
             (MQTTSerialize_publish (sint (buf_size_send c)) 0 (uint (ti_qos topic_msg))
                (ti_retain topic_msg) (ti_packet_id topic_msg) topic payload
                (sint (ti_payload_len topic_msg))) c;
          if len \<le> 0 then Some (MQTT_PUBLISH_PACKET_ERROR, snd (reset_send_buffer c))
          else publish_send P topic_msg timer len c } })"

text \<open>
  The public function. The message is the caller's object: it is returned with the packet
  identifier stored in it. (\<open>infra_strtok\<close> starts afresh on the topic, so its static position
  does not matter here.)
\<close>

definition wrapper_mqtt_publish ::
    "platform \<Rightarrow> bytes option \<Rightarrow> iotx_mqtt_topic_info_t option \<Rightarrow> iotx_mc_client_t
      \<Rightarrow> (int \<times> iotx_mqtt_topic_info_t option \<times> iotx_mc_client_t) option" where
  "wrapper_mqtt_publish P topicName topic_msg c =
     (case (topicName, topic_msg) of
        (Some topic, Some msg) \<Rightarrow>
          if ti_payload msg = None then Some (NULL_VALUE_ERROR, topic_msg, c)
          else do {
            ok \<leftarrow> iotx_mc_check_topic topicName TOPIC_NAME_TYPE None;
            if ok \<noteq> 0 then Some (MQTT_TOPIC_FORMAT_ERROR, topic_msg, c)
            else if wrapper_mqtt_check_state c = 0 then Some (MQTT_STATE_ERROR, topic_msg, c)
            else
              let (msg_id, msg, c) =
                    (if ti_qos msg = 1 \<or> ti_qos msg = 2
                     then let (n, c) = iotx_mc_get_next_packetid c; msg_id = (word_of_int n :: u16)
                          in (msg_id, msg\<lparr>ti_packet_id := msg_id\<rparr>, c)
                     else (0, msg, c))
              in if ti_qos msg = 2 then Some (MQTT_PUBLISH_QOS_ERROR, Some msg, c)
                 else do {
                   (rc, c) \<leftarrow> MQTTPublish P topic msg c;
                   if rc \<noteq> SUCCESS_RETURN
                   then Some (rc, Some msg,
                          if rc = MQTT_NETWORK_ERROR
                          then iotx_mc_set_client_state IOTX_MC_STATE_DISCONNECTED c else c)
                   else Some (uint msg_id, Some msg, c) } }
      | _ \<Rightarrow> Some (NULL_VALUE_ERROR, topic_msg, c))"

section \<open>Properties of the identifiers and the list\<close>

text \<open>
  The invariant of the list: at most \<open>IOTX_MC_REPUB_NUM_MAX\<close> nodes, and every node holds as
  many bytes as its length says.
\<close>

definition wait_list_ok :: "iotx_mc_pub_info_t list \<Rightarrow> bool" where
  "wait_list_ok ns \<longleftrightarrow>
     length ns \<le> IOTX_MC_REPUB_NUM_MAX \<and> list_all (\<lambda>n. length (pi_buf n) = unat (pi_len n)) ns"

fun packet_ids :: "nat \<Rightarrow> iotx_mc_client_t \<Rightarrow> int list" where
  "packet_ids 0 c = []"
| "packet_ids (Suc n) c =
     (let (i, c) = iotx_mc_get_next_packetid c in i # packet_ids n c)"

lemma next_packetid:
  assumes "packet_id c \<le> 65535" and "iotx_mc_get_next_packetid c = (i, c')"
  shows "i = uint (packet_id c) mod 65535 + 1" and "uint (packet_id c') = i"
    and "packet_id c' \<le> 65535" and "1 \<le> i" and "i \<le> 65535"
proof -
  let ?n = "if packet_id c = 65535 then 1 else packet_id c + 1"
  have bound: "uint (packet_id c) \<le> 65535" using assms(1) by (simp add: word_le_def)
  have n: "uint ?n = uint (packet_id c) mod 65535 + 1"
  proof (cases "packet_id c = 65535")
    case False
    then have "uint (packet_id c) \<noteq> uint (65535 :: u32)" unfolding word_uint_eq_iff .
    then have "uint (packet_id c) \<noteq> 65535" by simp
    with bound have "uint (packet_id c) < 65535" by simp
    then show ?thesis using False by (simp add: uint_word_ariths)
  qed simp
  have small: "uint (packet_id c) mod 65535 + 1 \<le> 65535"
    using pos_mod_bound [of 65535 "uint (packet_id c)"] by linarith
  then have "sint ?n = uint ?n" using n by (intro sint_small) simp
  with assms(2) n show i: "i = uint (packet_id c) mod 65535 + 1" and "uint (packet_id c') = i"
    by (auto simp: iotx_mc_get_next_packetid_def Let_def)
  then show "packet_id c' \<le> 65535" using small by (simp add: word_le_def)
  show "1 \<le> i" "i \<le> 65535" using i small by simp_all
qed

lemma packet_ids_eq:
  "packet_id c \<le> 65535 \<Longrightarrow>
     packet_ids n c = map (\<lambda>k. (uint (packet_id c) + int k) mod 65535 + 1) [0..<n]"
proof (induction n arbitrary: c)
  case (Suc n)
  obtain i c' where step: "iotx_mc_get_next_packetid c = (i, c')" by force
  note facts = next_packetid [OF Suc.prems step]
  have "(uint (packet_id c) mod 65535 + 1 + int k) mod 65535
      = (uint (packet_id c) + int (Suc k)) mod 65535" for k
    using mod_add_left_eq [of "uint (packet_id c)" 65535 "1 + int k"] by (simp only: of_nat_Suc add.assoc)
  then have "map (\<lambda>k. (uint (packet_id c') + int k) mod 65535 + 1) [0..<n]
      = map (\<lambda>k. (uint (packet_id c) + int k) mod 65535 + 1) (map Suc [0..<n])"
    using facts(1,2) by simp
  with step Suc.IH [OF facts(3)] facts(1) show ?case
    by (simp add: upt_conv_Cons map_Suc_upt del: upt_Suc)
qed simp

text \<open>
  Property C20: the packet identifiers are in the range 1..65535 that MQTT allows (never 0,
  never truncated by the 16-bit field of the packets), and no identifier is used again
  before all the others: any 65535 consecutive ones are distinct.
\<close>

theorem packet_ids_fresh:
  assumes "packet_id c \<le> 65535" and "n \<le> 65535"
  shows "distinct (packet_ids n c) \<and> set (packet_ids n c) \<subseteq> {1..65535}"
proof -
  let ?p = "uint (packet_id c)"
  have "inj_on (\<lambda>k. (?p + int k) mod 65535 + 1) {0..<n}"
  proof (rule inj_onI)
    fix j k assume jk: "j \<in> {0..<n}" "k \<in> {0..<n}"
      and "(?p + int j) mod 65535 + 1 = (?p + int k) mod 65535 + 1"
    then have "(?p + int j) mod 65535 = (?p + int k) mod 65535" by simp
    then have "65535 dvd (?p + int j) - (?p + int k)" by (simp only: mod_eq_dvd_iff)
    then have "65535 dvd int j - int k" by simp
    moreover have "\<bar>int j - int k\<bar> < 65535" using jk assms(2) by auto
    ultimately show "j = k" using zdvd_imp_le [of 65535 "\<bar>int j - int k\<bar>"] by force
  qed
  moreover have "(?p + int k) mod 65535 + 1 \<in> {1..65535}" for k
  proof -
    obtain x where x: "x = (?p + int k) mod 65535" by blast
    have "0 \<le> x" unfolding x by (rule pos_mod_sign) simp
    moreover have "x < 65535" unfolding x by (rule pos_mod_bound) simp
    ultimately show ?thesis unfolding x [symmetric] by simp
  qed
  ultimately show ?thesis
    by (auto simp: packet_ids_eq [OF assms(1)] distinct_map)
qed

theorem packet_ids_fresh_witness:
  "distinct (packet_ids 3 (blank_client\<lparr>packet_id := 65534\<rparr>))
   \<and> packet_ids 3 (blank_client\<lparr>packet_id := 65534\<rparr>) = [65535, 1, 2]"
proof -
  have "packet_ids 3 (blank_client\<lparr>packet_id := 65534\<rparr>) = [65535, 1, 2]"
    by (simp add: packet_ids_eq upt_rec)
  with packet_ids_fresh [of "blank_client\<lparr>packet_id := 65534\<rparr>" 3] show ?thesis by simp
qed

section \<open>What publishing does to the list\<close>

lemma io_step_republish: "MQTTRePublish P b len c = Some (rc, c') \<Longrightarrow> io_step c c'"
  by (auto simp: MQTTRePublish_def split: prod.splits Option.bind_splits
      dest!: env_step_timers(1) env_step_send intro!: env_io_step intro: env_step_trans)

text \<open>A push that succeeds appends one node holding the packet; one that fails changes nothing.\<close>

lemma push_pubInfo_result:
  assumes "iotx_mc_push_pubInfo_to P (int (length out)) msgId c = Some (rc, c')"
    and "buf_send c = Some (out @ rest)" and "length out < 2 ^ 32"
  shows "(rc = FAIL_RETURN \<and> env_step c c' \<and> observed c' = observed c)
       \<or> (rc = SUCCESS_RETURN \<and> length (list_pub_wait_ack c) < IOTX_MC_REPUB_NUM_MAX
          \<and> (\<exists>node c1. env_step c c1 \<and> c' = c1\<lparr>list_pub_wait_ack := list_pub_wait_ack c @ [node]\<rparr>
               \<and> msg_id node = msgId \<and> node_state node = IOTX_MC_NODE_STATE_NORMANL
               \<and> pi_buf node = out \<and> unat (pi_len node) = length out \<and> observed c1 = observed c))"
proof -
  let ?len = "int (length out)"
  obtain ok c1 where m: "HAL_Malloc P (word_of_int (sizeof_pub_info + ?len)) c = (ok, c1)" by force
  obtain st c2 where t: "mc_time_start P fresh_timer c1 = (st, c2)" by force
  have steps: "env_step c c1" "env_step c c2"
    using env_step_malloc [OF m] env_step_timers(2) [OF t] env_step_trans by blast+
  then have same: "list_pub_wait_ack c2 = list_pub_wait_ack c" "buf_send c2 = buf_send c"
    by (simp_all add: env_step_def io_step_def)
  have obs: "observed c1 = observed c" "observed c2 = observed c"
    using m t by (auto simp: HAL_Malloc_def mc_time_start_def HAL_UptimeMs_def hal_call_def
        split: option.splits)
  show ?thesis
  proof (cases "(word_of_int ?len :: u32) > buf_size_send c
      \<or> length (list_pub_wait_ack c) \<ge> IOTX_MC_REPUB_NUM_MAX \<or> \<not> ok")
    case True
    with assms(1) m steps(1) obs(1) show ?thesis
      by (auto simp: iotx_mc_push_pubInfo_to_def split: if_splits)
  next
    case False
    let ?node = "\<lparr>pub_start_time = st, node_state = IOTX_MC_NODE_STATE_NORMANL, msg_id = msgId,
           pi_len = word_of_int ?len, pi_buf = out\<rparr>"
    have "unat (word_of_int ?len :: u32) = length out"
      using assms(3) by (simp add: unat_of_nat)
    moreover from False assms(1,2) m t have "rc = SUCCESS_RETURN"
      "c' = c2\<lparr>list_pub_wait_ack := list_pub_wait_ack c @ [?node]\<rparr>"
      by (auto simp: iotx_mc_push_pubInfo_to_def same mem_slice_def)
    ultimately show ?thesis
      using False steps(2) obs(2)
      by (intro disjI2 conjI exI [of _ ?node] exI [of _ c2]) auto
  qed
qed

text \<open>
  The outcome of a publish: on success the packet has been sent and, for QoS above 0, is the
  last node of the list; otherwise the list is as before. Nothing else of the protocol state
  changes (\<open>pub_frame\<close>).
\<close>

definition pub_frame :: "iotx_mc_client_t \<Rightarrow> iotx_mc_client_t \<Rightarrow> bool" where
  "pub_frame c c' \<longleftrightarrow>
     io_step (c\<lparr>list_pub_wait_ack := list_pub_wait_ack c'\<rparr>) c'"

definition publish_bytes :: "bytes \<Rightarrow> iotx_mqtt_topic_info_t \<Rightarrow> bytes \<Rightarrow> bool" where
  "publish_bytes topicName msg out \<longleftrightarrow>
     (\<exists>size payload. ti_payload msg = Some payload
        \<and> MQTTSerialize_publish size 0 (uint (ti_qos msg)) (ti_retain msg) (ti_packet_id msg)
            (MQTTString_initializer\<lparr>cstring := Some topicName\<rparr>) payload (sint (ti_payload_len msg))
          = Some (Inr out))"

definition published ::
    "bytes \<Rightarrow> iotx_mqtt_topic_info_t \<Rightarrow> iotx_mc_client_t \<Rightarrow> iotx_mc_client_t \<Rightarrow> bool" where
  "published topicName msg c c' \<longleftrightarrow>
     (\<exists>out chunks. publish_bytes topicName msg out
        \<and> observed c' = observed c @ map Sent chunks \<and> concat chunks = out
        \<and> (if ti_qos msg > 0
           then \<exists>node. list_pub_wait_ack c' = list_pub_wait_ack c @ [node]
                  \<and> length (list_pub_wait_ack c) < IOTX_MC_REPUB_NUM_MAX
                  \<and> msg_id node = ti_packet_id msg \<and> node_state node = IOTX_MC_NODE_STATE_NORMANL
                  \<and> pi_buf node = out \<and> unat (pi_len node) = length out
           else list_pub_wait_ack c' = list_pub_wait_ack c))"

lemma pub_frame_io: "io_step c c' \<Longrightarrow> pub_frame c c' \<and> list_pub_wait_ack c' = list_pub_wait_ack c"
  by (auto simp: pub_frame_def io_step_def)

lemma observed_reset [simp]: "observed (snd (reset_send_buffer c)) = observed c"
  by (simp add: reset_send_buffer_def)

lemma list_reset [simp]: "list_pub_wait_ack (snd (reset_send_buffer c)) = list_pub_wait_ack c"
  by (simp add: reset_send_buffer_def)

lemma publish_send_result:
  assumes "publish_send P msg timer (int (length out)) c = Some (rc, c')"
    and "buf_send c = Some (out @ rest)" and "length out < 2 ^ 32" and "writes_bounded P"
  shows "pub_frame c c' \<and>
    (if rc = SUCCESS_RETURN
     then (\<exists>chunks. observed c' = observed c @ map Sent chunks \<and> concat chunks = out)
        \<and> (if ti_qos msg > 0
           then \<exists>node. list_pub_wait_ack c' = list_pub_wait_ack c @ [node]
                  \<and> length (list_pub_wait_ack c) < IOTX_MC_REPUB_NUM_MAX
                  \<and> msg_id node = ti_packet_id msg \<and> node_state node = IOTX_MC_NODE_STATE_NORMANL
                  \<and> pi_buf node = out \<and> unat (pi_len node) = length out
           else list_pub_wait_ack c' = list_pub_wait_ack c)
     else list_pub_wait_ack c' = list_pub_wait_ack c)"
proof (cases "ti_qos msg > 0")
  case False
  with assms(1,2) obtain sr c3
    where send: "iotx_mc_send_packet P (Some (out @ rest)) (int (length out)) timer c = Some (sr, c3)"
      and c': "rc = (if sr = SUCCESS_RETURN then SUCCESS_RETURN else MQTT_NETWORK_ERROR)"
        "c' = snd (reset_send_buffer c3)"
    by (auto simp: publish_send_def split: Option.bind_splits if_splits)
  have "io_step c c'"
    unfolding c'(2) using env_io_step [OF env_step_send [OF send]] io_step_reset(1) by (rule io_step_trans)
  moreover have "rc = SUCCESS_RETURN \<Longrightarrow> \<exists>chunks. observed c' = observed c @ map Sent chunks \<and> concat chunks = out"
    using send c' send_packet_success [OF assms(4), of out rest timer c c3] by (auto split: if_splits)
  ultimately show ?thesis using False pub_frame_io [of c c'] by auto
next
  case qos: True
  with assms(1) obtain pr c3
    where p: "iotx_mc_push_pubInfo_to P (int (length out)) (ti_packet_id msg) c = Some (pr, c3)"
    by (auto simp: publish_send_def split: Option.bind_splits)
  note push = push_pubInfo_result [OF p assms(2,3)]
  show ?thesis
  proof (cases "pr = SUCCESS_RETURN")
    case False
    with assms(1) qos p have "rc \<noteq> SUCCESS_RETURN" "c' = snd (reset_send_buffer c3)"
      by (auto simp: publish_send_def)
    moreover have "io_step c c3" using False push env_io_step by auto
    ultimately have "io_step c c'" "rc \<noteq> SUCCESS_RETURN"
      using io_step_trans [OF _ io_step_reset(1), of c c3] by simp_all
    with pub_frame_io [of c c'] show ?thesis by simp
  next
    case True
    with push obtain node c4 where node: "env_step c c4"
      "c3 = c4\<lparr>list_pub_wait_ack := list_pub_wait_ack c @ [node]\<rparr>"
      "length (list_pub_wait_ack c) < IOTX_MC_REPUB_NUM_MAX"
      "msg_id node = ti_packet_id msg" "node_state node = IOTX_MC_NODE_STATE_NORMANL"
      "pi_buf node = out" "unat (pi_len node) = length out" "observed c4 = observed c"
      by auto
    have buf3: "buf_send c3 = Some (out @ rest)" using node(1,2) assms(2) by (simp add: env_step_def)
    from assms(1) qos p True buf3 obtain sr c5
      where send: "iotx_mc_send_packet P (Some (out @ rest)) (int (length out)) timer c3 = Some (sr, c5)"
        and c': "if sr = SUCCESS_RETURN then rc = SUCCESS_RETURN \<and> c' = snd (reset_send_buffer c5)
          else rc \<noteq> SUCCESS_RETURN \<and>
            c' = snd (reset_send_buffer (c5\<lparr>list_pub_wait_ack := butlast (list_pub_wait_ack c5)\<rparr>))"
      by (auto simp: publish_send_def split: Option.bind_splits if_splits)
    have io5: "io_step c3 c5" using env_io_step [OF env_step_send [OF send]] .
    then have list5: "list_pub_wait_ack c5 = list_pub_wait_ack c @ [node]"
      using node(2) by (simp add: io_step_def)
    have frame: "pub_frame c c5"
      using env_io_step [OF node(1)] io5 node(2) by (simp add: pub_frame_def io_step_def)
    show ?thesis
    proof (cases "sr = SUCCESS_RETURN")
      case sent: True
      have "io_step c5 c'" using c' sent io_step_reset(1) [of c5] by simp
      with frame list5 have "pub_frame c c'" "list_pub_wait_ack c' = list_pub_wait_ack c @ [node]"
        by (simp_all add: pub_frame_def io_step_def)
      moreover have "\<exists>chunks. observed c' = observed c @ map Sent chunks \<and> concat chunks = out"
        using send_packet_success [OF assms(4), of out rest timer c3 c5] send sent c' node(2,8) by simp
      ultimately show ?thesis using node qos c' sent by simp
    next
      case False
      let ?c6 = "c5\<lparr>list_pub_wait_ack := butlast (list_pub_wait_ack c5)\<rparr>"
      have "io_step ?c6 c'" using c' False io_step_reset(1) [of ?c6] by simp
      with frame list5 have "pub_frame c c'" "list_pub_wait_ack c' = list_pub_wait_ack c"
        by (simp_all add: pub_frame_def io_step_def)
      with c' False show ?thesis by simp
    qed
  qed
qed

lemma publish_outcome:
  assumes "MQTTPublish P topicName msg c = Some (rc, c')" and "writes_bounded P"
  shows "pub_frame c c' \<and> (if rc = SUCCESS_RETURN then published topicName msg c c'
           else list_pub_wait_ack c' = list_pub_wait_ack c)"
proof -
  let ?topic = "MQTTString_initializer\<lparr>cstring := Some topicName\<rparr>"
  let ?len = "sint (of_nat (c_strlen topicName) + ti_payload_len msg :: u32)"
  obtain timer c0 where t: "mc_countdown_ms P fresh_timer (request_timeout_ms c) c = (timer, c0)" by force
  note io0 = io_steps(6) [OF t]
  have obs0: "observed c0 = observed c"
    using t by (auto simp: mc_countdown_ms_def HAL_UptimeMs_def hal_call_def split: option.splits)
  from assms(1) t obtain r1 c1 where a: "alloc_send_buffer P ?len c0 = Some (r1, c1)"
    by (auto simp: MQTTPublish_def split: Option.bind_splits)
  have io1: "io_step c c1" using io0 io_step_alloc(1) [OF a] io_step_trans by blast
  show ?thesis
  proof (cases "r1 < 0")
    case True
    with assms(1) t a have "rc = FAIL_RETURN" "c' = c1" by (auto simp: MQTTPublish_def)
    with pub_frame_io [OF io1] show ?thesis by simp
  next
    case False
    from alloc_send_buffer_size [OF a False] obtain b
      where b: "buf_send c1 = Some b" "length b = unat (buf_size_send c1)" "observed c1 = observed c"
      using obs0 by auto
    let ?pkt = "\<lambda>payload. MQTTSerialize_publish (sint (buf_size_send c1)) 0 (uint (ti_qos msg))
        (ti_retain msg) (ti_packet_id msg) ?topic payload (sint (ti_payload_len msg))"
    from False assms(1) t a obtain payload len c2 where s: "store_packet (?pkt payload) c1 = Some (len, c2)"
      and pl: "ti_payload msg = Some payload"
      and rest: "(if len \<le> 0 then Some (MQTT_PUBLISH_PACKET_ERROR, snd (reset_send_buffer c2))
          else publish_send P msg timer len c2) = Some (rc, c')"
      by (auto simp: MQTTPublish_def split: Option.bind_splits)
    have io2: "io_step c c2" using io1 io_step_store [OF s] io_step_trans by blast
    show ?thesis
    proof (cases "len \<le> 0")
      case True
      with rest have "rc \<noteq> SUCCESS_RETURN" "io_step c c'"
        using io_step_trans [OF io2 io_step_reset(1)] by auto
      with pub_frame_io [of c c'] show ?thesis by simp
    next
      case pos: False
      have neg: "\<And>e. ?pkt payload = Some (Inl e) \<Longrightarrow> e \<le> 0"
        by (auto simp: MQTTSerialize_publish_def Let_def split: if_splits Option.bind_splits)
      obtain out tail where out: "?pkt payload = Some (Inr out)" "len = int (length out)"
        "buf_send c2 = Some (out @ tail)" "length out \<le> length b" "observed c2 = observed c1"
        by (rule store_packet_result [OF s pos b(1) neg]) auto
      have "length out < 2 ^ 32"
        using out(4) b(2) unsigned_less [of "buf_size_send c1", where 'a = nat] by simp
      with rest pos out(2,3) assms(2) have res: "pub_frame c2 c' \<and>
        (if rc = SUCCESS_RETURN
         then (\<exists>chunks. observed c' = observed c2 @ map Sent chunks \<and> concat chunks = out)
            \<and> (if ti_qos msg > 0
               then \<exists>node. list_pub_wait_ack c' = list_pub_wait_ack c2 @ [node]
                      \<and> length (list_pub_wait_ack c2) < IOTX_MC_REPUB_NUM_MAX
                      \<and> msg_id node = ti_packet_id msg \<and> node_state node = IOTX_MC_NODE_STATE_NORMANL
                      \<and> pi_buf node = out \<and> unat (pi_len node) = length out
               else list_pub_wait_ack c' = list_pub_wait_ack c2)
         else list_pub_wait_ack c' = list_pub_wait_ack c2)"
        by (intro publish_send_result) auto
      have "list_pub_wait_ack c2 = list_pub_wait_ack c" using io2 by (simp add: io_step_def)
      moreover have "pub_frame c c'" using res io2 by (simp add: pub_frame_def io_step_def)
      moreover have "publish_bytes topicName msg out"
        using pl out(1) unfolding publish_bytes_def by blast
      ultimately show ?thesis
        using res out(5) b(3) by (auto simp: published_def split: if_splits)
    qed
  qed
qed

text \<open>
  Property C4: the publish contract. When \<open>wrapper_mqtt_publish\<close> returns a non-negative
  value, the client was connected, exactly the serialized message went to the network, and
  for QoS 1 the value is the message's identifier and the same packet was appended to the
  list of publishes awaiting an acknowledgement. When it returns an error, the list is
  exactly as before.
\<close>

theorem publish_contract:
  assumes "wrapper_mqtt_publish P topicName topic_msg c = Some (rc, msg', c')"
    and "writes_bounded P" and "packet_id c \<le> 65535"
  shows "if rc \<ge> 0
         then \<exists>topic msg. topicName = Some topic \<and> msg' = Some msg
                \<and> client_state c = IOTX_MC_STATE_CONNECTED \<and> ti_qos msg \<noteq> 2
                \<and> published topic msg c c'
                \<and> (ti_qos msg = 1 \<longrightarrow> rc = uint (ti_packet_id msg) \<and> 1 \<le> rc)
         else list_pub_wait_ack c' = list_pub_wait_ack c"
proof (cases "\<exists>topic msg. topicName = Some topic \<and> topic_msg = Some msg \<and> ti_payload msg \<noteq> None
      \<and> iotx_mc_check_topic topicName TOPIC_NAME_TYPE None = Some 0 \<and> wrapper_mqtt_check_state c \<noteq> 0")
  case False
  with assms(1) have "rc < 0" "c' = c"
    by (auto simp: wrapper_mqtt_publish_def split: option.splits if_splits Option.bind_splits)
  then show ?thesis by simp
next
  case True
  then obtain topic msg0 where args: "topicName = Some topic" "topic_msg = Some msg0"
    "ti_payload msg0 \<noteq> None" "iotx_mc_check_topic (Some topic) TOPIC_NAME_TYPE None = Some 0"
    "wrapper_mqtt_check_state c \<noteq> 0" by auto
  have conn: "client_state c = IOTX_MC_STATE_CONNECTED"
    using args(5) by (simp add: wrapper_mqtt_check_state_def iotx_mc_get_client_state_def split: if_splits)
  obtain n c1 where next': "iotx_mc_get_next_packetid c = (n, c1)" by force
  note id = next_packetid [OF assms(3) next']
  have c1: "list_pub_wait_ack c1 = list_pub_wait_ack c" "observed c1 = observed c"
    using next' by (auto simp: iotx_mc_get_next_packetid_def Let_def)
  show ?thesis
  proof (cases "ti_qos msg0 = 2")
    case True
    with assms(1) args next' c1 show ?thesis
      by (auto simp: wrapper_mqtt_publish_def Let_def)
  next
    case no2: False
    obtain msg c2 where mc: "(msg, c2) = (if ti_qos msg0 = 1
        then (msg0\<lparr>ti_packet_id := word_of_int n\<rparr>, c1) else (msg0, c))"
      by (metis surj_pair)
    from assms(1) args next' no2 mc obtain r c3 where p: "MQTTPublish P topic msg c2 = Some (r, c3)"
      and res: "if r = SUCCESS_RETURN then rc = (if ti_qos msg0 = 1 then uint (word_of_int n :: u16) else 0) \<and> c' = c3
         else rc = r \<and> list_pub_wait_ack c' = list_pub_wait_ack c3" "msg' = Some msg"
      by (auto simp: wrapper_mqtt_publish_def iotx_mc_set_client_state_def Let_def split: if_splits Option.bind_splits)
    have r: "r = SUCCESS_RETURN \<or> r < 0"
      using p by (auto simp: MQTTPublish_def publish_send_def split: Option.bind_splits prod.splits if_splits)
    have c2: "list_pub_wait_ack c2 = list_pub_wait_ack c" "observed c2 = observed c"
      using mc c1 by (auto split: if_splits)
    have qos: "ti_qos msg = ti_qos msg0" using mc by (auto split: if_splits)
    note out = publish_outcome [OF p assms(2)]
    show ?thesis
    proof (cases "r = SUCCESS_RETURN")
      case True
      have "uint (word_of_int n :: u16) = n"
        using id(4,5) by (simp add: uint_word_of_int)
      with True res out r c2 conn no2 qos args mc id(4,5) show ?thesis
        by (auto simp: published_def split: if_splits)
    next
      case False
      with r res out c2 show ?thesis by auto
    qed
  qed
qed

definition test_message :: iotx_mqtt_topic_info_t where
  "test_message = \<lparr>ti_packet_id = 0, ti_qos = 1, ti_dup = 0, ti_retain = 0, ti_topic_len = 0,
     ti_payload_len = 2, ti_ptopic = None, ti_payload = Some [1, 2]\<rparr>"

theorem publish_contract_witness:
  "\<exists>msg' c'. wrapper_mqtt_publish (test_platform 100 []) (Some (ascii ''/a/bc'')) (Some test_message)
       test_client = Some (1, msg', c') \<and> length (list_pub_wait_ack c') = 1"
proof -
  have "map_option fst (wrapper_mqtt_publish (test_platform 100 []) (Some (ascii ''/a/bc''))
      (Some test_message) test_client) = Some 1"
    by code_simp
  then obtain msg' c' where run: "wrapper_mqtt_publish (test_platform 100 []) (Some (ascii ''/a/bc''))
      (Some test_message) test_client = Some (1, msg', c')" by auto
  have "map_option (\<lambda>(rc, m, c). map_option ti_qos m)
      (wrapper_mqtt_publish (test_platform 100 []) (Some (ascii ''/a/bc''))
      (Some test_message) test_client) = Some (Some 1)"
    by code_simp
  with run have "map_option ti_qos msg' = Some 1" by simp
  with publish_contract [OF run test_platform_bounded] run show ?thesis
    by (auto simp: test_client_def blank_client_def published_def)
qed

section \<open>Acknowledgement and republishing\<close>

text \<open>What identifies a node: everything but the time it was sent last.\<close>

definition node_key :: "iotx_mc_pub_info_t \<Rightarrow> u16 \<times> iotx_mc_node_t \<times> u32 \<times> bytes" where
  "node_key n = (msg_id n, node_state n, pi_len n, pi_buf n)"

lemma node_key_time [simp]: "node_key (n\<lparr>pub_start_time := t\<rparr>) = node_key n"
  by (simp add: node_key_def)

text \<open>Only the state of the client may change, to disconnected.\<close>

definition proc_frame :: "iotx_mc_client_t \<Rightarrow> iotx_mc_client_t \<Rightarrow> bool" where
  "proc_frame c c' \<longleftrightarrow>
     io_step (c\<lparr>client_state := client_state c'\<rparr>) c'
     \<and> client_state c' \<in> {client_state c, IOTX_MC_STATE_DISCONNECTED}"

lemma proc_frame_io: "io_step c c' \<Longrightarrow> proc_frame c c'"
  by (simp add: proc_frame_def io_step_def)

lemma proc_frame_trans: "proc_frame c c' \<Longrightarrow> proc_frame c' c'' \<Longrightarrow> proc_frame c c''"
  by (auto simp: proc_frame_def io_step_def)

definition valid_nodes :: "iotx_mc_pub_info_t list \<Rightarrow> iotx_mc_pub_info_t list" where
  "valid_nodes ns = filter (\<lambda>n. node_state n \<noteq> IOTX_MC_NODE_STATE_INVALID) ns"

definition proc_result ::
    "iotx_mc_pub_info_t list \<Rightarrow> iotx_mc_client_t \<Rightarrow> iotx_mc_pub_info_t list \<times> iotx_mc_client_t \<Rightarrow> bool"
where
  "proc_result ns c r \<longleftrightarrow>
     proc_frame c (snd r)
     \<and> (client_state (snd r) = client_state c \<longrightarrow> map node_key (fst r) = map node_key (valid_nodes ns))
     \<and> (\<exists>as bs. ns = as @ bs \<and> map node_key (fst r) = map node_key (valid_nodes as @ bs))"

lemma proc_result_keep:
  assumes "proc_result ns c1 (ns', c')" and "io_step c c1" and "node_key n' = node_key n"
    and "node_state n \<noteq> IOTX_MC_NODE_STATE_INVALID"
  shows "proc_result (n # ns) c (n' # ns', c')"
proof -
  from assms(1) obtain as bs where "ns = as @ bs" "map node_key ns' = map node_key (valid_nodes as @ bs)"
    by (auto simp: proc_result_def)
  then have "n # ns = (n # as) @ bs \<and> map node_key (n' # ns') = map node_key (valid_nodes (n # as) @ bs)"
    using assms(3,4) by (simp add: valid_nodes_def)
  then have split: "\<exists>as bs. n # ns = as @ bs \<and> map node_key (n' # ns') = map node_key (valid_nodes as @ bs)"
    by blast
  have "client_state c1 = client_state c" using assms(2) by (simp add: io_step_def)
  moreover have "proc_frame c c'"
    using assms(1,2) proc_frame_trans [OF proc_frame_io, of c c1 c'] by (simp add: proc_result_def)
  ultimately show ?thesis
    using assms(1,3,4) split unfolding proc_result_def by (simp add: valid_nodes_def)
qed

lemma proc_result_drop:
  assumes "proc_result ns c r" and "node_state n = IOTX_MC_NODE_STATE_INVALID"
  shows "proc_result (n # ns) c r"
proof -
  from assms(1) obtain as bs where "ns = as @ bs" "map node_key (fst r) = map node_key (valid_nodes as @ bs)"
    by (auto simp: proc_result_def)
  then have "n # ns = (n # as) @ bs \<and> map node_key (fst r) = map node_key (valid_nodes (n # as) @ bs)"
    using assms(2) by (simp add: valid_nodes_def)
  then have "\<exists>as bs. n # ns = as @ bs \<and> map node_key (fst r) = map node_key (valid_nodes as @ bs)"
    by blast
  with assms show ?thesis unfolding proc_result_def by (simp add: valid_nodes_def)
qed

lemma proc_result_break:
  assumes "io_step c c1" and "client_state c \<noteq> IOTX_MC_STATE_DISCONNECTED"
    and "node_key n' = node_key n"
  shows "proc_result (n # ns) c (n' # ns, iotx_mc_set_client_state IOTX_MC_STATE_DISCONNECTED c1)"
proof -
  have "n # ns = [] @ (n # ns) \<and> map node_key (n' # ns) = map node_key (valid_nodes [] @ (n # ns))"
    using assms(3) by (simp add: valid_nodes_def)
  then have "\<exists>as bs. n # ns = as @ bs \<and> map node_key (n' # ns) = map node_key (valid_nodes as @ bs)"
    by blast
  with assms(1,2) show ?thesis
    by (simp add: proc_result_def proc_frame_def io_step_def iotx_mc_set_client_state_def)
qed

lemma pub_info_loop_result: "pub_info_loop P ns c = Some r \<Longrightarrow> proc_result ns c r"
proof (induction P ns c arbitrary: r rule: pub_info_loop.induct)
  case (1 P c)
  then show ?case by (auto simp: proc_result_def valid_nodes_def proc_frame_io)
next
  case (2 P node rest c)
  obtain spent c1 where spent: "mc_time_spend P (pub_start_time node) c = (spent, c1)" by force
  note io1 = io_steps(8) [OF spent]
  consider (invalid) "node_state node = IOTX_MC_NODE_STATE_INVALID"
    | (idle) "node_state node \<noteq> IOTX_MC_NODE_STATE_INVALID" "client_state c \<noteq> IOTX_MC_STATE_CONNECTED"
    | (early) "node_state node \<noteq> IOTX_MC_NODE_STATE_INVALID" "client_state c = IOTX_MC_STATE_CONNECTED"
        "spent \<le> request_timeout_ms c1 * 2"
    | (late) "node_state node \<noteq> IOTX_MC_NODE_STATE_INVALID" "client_state c = IOTX_MC_STATE_CONNECTED"
        "\<not> spent \<le> request_timeout_ms c1 * 2" by blast
  then show ?case
  proof cases
    case invalid
    with 2 show ?thesis by (auto intro: proc_result_drop)
  next
    case idle
    with "2.prems" obtain ns' c' where "pub_info_loop P rest c = Some (ns', c')" "r = (node # ns', c')"
      by (auto simp: iotx_mc_get_client_state_def split: Option.bind_splits)
    with idle "2.IH"(2) show ?thesis
      by (auto simp: iotx_mc_get_client_state_def intro!: proc_result_keep [OF _ io_step_refl])
  next
    case early
    with "2.prems" spent obtain ns' c' where "pub_info_loop P rest c1 = Some (ns', c')" "r = (node # ns', c')"
      by (auto simp: iotx_mc_get_client_state_def split: Option.bind_splits)
    with early spent "2.IH"(3) [OF _ _ spent [symmetric] refl] io1 show ?thesis
      by (auto simp: iotx_mc_get_client_state_def intro!: proc_result_keep)
  next
    case late
    with "2.prems" spent obtain rc c2 where re: "MQTTRePublish P (pi_buf node) (sint (pi_len node)) c1 = Some (rc, c2)"
      by (auto simp: iotx_mc_get_client_state_def split: Option.bind_splits)
    obtain start c3 where start: "mc_time_start P (pub_start_time node) c2 = (start, c3)" by force
    have io3: "io_step c c3"
      using io1 io_step_republish [OF re] io_steps(7) [OF start] io_step_trans by blast
    show ?thesis
    proof (cases "rc = MQTT_NETWORK_ERROR")
      case True
      with "2.prems" late spent re start
      have "r = (node\<lparr>pub_start_time := start\<rparr> # rest, iotx_mc_set_client_state IOTX_MC_STATE_DISCONNECTED c3)"
        by (auto simp: iotx_mc_get_client_state_def)
      with late io3 show ?thesis by (simp add: proc_result_break)
    next
      case False
      with "2.prems" late spent re start obtain ns' c'
        where loop: "pub_info_loop P rest c3 = Some (ns', c')"
          "r = (node\<lparr>pub_start_time := start\<rparr> # ns', c')"
        by (auto simp: iotx_mc_get_client_state_def split: Option.bind_splits)
      have "proc_result rest c3 (ns', c')"
        using "2.IH"(4) [OF _ _ spent [symmetric] refl _ re refl start [symmetric] refl refl] late False loop(1)
        by (auto simp: iotx_mc_get_client_state_def)
      with late io3 loop(2) show ?thesis by (auto intro: proc_result_keep)
    qed
  qed
qed

lemma MQTTPubInfoProc_result:
  assumes "MQTTPubInfoProc P c = Some (rc, c')"
  shows "rc = SUCCESS_RETURN"
    and "client_state c' = client_state c \<Longrightarrow>
           map node_key (list_pub_wait_ack c') = map node_key (valid_nodes (list_pub_wait_ack c))"
    and "\<exists>as bs. list_pub_wait_ack c = as @ bs
           \<and> map node_key (list_pub_wait_ack c') = map node_key (valid_nodes as @ bs)"
    and "proc_frame (c\<lparr>list_pub_wait_ack := list_pub_wait_ack c'\<rparr>) c'"
proof -
  obtain ns c1 where loop: "pub_info_loop P (list_pub_wait_ack c) c = Some (ns, c1)"
    and c': "rc = SUCCESS_RETURN" "c' = c1\<lparr>list_pub_wait_ack := ns\<rparr>"
    using assms by (auto simp: MQTTPubInfoProc_def split: Option.bind_splits)
  note res = pub_info_loop_result [OF loop, unfolded proc_result_def]
  show "rc = SUCCESS_RETURN" using c'(1) .
  show "client_state c' = client_state c \<Longrightarrow>
           map node_key (list_pub_wait_ack c') = map node_key (valid_nodes (list_pub_wait_ack c))"
    and "\<exists>as bs. list_pub_wait_ack c = as @ bs
           \<and> map node_key (list_pub_wait_ack c') = map node_key (valid_nodes as @ bs)"
    and "proc_frame (c\<lparr>list_pub_wait_ack := list_pub_wait_ack c'\<rparr>) c'"
    using res c'(2) by (simp_all add: proc_frame_def io_step_def)
qed

lemma valid_nodes_mask:
  "map node_key (valid_nodes (list_pub_wait_ack (snd (iotx_mc_mask_pubInfo_from i c))))
     = map node_key (filter (\<lambda>n. node_state n \<noteq> IOTX_MC_NODE_STATE_INVALID \<and> msg_id n \<noteq> i)
         (list_pub_wait_ack c))"
proof -
  let ?f = "\<lambda>n. if msg_id n = i then n\<lparr>node_state := IOTX_MC_NODE_STATE_INVALID\<rparr> else n"
  have "map node_key (valid_nodes (map ?f ns))
      = map node_key (filter (\<lambda>n. node_state n \<noteq> IOTX_MC_NODE_STATE_INVALID \<and> msg_id n \<noteq> i) ns)" for ns
    by (induction ns) (auto simp: valid_nodes_def)
  then show ?thesis by (simp add: iotx_mc_mask_pubInfo_from_def)
qed

text \<open>
  Property C10: after the acknowledgement of an identifier and the next run of
  \<open>MQTTPubInfoProc\<close> the list holds exactly the unacknowledged publishes with other
  identifiers, in their order and with their packets unchanged, unless republishing failed
  (then the client is disconnected); in no case is an unacknowledged publish lost.
\<close>

theorem acknowledged_publishes_removed:
  assumes "MQTTPubInfoProc P (snd (iotx_mc_mask_pubInfo_from i c)) = Some (rc, c')"
  shows "(client_state c' = client_state c \<longrightarrow>
            map node_key (list_pub_wait_ack c')
              = map node_key (filter (\<lambda>n. node_state n \<noteq> IOTX_MC_NODE_STATE_INVALID \<and> msg_id n \<noteq> i)
                  (list_pub_wait_ack c)))
       \<and> client_state c' \<in> {client_state c, IOTX_MC_STATE_DISCONNECTED}
       \<and> (\<forall>n \<in> set (list_pub_wait_ack c).
            node_state n \<noteq> IOTX_MC_NODE_STATE_INVALID \<and> msg_id n \<noteq> i
              \<longrightarrow> node_key n \<in> node_key ` set (list_pub_wait_ack c'))"
proof (intro conjI impI ballI)
  let ?c1 = "snd (iotx_mc_mask_pubInfo_from i c)"
  note res = MQTTPubInfoProc_result [OF assms]
  have state: "client_state ?c1 = client_state c" by (simp add: iotx_mc_mask_pubInfo_from_def)
  show "client_state c' \<in> {client_state c, IOTX_MC_STATE_DISCONNECTED}"
    using res(4) state by (auto simp: proc_frame_def)
  show "client_state c' = client_state c \<Longrightarrow> map node_key (list_pub_wait_ack c')
              = map node_key (filter (\<lambda>n. node_state n \<noteq> IOTX_MC_NODE_STATE_INVALID \<and> msg_id n \<noteq> i)
                  (list_pub_wait_ack c))"
    using res(2) state valid_nodes_mask [of i c] by simp
  fix n assume n: "n \<in> set (list_pub_wait_ack c)"
    "node_state n \<noteq> IOTX_MC_NODE_STATE_INVALID \<and> msg_id n \<noteq> i"
  have "n \<in> set (list_pub_wait_ack ?c1)"
    using n by (force simp: iotx_mc_mask_pubInfo_from_def)
  with n(2) res(3) obtain as bs where "n \<in> set (valid_nodes as @ bs)"
    "map node_key (list_pub_wait_ack c') = map node_key (valid_nodes as @ bs)"
    by (auto simp: valid_nodes_def)
  then show "node_key n \<in> node_key ` set (list_pub_wait_ack c')"
    by (metis image_eqI list.set_map)
qed

theorem acknowledged_publishes_removed_witness:
  "\<exists>rc c'. MQTTPubInfoProc (test_platform 100 [])
       (snd (iotx_mc_mask_pubInfo_from 7 (test_client\<lparr>list_pub_wait_ack :=
          [\<lparr>pub_start_time = \<lparr>time = 0\<rparr>, node_state = IOTX_MC_NODE_STATE_NORMANL, msg_id = 7,
            pi_len = 1, pi_buf = [9]\<rparr>]\<rparr>))) = Some (rc, c') \<and> list_pub_wait_ack c' = []"
proof -
  let ?c = "test_client\<lparr>list_pub_wait_ack :=
          [\<lparr>pub_start_time = \<lparr>time = 0\<rparr>, node_state = IOTX_MC_NODE_STATE_NORMANL, msg_id = 7,
            pi_len = 1, pi_buf = [9]\<rparr>]\<rparr>"
  have "map_option (client_state \<circ> snd)
      (MQTTPubInfoProc (test_platform 100 []) (snd (iotx_mc_mask_pubInfo_from 7 ?c)))
    = Some IOTX_MC_STATE_CONNECTED" by code_simp
  then obtain rc c' where run: "MQTTPubInfoProc (test_platform 100 [])
      (snd (iotx_mc_mask_pubInfo_from 7 ?c)) = Some (rc, c')" "client_state c' = IOTX_MC_STATE_CONNECTED"
    by auto
  with acknowledged_publishes_removed [OF run(1)] show ?thesis
    by (simp add: test_client_def blank_client_def)
qed

lemma wait_list_ok_key:
  "wait_list_ok ns \<longleftrightarrow>
     length ns \<le> IOTX_MC_REPUB_NUM_MAX
     \<and> list_all (\<lambda>k. length (snd (snd (snd k))) = unat (fst (snd (snd k)))) (map node_key ns)"
  by (simp add: wait_list_ok_def node_key_def list_all_iff)

lemma wait_list_ok_mask: "wait_list_ok (list_pub_wait_ack (snd (iotx_mc_mask_pubInfo_from i c)))
    \<longleftrightarrow> wait_list_ok (list_pub_wait_ack c)"
proof -
  let ?f = "\<lambda>n :: iotx_mc_pub_info_t. if msg_id n = i then n\<lparr>node_state := IOTX_MC_NODE_STATE_INVALID\<rparr> else n"
  have "list_all (\<lambda>n. length (pi_buf n) = unat (pi_len n)) (map ?f ns)
      = list_all (\<lambda>n. length (pi_buf n) = unat (pi_len n)) ns" for ns
    by (induction ns) auto
  then show ?thesis by (simp add: wait_list_ok_def iotx_mc_mask_pubInfo_from_def)
qed

lemma wait_list_ok_proc:
  assumes "MQTTPubInfoProc P c = Some (rc, c')" and "wait_list_ok (list_pub_wait_ack c)"
  shows "wait_list_ok (list_pub_wait_ack c')"
proof -
  from MQTTPubInfoProc_result(3) [OF assms(1)] obtain as bs
    where ns: "list_pub_wait_ack c = as @ bs"
      "map node_key (list_pub_wait_ack c') = map node_key (valid_nodes as @ bs)" by blast
  have "length (valid_nodes as) \<le> length as" by (simp add: valid_nodes_def)
  moreover have "length (list_pub_wait_ack c') = length (valid_nodes as @ bs)"
    using ns(2) by (metis length_map)
  ultimately have "length (list_pub_wait_ack c') \<le> IOTX_MC_REPUB_NUM_MAX"
    using assms(2) ns(1) by (simp add: wait_list_ok_def)
  with assms(2) ns show ?thesis
    unfolding wait_list_ok_key by (auto simp: list_all_iff valid_nodes_def)
qed

lemma wait_list_ok_publish:
  assumes "MQTTPublish P t m c = Some (rc, c')" and "writes_bounded P"
    and "wait_list_ok (list_pub_wait_ack c)"
  shows "wait_list_ok (list_pub_wait_ack c')"
  using publish_outcome [OF assms(1,2)] assms(3)
  by (auto simp: wait_list_ok_def published_def split: if_splits)

end
