(* ===== verification/Mqtt_Receive.thy ===== *)
theory Mqtt_Receive
  imports Mqtt_Publish
begin

text \<open>
  Receiving in \<open>mqtt/iotx_mqtt_client.c\<close>: reading one packet from the stream
  (\<open>iotx_mc_decode_packet\<close>, \<open>iotx_mc_read_packet\<close>), the handlers of the packets and the
  dispatcher \<open>iotx_mc_cycle\<close>. The lemmas show that a packet is taken off the stream exactly
  and left in the buffer byte for byte, what happens to one that is too long, to whom a
  message is delivered, and that QoS 1 messages are acknowledged with their identifier.
\<close>

section \<open>Reading a packet\<close>

text \<open>A read into the receive buffer at an offset.\<close>

definition read_into ::
    "platform \<Rightarrow> nat \<Rightarrow> nat \<Rightarrow> u32 \<Rightarrow> iotx_mc_client_t \<Rightarrow> (int \<times> iotx_mc_client_t) option" where
  "read_into P off n timeout c =
     do { buf \<leftarrow> buf_read c;
          (rc, buf, c) \<leftarrow> ipstack_read P buf off n timeout c;
          Some (rc, c\<lparr>buf_read := Some buf\<rparr>) }"

text \<open>The \<open>do .. while\<close> loop of \<open>iotx_mc_decode_packet\<close>: return code, value, client.\<close>

function iotx_mc_decode_packet_loop ::
    "platform \<Rightarrow> u32 \<Rightarrow> int \<Rightarrow> int \<Rightarrow> int \<Rightarrow> iotx_mc_client_t \<Rightarrow> (int \<times> int \<times> iotx_mc_client_t) option" where
  "iotx_mc_decode_packet_loop P timeout multiplier len val c =
     (let len = len + 1 in
      if len > 4 then Some (MQTTPACKET_READ_ERROR, val, c)
      else do {
        (rc, i, c) \<leftarrow> ipstack_read P [0] 0 1 (if timeout = 0 then 1 else timeout) c;
        if rc = 0 then Some (FAIL_RETURN, val, c)
        else if rc \<noteq> 1 then Some (MQTT_NETWORK_ERROR, val, c)
        else
          let val = val + uint (hd i AND 127) * multiplier
          in if hd i AND 128 \<noteq> 0
             then iotx_mc_decode_packet_loop P timeout (multiplier * 128) len val c
             else Some (len, val, c) })"
  by pat_completeness auto
termination
  by (relation "measure (\<lambda>(P, t, m, len, v, c). nat (5 - len))") auto

declare iotx_mc_decode_packet_loop.simps [simp del]

definition iotx_mc_decode_packet ::
    "platform \<Rightarrow> u32 \<Rightarrow> iotx_mc_client_t \<Rightarrow> (int \<times> int \<times> iotx_mc_client_t) option" where
  "iotx_mc_decode_packet P timeout c = iotx_mc_decode_packet_loop P timeout 1 0 0 c"

text \<open>
  The caller's \<open>packet_type\<close> is passed in and out, \<open>None\<close> as long as nothing is stored
  in it. First the path of a packet that does not fit the buffer: the part that fits is
  read, the rest is read into another buffer and dropped.
\<close>

definition read_oversized ::
    "platform \<Rightarrow> iotx_time_t \<Rightarrow> u8 option \<Rightarrow> int \<Rightarrow> int \<Rightarrow> iotx_mc_client_t
      \<Rightarrow> (int \<times> u8 option \<times> iotx_mc_client_t) option" where
  "read_oversized P timer packet_type len rem_len c =
     (let needReadLen = sint (buf_size_read c - word_of_int len);
          (left_t, c) = mc_left_or_1 P timer c
      in do {
        (rc, c) \<leftarrow> read_into P (nat len) (unat (word_of_int needReadLen :: u32)) left_t c;
        if rc < 0 then Some (MQTT_NETWORK_ERROR, packet_type, c)
        else if rc \<noteq> needReadLen then Some (FAIL_RETURN, packet_type, c)
        else
          let remainDataLen = rem_len - needReadLen;
              (ok, c) = HAL_Malloc P (word_of_int (remainDataLen + 1)) c
          in if \<not> ok then Some (FAIL_RETURN, packet_type, c)
             else
               let (left_t, c) = mc_left_or_1 P timer c in
               do {
                 (rc, dropped, c) \<leftarrow> ipstack_read P (replicate (nat (remainDataLen + 1)) 0) 0
                                     (unat (word_of_int remainDataLen :: u32)) left_t c;
                 if rc < 0 then Some (MQTT_NETWORK_ERROR, packet_type, c)
                 else if rc \<noteq> remainDataLen then Some (FAIL_RETURN, packet_type, c)
                 else Some (SUCCESS_RETURN, packet_type,
                        notify IOTX_MQTT_EVENT_BUFFER_OVERFLOW
                          (Detail (ascii ''mqtt read buffer is too short'')) c) } })"

text \<open>The rest of a packet that fits, and the terminating NUL if there is room.\<close>

definition read_body ::
    "platform \<Rightarrow> iotx_time_t \<Rightarrow> u8 option \<Rightarrow> int \<Rightarrow> int \<Rightarrow> iotx_mc_client_t
      \<Rightarrow> (int \<times> u8 option \<times> iotx_mc_client_t) option" where
  "read_body P timer packet_type len rem_len c =
     (let (left_t, c) = mc_left_or_1 P timer c
      in do {
        (rc, c) \<leftarrow> read_into P (nat len) (nat rem_len) left_t c;
        if rem_len > 0 \<and> rc < 0 then Some (MQTT_NETWORK_ERROR, packet_type, c)
        else if rem_len > 0 \<and> rc \<noteq> rem_len then Some (FAIL_RETURN, packet_type, c)
        else do {
          buf \<leftarrow> buf_read c;
          header \<leftarrow> rd buf 0;
          let buf = (if (word_of_int (len + rem_len) :: u32) < buf_size_read c
                     then buf[nat (len + rem_len) := 0] else buf)
          in Some (SUCCESS_RETURN, Some (MQTT_HEADER_GET_TYPE header), c\<lparr>buf_read := Some buf\<rparr>) } })"

definition iotx_mc_read_packet ::
    "platform \<Rightarrow> iotx_time_t \<Rightarrow> u8 option \<Rightarrow> iotx_mc_client_t
      \<Rightarrow> (int \<times> u8 option \<times> iotx_mc_client_t) option" where
  "iotx_mc_read_packet P timer packet_type c =
     do {
       (rc, c) \<leftarrow> alloc_recv_buffer P 0 c;
       if rc < 0 then Some (FAIL_RETURN, packet_type, c)
       else
         let (left_t, c) = mc_left_or_1 P timer c in
         do {
           (rc, c) \<leftarrow> read_into P 0 1 left_t c;
           if rc = 0 then Some (SUCCESS_RETURN, Some 0, c)
           else if rc \<noteq> 1 then Some (MQTT_NETWORK_ERROR, packet_type, c)
           else
             let (left_t, c) = mc_left_or_1 P timer c in
             do {
               (rc, rem_len, c) \<leftarrow> iotx_mc_decode_packet P left_t c;
               if rc < 0 then Some (rc, packet_type, c)
               else do {
                 buf \<leftarrow> buf_read c;
                 let enc = MQTTPacket_encode rem_len; len = 1 + int (length enc)
                 in if 1 + length enc > length buf then None
                    else do {
                      let c = c\<lparr>buf_read := Some (take 1 buf @ enc @ drop (1 + length enc) buf)\<rparr>;
                      (rc, c) \<leftarrow> alloc_recv_buffer P (rem_len + len) c;
                      if rc < 0 then Some (FAIL_RETURN, packet_type, c)
                      else if rem_len > 0 \<and> (word_of_int (rem_len + len) :: u32) > buf_size_read c
                      then read_oversized P timer packet_type len rem_len c
                      else read_body P timer packet_type len rem_len c } } } } }"

section \<open>CONNACK, PUBACK, SUBACK, UNSUBACK\<close>

definition iotx_mc_handle_recv_CONNACK :: "iotx_mc_client_t \<Rightarrow> int option" where
  "iotx_mc_handle_recv_CONNACK c =
     do {
       buf \<leftarrow> buf_read c;
       (rc, sessionPresent, connack_rc) \<leftarrow> MQTTDeserialize_connack 0 255 buf (sint (buf_size_read c));
       Some (if rc \<noteq> 1 then MQTT_CONNECT_ACK_PACKET_ERROR
             else if connack_rc = 0 then SUCCESS_RETURN
             else if connack_rc = 1 then MQTT_CONANCK_UNACCEPTABLE_PROTOCOL_VERSION_ERROR
             else if connack_rc = 2 then MQTT_CONNACK_IDENTIFIER_REJECTED_ERROR
             else if connack_rc = 3 then MQTT_CONNACK_SERVER_UNAVAILABLE_ERROR
             else if connack_rc = 4 then MQTT_CONNACK_BAD_USERDATA_ERROR
             else if connack_rc = 5 then MQTT_CONNACK_NOT_AUTHORIZED_ERROR
             else MQTT_CONNACK_UNKNOWN_ERROR) }"

text \<open>\<open>mypacketid\<close> is not initialised: using it before it is stored has no defined result.\<close>

definition iotx_mc_handle_recv_PUBACK :: "iotx_mc_client_t \<Rightarrow> (int \<times> iotx_mc_client_t) option" where
  "iotx_mc_handle_recv_PUBACK c =
     do {
       buf \<leftarrow> buf_read c;
       (rc, type, dup, mypacketid) \<leftarrow> MQTTDeserialize_ack None buf (sint (buf_size_read c));
       if rc \<noteq> 1 then Some (MQTT_PUBLISH_ACK_PACKET_ERROR, c)
       else do {
         mypacketid \<leftarrow> mypacketid;
         let (rc, c) = iotx_mc_mask_pubInfo_from mypacketid c
         in Some (SUCCESS_RETURN,
                  notify IOTX_MQTT_EVENT_PUBLISH_SUCCESS (PacketId (uint mypacketid)) c) } }"

definition iotx_mqtt_event_handle_sub ::
    "int \<Rightarrow> iotx_mqtt_event_type_t \<Rightarrow> iotx_mc_client_t \<Rightarrow> iotx_mc_client_t" where
  "iotx_mqtt_event_handle_sub packetid ty c =
     c\<lparr>list_sub_sync_ack :=
         map (\<lambda>node. if ss_packet_id node = packetid then node\<lparr>ack_type := ty\<rparr> else node)
           (list_sub_sync_ack c)\<rparr>"

text \<open>\<open>fail_flag\<close> is set back to 0 for every code, so the last code decides.\<close>

definition suback_fail_flag :: "int list \<Rightarrow> int" where
  "suback_fail_flag grantedQoS =
     foldl (\<lambda>fail_flag q. let fail_flag = 0 in if (word_of_int q :: u8) = 0x80 then 1 else fail_flag)
       (-1) grantedQoS"

definition iotx_mc_handle_recv_SUBACK :: "iotx_mc_client_t \<Rightarrow> (int \<times> iotx_mc_client_t) option" where
  "iotx_mc_handle_recv_SUBACK c =
     do {
       buf \<leftarrow> buf_read c;
       (rc, mypacketid, grantedQoS) \<leftarrow>
          MQTTDeserialize_suback None MUTLI_SUBSCIRBE_MAX buf (sint (buf_size_read c));
       if rc < 0 then Some (MQTT_SUBSCRIBE_ACK_PACKET_ERROR, c)
       else do {
         mypacketid \<leftarrow> mypacketid;
         let ty = (if suback_fail_flag grantedQoS = 1 then IOTX_MQTT_EVENT_SUBCRIBE_NACK
                   else IOTX_MQTT_EVENT_SUBCRIBE_SUCCESS);
             c = iotx_mqtt_event_handle_sub (uint mypacketid) ty c
         in Some (SUCCESS_RETURN, notify ty (PacketId (uint mypacketid)) c) } }"

definition iotx_mc_handle_recv_UNSUBACK :: "iotx_mc_client_t \<Rightarrow> (int \<times> iotx_mc_client_t) option" where
  "iotx_mc_handle_recv_UNSUBACK c =
     do {
       buf \<leftarrow> buf_read c;
       (rc, mypacketid) \<leftarrow> MQTTDeserialize_unsuback (Some 0) buf (sint (buf_size_read c));
       if rc \<noteq> 1 then Some (MQTT_UNSUBSCRIBE_ACK_PACKET_ERROR, c)
       else do {
         mypacketid \<leftarrow> mypacketid;
         Some (SUCCESS_RETURN,
               notify IOTX_MQTT_EVENT_UNSUBCRIBE_SUCCESS (PacketId (uint mypacketid)) c) } }"

section \<open>PUBLISH\<close>

text \<open>\<open>||\<close> evaluates the wildcard match only if the names are not equal.\<close>

definition topic_handled :: "iotx_mc_topic_handle_t \<Rightarrow> MQTTString \<Rightarrow> bool option" where
  "topic_handled node topicName =
     do { eq \<leftarrow> MQTTPacket_equals topicName (topic_filter node);
          if eq then Some True
          else do { m \<leftarrow> iotx_mc_is_topic_matched (Some (topic_filter node)) (Some topicName);
                    Some (m \<noteq> 0) } }"

text \<open>The loop over the subscriptions; it returns \<open>flag_matched\<close>.\<close>

fun deliver_loop ::
    "iotx_mc_topic_handle_t list \<Rightarrow> MQTTString \<Rightarrow> iotx_mqtt_topic_info_t \<Rightarrow> int \<Rightarrow> iotx_mc_client_t
      \<Rightarrow> (int \<times> iotx_mc_client_t) option" where
  "deliver_loop [] topicName topic_msg flag_matched c = Some (flag_matched, c)"
| "deliver_loop (node # rest) topicName topic_msg flag_matched c =
     do { hit \<leftarrow> topic_handled node topicName;
          if hit \<and> h_fp (th_handle node) \<noteq> None
          then deliver_loop rest topicName topic_msg 1
                 (snd (handle_event_call (th_handle node) IOTX_MQTT_EVENT_PUBLISH_RECEIVED
                        (TopicInfo topic_msg) c))
          else deliver_loop rest topicName topic_msg flag_matched c }"

definition iotx_mc_deliver_message ::
    "MQTTString \<Rightarrow> iotx_mqtt_topic_info_t \<Rightarrow> iotx_mc_client_t \<Rightarrow> iotx_mc_client_t option" where
  "iotx_mc_deliver_message topicName topic_msg c =
     (let topic_msg = topic_msg\<lparr>ti_ptopic := ls_data (lenstring topicName),
                               ti_topic_len := word_of_int (ls_len (lenstring topicName))\<rparr>
      in do { (flag_matched, c) \<leftarrow> deliver_loop (list_sub_handle c) topicName topic_msg 0 c;
              Some (if flag_matched = 0
                    then notify IOTX_MQTT_EVENT_PUBLISH_RECEIVED (TopicInfo topic_msg) c
                    else c) })"

definition MQTTPuback ::
    "platform \<Rightarrow> u16 \<Rightarrow> u8 \<Rightarrow> iotx_mc_client_t \<Rightarrow> (int \<times> iotx_mc_client_t) option" where
  "MQTTPuback P msgId type c =
     (let (timer, c) = mc_countdown_ms P fresh_timer (request_timeout_ms c) c in
      if type \<noteq> PUBACK then Some (MQTT_PUBLISH_ACK_TYPE_ERROR, c)
      else do {
        (rc, c) \<leftarrow> alloc_send_buffer P 0 c;
        if rc < 0 then Some (FAIL_RETURN, c)
        else do {
          (len, c) \<leftarrow> store_packet (MQTTSerialize_ack (sint (buf_size_send c)) PUBACK 0 msgId) c;
          if len \<le> 0 then Some (MQTT_PUBLISH_ACK_PACKET_ERROR, snd (reset_send_buffer c))
          else do {
            (rc, c) \<leftarrow> iotx_mc_send_packet P (buf_send c) len timer c;
            Some (if rc \<noteq> SUCCESS_RETURN then MQTT_NETWORK_ERROR else SUCCESS_RETURN,
                  snd (reset_send_buffer c)) } } })"

definition blank_publish_fields :: publish_fields where
  "blank_publish_fields =
     \<lparr>pf_dup = 0, pf_qos = 0, pf_retained = 0, pf_packetid = 0,
      pf_topicName = MQTTString_initializer, pf_payload = None, pf_payloadlen = 0\<rparr>"

definition iotx_mc_handle_recv_PUBLISH ::
    "platform \<Rightarrow> iotx_mc_client_t \<Rightarrow> (int \<times> iotx_mc_client_t) option" where
  "iotx_mc_handle_recv_PUBLISH P c =
     do {
       buf \<leftarrow> buf_read c;
       (rc, f) \<leftarrow> MQTTDeserialize_publish blank_publish_fields buf (sint (buf_size_read c));
       if rc \<noteq> 1 then Some (MQTT_PUBLISH_PACKET_ERROR, c)
       else do {
         let topic_msg = \<lparr>ti_packet_id = pf_packetid f, ti_qos = word_of_int (pf_qos f),
                          ti_dup = pf_dup f, ti_retain = pf_retained f, ti_topic_len = 0,
                          ti_payload_len = word_of_int (pf_payloadlen f), ti_ptopic = None,
                          ti_payload = pf_payload f\<rparr>;
         c \<leftarrow> iotx_mc_deliver_message (pf_topicName f) topic_msg c;
         if ti_qos topic_msg = 0 then Some (SUCCESS_RETURN, c)
         else if ti_qos topic_msg = 1 then MQTTPuback P (ti_packet_id topic_msg) PUBACK c
         else if ti_qos topic_msg = 2 then MQTTPuback P (ti_packet_id topic_msg) PUBREC c
         else Some (MQTT_PUBLISH_QOS_ERROR, c) } }"

section \<open>One cycle\<close>

text \<open>
  \<open>packetType\<close> starts uninitialised; testing it before \<open>iotx_mc_read_packet\<close> has stored
  something in it has no defined result.
\<close>

definition iotx_mc_cycle ::
    "platform \<Rightarrow> iotx_time_t \<Rightarrow> iotx_mc_client_t \<Rightarrow> (int \<times> iotx_mc_client_t) option" where
  "iotx_mc_cycle P timer c =
     (if iotx_mc_get_client_state c \<noteq> IOTX_MC_STATE_CONNECTED then Some (MQTT_STATE_ERROR, c)
      else do {
        let c = (if IOTX_MC_KEEPALIVE_PROBE_MAX < keepalive_probes c
                 then (iotx_mc_set_client_state IOTX_MC_STATE_DISCONNECTED c)\<lparr>keepalive_probes := 0\<rparr>
                 else c);
        (rc, packetType, c) \<leftarrow> iotx_mc_read_packet P timer None c;
        if rc \<noteq> SUCCESS_RETURN
        then let c = snd (reset_recv_buffer c)
             in Some (MQTT_NETWORK_ERROR,
                      if rc = MQTT_NETWORK_ERROR
                      then iotx_mc_set_client_state IOTX_MC_STATE_DISCONNECTED c else c)
        else do {
          packetType \<leftarrow> packetType;
          if packetType = 0 then Some (SUCCESS_RETURN, snd (reset_recv_buffer c))
          else do {
            let c = c\<lparr>ping_mark := 0, keepalive_probes := 0\<rparr>;
            (rc, c) \<leftarrow>
              (if packetType = CONNACK then Some (SUCCESS_RETURN, c)
               else if packetType = PUBACK then iotx_mc_handle_recv_PUBACK c
               else if packetType = SUBACK then iotx_mc_handle_recv_SUBACK c
               else if packetType = PUBLISH then iotx_mc_handle_recv_PUBLISH P c
               else if packetType = UNSUBACK then iotx_mc_handle_recv_UNSUBACK c
               else if packetType = PINGRESP then Some (SUCCESS_RETURN, c)
               else Some (FAIL_RETURN, c));
            Some (rc, snd (reset_recv_buffer c)) } } })"

section \<open>Taking a packet off the stream\<close>

text \<open>The network as a stream of bytes that are there when they are asked for.\<close>

definition serves :: "platform \<Rightarrow> bytes \<Rightarrow> bool" where
  "serves P stream \<longleftrightarrow>
     (\<forall>n pos d rest t. drop pos stream = d @ rest \<longrightarrow> net_read P n pos (length d) t = Inr d)"

lemma test_platform_serves: "serves (test_platform k rx) rx"
  by (simp add: serves_def test_platform_def)

definition memory_ok :: "platform \<Rightarrow> bool" where
  "memory_ok P \<longleftrightarrow> (\<forall>n s. malloc_ok P n s)"

text \<open>\<open>k\<close> bytes were received and nothing else happened, the buffers apart.\<close>

definition received :: "nat \<Rightarrow> iotx_mc_client_t \<Rightarrow> iotx_mc_client_t \<Rightarrow> bool" where
  "received k c c' \<longleftrightarrow> io_step c c' \<and> observed c' = observed c \<and> rx_count c' = rx_count c + k"

lemma received_0 [simp]: "received 0 c c"
  by (simp add: received_def)

lemma received_trans: "received j c c' \<Longrightarrow> received k c' c'' \<Longrightarrow> received (j + k) c c''"
  by (auto simp: received_def intro: io_step_trans)

lemma received_same: "received 0 c c' \<Longrightarrow> received k c' c'' \<Longrightarrow> received k c c''"
  using received_trans [of 0] by simp

lemma received_left:
  assumes "mc_left_or_1 P t c = (n, c')"
  shows "received 0 c c'" and "buf_read c' = buf_read c" and "buf_size_read c' = buf_size_read c"
    and "buf_size_read_max c' = buf_size_read_max c"
  using assms env_step_timers(6) [OF assms]
  by (auto simp: received_def env_step_def io_step_def mc_left_or_1_def mc_time_left_def
      HAL_UptimeMs_def hal_call_def Let_def split: if_splits)

lemma ipstack_read_served:
  assumes "serves P stream" and "drop (rx_count c) stream = d @ rest" and "off + length d \<le> length buf"
  shows "\<exists>c'. ipstack_read P buf off (length d) t c
              = Some (int (length d), take off buf @ d @ drop (off + length d) buf, c')
            \<and> received (length d) c c' \<and> buf_read c' = buf_read c
            \<and> buf_size_read c' = buf_size_read c"
proof -
  have "net_read P (hal_calls c) (rx_count c) (length d) t = Inr d"
    using assms(1,2) by (auto simp: serves_def)
  with assms(3) show ?thesis
    by (simp add: ipstack_read_def received_def io_step_def hal_call_def)
qed

lemma read_into_served:
  assumes "serves P stream" and "drop (rx_count c) stream = d @ rest"
    and "buf_read c = Some buf" and "off + length d \<le> length buf"
  shows "\<exists>c'. read_into P off (length d) t c = Some (int (length d), c')
            \<and> received (length d) c c' \<and> buf_size_read c' = buf_size_read c
            \<and> buf_read c' = Some (take off buf @ d @ drop (off + length d) buf)"
proof -
  from ipstack_read_served [OF assms(1,2,4)] obtain c' where
    "ipstack_read P buf off (length d) t c
              = Some (int (length d), take off buf @ d @ drop (off + length d) buf, c')"
    "received (length d) c c'" "buf_size_read c' = buf_size_read c" by blast
  with assms(3) show ?thesis by (auto simp: read_into_def received_def io_step_def)
qed

lemma drop_received:
  assumes "drop (rx_count c) stream = d @ rest" and "received (length d) c c'"
  shows "drop (rx_count c') stream = rest"
proof -
  have "drop (rx_count c') stream = drop (length d) (drop (rx_count c) stream)"
    using assms(2) by (simp add: received_def add.commute)
  then show ?thesis using assms(1) by simp
qed

lemma alloc_recv_buffer_ok:
  assumes "memory_ok P" and "0 \<le> len" and "len + 8 < 2 ^ 31"
    and "buf_read c = None \<or> (\<exists>b. buf_read c = Some b \<and> length b = unat (buf_size_read c))"
  shows "\<exists>c' b. alloc_recv_buffer P len c = Some (SUCCESS_RETURN, c') \<and> received 0 c c'
           \<and> buf_read c' = Some b \<and> length b = unat (buf_size_read c')
           \<and> unat (buf_size_read c') = min (nat (len + 8)) (unat (buf_size_read_max c))
           \<and> (\<forall>old. buf_read c = Some old \<longrightarrow>
                take (min (length old) (length b)) b = take (min (length old) (length b)) old)"
proof -
  let ?n = "word_of_int (8 + len) :: u32"
  let ?m = "if ?n > buf_size_read_max c then buf_size_read_max c else ?n"
  have n: "unat ?n = nat (len + 8)"
  proof -
    have "uint ?n = 8 + len" unfolding uint_word_of_int using assms(2,3) by simp
    then show ?thesis by (simp add: unat_eq_nat_uint add.commute)
  qed
  have "unat ?m = min (nat (len + 8)) (unat (buf_size_read_max c))"
    using n by (auto simp: word_less_nat_alt min_def)
  moreover have "alloc_size (MQTT_DYNBUF_RECV_MARGIN + len) (buf_size_read_max c) = Some ?m"
    using assms(2,3) by (simp add: alloc_size_def c_int_def)
  ultimately obtain m where m: "unat m = min (nat (len + 8)) (unat (buf_size_read_max c))"
    and sz: "alloc_size (MQTT_DYNBUF_RECV_MARGIN + len) (buf_size_read_max c) = Some m"
    by blast
  obtain ok c1 where mal: "HAL_Malloc P m c = (ok, c1)" by force
  have ok: "ok" and c1: "buf_read c1 = buf_read c" "buf_size_read c1 = buf_size_read c" "received 0 c c1"
    using mal assms(1) by (auto simp: HAL_Malloc_def memory_ok_def hal_call_def received_def io_step_def)
  show ?thesis
  proof (cases "buf_read c")
    case None
    with sz mal ok c1 m show ?thesis
      by (auto simp: alloc_recv_buffer_def received_def io_step_def)
  next
    case (Some old)
    with assms(4) have old: "length old = unat (buf_size_read c)" by simp
    obtain k where k: "k = (if buf_size_read c < m then buf_size_read c else m)" by blast
    then have len_k: "unat k = min (length old) (unat m)"
      using old by (auto simp: word_less_nat_alt min_def)
    let ?b = "take (unat k) old @ replicate (unat m - unat k) 0"
    have copied: "mem_slice old 0 (unat k) = Some (take (unat k) old)"
      using len_k by (simp add: mem_slice_def)
    have "alloc_recv_buffer P len c = Some (SUCCESS_RETURN, c1\<lparr>buf_read := Some ?b, buf_size_read := m\<rparr>)"
      using sz mal ok c1 Some copied
      by (cases "buf_size_read c < m") (simp_all add: alloc_recv_buffer_def Let_def k)
    moreover have "length ?b = unat m" using len_k by simp
    moreover have "take (min (length old) (length ?b)) ?b = take (min (length old) (length ?b)) old"
      using len_k by simp
    ultimately obtain b where b: "length b = unat m"
      "take (min (length old) (length b)) b = take (min (length old) (length b)) old"
      "alloc_recv_buffer P len c = Some (SUCCESS_RETURN, c1\<lparr>buf_read := Some b, buf_size_read := m\<rparr>)"
      by blast
    have "received 0 c (c1\<lparr>buf_read := Some b, buf_size_read := m\<rparr>)"
      using c1(3) by (simp add: received_def io_step_def)
    with b m Some show ?thesis by auto
  qed
qed

text \<open>The remaining length is read digit by digit.\<close>

lemma decode_packet_loop_served:
  "\<lbrakk> serves P stream; drop (rx_count c) stream = MQTTPacket_encode n @ rest; 0 \<le> n; 0 \<le> len;
     len + int (length (MQTTPacket_encode n)) \<le> 4 \<rbrakk> \<Longrightarrow>
   \<exists>c'. iotx_mc_decode_packet_loop P t multiplier len v c
          = Some (len + int (length (MQTTPacket_encode n)), v + n * multiplier, c')
        \<and> received (length (MQTTPacket_encode n)) c c' \<and> buf_read c' = buf_read c
        \<and> buf_size_read c' = buf_size_read c"
proof (induction n arbitrary: c multiplier len v rule: MQTTPacket_encode.induct)
  case (1 n)
  let ?t = "if t = 0 then 1 else t"
  show ?case
  proof (cases "n < 128")
    case True
    then have enc: "MQTTPacket_encode n = [word_of_int n]" using 1 by (simp add: encode_last)
    with 1 obtain c' where "ipstack_read P [0] 0 1 ?t c = Some (1, [word_of_int n], c')"
      "received 1 c c'" "buf_read c' = buf_read c" "buf_size_read c' = buf_size_read c"
      using ipstack_read_served [of P stream c "[word_of_int n]" rest 0 "[0]" ?t] by auto
    with 1 True enc show ?thesis
      by (subst iotx_mc_decode_packet_loop.simps)
        (simp add: digit_value last_digit_flag)
  next
    case False
    let ?d = "word_of_int (n mod 128) OR 128 :: u8"
    have enc: "MQTTPacket_encode n = ?d # MQTTPacket_encode (n div 128)"
      using False by (simp add: encode_more)
    with 1 obtain c1 where c1: "ipstack_read P [0] 0 1 ?t c = Some (1, [?d], c1)"
      "received 1 c c1" "buf_read c1 = buf_read c" "buf_size_read c1 = buf_size_read c"
      using ipstack_read_served [of P stream c "[?d]" "MQTTPacket_encode (n div 128) @ rest" 0 "[0]" ?t]
      by auto
    have next': "drop (rx_count c1) stream = MQTTPacket_encode (n div 128) @ rest"
      using drop_received [of c stream "[?d]" _ c1] 1 enc c1(2) by simp
    have val: "uint (?d AND 127) = n mod 128"
      using False by (simp add: more_digit_value digit_value)
    have "\<exists>c'. iotx_mc_decode_packet_loop P t (multiplier * 128) (len + 1) (v + n mod 128 * multiplier) c1
            = Some (len + 1 + int (length (MQTTPacket_encode (n div 128))),
                    v + n mod 128 * multiplier + n div 128 * (multiplier * 128), c')
          \<and> received (length (MQTTPacket_encode (n div 128))) c1 c' \<and> buf_read c' = buf_read c1
          \<and> buf_size_read c' = buf_size_read c1"
      using 1 False enc next' by (intro "1.IH") (simp_all add: c_arith pos_imp_zdiv_pos_iff)
    then obtain c' where c': "iotx_mc_decode_packet_loop P t (multiplier * 128) (len + 1)
          (v + n mod 128 * multiplier) c1
            = Some (len + 1 + int (length (MQTTPacket_encode (n div 128))),
                    v + n mod 128 * multiplier + n div 128 * (multiplier * 128), c')"
      "received (length (MQTTPacket_encode (n div 128))) c1 c'" "buf_read c' = buf_read c1"
      "buf_size_read c' = buf_size_read c1" by blast
    have sum: "n mod 128 * multiplier + n div 128 * (multiplier * 128) = n * multiplier"
    proof -
      have "n mod 128 * multiplier + n div 128 * (multiplier * 128)
              = (128 * (n div 128) + n mod 128) * multiplier"
        by (simp only: algebra_simps)
      then show ?thesis by simp
    qed
    have "received (length (MQTTPacket_encode n)) c c'"
      using received_trans [OF c1(2) c'(2)] enc by simp
    with c' c1 sum enc 1 val more_digit_flag [of "word_of_int (n mod 128)"] show ?thesis
      by (subst iotx_mc_decode_packet_loop.simps) (simp add: ac_simps)
  qed
qed

lemma decode_packet_served:
  assumes "serves P stream" and "drop (rx_count c) stream = MQTTPacket_encode n @ rest"
    and "0 \<le> n" and "n < 268435456"
  shows "\<exists>c'. iotx_mc_decode_packet P t c = Some (int (length (MQTTPacket_encode n)), n, c')
        \<and> received (length (MQTTPacket_encode n)) c c' \<and> buf_read c' = buf_read c
        \<and> buf_size_read c' = buf_size_read c"
  using decode_packet_loop_served [OF assms(1,2,3), of 0 t 1 0] encode_length_cases [OF assms(3,4)]
  by (simp add: iotx_mc_decode_packet_def)

text \<open>The receive buffer between two packets: none, or one of the size it claims.\<close>

definition recv_buffer_ok :: "iotx_mc_client_t \<Rightarrow> bool" where
  "recv_buffer_ok c \<longleftrightarrow>
     (case buf_read c of None \<Rightarrow> True | Some b \<Rightarrow> length b = unat (buf_size_read c))"

text \<open>The head of a packet, up to the remaining length: it stands in the buffer again.\<close>

lemma read_head:
  assumes "serves P stream" and "memory_ok P" and "recv_buffer_ok c"
    and "drop (rx_count c) stream = h # MQTTPacket_encode n @ rest" and "0 \<le> n" and "n < 268435456"
    and "1 + length (MQTTPacket_encode n) \<le> unat (buf_size_read_max c)"
  shows "\<exists>c' b. iotx_mc_read_packet P timer pt c
      = do { (rc, c) \<leftarrow> alloc_recv_buffer P (n + (1 + int (length (MQTTPacket_encode n)))) c';
             if rc < 0 then Some (FAIL_RETURN, pt, c)
             else if n > 0 \<and> (word_of_int (n + (1 + int (length (MQTTPacket_encode n)))) :: u32)
                                > buf_size_read c
             then read_oversized P timer pt (1 + int (length (MQTTPacket_encode n))) n c
             else read_body P timer pt (1 + int (length (MQTTPacket_encode n))) n c }
    \<and> received (1 + length (MQTTPacket_encode n)) c c' \<and> buf_size_read_max c' = buf_size_read_max c
    \<and> buf_read c' = Some b \<and> length b = unat (buf_size_read c')
    \<and> take (1 + length (MQTTPacket_encode n)) b = h # MQTTPacket_encode n"
proof -
  let ?enc = "MQTTPacket_encode n"
  have enc4: "length ?enc \<le> 4" using encode_length_cases [OF assms(5,6)] by simp
  have bufc: "buf_read c = None \<or> (\<exists>b. buf_read c = Some b \<and> length b = unat (buf_size_read c))"
    using assms(3) by (auto simp: recv_buffer_ok_def split: option.splits)
  obtain c1 b1 where a: "alloc_recv_buffer P 0 c = Some (SUCCESS_RETURN, c1)" "received 0 c c1"
    "buf_read c1 = Some b1" "length b1 = unat (buf_size_read c1)"
    "unat (buf_size_read c1) = min 8 (unat (buf_size_read_max c))"
    using alloc_recv_buffer_ok [OF assms(2) _ _ bufc, of 0] by auto
  have room: "1 + length ?enc \<le> length b1" using a(4,5) enc4 assms(7) by simp
  obtain t2 c2 where l2: "mc_left_or_1 P timer c1 = (t2, c2)" by force
  note r2 = received_left [OF l2]
  have rec2: "received 0 c c2" using received_same [OF a(2) r2(1)] .
  have drop2: "drop (rx_count c2) stream = [h] @ ?enc @ rest"
    using rec2 assms(4) by (simp add: received_def)
  obtain c3 where c3: "read_into P 0 1 t2 c2 = Some (1, c3)" "received 1 c2 c3"
    "buf_read c3 = Some ([h] @ drop 1 b1)" "buf_size_read c3 = buf_size_read c1"
    using read_into_served [OF assms(1) drop2, of b1 0 t2] r2 a(3) room by auto
  obtain t4 c4 where l4: "mc_left_or_1 P timer c3 = (t4, c4)" by force
  note r4 = received_left [OF l4]
  have rec4: "received 1 c c4"
    using received_same [OF rec2 received_trans [OF c3(2) r4(1)]] by simp
  have drop4: "drop (rx_count c4) stream = ?enc @ rest"
    using drop_received [of c stream "[h]" "?enc @ rest" c4] rec4 assms(4) by simp
  obtain c5 where c5: "iotx_mc_decode_packet P t4 c4 = Some (int (length ?enc), n, c5)"
    "received (length ?enc) c4 c5" "buf_read c5 = Some ([h] @ drop 1 b1)"
    "buf_size_read c5 = buf_size_read c1"
    using decode_packet_served [OF assms(1) drop4 assms(5,6), of t4] r4 c3 by auto
  let ?b = "[h] @ ?enc @ drop (1 + length ?enc) b1"
  let ?c6 = "c5\<lparr>buf_read := Some ?b\<rparr>"
  have rec6: "received (1 + length ?enc) c ?c6"
    using received_trans [OF rec4 c5(2)] by (simp add: received_def io_step_def)
  have store: "take 1 ([h] @ drop 1 b1) @ ?enc @ drop (1 + length ?enc) ([h] @ drop 1 b1) = ?b"
    using room by (simp add: add.commute)
  have fits: "\<not> 1 + length ?enc > length ([h] @ drop 1 b1)"
    using room by simp
  have "iotx_mc_read_packet P timer pt c
      = do { (rc, c) \<leftarrow> alloc_recv_buffer P (n + (1 + int (length ?enc))) ?c6;
             if rc < 0 then Some (FAIL_RETURN, pt, c)
             else if n > 0 \<and> (word_of_int (n + (1 + int (length ?enc))) :: u32) > buf_size_read c
             then read_oversized P timer pt (1 + int (length ?enc)) n c
             else read_body P timer pt (1 + int (length ?enc)) n c }"
    using a(1) l2 c3(1) l4 c5(1) c5(3) store fits
    by (simp add: iotx_mc_read_packet_def Let_def del: take_append drop_append append_Cons take_Suc_Cons)
  moreover have "buf_size_read_max ?c6 = buf_size_read_max c"
    using rec6 by (simp add: received_def io_step_def)
  moreover have "length ?b = unat (buf_size_read ?c6)"
    using room a(4) c5(4) by simp
  moreover have "take (1 + length ?enc) ?b = h # ?enc" by simp
  ultimately show ?thesis using rec6 by (intro exI [of _ ?c6] exI [of _ ?b]) simp
qed

lemma uint_of_int_u32: "0 \<le> n \<Longrightarrow> n < 2 ^ 32 \<Longrightarrow> uint (word_of_int n :: u32) = n"
  unfolding uint_word_of_int by simp

text \<open>A packet as it stands on the wire.\<close>

definition wire_packet :: "u8 \<Rightarrow> bytes \<Rightarrow> bytes" where
  "wire_packet h body = h # MQTTPacket_encode (int (length body)) @ body"

lemma read_packet_served:
  assumes "serves P stream" and "memory_ok P" and "recv_buffer_ok c"
    and "drop (rx_count c) stream = wire_packet h body @ rest"
    and "length body < 268435456"
    and "length (wire_packet h body) \<le> unat (buf_size_read_max c)"
  shows "\<exists>c' tail. iotx_mc_read_packet P timer pt c
             = Some (SUCCESS_RETURN, Some (MQTT_HEADER_GET_TYPE h), c')
         \<and> buf_read c' = Some (wire_packet h body @ tail)
         \<and> received (length (wire_packet h body)) c c' \<and> recv_buffer_ok c'"
proof -
  let ?n = "int (length body)"
  let ?enc = "MQTTPacket_encode ?n"
  let ?len = "1 + length ?enc"
  have n: "0 \<le> ?n" "?n < 268435456" using assms(5) by simp_all
  have enc4: "length ?enc \<le> 4" using encode_length_cases [OF n] by simp
  have wire: "drop (rx_count c) stream = h # ?enc @ body @ rest"
    using assms(4) by (simp add: wire_packet_def)
  have max: "?len + length body \<le> unat (buf_size_read_max c)"
    using assms(6) by (simp add: wire_packet_def)
  have room0: "?len \<le> unat (buf_size_read_max c)" using max by simp
  from read_head [OF assms(1-3) wire n room0, of timer pt] obtain c1 b1 where head: "iotx_mc_read_packet P timer pt c
      = do { (rc, c) \<leftarrow> alloc_recv_buffer P (?n + (1 + int (length ?enc))) c1;
             if rc < 0 then Some (FAIL_RETURN, pt, c)
             else if ?n > 0 \<and> (word_of_int (?n + (1 + int (length ?enc))) :: u32) > buf_size_read c
             then read_oversized P timer pt (1 + int (length ?enc)) ?n c
             else read_body P timer pt (1 + int (length ?enc)) ?n c }"
    and c1: "received ?len c c1" "buf_size_read_max c1 = buf_size_read_max c" "buf_read c1 = Some b1"
      "length b1 = unat (buf_size_read c1)" "take ?len b1 = h # ?enc"
    by blast
  let ?total = "?n + (1 + int (length ?enc))"
  have pre: "0 \<le> ?total" "?total + 8 < 2 ^ 31"
    "buf_read c1 = None \<or> (\<exists>b. buf_read c1 = Some b \<and> length b = unat (buf_size_read c1))"
    using n enc4 c1(3,4) by simp_all
  obtain c2 b2 where a: "alloc_recv_buffer P ?total c1 = Some (SUCCESS_RETURN, c2)" "received 0 c1 c2"
    "buf_read c2 = Some b2" "length b2 = unat (buf_size_read c2)"
    "unat (buf_size_read c2) = min (nat (?total + 8)) (unat (buf_size_read_max c1))"
    "\<forall>old. buf_read c1 = Some old \<longrightarrow>
       take (min (length old) (length b2)) b2 = take (min (length old) (length b2)) old"
    using alloc_recv_buffer_ok [OF assms(2) pre] by blast
  have a6: "take (min (length b1) (length b2)) b2 = take (min (length b1) (length b2)) b1"
    using a(6) c1(3) by blast
  have room: "?len + length body \<le> length b2"
    using a(4,5) c1(2) max by simp
  have total: "uint (word_of_int ?total :: u32) = ?total"
    using n enc4 by (intro uint_of_int_u32) simp_all
  have fits: "\<not> (word_of_int ?total :: u32) > buf_size_read c2"
  proof -
    have "unat (word_of_int ?total :: u32) = ?len + length body"
      unfolding unat_eq_nat_uint total by simp
    then show ?thesis using room a(4) unfolding word_less_nat_alt by linarith
  qed
  have "?len \<le> length b1"
  proof -
    have "length (take ?len b1) = ?len" unfolding c1(5) by simp
    then show ?thesis by simp
  qed
  then have head2: "take ?len b2 = h # ?enc"
  proof -
    have "?len \<le> min (length b1) (length b2)" using \<open>?len \<le> length b1\<close> room by simp
    then have "take ?len (take (min (length b1) (length b2)) b2)
        = take ?len (take (min (length b1) (length b2)) b1)" using a6 by simp
    then show ?thesis using \<open>?len \<le> min (length b1) (length b2)\<close> c1(5) by (simp add: min_absorb1)
  qed
  have rec2: "received ?len c c2" using received_trans [OF c1(1) a(2)] by simp
  obtain t c3 where l: "mc_left_or_1 P timer c2 = (t, c3)" by force
  note r3 = received_left [OF l]
  have rec3: "received ?len c c3" using received_trans [OF rec2 r3(1)] by simp
  have "drop (rx_count c) stream = (h # ?enc) @ body @ rest" using wire by simp
  then have drop3: "drop (rx_count c3) stream = body @ rest"
    using drop_received [of c stream "h # ?enc" "body @ rest" c3] rec3 by simp
  let ?b = "take ?len b2 @ body @ drop (?len + length body) b2"
  obtain c4 where c4: "read_into P ?len (length body) t c3 = Some (?n, c4)"
    "received (length body) c3 c4" "buf_size_read c4 = buf_size_read c2" "buf_read c4 = Some ?b"
    using read_into_served [OF assms(1) drop3, of b2 ?len t] r3 a(3) room by auto
  have b: "?b = wire_packet h body @ drop (?len + length body) b2"
    unfolding head2 by (simp add: wire_packet_def)
  let ?b' = "if (word_of_int (1 + int (length ?enc) + ?n) :: u32) < buf_size_read c4
             then ?b[?len + length body := 0] else ?b"
  let ?c5 = "c4\<lparr>buf_read := Some ?b'\<rparr>"
  have body': "read_body P timer pt (1 + int (length ?enc)) ?n c2
      = Some (SUCCESS_RETURN, Some (MQTT_HEADER_GET_TYPE h), ?c5)"
  proof -
    have pos: "nat (1 + int (length ?enc)) = ?len" "nat (1 + int (length ?enc) + ?n) = ?len + length body"
      by linarith+
    have "rd ?b 0 = Some h" unfolding b by (simp add: wire_packet_def rd_Cons)
    with l c4 pos show ?thesis by (simp add: read_body_def)
  qed
  obtain tail where tail: "?b' = wire_packet h body @ tail"
  proof -
    have "length (wire_packet h body) = ?len + length body" by (simp add: wire_packet_def)
    then have upd: "?b[?len + length body := 0]
        = wire_packet h body @ (drop (?len + length body) b2)[0 := 0]"
      unfolding b by (simp add: list_update_append)
    show ?thesis
    proof (cases "(word_of_int (1 + int (length ?enc) + ?n) :: u32) < buf_size_read c4")
      case True
      with that [of "(drop (?len + length body) b2)[0 := 0]"] upd show ?thesis by (simp only: if_True)
    next
      case False
      with that [of "drop (?len + length body) b2"] b show ?thesis by (simp only: if_False)
    qed
  qed
  have rec5: "received (length (wire_packet h body)) c ?c5"
    using received_trans [OF rec3 c4(2)] by (simp add: received_def io_step_def wire_packet_def)
  have "length ?b' = unat (buf_size_read ?c5)"
    using room a(4) c4(3) by simp
  then have "recv_buffer_ok ?c5" by (simp add: recv_buffer_ok_def)
  moreover have "iotx_mc_read_packet P timer pt c
      = Some (SUCCESS_RETURN, Some (MQTT_HEADER_GET_TYPE h), ?c5)"
    using head a(1) fits body' by simp
  moreover have "buf_read ?c5 = Some (wire_packet h body @ tail)" using tail by simp
  ultimately show ?thesis using rec5 by blast
qed

text \<open>
  Property C23: \<open>iotx_mc_read_packet\<close> takes exactly one packet off the stream. If the stream
  holds a packet (header byte, remaining length, body) that the client's maximal buffer can
  hold, the call succeeds, reports the packet's type, leaves the packet byte for byte at the
  start of the receive buffer and leaves the stream at the first byte behind it; the
  protocol state of the client is untouched.
\<close>

theorem packet_deframed:
  assumes "serves P stream" and "memory_ok P" and "recv_buffer_ok c"
    and "drop (rx_count c) stream = wire_packet h body @ rest"
    and "length body < 268435456"
    and "length (wire_packet h body) \<le> unat (buf_size_read_max c)"
  shows "\<exists>c' tail. iotx_mc_read_packet P timer pt c
             = Some (SUCCESS_RETURN, Some (MQTT_HEADER_GET_TYPE h), c')
         \<and> buf_read c' = Some (wire_packet h body @ tail)
         \<and> drop (rx_count c') stream = rest \<and> io_step c c' \<and> observed c' = observed c"
proof -
  obtain c' tail where "iotx_mc_read_packet P timer pt c
             = Some (SUCCESS_RETURN, Some (MQTT_HEADER_GET_TYPE h), c')"
    "buf_read c' = Some (wire_packet h body @ tail)"
    "received (length (wire_packet h body)) c c'"
    using read_packet_served [OF assms] by blast
  with drop_received [OF assms(4), of c'] show ?thesis by (auto simp: received_def)
qed

lemma test_platform_memory: "memory_ok (test_platform k rx)"
  by (simp add: memory_ok_def test_platform_def)

theorem packet_deframed_witness:
  "\<exists>c' tail. iotx_mc_read_packet (test_platform 100 [0x30, 3, 0, 1, 97, 0xD0, 0]) \<lparr>time = 100\<rparr> None test_client
       = Some (SUCCESS_RETURN, Some PUBLISH, c')
     \<and> buf_read c' = Some ([0x30, 3, 0, 1, 97] @ tail)
     \<and> drop (rx_count c') [0x30, 3, 0, 1, 97, 0xD0, 0] = [0xD0, 0 :: u8]"
proof -
  have w: "wire_packet 0x30 [0, 1, 97] = [0x30, 3, 0, 1, 97]"
    by (simp add: wire_packet_def encode_last)
  have "recv_buffer_ok test_client" "rx_count test_client = 0" "buf_size_read_max test_client = 256"
    by (simp_all add: recv_buffer_ok_def test_client_def blank_client_def)
  then show ?thesis
    using packet_deframed [OF test_platform_serves [of 100 "[0x30, 3, 0, 1, 97, 0xD0, 0]"]
        test_platform_memory, where c = test_client
        and h = "0x30" and body = "[0, 1, 97]" and rest = "[0xD0, 0]" and pt = None
        and timer = "\<lparr>time = 100\<rparr>"] w
    by (auto simp: MQTT_HEADER_GET_TYPE_def)
qed

section \<open>Packets that do not fit\<close>

lemma read_oversized_served:
  assumes "serves P stream" and "memory_ok P"
    and "drop (rx_count c) stream = body @ rest" and "buf_read c = Some b"
    and "length b = unat (buf_size_read c)" and "len \<le> length b" and "length b < len + length body"
    and "len + length body < 2 ^ 31"
  shows "\<exists>c'. read_oversized P timer pt (int len) (int (length body)) c
            = Some (SUCCESS_RETURN, pt,
                    notify IOTX_MQTT_EVENT_BUFFER_OVERFLOW
                      (Detail (ascii ''mqtt read buffer is too short'')) c')
          \<and> received (length body) c c'"
proof -
  let ?fit = "length b - len"
  have need: "sint (buf_size_read c - word_of_int (int len)) = int ?fit"
    "unat (word_of_int (int ?fit) :: u32) = ?fit"
    "unat (word_of_int (int (length body) - int ?fit) :: u32) = length body - ?fit"
  proof -
    have len32: "uint (word_of_int (int len) :: u32) = int len"
      using assms(6-8) by (intro uint_of_int_u32) simp_all
    have size: "uint (buf_size_read c) = int (length b)"
      using assms(5) by simp
    have "uint (buf_size_read c - word_of_int (int len)) = int ?fit"
      using len32 size assms(6) by (subst uint_minus_simple_alt [THEN iffD1])
        (simp_all add: word_le_def of_nat_diff)
    then show "sint (buf_size_read c - word_of_int (int len)) = int ?fit"
      using assms(6-8) by (subst sint_small) simp_all
    have "uint (word_of_int (int ?fit) :: u32) = int ?fit"
      using assms(6-8) by (intro uint_of_int_u32) simp_all
    then show "unat (word_of_int (int ?fit) :: u32) = ?fit" by (simp only: unat_eq_nat_uint nat_int)
    have "uint (word_of_int (int (length body) - int ?fit) :: u32) = int (length body) - int ?fit"
      using assms(6-8) by (intro uint_of_int_u32) simp_all
    then show "unat (word_of_int (int (length body) - int ?fit) :: u32) = length body - ?fit"
      by (simp only: unat_eq_nat_uint nat_minus_as_int)
  qed
  obtain t1 c1 where l1: "mc_left_or_1 P timer c = (t1, c1)" by force
  note r1 = received_left [OF l1]
  let ?d1 = "take ?fit body" and ?d2 = "drop ?fit body"
  have fit: "length ?d1 = ?fit" "?fit < length body" using assms(6,7) by simp_all
  have drop1: "drop (rx_count c1) stream = ?d1 @ ?d2 @ rest"
    using r1(1) assms(3) by (simp add: received_def)
  obtain c2 where c2: "read_into P len ?fit t1 c1 = Some (int ?fit, c2)" "received ?fit c1 c2"
    using read_into_served [OF assms(1) drop1, of b len t1] r1(2) assms(4,6) fit by auto
  obtain ok c3 where mal: "HAL_Malloc P (word_of_int (int (length body) - int ?fit + 1)) c2 = (ok, c3)" by force
  have ok: "ok" "received 0 c2 c3"
    using mal assms(2) by (auto simp: HAL_Malloc_def memory_ok_def hal_call_def received_def io_step_def)
  obtain t4 c4 where l4: "mc_left_or_1 P timer c3 = (t4, c4)" by force
  have rec4: "received ?fit c c4"
    using received_trans [OF received_trans [OF received_trans [OF r1(1) c2(2)] ok(2)] received_left(1) [OF l4]]
    by simp
  have drop4: "drop (rx_count c4) stream = ?d2 @ rest"
    using drop_received [of c stream ?d1 "?d2 @ rest" c4] rec4 fit assms(3) by simp
  let ?z = "replicate (nat (int (length body) - int ?fit + 1)) 0 :: bytes"
  obtain z c5 where c5: "ipstack_read P ?z 0 (length body - ?fit) t4 c4
      = Some (int (length body - ?fit), z, c5)" "received (length body - ?fit) c4 c5"
  proof -
    have "nat (int (length body) - int ?fit + 1) = length body - ?fit + 1" using fit by linarith
    then have "0 + length ?d2 \<le> length ?z" by simp
    from ipstack_read_served [OF assms(1) drop4 this, of t4] that show thesis by auto
  qed
  have "received (length body) c c5"
    using received_trans [OF rec4 c5(2)] fit by simp
  moreover have "int (length body - ?fit) = int (length body) - int ?fit" using fit by simp
  ultimately show ?thesis
    using l1 c2(1) mal ok(1) l4 c5(1) need
    by (intro exI [of _ c5]) (simp add: read_oversized_def Let_def)
qed

lemma read_packet_oversized:
  assumes "serves P stream" and "memory_ok P" and "recv_buffer_ok c"
    and "drop (rx_count c) stream = wire_packet h body @ rest"
    and "length body < 268435456"
    and "1 + length (MQTTPacket_encode (int (length body))) \<le> unat (buf_size_read_max c)"
    and "unat (buf_size_read_max c) < length (wire_packet h body)"
  shows "\<exists>c'. iotx_mc_read_packet P timer pt c = Some (SUCCESS_RETURN, pt,
                    notify IOTX_MQTT_EVENT_BUFFER_OVERFLOW
                      (Detail (ascii ''mqtt read buffer is too short'')) c')
         \<and> received (length (wire_packet h body)) c c'"
proof -
  let ?n = "int (length body)"
  let ?enc = "MQTTPacket_encode ?n"
  let ?len = "1 + length ?enc"
  have n: "0 \<le> ?n" "?n < 268435456" using assms(5) by simp_all
  have enc4: "length ?enc \<le> 4" using encode_length_cases [OF n] by simp
  have wire: "drop (rx_count c) stream = h # ?enc @ body @ rest"
    using assms(4) by (simp add: wire_packet_def)
  have over: "unat (buf_size_read_max c) < ?len + length body"
    using assms(7) by (simp add: wire_packet_def)
  from read_head [OF assms(1-3) wire n assms(6), of timer pt] obtain c1 b1
    where head: "iotx_mc_read_packet P timer pt c
      = do { (rc, c) \<leftarrow> alloc_recv_buffer P (?n + (1 + int (length ?enc))) c1;
             if rc < 0 then Some (FAIL_RETURN, pt, c)
             else if ?n > 0 \<and> (word_of_int (?n + (1 + int (length ?enc))) :: u32) > buf_size_read c
             then read_oversized P timer pt (1 + int (length ?enc)) ?n c
             else read_body P timer pt (1 + int (length ?enc)) ?n c }"
    and c1: "received ?len c c1" "buf_size_read_max c1 = buf_size_read_max c" "buf_read c1 = Some b1"
      "length b1 = unat (buf_size_read c1)"
    by blast
  let ?total = "?n + (1 + int (length ?enc))"
  have pre: "0 \<le> ?total" "?total + 8 < 2 ^ 31"
    "buf_read c1 = None \<or> (\<exists>b. buf_read c1 = Some b \<and> length b = unat (buf_size_read c1))"
    using n enc4 c1(3,4) by simp_all
  obtain c2 b2 where a: "alloc_recv_buffer P ?total c1 = Some (SUCCESS_RETURN, c2)" "received 0 c1 c2"
    "buf_read c2 = Some b2" "length b2 = unat (buf_size_read c2)"
    "unat (buf_size_read c2) = min (nat (?total + 8)) (unat (buf_size_read_max c1))"
    using alloc_recv_buffer_ok [OF assms(2) pre] by blast
  have size: "length b2 = unat (buf_size_read_max c)"
    using a(4,5) c1(2) over by simp
  have total: "uint (word_of_int ?total :: u32) = ?total"
    using n enc4 by (intro uint_of_int_u32) simp_all
  have big: "(word_of_int ?total :: u32) > buf_size_read c2"
  proof -
    have "unat (word_of_int ?total :: u32) = ?len + length body"
      unfolding unat_eq_nat_uint total by simp
    then show ?thesis using over size a(4) unfolding word_less_nat_alt by linarith
  qed
  have rec2: "received ?len c c2" using received_trans [OF c1(1) a(2)] by simp
  have "drop (rx_count c) stream = (h # ?enc) @ body @ rest" using wire by simp
  then have drop2: "drop (rx_count c2) stream = body @ rest"
    using drop_received [of c stream "h # ?enc" "body @ rest" c2] rec2 by simp
  have "\<exists>c'. read_oversized P timer pt (int ?len) ?n c2
            = Some (SUCCESS_RETURN, pt,
                    notify IOTX_MQTT_EVENT_BUFFER_OVERFLOW
                      (Detail (ascii ''mqtt read buffer is too short'')) c')
          \<and> received (length body) c2 c'"
    using over size assms(5,6) enc4
    by (intro read_oversized_served [OF assms(1,2) drop2 a(3,4)]) simp_all
  then obtain c' where c': "read_oversized P timer pt (1 + int (length ?enc)) ?n c2
            = Some (SUCCESS_RETURN, pt,
                    notify IOTX_MQTT_EVENT_BUFFER_OVERFLOW
                      (Detail (ascii ''mqtt read buffer is too short'')) c')"
    "received (length body) c2 c'" by auto
  have "?n > 0" using over assms(6) by (cases body) simp_all
  with head a(1) big c'(1) have "iotx_mc_read_packet P timer pt c = Some (SUCCESS_RETURN, pt,
                    notify IOTX_MQTT_EVENT_BUFFER_OVERFLOW
                      (Detail (ascii ''mqtt read buffer is too short'')) c')"
    by simp
  moreover have "received (length (wire_packet h body)) c c'"
    using received_trans [OF rec2 c'(2)] by (simp add: wire_packet_def)
  ultimately show ?thesis by blast
qed

lemma notify_rx [simp]: "rx_count (notify ty msg c) = rx_count c"
  by (simp add: notify_def handle_event_call_def observe_def split: option.split)

lemma notify_observed:
  "observed (notify ty msg c) = observed c
     @ (case h_fp (handle_event c) of None \<Rightarrow> [] | Some fp \<Rightarrow> [Callback fp (pcontext (handle_event c)) ty msg])"
  by (simp add: notify_def handle_event_call_def observe_def split: option.split)

text \<open>
  Property C33: a packet longer than the maximal receive buffer is taken off the stream
  completely, so the next packet is framed correctly, and the overflow is reported to the
  application's callback, if there is one, exactly once; but the call then returns success without storing a packet type.
  \<open>iotx_mc_cycle\<close>, whose variable for it is uninitialised, goes on to test it: its result is
  not defined.
\<close>

theorem oversized_packet_untyped:
  assumes "serves P stream" and "memory_ok P" and "recv_buffer_ok c"
    and "drop (rx_count c) stream = wire_packet h body @ rest"
    and "length body < 268435456"
    and "1 + length (MQTTPacket_encode (int (length body))) \<le> unat (buf_size_read_max c)"
    and "unat (buf_size_read_max c) < length (wire_packet h body)"
    and "client_state c = IOTX_MC_STATE_CONNECTED" and "keepalive_probes c \<le> 1"
  shows "(\<exists>c'. iotx_mc_read_packet P timer None c = Some (SUCCESS_RETURN, None, c')
            \<and> drop (rx_count c') stream = rest
            \<and> observed c' = observed c
                @ (case h_fp (handle_event c) of
                     None \<Rightarrow> []
                   | Some fp \<Rightarrow> [Callback fp (pcontext (handle_event c)) IOTX_MQTT_EVENT_BUFFER_OVERFLOW
                                   (Detail (ascii ''mqtt read buffer is too short''))]))
       \<and> iotx_mc_cycle P timer c = None"
proof -
  obtain c' where c': "iotx_mc_read_packet P timer None c = Some (SUCCESS_RETURN, None,
      notify IOTX_MQTT_EVENT_BUFFER_OVERFLOW (Detail (ascii ''mqtt read buffer is too short'')) c')"
    "received (length (wire_packet h body)) c c'"
    using read_packet_oversized [OF assms(1-7)] by blast
  have "iotx_mc_cycle P timer c = None"
  proof -
    have "\<not> 1 < keepalive_probes c" using assms(9) by simp
    then show ?thesis using c'(1) assms(8) by (simp add: iotx_mc_cycle_def iotx_mc_get_client_state_def)
  qed
  moreover have same: "handle_event c' = handle_event c" "observed c' = observed c"
    using c'(2) by (simp_all add: received_def io_step_def)
  note seen = notify_observed [of IOTX_MQTT_EVENT_BUFFER_OVERFLOW "Detail (ascii ''mqtt read buffer is too short'')" c',
      unfolded same]
  ultimately show ?thesis using c' drop_received [OF assms(4), of c'] seen by auto
qed

theorem oversized_packet_untyped_witness:
  "iotx_mc_cycle (test_platform 100 [0x30, 3, 0, 1, 97]) \<lparr>time = 100\<rparr>
     (test_client\<lparr>buf_size_read_max := 4\<rparr>) = None"
proof -
  have w: "wire_packet 0x30 [0, 1, 97] = [0x30, 3, 0, 1, 97]"
    by (simp add: wire_packet_def encode_last)
  show ?thesis
    using oversized_packet_untyped [OF test_platform_serves [of 100 "[0x30, 3, 0, 1, 97]"]
        test_platform_memory, where c = "test_client\<lparr>buf_size_read_max := 4\<rparr>"
        and h = "0x30" and body = "[0, 1, 97]" and rest = "[]" and timer = "\<lparr>time = 100\<rparr>"] w
    by (simp add: recv_buffer_ok_def test_client_def blank_client_def encode_last)
qed

section \<open>To whom a message is delivered\<close>

definition subscribed :: "bytes \<Rightarrow> iotx_mc_topic_handle_t \<Rightarrow> bool" where
  "subscribed n node \<longleftrightarrow> topic_filter node = n \<or> match_rest (topic_filter node) n"

lemma topic_handled_received:
  "is_c_str (topic_filter node) \<Longrightarrow>
     topic_handled node (received_topic n behind) = Some (subscribed n node)"
  by (simp add: topic_handled_def received_topic_equals is_topic_matched_rest subscribed_def)

definition delivery :: "iotx_mqtt_topic_info_t \<Rightarrow> iotx_mqtt_event_handle_t \<Rightarrow> observation list" where
  "delivery msg handle =
     (case h_fp handle of
        None \<Rightarrow> []
      | Some fp \<Rightarrow> [Callback fp (pcontext handle) IOTX_MQTT_EVENT_PUBLISH_RECEIVED (TopicInfo msg)])"

definition deliveries ::
    "iotx_mqtt_topic_info_t \<Rightarrow> bytes \<Rightarrow> iotx_mc_topic_handle_t list \<Rightarrow> observation list" where
  "deliveries msg n nodes =
     concat (map (\<lambda>node. delivery msg (th_handle node)) (filter (subscribed n) nodes))"

lemma deliveries_simps [simp]:
  "deliveries msg n [] = []"
  "deliveries msg n (node # nodes) =
     (if subscribed n node then delivery msg (th_handle node) else []) @ deliveries msg n nodes"
  by (simp_all add: deliveries_def)

lemma handle_event_call_fields:
  "observed (snd (handle_event_call h ty d c)) =
     observed c @ (case h_fp h of None \<Rightarrow> [] | Some fp \<Rightarrow> [Callback fp (pcontext h) ty d])"
  "in_yield_cb c = 0 \<Longrightarrow> env_step c (snd (handle_event_call h ty d c))"
  "rx_count (snd (handle_event_call h ty d c)) = rx_count c"
  by (auto simp: handle_event_call_def env_defs split: option.split)

lemma deliver_loop_result:
  assumes "list_all (\<lambda>node. is_c_str (topic_filter node)) nodes" and "in_yield_cb c = 0"
  shows "\<exists>c'. deliver_loop nodes (received_topic n behind) msg flag c
      = Some (if deliveries msg n nodes = [] then flag else 1, c')
    \<and> env_step c c'
    \<and> observed c' = observed c @ deliveries msg n nodes"
  using assms
proof (induction nodes arbitrary: flag c)
  case (Cons node nodes)
  then have hit: "topic_handled node (received_topic n behind) = Some (subscribed n node)"
    by (intro topic_handled_received) simp
  show ?case
  proof (cases "subscribed n node \<and> h_fp (th_handle node) \<noteq> None")
    case True
    let ?c = "snd (handle_event_call (th_handle node) IOTX_MQTT_EVENT_PUBLISH_RECEIVED (TopicInfo msg) c)"
    have step: "env_step c ?c" using handle_event_call_fields(2) Cons.prems(2) by blast
    then have "in_yield_cb ?c = 0" using Cons.prems(2) by (simp add: env_step_def io_step_def)
    with Cons.IH [of ?c 1] Cons.prems(1) obtain c' where c':
      "deliver_loop nodes (received_topic n behind) msg 1 ?c = Some (1, c')" "env_step ?c c'"
      "observed c' = observed ?c @ deliveries msg n nodes"
      by (auto split: if_splits)
    moreover have "observed ?c = observed c @ delivery msg (th_handle node)" "delivery msg (th_handle node) \<noteq> []"
      using True by (auto simp: handle_event_call_fields(1) delivery_def split: option.splits)
    ultimately show ?thesis
      using True hit env_step_trans [OF step] by (intro exI [of _ c']) simp
  next
    case False
    then have "subscribed n node \<Longrightarrow> delivery msg (th_handle node) = []"
      by (auto simp: delivery_def split: option.splits)
    with False hit Cons.IH [of c flag] Cons.prems show ?thesis by auto
  qed
qed simp

text \<open>
  Property C9: a received message goes to the callbacks of exactly the subscriptions whose
  filter equals or matches its topic, once each, in the order of subscription; when there is
  none, and only then, it goes to the client's default handler. Every callback gets the
  topic pointer and length of the received packet.
\<close>

theorem message_delivered:
  assumes "list_all (\<lambda>node. is_c_str (topic_filter node)) (list_sub_handle c)"
    and "in_yield_cb c = 0"
    and "msg' = msg\<lparr>ti_ptopic := Some (n @ behind), ti_topic_len := of_nat (length n)\<rparr>"
  shows "\<exists>c'. iotx_mc_deliver_message (received_topic n behind) msg c = Some c'
      \<and> (let cbs = deliveries msg' n (list_sub_handle c)
         in observed c' = observed c @ (if cbs = [] then delivery msg' (handle_event c) else cbs))
      \<and> env_step c c'"
proof -
  let ?cbs = "deliveries msg' n (list_sub_handle c)"
  obtain c1 where c1: "deliver_loop (list_sub_handle c) (received_topic n behind) msg' 0 c
      = Some (if ?cbs = [] then 0 else 1, c1)" "env_step c c1" "observed c1 = observed c @ ?cbs"
    using deliver_loop_result [OF assms(1,2), of n behind msg' 0] by blast
  have fields: "ls_data (lenstring (received_topic n behind)) = Some (n @ behind)"
    "ls_len (lenstring (received_topic n behind)) = int (length n)"
    by (simp_all add: received_topic_def)
  let ?c2 = "if ?cbs = [] then notify IOTX_MQTT_EVENT_PUBLISH_RECEIVED (TopicInfo msg') c1 else c1"
  have run: "iotx_mc_deliver_message (received_topic n behind) msg c = Some ?c2"
    using c1(1) unfolding iotx_mc_deliver_message_def fields
    by (simp add: assms(3) [symmetric] Let_def)
  have he: "handle_event c1 = handle_event c" "in_yield_cb c1 = 0"
    using c1(2) assms(2) by (simp_all add: env_step_def io_step_def)
  have note': "observed (notify IOTX_MQTT_EVENT_PUBLISH_RECEIVED (TopicInfo msg') c1)
      = observed c1 @ delivery msg' (handle_event c)"
    using he by (auto simp: notify_def handle_event_call_fields(1) delivery_def split: option.splits)
  have "env_step c1 (notify IOTX_MQTT_EVENT_PUBLISH_RECEIVED (TopicInfo msg') c1)"
    using handle_event_call_fields(2) [OF he(2)] by (simp add: notify_def)
  then have "env_step c ?c2" using c1(2) by (auto intro: env_step_trans)
  moreover have "observed ?c2 = observed c @ (if ?cbs = [] then delivery msg' (handle_event c) else ?cbs)"
    using c1(3) note' by simp
  ultimately show ?thesis using run by (simp add: Let_def)
qed

definition test_subscription :: "nat \<Rightarrow> string \<Rightarrow> iotx_mc_topic_handle_t" where
  "test_subscription fp t = \<lparr>th_handle = \<lparr>h_fp = Some fp, pcontext = 0\<rparr>, topic_filter = ascii t\<rparr>"

theorem message_delivered_witness:
  "\<exists>c' msg'. iotx_mc_deliver_message (received_topic (ascii ''/a/b'') [1, 2])
        \<lparr>ti_packet_id = 0, ti_qos = 0, ti_dup = 0, ti_retain = 0, ti_topic_len = 0, ti_payload_len = 2,
          ti_ptopic = None, ti_payload = Some [1, 2]\<rparr>
        (test_client\<lparr>list_sub_handle := [test_subscription 7 ''/a/+'', test_subscription 8 ''/c'',
           test_subscription 9 ''/a/b'']\<rparr>) = Some c'
     \<and> observed c' = [Callback 7 0 IOTX_MQTT_EVENT_PUBLISH_RECEIVED (TopicInfo msg'),
                       Callback 9 0 IOTX_MQTT_EVENT_PUBLISH_RECEIVED (TopicInfo msg')]"
proof -
  let ?c = "test_client\<lparr>list_sub_handle := [test_subscription 7 ''/a/+'', test_subscription 8 ''/c'',
           test_subscription 9 ''/a/b'']\<rparr>"
  have "list_all (\<lambda>node. is_c_str (topic_filter node)) (list_sub_handle ?c)" "in_yield_cb ?c = 0"
    by (simp_all add: test_client_def blank_client_def test_subscription_def ascii_def)
  moreover have "deliveries m (ascii ''/a/b'') (list_sub_handle ?c)
      = delivery m (th_handle (test_subscription 7 ''/a/+'')) @ delivery m (th_handle (test_subscription 9 ''/a/b''))" "observed ?c = []" for m
    by (simp_all add: test_client_def blank_client_def test_subscription_def subscribed_def ascii_def)
  ultimately show ?thesis
    using message_delivered [of ?c, OF _ _ refl, of "ascii ''/a/b''" "[1, 2]"
        "\<lparr>ti_packet_id = 0, ti_qos = 0, ti_dup = 0, ti_retain = 0, ti_topic_len = 0, ti_payload_len = 2,
          ti_ptopic = None, ti_payload = Some [1, 2]\<rparr>"]
    by (auto simp: delivery_def test_subscription_def Let_def)
qed

section \<open>Acknowledgements received\<close>

text \<open>
  Property C34: a PUBACK (or an acknowledgement of an unsubscription) whose remaining length
  is 0 or 1 passes the check of the deserializer; the PUBACK handler then uses a packet
  identifier that was never stored, so its effect is not defined, and the UNSUBACK handler
  reports the success of identifier 0.
\<close>

theorem short_puback_undefined:
  assumes "buf_read c = Some (h # len # tail)" and "len \<in> {0, 1}"
  shows "iotx_mc_handle_recv_PUBACK c = None
       \<and> iotx_mc_handle_recv_UNSUBACK c
           = Some (SUCCESS_RETURN, notify IOTX_MQTT_EVENT_UNSUBCRIBE_SUCCESS (PacketId 0) c)"
proof -
  have ack: "MQTTDeserialize_ack p (h # len # tail) k
       = Some (1, MQTT_HEADER_GET_TYPE h, MQTT_HEADER_GET_DUP h, p)"
    and unsub: "MQTTDeserialize_unsuback p (h # len # tail) k = Some (1, p)" for p k
    using deserialize_short_ack [OF assms(2)] by blast+
  show ?thesis
    using assms(1) by (simp add: iotx_mc_handle_recv_PUBACK_def iotx_mc_handle_recv_UNSUBACK_def ack unsub)
qed

theorem short_puback_undefined_witness:
  "iotx_mc_handle_recv_PUBACK (test_client\<lparr>buf_read := Some [0x40, 0]\<rparr>) = None"
  using short_puback_undefined [of "test_client\<lparr>buf_read := Some [0x40, 0]\<rparr>" "0x40" 0 "[]"] by simp

lemma suback_fail_flag_last:
  "suback_fail_flag (qs @ [q]) = (if (word_of_int q :: u8) = 0x80 then 1 else 0)"
  "suback_fail_flag [] = -1"
  by (simp_all add: suback_fail_flag_def)

text \<open>
  Property C32: a SUBACK with several return codes is judged by its last one: the loop sets
  \<open>fail_flag\<close> back to 0 for each code, so the waiting subscriptions and the application are
  told the outcome of the last topic filter, even if an earlier one was refused (0x80).
\<close>

theorem suback_judged_by_last:
  assumes "length codes < 5"
    and "buf_read c = Some (0x90 # of_nat (length codes + 3) # writeInt [] (uint (i :: u16)) @ codes @ [q] @ tail)"
    and "ty = (if q = 0x80 then IOTX_MQTT_EVENT_SUBCRIBE_NACK else IOTX_MQTT_EVENT_SUBCRIBE_SUCCESS)"
  shows "iotx_mc_handle_recv_SUBACK c
       = Some (SUCCESS_RETURN,
               notify ty (PacketId (uint i)) (iotx_mqtt_event_handle_sub (uint i) ty c))"
proof -
  have "MQTTPacket_encode (int (length (codes @ [q]) + 2)) = [of_nat (length codes + 3)]"
    using assms(1) by (subst encode_last) (simp_all add: ac_simps)
  then have "buf_read c = Some (0x90 # MQTTPacket_encode (int (length (codes @ [q]) + 2))
      @ writeInt [] (uint i) @ (codes @ [q]) @ tail)"
    using assms(2) by simp
  moreover have "MQTTDeserialize_suback None 5 (0x90 # MQTTPacket_encode (int (length (codes @ [q]) + 2))
      @ writeInt [] (uint i) @ (codes @ [q]) @ tail) k = Some (1, Some i, map uint (codes @ [q]))" for k
    using deserialize_suback_packet [of "codes @ [q]" 5 None i tail k] assms(1) by simp
  moreover have "suback_fail_flag (map uint (codes @ [q])) = (if q = 0x80 then 1 else 0)"
    by (simp add: suback_fail_flag_last)
  ultimately show ?thesis
    by (simp add: iotx_mc_handle_recv_SUBACK_def assms(3))
qed

theorem suback_judged_by_last_witness:
  "iotx_mc_handle_recv_SUBACK (test_client\<lparr>buf_read := Some [0x90, 4, 0, 9, 0x80, 1]\<rparr>)
     = Some (SUCCESS_RETURN,
         notify IOTX_MQTT_EVENT_SUBCRIBE_SUCCESS (PacketId 9)
           (iotx_mqtt_event_handle_sub 9 IOTX_MQTT_EVENT_SUBCRIBE_SUCCESS
             (test_client\<lparr>buf_read := Some [0x90, 4, 0, 9, 0x80, 1]\<rparr>)))"
  using suback_judged_by_last [of "[0x80]" "test_client\<lparr>buf_read := Some [0x90, 4, 0, 9, 0x80, 1]\<rparr>" 9 1 "[]"]
  by (simp add: writeInt_def c_arith)

section \<open>What reading a packet changes\<close>

lemma io_step_notify: "in_yield_cb c = 0 \<Longrightarrow> io_step c (notify ty msg c)"
  using handle_event_call_fields(2) [THEN env_io_step] by (simp add: notify_def)

lemma io_step_notify_after: "io_step c c1 \<Longrightarrow> in_yield_cb c = 0 \<Longrightarrow> io_step c (notify ty msg c1)"
  using io_step_notify [of c1] by (simp add: io_step_def)

lemma io_step_read_into: "read_into P off n t c = Some (rc, c') \<Longrightarrow> io_step c c'"
  by (auto simp: read_into_def split: Option.bind_splits dest!: io_steps) (simp add: io_step_def)

lemma io_step_decode_loop:
  "iotx_mc_decode_packet_loop P t m len v c = Some (rc, v', c') \<Longrightarrow> io_step c c'"
proof (induction P t m len v c arbitrary: rc v' c' rule: iotx_mc_decode_packet_loop.induct)
  case (1 P t m len v c)
  show ?case
  proof (cases "len + 1 > 4")
    case True
    with 1 show ?thesis by (subst (asm) (2) iotx_mc_decode_packet_loop.simps) simp
  next
    case False
    with 1(2) obtain n i c1 where r: "ipstack_read P [0] 0 1 (if t = 0 then 1 else t) c = Some (n, i, c1)"
      by (subst (asm) iotx_mc_decode_packet_loop.simps) (auto simp: Let_def split: Option.bind_splits)
    note step = io_steps(5) [OF r]
    show ?thesis
    proof (cases "n = 1 \<and> hd i AND 128 \<noteq> 0")
      case True
      with 1(2) False r have "iotx_mc_decode_packet_loop P t (m * 128) (len + 1)
          (v + uint (hd i AND 127) * m) c1 = Some (rc, v', c')"
        by (subst (asm) iotx_mc_decode_packet_loop.simps) (simp add: Let_def)
      with 1(1) True False r have "io_step c1 c'" by simp
      with step show ?thesis by (rule io_step_trans)
    next
      case other: False
      with 1(2) False r have "c' = c1"
        by (subst (asm) iotx_mc_decode_packet_loop.simps) (auto simp: Let_def split: if_splits)
      with step show ?thesis by simp
    qed
  qed
qed

lemma io_step_read_body: "read_body P t pt len n c = Some (rc, pt', c') \<Longrightarrow> io_step c c'"
  by (auto simp: read_body_def Let_def split: Option.bind_splits prod.splits if_splits
      dest!: io_steps io_step_read_into) (simp_all add: io_step_def)

lemma io_step_read_oversized:
  "read_oversized P t pt len n c = Some (rc, pt', c') \<Longrightarrow> in_yield_cb c = 0 \<Longrightarrow> io_step c c'"
  by (auto simp: read_oversized_def Let_def split: Option.bind_splits prod.splits if_splits
      dest!: io_steps io_step_read_into)
    (((rule io_step_notify_after)?; simp add: io_step_def)+)

lemma io_step_read_packet:
  assumes "iotx_mc_read_packet P t pt c = Some (rc, pt', c')" and "in_yield_cb c = 0"
  shows "io_step c c'"
proof -
  obtain r1 c1 where a: "alloc_recv_buffer P 0 c = Some (r1, c1)"
    using assms(1) by (auto simp: iotx_mc_read_packet_def split: Option.bind_splits)
  obtain t2 c2 where l2: "mc_left_or_1 P t c1 = (t2, c2)" by force
  note s1 = io_step_alloc(2) [OF a]
  note s2 = io_step_trans [OF s1 io_steps(11) [OF l2]]
  show ?thesis
  proof (cases "r1 < 0")
    case True
    with assms(1) a s1 show ?thesis by (simp add: iotx_mc_read_packet_def)
  next
    case False
    with assms(1) a l2 obtain r3 c3 where r: "read_into P 0 1 t2 c2 = Some (r3, c3)"
      by (auto simp: iotx_mc_read_packet_def split: Option.bind_splits)
    note s3 = io_step_trans [OF s2 io_step_read_into [OF r]]
    obtain t4 c4 where l4: "mc_left_or_1 P t c3 = (t4, c4)" by force
    note s4 = io_step_trans [OF s3 io_steps(11) [OF l4]]
    show ?thesis
    proof (cases "r3 = 1")
      case other: False
      with assms(1) a l2 r s3 False show ?thesis
        by (simp add: iotx_mc_read_packet_def split: if_split_asm)
    next
      case True
      with assms(1) a l2 r l4 False obtain r5 n c5
        where d: "iotx_mc_decode_packet P t4 c4 = Some (r5, n, c5)"
        by (auto simp: iotx_mc_read_packet_def split: Option.bind_splits)
      then have s5: "io_step c c5"
        using s4 io_step_decode_loop by (auto simp: iotx_mc_decode_packet_def intro: io_step_trans)
      show ?thesis
      proof (cases "r5 < 0")
        case neg: True
        with assms(1) a l2 r l4 False True d s5 show ?thesis by (simp add: iotx_mc_read_packet_def)
      next
        case ok: False
        let ?len = "1 + int (length (MQTTPacket_encode n))"
        from assms(1) a l2 r l4 False True d ok obtain buf where buf: "buf_read c5 = Some buf"
          by (auto simp: iotx_mc_read_packet_def split: Option.bind_splits)
        let ?c6 = "c5\<lparr>buf_read := Some (take 1 buf @ MQTTPacket_encode n
                                       @ drop (1 + length (MQTTPacket_encode n)) buf)\<rparr>"
        from assms(1) a l2 r l4 False True d ok buf
        have run: "do { (rc, c) \<leftarrow> alloc_recv_buffer P (n + ?len) ?c6;
             if rc < 0 then Some (FAIL_RETURN, pt, c)
             else if n > 0 \<and> (word_of_int (n + ?len) :: u32) > buf_size_read c
             then read_oversized P t pt ?len n c else read_body P t pt ?len n c } = Some (rc, pt', c')"
          by (simp add: iotx_mc_read_packet_def Let_def split: if_split_asm)
        then obtain r7 c7 where al: "alloc_recv_buffer P (n + ?len) ?c6 = Some (r7, c7)"
          by (auto split: Option.bind_splits)
        with run have rest: "(if r7 < 0 then Some (FAIL_RETURN, pt, c7)
             else if n > 0 \<and> (word_of_int (n + ?len) :: u32) > buf_size_read c7
             then read_oversized P t pt ?len n c7 else read_body P t pt ?len n c7) = Some (rc, pt', c')"
          by simp
        have "io_step c5 ?c6" by (simp add: io_step_def)
        then have s7: "io_step c c7"
          using s5 io_step_alloc(2) [OF al] by (blast intro: io_step_trans)
        then have "in_yield_cb c7 = 0" using assms(2) by (simp add: io_step_def)
        with rest have "io_step c7 c'"
          by (auto split: if_split_asm dest: io_step_read_body io_step_read_oversized)
        with s7 show ?thesis by (rule io_step_trans)
      qed
    qed
  qed
qed

end
