(* ===== verification/Mqtt_Connect.thy ===== *)
theory Mqtt_Connect
  imports Mqtt_Receive
begin

text \<open>
  Connections in \<open>mqtt/iotx_mqtt_client.c\<close>: the CONNECT and its CONNACK
  (\<open>MQTTConnect\<close>, \<open>iotx_mc_wait_CONNACK\<close>, \<open>_mqtt_connect\<close>, \<open>wrapper_mqtt_connect\<close>), the pings
  and the reconnection with its growing interval (\<open>iotx_mc_keepalive\<close> and what it calls),
  disconnecting and releasing. The lemmas show what a CONNACK decides, how the interval
  grows, and which states the keep-alive moves between.
\<close>

section \<open>Connecting\<close>

definition MQTTConnect :: "platform \<Rightarrow> iotx_mc_client_t \<Rightarrow> (int \<times> iotx_mc_client_t) option" where
  "MQTTConnect P c =
     do {
       (rc, c) \<leftarrow> alloc_send_buffer P (get_connect_length (connect_data c)) c;
       if rc \<noteq> SUCCESS_RETURN then Some (FAIL_RETURN, c)
       else do {
         (len, c) \<leftarrow> store_packet (MQTTSerialize_connect (sint (buf_size_send c)) (connect_data c)) c;
         if len \<le> 0 then Some (MQTT_CONNECT_PACKET_ERROR, snd (reset_send_buffer c))
         else
           let (connectTimer, c) = mc_countdown_ms P fresh_timer (request_timeout_ms c) c in
           do {
             (rc, c) \<leftarrow> iotx_mc_send_packet P (buf_send c) len connectTimer c;
             Some (if rc \<noteq> SUCCESS_RETURN then MQTT_NETWORK_ERROR else SUCCESS_RETURN,
                   snd (reset_send_buffer c)) } } }"

abbreviation "WAIT_CONNACK_MAX \<equiv> 10 :: nat"

text \<open>The \<open>do .. while\<close> loop of \<open>iotx_mc_wait_CONNACK\<close> and what follows it.\<close>

function wait_connack_loop ::
    "platform \<Rightarrow> iotx_time_t \<Rightarrow> nat \<Rightarrow> u8 option \<Rightarrow> iotx_mc_client_t \<Rightarrow> (int \<times> iotx_mc_client_t) option"
where
  "wait_connack_loop P timer wait_connack packetType c =
     do {
       (rc, packetType, c) \<leftarrow> iotx_mc_read_packet P timer packetType c;
       if rc \<noteq> SUCCESS_RETURN then Some (rc, snd (reset_recv_buffer c))
       else
         let wait_connack = Suc wait_connack in
         if wait_connack > WAIT_CONNACK_MAX then Some (MQTT_NETWORK_ERROR, snd (reset_recv_buffer c))
         else do {
           type \<leftarrow> packetType;
           if type \<noteq> CONNACK then wait_connack_loop P timer wait_connack packetType c
           else do { rc \<leftarrow> iotx_mc_handle_recv_CONNACK c; Some (rc, snd (reset_recv_buffer c)) } } }"
  by pat_completeness auto
termination
  by (relation "measure (\<lambda>(P, t, n, pt, c). WAIT_CONNACK_MAX - n)") auto

declare wait_connack_loop.simps [simp del]

definition iotx_mc_wait_CONNACK :: "platform \<Rightarrow> iotx_mc_client_t \<Rightarrow> (int \<times> iotx_mc_client_t) option" where
  "iotx_mc_wait_CONNACK P c =
     (let (timer, c) = mc_countdown_ms P fresh_timer (request_timeout_ms c) c
      in wait_connack_loop P timer 0 (Some 0) c)"

abbreviation "RETRY_TIME_LIMIT \<equiv> 9 :: nat"
abbreviation "RETRY_INTV_PERIOD \<equiv> 2000 :: int"

definition keepalive_ms :: "iotx_mc_client_t \<Rightarrow> u32" where
  "keepalive_ms c = ucast (keepAliveInterval (connect_data c)) * 1000"

text \<open>
  The loop of \<open>_mqtt_connect\<close>, from the round with number \<open>try_count\<close> on, and what follows
  it. The result of the reconnection of the transport is ignored.
\<close>

function mqtt_connect_loop ::
    "platform \<Rightarrow> nat \<Rightarrow> iotx_mc_client_t \<Rightarrow> (int \<times> iotx_mc_client_t) option" where
  "mqtt_connect_loop P try_count c =
     do {
       (rc, c) \<leftarrow> MQTTConnect P c;
       if rc \<noteq> SUCCESS_RETURN then Some (rc, ipstack_disconnect c)
       else do {
         (rc, c) \<leftarrow> iotx_mc_wait_CONNACK P c;
         if rc \<le> MQTT_CONNACK_NOT_AUTHORIZED_ERROR
            \<and> rc \<ge> MQTT_CONANCK_UNACCEPTABLE_PROTOCOL_VERSION_ERROR
         then Some (MQTT_CONNECT_ERROR, ipstack_disconnect c)
         else if rc \<noteq> SUCCESS_RETURN
         then let c = HAL_SleepMs RETRY_INTV_PERIOD c;
                  c = ipstack_disconnect c;
                  (_, c) = ipstack_connect P c;
                  try_count = Suc try_count
              in if try_count < RETRY_TIME_LIMIT then mqtt_connect_loop P try_count c
                 else Some (MQTT_CONNECT_ERROR, c)
         else let c = iotx_mc_set_client_state IOTX_MC_STATE_CONNECTED c;
                  (t, c) = mc_countdown_ms P (next_ping_time c) (keepalive_ms c) c
              in Some (SUCCESS_RETURN, c\<lparr>next_ping_time := t\<rparr>) } }"
  by pat_completeness auto
termination
  by (relation "measure (\<lambda>(P, n, c). RETRY_TIME_LIMIT - n)") auto

declare mqtt_connect_loop.simps [simp del]

definition mqtt_connect :: "platform \<Rightarrow> iotx_mc_client_t \<Rightarrow> (int \<times> iotx_mc_client_t) option" where
  "mqtt_connect P c = mqtt_connect_loop P 1 c"

text \<open>
  The transport is tried \<open>n\<close> times; the return code of the loop is overwritten by that of
  \<open>_mqtt_connect\<close>, which runs in any case.
\<close>

fun net_connect_loop :: "nat \<Rightarrow> platform \<Rightarrow> iotx_mc_client_t \<Rightarrow> iotx_mc_client_t" where
  "net_connect_loop 0 P c = c"
| "net_connect_loop (Suc n) P c =
     (let (rc, c) = ipstack_connect P c
      in if rc \<noteq> SUCCESS_RETURN
         then net_connect_loop n P (HAL_SleepMs 1000 (ipstack_disconnect c))
         else c)"

definition wrapper_mqtt_connect :: "platform \<Rightarrow> iotx_mc_client_t \<Rightarrow> (int \<times> iotx_mc_client_t) option" where
  "wrapper_mqtt_connect P c = mqtt_connect P (net_connect_loop 3 P c)"

section \<open>Keep-alive and reconnection\<close>

definition MQTTKeepalive :: "platform \<Rightarrow> iotx_mc_client_t \<Rightarrow> (int \<times> iotx_mc_client_t) option" where
  "MQTTKeepalive P c =
     (let (timer, c) = mc_countdown_ms P fresh_timer 1000 c
      in do {
        (rc, c) \<leftarrow> alloc_send_buffer P 0 c;
        if rc < 0 then Some (FAIL_RETURN, c)
        else do {
          (len, c) \<leftarrow> store_packet (MQTTSerialize_pingreq (sint (buf_size_send c))) c;
          if len \<le> 0 then Some (MQTT_PING_PACKET_ERROR, snd (reset_send_buffer c))
          else do {
            (rc, c) \<leftarrow> iotx_mc_send_packet P (buf_send c) len timer c;
            Some (if rc \<noteq> SUCCESS_RETURN then MQTT_NETWORK_ERROR else SUCCESS_RETURN,
                  snd (reset_send_buffer c)) } } })"

definition iotx_mc_keepalive_sub ::
    "platform \<Rightarrow> iotx_mc_client_t \<Rightarrow> (int \<times> iotx_mc_client_t) option" where
  "iotx_mc_keepalive_sub P c =
     (if wrapper_mqtt_check_state c = 0 then Some (SUCCESS_RETURN, c)
      else
        let (expired, c) = mc_time_is_expired P (next_ping_time c) c in
        if \<not> expired then Some (SUCCESS_RETURN, c)
        else
          let (t, c) = mc_countdown_ms P (next_ping_time c) (keepalive_ms c) c;
              c = c\<lparr>next_ping_time := t\<rparr>
          in do {
            (rc, c) \<leftarrow> MQTTKeepalive P c;
            if rc \<noteq> SUCCESS_RETURN
            then Some (rc, if rc = MQTT_NETWORK_ERROR
                           then iotx_mc_set_client_state IOTX_MC_STATE_DISCONNECTED c else c)
            else Some (SUCCESS_RETURN,
                       c\<lparr>ping_mark := 1, keepalive_probes := keepalive_probes c + 1\<rparr>) })"

definition iotx_mc_attempt_reconnect ::
    "platform \<Rightarrow> iotx_mc_client_t \<Rightarrow> (int \<times> iotx_mc_client_t) option" where
  "iotx_mc_attempt_reconnect P c = wrapper_mqtt_connect P (ipstack_disconnect c)"

definition set_reconnect_interval :: "u32 \<Rightarrow> iotx_mc_client_t \<Rightarrow> iotx_mc_client_t" where
  "set_reconnect_interval ms c =
     c\<lparr>reconnect_param := (reconnect_param c)\<lparr>reconnect_time_interval_ms := ms\<rparr>\<rparr>"

definition set_reconnect_timer :: "platform \<Rightarrow> u32 \<Rightarrow> iotx_mc_client_t \<Rightarrow> iotx_mc_client_t" where
  "set_reconnect_timer P ms c =
     (let (t, c) = mc_countdown_ms P (reconnect_next_time (reconnect_param c)) ms c
      in c\<lparr>reconnect_param := (reconnect_param c)\<lparr>reconnect_next_time := t\<rparr>\<rparr>)"

definition next_interval :: "u32 \<Rightarrow> u32" where
  "next_interval ms =
     (if IOTX_MC_RECONNECT_INTERVAL_MAX_MS > ms then ms * 2 else IOTX_MC_RECONNECT_INTERVAL_MAX_MS)"

definition iotx_mc_handle_reconnect ::
    "platform \<Rightarrow> iotx_mc_client_t \<Rightarrow> (int \<times> iotx_mc_client_t) option" where
  "iotx_mc_handle_reconnect P c =
     (let (expired, c) = mc_time_is_expired P (reconnect_next_time (reconnect_param c)) c in
      if \<not> expired then Some (FAIL_RETURN, HAL_SleepMs 100 c)
      else do {
        (rc, c) \<leftarrow> iotx_mc_attempt_reconnect P c;
        if rc = SUCCESS_RETURN
        then Some (SUCCESS_RETURN, iotx_mc_set_client_state IOTX_MC_STATE_CONNECTED c)
        else if rc = MQTT_CONNECT_BLOCK then Some (rc, c)
        else
          let c = set_reconnect_interval
                    (next_interval (reconnect_time_interval_ms (reconnect_param c))) c;
              interval_ms = reconnect_time_interval_ms (reconnect_param c);
              interval_ms = (if IOTX_MC_RECONNECT_INTERVAL_MAX_MS < interval_ms
                             then IOTX_MC_RECONNECT_INTERVAL_MAX_MS else interval_ms)
          in Some (rc, set_reconnect_timer P interval_ms c) })"

text \<open>These two call the handler directly, without the flag \<open>_in_yield_cb\<close>.\<close>

definition direct_callback :: "iotx_mqtt_event_type_t \<Rightarrow> iotx_mc_client_t \<Rightarrow> iotx_mc_client_t" where
  "direct_callback ty c =
     (case h_fp (handle_event c) of
        None \<Rightarrow> c
      | Some fp \<Rightarrow> observe (Callback fp (pcontext (handle_event c)) ty NoDetail) c)"

definition iotx_mc_reconnect_callback :: "iotx_mc_client_t \<Rightarrow> iotx_mc_client_t" where
  "iotx_mc_reconnect_callback c = direct_callback IOTX_MQTT_EVENT_RECONNECT c"

definition iotx_mc_disconnect_callback :: "iotx_mc_client_t \<Rightarrow> iotx_mc_client_t" where
  "iotx_mc_disconnect_callback c = direct_callback IOTX_MQTT_EVENT_DISCONNECT c"

text \<open>What \<open>iotx_mc_keepalive\<close> does with a client that has lost its connection.\<close>

definition suspend_link :: "platform \<Rightarrow> iotx_mc_client_t \<Rightarrow> iotx_mc_client_t" where
  "suspend_link P c =
     (let c = iotx_mc_disconnect_callback c;
          c = set_reconnect_interval IOTX_MC_RECONNECT_INTERVAL_MIN_MS c;
          c = set_reconnect_timer P (reconnect_time_interval_ms (reconnect_param c)) c;
          c = ipstack_disconnect c
      in iotx_mc_set_client_state IOTX_MC_STATE_DISCONNECTED_RECONNECTING c)"

text \<open>\<open>currentState\<close> is read after the ping and not again.\<close>

definition iotx_mc_keepalive :: "platform \<Rightarrow> iotx_mc_client_t \<Rightarrow> iotx_mc_client_t option" where
  "iotx_mc_keepalive P c =
     do {
       (_, c) \<leftarrow> iotx_mc_keepalive_sub P c;
       let currentState = iotx_mc_get_client_state c in
       if currentState = IOTX_MC_STATE_DISCONNECTED_RECONNECTING
          \<or> currentState = IOTX_MC_STATE_CONNECT_BLOCK
       then do {
         (rc, c) \<leftarrow> iotx_mc_handle_reconnect P (c\<lparr>ping_mark := 0\<rparr>);
         Some (if rc \<noteq> SUCCESS_RETURN then c
               else if rc = MQTT_CONNECT_BLOCK then c
               else set_reconnect_interval IOTX_MC_RECONNECT_INTERVAL_MIN_MS
                      (iotx_mc_reconnect_callback c)) }
       else if currentState = IOTX_MC_STATE_DISCONNECTED
       then Some (suspend_link P c)
       else Some c }"

section \<open>Disconnecting and releasing\<close>

definition MQTTDisconnect :: "platform \<Rightarrow> iotx_mc_client_t \<Rightarrow> (int \<times> iotx_mc_client_t) option" where
  "MQTTDisconnect P c =
     do {
       (rc, c) \<leftarrow> alloc_send_buffer P 0 c;
       if rc < 0 then Some (FAIL_RETURN, c)
       else do {
         (len, c) \<leftarrow> store_packet (MQTTSerialize_disconnect (sint (buf_size_send c))) c;
         let (timer, c) = mc_countdown_ms P fresh_timer (request_timeout_ms c) c in
         do {
           (rc, c) \<leftarrow> (if len > 0 then iotx_mc_send_packet P (buf_send c) len timer c
                       else Some (FAIL_RETURN, c));
           Some (rc, snd (reset_send_buffer c)) } } }"

definition iotx_mc_disconnect :: "platform \<Rightarrow> iotx_mc_client_t \<Rightarrow> (int \<times> iotx_mc_client_t) option" where
  "iotx_mc_disconnect P c =
     do {
       (_, c) \<leftarrow> (if wrapper_mqtt_check_state c \<noteq> 0 then MQTTDisconnect P c else Some (-1, c));
       Some (SUCCESS_RETURN,
             iotx_mc_set_client_state IOTX_MC_STATE_INITIALIZED (ipstack_disconnect c)) }"

text \<open>
  The result: the return code, what the caller's pointer is afterwards (NULL), and the client
  as it is when it is freed, its lists and buffers gone. The list of waiting synchronous
  subscriptions is not touched.
\<close>

definition wrapper_mqtt_release ::
    "platform \<Rightarrow> iotx_mc_client_t option
      \<Rightarrow> (int \<times> iotx_mc_client_t option \<times> iotx_mc_client_t option) option" where
  "wrapper_mqtt_release P pc =
     (case pc of
        None \<Rightarrow> Some (NULL_VALUE_ERROR, None, None)
      | Some c \<Rightarrow>
          do {
            (_, c) \<leftarrow> iotx_mc_disconnect P (HAL_SleepMs 100 c);
            let c = iotx_mc_set_client_state IOTX_MC_STATE_INVALID c;
                c = HAL_SleepMs 100 c;
                c = c\<lparr>list_sub_handle := [], list_pub_wait_ack := [], buf_send := None, buf_read := None\<rparr>
            in Some (SUCCESS_RETURN, None, Some c) })"

section \<open>What connecting changes\<close>

lemmas io_runs = io_steps io_step_alloc io_step_store env_step_send [THEN env_io_step]

lemmas io_ends = io_step_def reset_send_buffer_def reset_recv_buffer_def

lemma io_step_MQTTConnect: "MQTTConnect P c = Some (rc, c') \<Longrightarrow> io_step c c'"
  unfolding MQTTConnect_def by (elim run_elims) (auto dest!: io_runs simp: io_ends)

lemma io_step_MQTTKeepalive: "MQTTKeepalive P c = Some (rc, c') \<Longrightarrow> io_step c c'"
  unfolding MQTTKeepalive_def by (elim run_elims) (auto dest!: io_runs simp: io_ends)

lemma io_step_MQTTDisconnect: "MQTTDisconnect P c = Some (rc, c') \<Longrightarrow> io_step c c'"
  unfolding MQTTDisconnect_def by (elim run_elims) (auto dest!: io_runs simp: io_ends)

lemma io_step_wait_connack_loop:
  "wait_connack_loop P t n pt c = Some (rc, c') \<Longrightarrow> in_yield_cb c = 0 \<Longrightarrow> io_step c c'"
proof (induction P t n pt c arbitrary: rc c' rule: wait_connack_loop.induct)
  case (1 P t n pt c)
  from "1.prems"(1) [unfolded wait_connack_loop.simps [of P t n pt c]] show ?case
  proof (elim run_elims, goal_cases)
    case (1 r pt1 c1)
    with io_step_trans [OF io_step_read_packet io_step_reset(2)] "1.prems"(2) show ?case by auto
  next
    case (2 r pt1 c1)
    with io_step_trans [OF io_step_read_packet io_step_reset(2)] "1.prems"(2) show ?case by auto
  next
    case (3 r pt1 c1 ty)
    then have step: "io_step c c1" using io_step_read_packet "1.prems"(2) by blast
    then have "in_yield_cb c1 = 0" using "1.prems"(2) by (simp add: io_step_def)
    with 3 "1.IH" have "io_step c1 c'" by blast
    with step show ?case by (rule io_step_trans)
  next
    case (4 r pt1 c1 ty rc1)
    with io_step_trans [OF io_step_read_packet io_step_reset(2)] "1.prems"(2) show ?case by auto
  qed
qed

lemma io_step_wait_CONNACK:
  assumes "iotx_mc_wait_CONNACK P c = Some (rc, c')" and "in_yield_cb c = 0"
  shows "io_step c c'"
proof -
  obtain t c1 where c1: "mc_countdown_ms P fresh_timer (request_timeout_ms c) c = (t, c1)" by force
  note step = io_steps(6) [OF c1]
  with assms have "in_yield_cb c1 = 0" by (simp add: io_step_def)
  with assms(1) c1 have "io_step c1 c'"
    by (auto simp: iotx_mc_wait_CONNACK_def intro: io_step_wait_connack_loop)
  with step show ?thesis by (rule io_step_trans)
qed

lemma env_step_net_connect_loop: "env_step c (net_connect_loop n P c)"
proof (induction n arbitrary: c)
  case (Suc n)
  obtain rc c1 where c1: "ipstack_connect P c = (rc, c1)" by force
  note step = env_step_connect [OF c1]
  have "env_step c1 (net_connect_loop n P (HAL_SleepMs 1000 (ipstack_disconnect c1)))"
    using Suc env_step_calls(3,4) by (blast intro: env_step_trans)
  with step c1 show ?case by (auto intro: env_step_trans)
qed simp

text \<open>
  The outcome of connecting: either it succeeded and the client is connected, with a new
  ping timer, or the protocol state is as before.
\<close>

definition linked :: "iotx_mc_client_t \<Rightarrow> int \<Rightarrow> iotx_mc_client_t \<Rightarrow> bool" where
  "linked c rc c' \<longleftrightarrow>
     (if rc = SUCCESS_RETURN
      then client_state c' = IOTX_MC_STATE_CONNECTED
           \<and> io_step (c\<lparr>client_state := IOTX_MC_STATE_CONNECTED, next_ping_time := next_ping_time c'\<rparr>) c'
      else io_step c c')"

lemma linked_io: "io_step c c1 \<Longrightarrow> linked c1 rc c' \<Longrightarrow> linked c rc c'"
  by (auto simp: linked_def io_step_def)

lemma mqtt_connect_loop_linked:
  "mqtt_connect_loop P n c = Some (rc, c') \<Longrightarrow> in_yield_cb c = 0 \<Longrightarrow> linked c rc c'"
proof (induction P n c arbitrary: rc c' rule: mqtt_connect_loop.induct)
  case (1 P n c)
  have yield: "in_yield_cb c1 = 0" if "io_step c c1" for c1
    using that "1.prems"(2) by (simp add: io_step_def)
  have waited: "io_step c c2" if "MQTTConnect P c = Some (r, c1)" "iotx_mc_wait_CONNACK P c1 = Some (r2, c2)"
    for r c1 r2 c2
  proof -
    have "io_step c c1" using that(1) by (rule io_step_MQTTConnect)
    moreover have "io_step c1 c2" using that(2) yield [OF calculation] by (rule io_step_wait_CONNACK)
    ultimately show ?thesis by (rule io_step_trans)
  qed
  have reconnected: "io_step c1 c2" if "ipstack_connect P (ipstack_disconnect (HAL_SleepMs n c1)) = (r, c2)"
    for n c1 r c2
    by (rule io_step_trans [OF io_step_trans [OF io_step_calls(3,4)] env_io_step [OF env_step_connect [OF that]]])
  from "1.prems"(1) [unfolded mqtt_connect_loop.simps [of P n c]] show ?case
  proof (elim run_elims, goal_cases)
    case (1 r c1)
    from io_step_trans [OF io_step_MQTTConnect [OF 1(1)] io_step_calls(4)] 1 show ?case
      by (auto simp: linked_def)
  next
    case (2 r c1 r2 c2)
    from io_step_trans [OF waited [OF 2(1,3)] io_step_calls(4)] 2 show ?case by (auto simp: linked_def)
  next
    case (3 r c1 r2 c2 r3 c3)
    note step = io_step_trans [OF waited [OF 3(1,3)] reconnected [OF 3(6)]]
    have "linked c3 rc c'"
      by (rule "1.IH" [OF 3(1) refl 3(2) 3(3) refl 3(4,5) refl refl refl 3(6) [symmetric] refl 3(7,8)
            yield [OF step]])
    with step show ?case by (rule linked_io)
  next
    case (4 r c1 r2 c2 r3 c3)
    from io_step_trans [OF waited [OF 4(1,3)] reconnected [OF 4(6)]] 4 show ?case
      by (auto simp: linked_def)
  next
    case (5 r c1 r2 c2 t c3)
    from waited [OF 5(1,3)] io_steps(6) [OF 5(6)] 5 show ?case
      by (auto simp: linked_def io_step_def iotx_mc_set_client_state_def)
  qed
qed

lemma connect_linked:
  assumes "wrapper_mqtt_connect P c = Some (rc, c')" and "in_yield_cb c = 0"
  shows "linked c rc c'"
proof -
  let ?c = "net_connect_loop 3 P c"
  have step: "io_step c ?c" using env_step_net_connect_loop by (rule env_io_step)
  then have "in_yield_cb ?c = 0" using assms(2) by (simp add: io_step_def)
  with assms(1) step show ?thesis
    by (auto simp: wrapper_mqtt_connect_def mqtt_connect_def intro: linked_io mqtt_connect_loop_linked)
qed

text \<open>
  The packet in the buffer is a CONNACK whose return code (the second byte after its remaining
  length) is 0.
\<close>

definition accepting_connack :: "bytes \<Rightarrow> bool" where
  "accepting_connack b \<longleftrightarrow>
     (case (rd b 0, MQTTPacket_decodeBuf b 1) of
        (Some header, Some (k, n)) \<Rightarrow> drop_bit 4 header = 2 \<and> 2 \<le> n \<and> rd b (nat k + 2) = Some 0
      | _ \<Rightarrow> False)"

lemma high_nibble: "drop_bit 4 (h :: u8) AND 15 = drop_bit 4 h"
proof -
  have m: "(15 :: u8) = mask 4" by (simp add: mask_eq_exp_minus_1)
  show ?thesis unfolding m take_bit_eq_mask [symmetric] by (simp add: take_bit_drop_bit take_bit_word_eq_self)
qed

lemma handle_recv_CONNACK_accepts:
  assumes "iotx_mc_handle_recv_CONNACK c = Some SUCCESS_RETURN"
  shows "\<exists>b. buf_read c = Some b \<and> accepting_connack b"
proof -
  obtain b rc sp code where b: "buf_read c = Some b"
    and d: "MQTTDeserialize_connack 0 255 b (sint (buf_size_read c)) = Some (rc, sp, code)"
    and r: "rc = 1" "code = 0"
    using assms by (auto simp: iotx_mc_handle_recv_CONNACK_def bind_eq_Some_conv split: if_splits)
  have "accepting_connack b"
    using d unfolding r MQTTDeserialize_connack_def accepting_connack_def
    by (auto simp: bind_eq_Some_conv readChar_def MQTT_HEADER_GET_TYPE_def high_nibble Let_def split: if_splits)
  with b show ?thesis by blast
qed

text \<open>The last packet read on the way from \<open>c\<close> was a CONNACK that accepts the connection.\<close>

definition connack_read :: "platform \<Rightarrow> iotx_mc_client_t \<Rightarrow> bool" where
  "connack_read P c' \<longleftrightarrow>
     (\<exists>timer pt c1 c2 b. iotx_mc_read_packet P timer pt c1 = Some (SUCCESS_RETURN, Some CONNACK, c2)
        \<and> buf_read c2 = Some b \<and> accepting_connack b \<and> c' = snd (reset_recv_buffer c2))"

lemma wait_connack_loop_accepts:
  "wait_connack_loop P t n pt c = Some (SUCCESS_RETURN, c') \<Longrightarrow> connack_read P c'"
proof (induction P t n pt c arbitrary: c' rule: wait_connack_loop.induct)
  case (1 P t n pt c)
  from "1.prems" [unfolded wait_connack_loop.simps [of P t n pt c]] show ?case
  proof (elim run_elims, goal_cases)
    case (3 r pt1 c1 ty)
    with "1.IH" show ?case by blast
  next
    case (4 r pt1 c1 ty rc1)
    with handle_recv_CONNACK_accepts [of c1] show ?case unfolding connack_read_def by blast
  qed auto
qed

text \<open>
  From \<open>c\<close> the connection that ends in \<open>c'\<close> was accepted: a CONNECT was sent completely, an
  accepting CONNACK was the last packet read, and \<open>c'\<close> is the client right after it, in the
  state CONNECTED with its ping timer started.
\<close>

definition connection_accepted :: "platform \<Rightarrow> iotx_mc_client_t \<Rightarrow> iotx_mc_client_t \<Rightarrow> bool" where
  "connection_accepted P c c' \<longleftrightarrow>
     (\<exists>c1 c2 c3 c4 t. io_step c c1 \<and> MQTTConnect P c1 = Some (SUCCESS_RETURN, c2)
        \<and> iotx_mc_wait_CONNACK P c2 = Some (SUCCESS_RETURN, c3) \<and> connack_read P c3
        \<and> mc_countdown_ms P (next_ping_time c3) (keepalive_ms c3)
            (c3\<lparr>client_state := IOTX_MC_STATE_CONNECTED\<rparr>) = (t, c4)
        \<and> c' = c4\<lparr>next_ping_time := t\<rparr>)"

lemma connection_accepted_io: "io_step c c1 \<Longrightarrow> connection_accepted P c1 c' \<Longrightarrow> connection_accepted P c c'"
  by (auto simp: connection_accepted_def intro: io_step_trans)

lemma mqtt_connect_loop_accepted:
  "mqtt_connect_loop P n c = Some (SUCCESS_RETURN, c') \<Longrightarrow> in_yield_cb c = 0 \<Longrightarrow> connection_accepted P c c'"
proof (induction P n c arbitrary: c' rule: mqtt_connect_loop.induct)
  case (1 P n c)
  from "1.prems"(1) [unfolded mqtt_connect_loop.simps [of P n c]] show ?case
  proof (elim run_elims, goal_cases)
    case (3 r c1 r2 c2 r3 c3)
    have y: "in_yield_cb c1 = 0" using io_step_MQTTConnect [OF 3(1)] "1.prems"(2) by (simp add: io_step_def)
    have "io_step c c2"
      using io_step_trans [OF io_step_MQTTConnect [OF 3(1)] io_step_wait_CONNACK [OF 3(3) y]] .
    moreover have "io_step c2 c3"
      by (rule io_step_trans [OF io_step_trans [OF io_step_calls(3,4)] env_io_step [OF env_step_connect [OF 3(6)]]])
    ultimately have step: "io_step c c3" by (rule io_step_trans)
    then have "in_yield_cb c3 = 0" using "1.prems"(2) by (simp add: io_step_def)
    with "1.IH" [OF 3(1) refl 3(2) 3(3) refl 3(4,5) refl refl refl 3(6) [symmetric] refl 3(7,8)]
    have "connection_accepted P c3 c'" by blast
    with step show ?case by (rule connection_accepted_io)
  next
    case (5 r c1 r2 c2 t c3)
    then have "connack_read P c2"
      by (auto simp: iotx_mc_wait_CONNACK_def split: prod.splits intro: wait_connack_loop_accepts)
    with 5 show ?case
      unfolding connection_accepted_def
      by (intro exI [of _ c] exI [of _ c1] exI [of _ c2] exI [of _ c3] exI [of _ t])
        (auto simp: iotx_mc_set_client_state_def keepalive_ms_def)
  qed auto
qed

lemma connect_accepted:
  assumes "wrapper_mqtt_connect P c = Some (SUCCESS_RETURN, c')" and "in_yield_cb c = 0"
  shows "connection_accepted P c c'"
proof -
  let ?c = "net_connect_loop 3 P c"
  have step: "io_step c ?c" using env_step_net_connect_loop by (rule env_io_step)
  then have "in_yield_cb ?c = 0" using assms(2) by (simp add: io_step_def)
  with assms(1) step show ?thesis
    by (auto simp: wrapper_mqtt_connect_def mqtt_connect_def intro: connection_accepted_io mqtt_connect_loop_accepted)
qed



section \<open>A platform that works\<close>

text \<open>
  Memory is there, the network takes what it is offered and connects, and less than the
  shortest request timeout (500 ms) passes between two platform calls.
\<close>

definition works :: "platform \<Rightarrow> bool" where
  "works P \<longleftrightarrow> memory_ok P \<and> (\<forall>n d t. net_write P n d t = int (length d))
     \<and> (\<forall>n. net_connect P n = 0) \<and> (\<forall>n. unat (clock P (Suc n) - clock P n) < 500)"

lemma works_memory: "works P \<Longrightarrow> memory_ok P"
  by (simp add: works_def)

text \<open>What sending leaves alone, the send buffer apart.\<close>

definition tx_step :: "iotx_mc_client_t \<Rightarrow> iotx_mc_client_t \<Rightarrow> bool" where
  "tx_step c c' \<longleftrightarrow>
     io_step c c' \<and> rx_count c' = rx_count c \<and> buf_read c' = buf_read c \<and> buf_size_read c' = buf_size_read c"

lemma tx_step_trans: "tx_step c c' \<Longrightarrow> tx_step c' c'' \<Longrightarrow> tx_step c c''"
  by (auto simp: tx_step_def intro: io_step_trans)

lemma alloc_send_buffer_ok:
  assumes "memory_ok P" and "0 \<le> len" and "len + 64 < 2 ^ 31"
  shows "\<exists>c' b. alloc_send_buffer P len c = Some (SUCCESS_RETURN, c') \<and> tx_step c c'
           \<and> observed c' = observed c \<and> buf_send c' = Some b \<and> int (length b) = sint (buf_size_send c')
           \<and> sint (buf_size_send c') = min (len + 64) (uint (buf_size_send_max c))"
proof -
  let ?n = "word_of_int (64 + len) :: u32"
  let ?m = "if ?n > buf_size_send_max c then buf_size_send_max c else ?n"
  have n: "uint ?n = len + 64"
    using uint_of_int_u32 [of "64 + len"] assms(2,3) by simp
  have m: "uint ?m = min (len + 64) (uint (buf_size_send_max c))"
    using n by (auto simp: word_less_def)
  then have small: "sint ?m = uint ?m"
    using assms(3) by (intro sint_small) simp
  have sz: "alloc_size (MQTT_DYNBUF_SEND_MARGIN + len) (buf_size_send_max c) = Some ?m"
    using assms(2,3) by (simp add: alloc_size_def c_int_def)
  obtain m' where m': "m' = ?m" by blast
  have "alloc_send_buffer P len c = Some (SUCCESS_RETURN,
      (hal_call (c\<lparr>buf_send := None\<rparr>))\<lparr>buf_send := Some (replicate (unat m') 0), buf_size_send := m'\<rparr>)"
    using assms(1) sz unfolding m' [symmetric]
    by (simp add: alloc_send_buffer_def HAL_Malloc_def memory_ok_def Let_def)
  moreover have "int (unat m') = sint m'" "sint m' = min (len + 64) (uint (buf_size_send_max c))"
    using small m m' by simp_all
  ultimately show ?thesis
    by (auto simp: tx_step_def io_step_def hal_call_def)
qed

lemma countdown_prompt:
  assumes "works P" and "mc_countdown_ms P t0 ms c = (t, c')" and "500 \<le> unat ms" and "unat ms \<le> 5000"
  shows "utils_time_is_expired (clock P (hal_calls c')) (Some t) = 0" and "tx_step c c'"
    and "observed c' = observed c" and "buf_send c' = buf_send c" and "buf_size_send c' = buf_size_send c"
proof -
  let ?n = "hal_calls c"
  let ?e = "clock P (Suc ?n) - clock P ?n"
  have t: "Some t = utils_time_countdown_ms (clock P ?n) (Some t0) ms" and c': "c' = hal_call c"
    using assms(2) by (auto simp: mc_countdown_ms_def HAL_UptimeMs_def utils_time_countdown_ms_def)
  have "unat ?e < 500" using assms(1) by (simp add: works_def)
  with assms(3,4) countdown_expired [of ms ?e "clock P ?n" t0]
  have "utils_time_is_expired (clock P (Suc ?n)) (Some t) = 0" unfolding t by simp
  with c' show "utils_time_is_expired (clock P (hal_calls c')) (Some t) = 0"
    and "tx_step c c'" and "observed c' = observed c" and "buf_send c' = buf_send c"
    and "buf_size_send c' = buf_size_send c"
    by (simp_all add: hal_call_def tx_step_def io_step_def)
qed

lemma send_packet_taken:
  assumes "works P" and "utils_time_is_expired (clock P (hal_calls c)) (Some t) = 0" and "out \<noteq> []"
    and "length out < 2 ^ 31"
  shows "\<exists>c'. iotx_mc_send_packet P (Some (out @ rest)) (int (length out)) t c = Some (SUCCESS_RETURN, c')
           \<and> tx_step c c' \<and> observed c' = observed c @ [Sent out]"
proof -
  obtain ex c1 where c1: "mc_time_is_expired P t c = (ex, c1)" by force
  obtain lt c2 where c2: "mc_left_or_1 P t c1 = (lt, c2)" by force
  have ex: "\<not> ex" using timer_calls(1) [OF c1] assms(2) by simp
  have obs: "observed c2 = observed c" "tx_step c c2"
    using c1 c2 env_step_timers(4) [OF c1] env_step_timers(6) [OF c2]
    by (auto simp: mc_time_is_expired_def mc_left_or_1_def mc_time_left_def HAL_UptimeMs_def
        hal_call_def Let_def tx_step_def env_step_def io_step_def split: if_splits)
  have d: "mem_slice (out @ rest) 0 (length out) = Some out" by (simp add: mem_slice_def)
  let ?c3 = "observe (Sent out) (hal_call c2)"
  have w: "ipstack_write P out lt c2 = (int (length out), ?c3)"
    using assms(1,3) by (simp add: ipstack_write_def works_def)
  have "send_loop P (out @ rest) (int (length out)) t (int (length out)) ?c3 = Some (int (length out), ?c3)"
    by (subst send_loop.simps) simp
  moreover have "c_int (int (length out)) = Some (int (length out))" using assms(4) by simp
  ultimately have "send_loop P (out @ rest) (int (length out)) t 0 c = Some (int (length out), ?c3)"
    using assms(3) c1 c2 ex d w by (subst send_loop.simps) (simp del: c_int_Some)
  moreover have "tx_step c ?c3" "observed ?c3 = observed c @ [Sent out]"
    using obs by (simp_all add: tx_step_def io_step_def observe_def hal_call_def)
  ultimately show ?thesis by (simp add: iotx_mc_send_packet_def)
qed

lemma MQTTConnect_sent:
  assumes "works P" and "list_all string_ok (connect_strings (connect_data c))"
    and "MQTTVersion (connect_data c) = 3 \<or> MQTTVersion (connect_data c) = 4"
    and "MQTTPacket_len (MQTTSerialize_connectLength (connect_data c)) \<le> uint (buf_size_send_max c)"
    and "uint (buf_size_send_max c) \<le> 268435456"
    and "500 \<le> unat (request_timeout_ms c)" and "unat (request_timeout_ms c) \<le> 5000"
  shows "\<exists>c'. MQTTConnect P c = Some (SUCCESS_RETURN, c') \<and> tx_step c c'
           \<and> observed c' = observed c @ [Sent (connect_packet (connect_data c))]"
proof -
  let ?n = "MQTTSerialize_connectLength (connect_data c)"
  let ?out = "connect_packet (connect_data c)"
  have n: "0 \<le> ?n" using connect_length_nonneg [OF assms(2)] .
  then have len: "0 \<le> MQTTPacket_len ?n" "MQTTPacket_len ?n + 64 < 2 ^ 31"
    using assms(4,5) by (auto simp: MQTTPacket_len_def Let_def)
  obtain c1 b where c1: "alloc_send_buffer P (MQTTPacket_len ?n) c = Some (SUCCESS_RETURN, c1)"
    "tx_step c c1" "observed c1 = observed c" "buf_send c1 = Some b" "int (length b) = sint (buf_size_send c1)"
    "sint (buf_size_send c1) = min (MQTTPacket_len ?n + 64) (uint (buf_size_send_max c))"
    using alloc_send_buffer_ok [OF works_memory [OF assms(1)] len] by blast
  have fits: "MQTTPacket_len ?n \<le> sint (buf_size_send c1)" "sint (buf_size_send c1) \<le> 268435456"
    using c1(6) assms(4,5) by simp_all
  have same: "connect_data c1 = connect_data c" "request_timeout_ms c1 = request_timeout_ms c"
    using c1(2) by (simp_all add: tx_step_def io_step_def)
  have ser: "MQTTSerialize_connect (sint (buf_size_send c1)) (connect_data c) = Some (Inr ?out)"
    using serialize_connect_eq [OF assms(2) fits(1)] .
  have size: "int (length ?out) = 1 + int (length (MQTTPacket_encode ?n)) + ?n"
    using length_connect_packet [OF assms(2,3)] .
  then have room: "length ?out \<le> length b" "?out \<noteq> []" "length ?out < 2 ^ 31"
    using encode_covered(1) [OF fits(1) n fits(2)] c1(5) fits(2) n by (auto simp: connect_packet_def)
  let ?c2 = "c1\<lparr>buf_send := Some (?out @ drop (length ?out) b)\<rparr>"
  have c2: "store_packet (Some (Inr ?out)) c1 = Some (int (length ?out), ?c2)" "tx_step c1 ?c2"
    using room c1(4) by (simp_all add: store_packet_def tx_step_def io_step_def)
  obtain t c3 where c3: "mc_countdown_ms P fresh_timer (request_timeout_ms ?c2) ?c2 = (t, c3)" by force
  note prompt = countdown_prompt [OF assms(1) c3]
  obtain c4 where c4: "iotx_mc_send_packet P (Some (?out @ drop (length ?out) b)) (int (length ?out)) t c3
      = Some (SUCCESS_RETURN, c4)" "tx_step c3 c4" "observed c4 = observed c3 @ [Sent ?out]"
    using send_packet_taken [OF assms(1) prompt(1) room(2,3)] same assms(6,7) by auto
  have "MQTTConnect P c = Some (SUCCESS_RETURN, snd (reset_send_buffer c4))"
    using c1(1) ser c2(1) c3 c4(1) room(2) prompt(4) same assms(6,7)
    by (simp add: MQTTConnect_def get_connect_length_def)
  moreover have "tx_step c (snd (reset_send_buffer c4))"
    using c1(2) c2(2) prompt(2) c4(2) same assms(6,7)
    by (simp add: tx_step_def io_step_def reset_send_buffer_def)
  ultimately show ?thesis
    using c1(3) prompt(3) c4(3) same assms(6,7) by simp
qed

text \<open>A CONNACK at the head of the stream decides.\<close>

definition connack_code_rc :: "u8 \<Rightarrow> int" where
  "connack_code_rc code =
     (if code = 0 then SUCCESS_RETURN
      else if code = 1 then MQTT_CONANCK_UNACCEPTABLE_PROTOCOL_VERSION_ERROR
      else if code = 2 then MQTT_CONNACK_IDENTIFIER_REJECTED_ERROR
      else if code = 3 then MQTT_CONNACK_SERVER_UNAVAILABLE_ERROR
      else if code = 4 then MQTT_CONNACK_BAD_USERDATA_ERROR
      else if code = 5 then MQTT_CONNACK_NOT_AUTHORIZED_ERROR
      else MQTT_CONNACK_UNKNOWN_ERROR)"

lemma recv_CONNACK_code:
  assumes "buf_read c = Some (0x20 # 2 # flags # code # tail)"
  shows "iotx_mc_handle_recv_CONNACK c = Some (connack_code_rc code)"
proof -
  have "MQTTPacket_decodeBuf (0x20 # 2 # flags # code # tail) 1 = Some (1, 2)"
    using decodeBuf_at [of 1 "0x20 # 2 # flags # code # tail" 2 "flags # code # tail"]
    by (simp add: encode_last)
  then have "MQTTDeserialize_connack 0 255 (0x20 # 2 # flags # code # tail) n
      = Some (1, connack_sessionpresent flags, code)" for n
    by (simp add: MQTTDeserialize_connack_def readChar_def rd_def MQTT_HEADER_GET_TYPE_def)
  then show ?thesis
    using assms by (simp add: iotx_mc_handle_recv_CONNACK_def connack_code_rc_def)
qed

lemma wait_CONNACK_served:
  assumes "serves P stream" and "memory_ok P" and "recv_buffer_ok c"
    and "drop (rx_count c) stream = [0x20, 2, flags, code] @ rest" and "4 \<le> unat (buf_size_read_max c)"
  shows "\<exists>c'. iotx_mc_wait_CONNACK P c = Some (connack_code_rc code, c') \<and> received 4 c c'"
proof -
  have w: "wire_packet 0x20 [flags, code] = [0x20, 2, flags, code]"
    by (simp add: wire_packet_def encode_last)
  obtain t c1 where c1: "mc_countdown_ms P fresh_timer (request_timeout_ms c) c = (t, c1)" by force
  have c1': "received 0 c c1" "recv_buffer_ok c1" "buf_size_read_max c1 = buf_size_read_max c" "rx_count c1 = rx_count c"
    using c1 io_steps(6) [OF c1] assms(3)
    by (auto simp: mc_countdown_ms_def HAL_UptimeMs_def hal_call_def received_def io_step_def
        recv_buffer_ok_def split: option.splits)
  have len: "length (wire_packet 0x20 [flags, code]) = 4" unfolding w by simp
  have head: "drop (rx_count c1) stream = wire_packet 0x20 [flags, code] @ rest"
    unfolding w c1'(4) by (rule assms(4))
  have "length [flags, code] < 268435456" by simp
  from read_packet_served [OF assms(1,2) c1'(2) head this, of t "Some 0"] assms(5)
  obtain c2 tail where c2: "iotx_mc_read_packet P t (Some 0) c1
      = Some (SUCCESS_RETURN, Some (MQTT_HEADER_GET_TYPE 0x20), c2)"
    "buf_read c2 = Some (wire_packet 0x20 [flags, code] @ tail)" "received 4 c1 c2"
    unfolding len c1'(3) by blast
  have ty: "MQTT_HEADER_GET_TYPE 0x20 = CONNACK" by (simp add: MQTT_HEADER_GET_TYPE_def)
  have "iotx_mc_wait_CONNACK P c = Some (connack_code_rc code, snd (reset_recv_buffer c2))"
    using c1 c2(1,2) ty w recv_CONNACK_code [of c2 flags code tail]
    by (simp add: iotx_mc_wait_CONNACK_def wait_connack_loop.simps)
  moreover have "received 4 c (snd (reset_recv_buffer c2))"
    using received_same [OF c1'(1) c2(3)] by (simp add: received_def io_step_def reset_recv_buffer_def)
  ultimately show ?thesis by blast
qed

text \<open>The client can send its CONNECT and receive the answer.\<close>

definition connectable :: "iotx_mc_client_t \<Rightarrow> bool" where
  "connectable c \<longleftrightarrow>
     list_all string_ok (connect_strings (connect_data c))
     \<and> (MQTTVersion (connect_data c) = 3 \<or> MQTTVersion (connect_data c) = 4)
     \<and> MQTTPacket_len (MQTTSerialize_connectLength (connect_data c)) \<le> uint (buf_size_send_max c)
     \<and> uint (buf_size_send_max c) \<le> 268435456
     \<and> 500 \<le> unat (request_timeout_ms c) \<and> unat (request_timeout_ms c) \<le> 5000
     \<and> recv_buffer_ok c \<and> 4 \<le> unat (buf_size_read_max c)"

lemma connectable_frame:
  "tx_step c c' \<Longrightarrow> connectable c' = connectable c"
  by (simp add: connectable_def tx_step_def io_step_def recv_buffer_ok_def cong: option.case_cong)

lemma tx_step_connect_ok:
  assumes "works P"
  shows "ipstack_connect P c = (SUCCESS_RETURN, observe (NetConnect 0) (hal_call c))"
    and "tx_step c (observe (NetConnect 0) (hal_call c))"
  using assms by (simp_all add: ipstack_connect_def works_def Let_def tx_step_def io_step_def
      observe_def hal_call_def)

lemma handshake_done:
  assumes "works P" and "serves P stream" and "connectable c"
    and "drop (rx_count c) stream = [0x20, 2, flags, code] @ rest" and "code \<le> 5"
  shows "\<exists>c'. wrapper_mqtt_connect P c
             = Some (if code = 0 then SUCCESS_RETURN else MQTT_CONNECT_ERROR, c')
         \<and> client_state c' = (if code = 0 then IOTX_MC_STATE_CONNECTED else client_state c)
         \<and> observed c' = observed c @ [NetConnect 0, Sent (connect_packet (connect_data c))]
                          @ (if code = 0 then [] else [NetDisconnect])
         \<and> drop (rx_count c') stream = rest"
proof -
  let ?c1 = "observe (NetConnect 0) (hal_call c)"
  note c1 = tx_step_connect_ok [OF assms(1), of c]
  have net: "net_connect_loop 3 P c = ?c1"
    using c1(1) by (simp add: numeral_3_eq_3)
  have con1: "connectable ?c1" using connectable_frame [OF c1(2)] assms(3) by simp
  then obtain c2 where c2: "MQTTConnect P ?c1 = Some (SUCCESS_RETURN, c2)" "tx_step ?c1 c2"
    "observed c2 = observed ?c1 @ [Sent (connect_packet (connect_data ?c1))]"
    using MQTTConnect_sent [OF assms(1), of ?c1] unfolding connectable_def by blast
  note tx = tx_step_trans [OF c1(2) c2(2)]
  have con2: "recv_buffer_ok c2" "4 \<le> unat (buf_size_read_max c2)"
    using connectable_frame [OF tx] assms(3) by (simp_all add: connectable_def)
  have head: "drop (rx_count c2) stream = [0x20, 2, flags, code] @ rest"
    using tx assms(4) by (simp add: tx_step_def)
  obtain c3 where c3: "iotx_mc_wait_CONNACK P c2 = Some (connack_code_rc code, c3)" "received 4 c2 c3"
    using wait_CONNACK_served [OF assms(2) works_memory [OF assms(1)] con2(1) head con2(2)] by blast
  have data: "connect_data ?c1 = connect_data c" "observed ?c1 = observed c @ [NetConnect 0]"
    by (simp_all add: observe_def hal_call_def)
  have obs: "observed c3 = observed c @ [NetConnect 0, Sent (connect_packet (connect_data c))]"
    and state: "client_state c3 = client_state c"
    using c2(3) c3(2) tx data by (simp_all add: received_def tx_step_def io_step_def)
  have rest: "drop (rx_count c3) stream = rest"
    using drop_received [OF head, of c3] c3(2) by (simp add: eval_nat_numeral)
  show ?thesis
  proof (cases "code = 0")
    case True
    obtain t c4 where c4: "mc_countdown_ms P (next_ping_time c3) (keepalive_ms c3)
        (iotx_mc_set_client_state IOTX_MC_STATE_CONNECTED c3) = (t, c4)" by force
    then have "client_state c4 = IOTX_MC_STATE_CONNECTED" "observed c4 = observed c3" "rx_count c4 = rx_count c3"
      by (auto simp: mc_countdown_ms_def HAL_UptimeMs_def hal_call_def iotx_mc_set_client_state_def
          split: option.splits)
    moreover have "wrapper_mqtt_connect P c = Some (SUCCESS_RETURN, c4\<lparr>next_ping_time := t\<rparr>)"
      using net c2(1) c3(1) c4 True
      by (simp add: wrapper_mqtt_connect_def mqtt_connect_def mqtt_connect_loop.simps connack_code_rc_def
          keepalive_ms_def iotx_mc_set_client_state_def)
    ultimately show ?thesis using True obs rest by simp
  next
    case False
    have "code = 1 \<or> code = 2 \<or> code = 3 \<or> code = 4 \<or> code = 5"
      using assms(5) False by uint_arith
    then have "connack_code_rc code \<le> MQTT_CONNACK_NOT_AUTHORIZED_ERROR"
      "connack_code_rc code \<ge> MQTT_CONANCK_UNACCEPTABLE_PROTOCOL_VERSION_ERROR"
      by (auto simp: connack_code_rc_def)
    then have "wrapper_mqtt_connect P c = Some (MQTT_CONNECT_ERROR, ipstack_disconnect c3)"
      using net c2(1) c3(1)
      by (simp add: wrapper_mqtt_connect_def mqtt_connect_def mqtt_connect_loop.simps)
    with False obs rest state show ?thesis
      by (simp add: ipstack_disconnect_def observe_def hal_call_def)
  qed
qed

text \<open>
  Property C18: the handshake. Over a working network, if the broker's answer to the CONNECT
  is a CONNACK with return code 0, \<open>wrapper_mqtt_connect\<close> returns success and the client is
  connected; if it refuses with one of the codes 1 to 5, the call returns
  \<open>MQTT_CONNECT_ERROR\<close> at once, closes the transport and leaves the client's state. In both
  cases exactly one connection was made, exactly one CONNECT packet was sent and exactly the
  CONNACK was taken off the stream.
\<close>

theorem connect_handshake:
  assumes "works P" and "serves P stream" and "connectable c"
    and "drop (rx_count c) stream = [0x20, 2, flags, code] @ rest" and "code \<le> 5"
  shows "\<exists>c'. wrapper_mqtt_connect P c
             = Some (if code = 0 then SUCCESS_RETURN else MQTT_CONNECT_ERROR, c')
         \<and> client_state c' = (if code = 0 then IOTX_MC_STATE_CONNECTED else client_state c)
         \<and> observed c' = observed c @ [NetConnect 0, Sent (connect_packet (connect_data c))]
                          @ (if code = 0 then [] else [NetDisconnect])
         \<and> drop (rx_count c') stream = rest"
  using assms by (rule handshake_done)

definition test_connecting :: iotx_mc_client_t where
  "test_connecting = test_client\<lparr>client_state := IOTX_MC_STATE_INITIALIZED, connect_data := sample_connect\<rparr>"

definition good_platform :: "bytes \<Rightarrow> platform" where
  "good_platform rx = (test_platform 0 rx)\<lparr>net_write := \<lambda>n d t. int (length d)\<rparr>"

lemma good_network_bounded: "writes_bounded (good_platform rx)"
  by (simp add: writes_bounded_def good_platform_def)

lemma works_good: "works (good_platform rx)"
  by (simp add: works_def good_platform_def test_platform_def memory_ok_def)

lemma good_platform_serves: "serves (good_platform rx) rx"
  by (simp add: serves_def good_platform_def test_platform_def)

lemma connectable_test: "connectable test_connecting"
proof -
  have "list_all string_ok (connect_strings sample_connect)"
    by (simp add: connect_strings_def sample_connect_def)
      (simp add: c_string_def has_string_def MQTTString_initializer_def)
  moreover have "MQTTPacket_len (MQTTSerialize_connectLength sample_connect) = 19" by code_simp
  ultimately show ?thesis
    by (simp add: connectable_def test_connecting_def test_client_def blank_client_def recv_buffer_ok_def
        sample_connect_def)
qed

theorem connect_handshake_witness:
  "\<exists>c'. wrapper_mqtt_connect (good_platform [0x20, 2, 0, 5]) test_connecting = Some (MQTT_CONNECT_ERROR, c')
     \<and> client_state c' = IOTX_MC_STATE_INITIALIZED"
  using connect_handshake [OF works_good good_platform_serves connectable_test,
      of "[0x20, 2, 0, 5]" 0 5 "[]"]
  by (auto simp: test_connecting_def test_client_def blank_client_def)


section \<open>Reconnecting\<close>

lemma connect_codes:
  "MQTTConnect P c = Some (rc, c')
     \<Longrightarrow> rc \<in> {SUCCESS_RETURN, FAIL_RETURN, MQTT_CONNECT_PACKET_ERROR, MQTT_NETWORK_ERROR}"
  unfolding MQTTConnect_def by (elim run_elims) (auto split: if_splits)

lemma connect_loop_codes:
  "mqtt_connect_loop P n c = Some (rc, c')
     \<Longrightarrow> rc \<in> {SUCCESS_RETURN, FAIL_RETURN, MQTT_CONNECT_PACKET_ERROR, MQTT_NETWORK_ERROR, MQTT_CONNECT_ERROR}"
proof (induction P n c arbitrary: rc c' rule: mqtt_connect_loop.induct)
  case (1 P n c)
  from "1.prems"(1) [unfolded mqtt_connect_loop.simps [of P n c]] show ?case
  proof (elim run_elims, goal_cases)
    case (1 r c1)
    with connect_codes [OF 1(1)] show ?case by auto
  next
    case (3 r c1 r2 c2 r3 c3)
    show ?case
      by (rule "1.IH" [OF 3(1) refl 3(2) 3(3) refl 3(4,5) refl refl refl 3(6) [symmetric] refl 3(7,8)])
  qed auto
qed

lemma connect_not_blocked: "wrapper_mqtt_connect P c = Some (rc, c') \<Longrightarrow> rc \<noteq> MQTT_CONNECT_BLOCK"
  by (auto simp: wrapper_mqtt_connect_def mqtt_connect_def dest!: connect_loop_codes)

lemma attempt_reconnect_linked:
  assumes "iotx_mc_attempt_reconnect P c = Some (rc, c')" and "in_yield_cb c = 0"
  shows "linked c rc c'" and "rc \<noteq> MQTT_CONNECT_BLOCK"
proof -
  have "io_step c (ipstack_disconnect c)" by (rule io_step_calls)
  moreover from this have "in_yield_cb (ipstack_disconnect c) = 0" using assms(2) by (simp add: io_step_def)
  ultimately show "linked c rc c'" "rc \<noteq> MQTT_CONNECT_BLOCK"
    using assms(1) connect_linked connect_not_blocked
    by (auto simp: iotx_mc_attempt_reconnect_def intro: linked_io)
qed

abbreviation reconnect_interval :: "iotx_mc_client_t \<Rightarrow> u32" where
  "reconnect_interval c \<equiv> reconnect_time_interval_ms (reconnect_param c)"

abbreviation reconnect_deadline :: "iotx_mc_client_t \<Rightarrow> iotx_time_t" where
  "reconnect_deadline c \<equiv> reconnect_next_time (reconnect_param c)"

text \<open>The deadline was set to \<open>ms\<close> milliseconds after the last call of the clock.\<close>

definition deadline_in :: "platform \<Rightarrow> u32 \<Rightarrow> iotx_mc_client_t \<Rightarrow> bool" where
  "deadline_in P ms c \<longleftrightarrow>
     (\<exists>k t. hal_calls c = Suc k \<and> Some (reconnect_deadline c) = utils_time_countdown_ms (clock P k) (Some t) ms)"

lemma set_reconnect_timer_deadline:
  "deadline_in P ms (set_reconnect_timer P ms c)"
  "reconnect_interval (set_reconnect_timer P ms c) = reconnect_interval c"
  "client_state (set_reconnect_timer P ms c) = client_state c"
  "observed (set_reconnect_timer P ms c) = observed c"
  by (auto simp: set_reconnect_timer_def deadline_in_def mc_countdown_ms_def HAL_UptimeMs_def hal_call_def
      utils_time_countdown_ms_def)

text \<open>The intervals that occur: doubled from one second on, 64 s once, then 60 s.\<close>

definition backoff_intervals :: "u32 list" where
  "backoff_intervals = [1000, 2000, 4000, 8000, 16000, 32000, 64000, 60000]"

lemma next_interval_backoff:
  "iv \<in> set backoff_intervals \<Longrightarrow> next_interval iv \<in> set backoff_intervals"
  by (auto simp: backoff_intervals_def next_interval_def)

lemma handle_reconnect_waits:
  assumes "utils_time_is_expired (clock P (hal_calls c)) (Some (reconnect_deadline c)) = 0"
  shows "\<exists>c'. iotx_mc_handle_reconnect P c = Some (FAIL_RETURN, c')
           \<and> observed c' = observed c @ [Slept 100] \<and> env_step c c'"
  using assms
  by (simp add: iotx_mc_handle_reconnect_def mc_time_is_expired_def HAL_UptimeMs_def HAL_SleepMs_def env_defs)

lemma handle_reconnect_attempts:
  assumes "iotx_mc_handle_reconnect P c = Some (rc, c')" and "in_yield_cb c = 0"
    and "utils_time_is_expired (clock P (hal_calls c)) (Some (reconnect_deadline c)) \<noteq> 0"
  shows "if rc = SUCCESS_RETURN then linked c rc c'
         else reconnect_interval c' = next_interval (reconnect_interval c)
              \<and> deadline_in P (min IOTX_MC_RECONNECT_INTERVAL_MAX_MS (reconnect_interval c')) c'
              \<and> io_step (c\<lparr>reconnect_param := reconnect_param c'\<rparr>) c'"
proof -
  obtain ex c1 where c1: "mc_time_is_expired P (reconnect_deadline c) c = (ex, c1)" by force
  have ex: ex using timer_calls(1) [OF c1] assms(3) by simp
  note step = env_io_step [OF env_step_timers(4) [OF c1]]
  then have y: "in_yield_cb c1 = 0" using assms(2) by (simp add: io_step_def)
  from assms(1) c1 ex obtain c2 where c2: "iotx_mc_attempt_reconnect P c1 = Some (rc, c2)"
    by (auto simp: iotx_mc_handle_reconnect_def Let_def bind_eq_Some_conv split: if_split_asm)
  note att = attempt_reconnect_linked [OF c2 y]
  have linked: "linked c rc c2" using step att(1) by (rule linked_io)
  show ?thesis
  proof (cases "rc = SUCCESS_RETURN")
    case True
    with assms(1) c1 ex c2 have "c' = iotx_mc_set_client_state IOTX_MC_STATE_CONNECTED c2"
      by (simp add: iotx_mc_handle_reconnect_def)
    with True linked show ?thesis
      by (simp add: linked_def iotx_mc_set_client_state_def io_step_def)
  next
    case False
    let ?iv = "next_interval (reconnect_interval c2)"
    let ?c3 = "set_reconnect_interval ?iv c2"
    have capped: "(if IOTX_MC_RECONNECT_INTERVAL_MAX_MS < ?iv then IOTX_MC_RECONNECT_INTERVAL_MAX_MS else ?iv)
        = min IOTX_MC_RECONNECT_INTERVAL_MAX_MS ?iv"
      by (cases "IOTX_MC_RECONNECT_INTERVAL_MAX_MS < ?iv")
        (simp_all add: min_absorb1 min_absorb2 less_imp_le leI)
    have "iotx_mc_handle_reconnect P c = Some (rc, set_reconnect_timer P
        (if IOTX_MC_RECONNECT_INTERVAL_MAX_MS < ?iv then IOTX_MC_RECONNECT_INTERVAL_MAX_MS else ?iv) ?c3)"
      using c1 ex c2 att(2) False
      by (simp add: iotx_mc_handle_reconnect_def Let_def) (simp add: set_reconnect_interval_def)
    then have c': "c' = set_reconnect_timer P (min IOTX_MC_RECONNECT_INTERVAL_MAX_MS ?iv) ?c3"
      using assms(1) unfolding capped by simp
    have "reconnect_interval c2 = reconnect_interval c"
      using False linked by (simp add: linked_def io_step_def)
    then have "reconnect_interval c' = next_interval (reconnect_interval c)"
      using c' set_reconnect_timer_deadline(2) by (simp add: set_reconnect_interval_def)
    moreover have "deadline_in P (min IOTX_MC_RECONNECT_INTERVAL_MAX_MS (reconnect_interval c')) c'"
      unfolding c' set_reconnect_timer_deadline(2)
      using set_reconnect_timer_deadline(1) by (simp add: set_reconnect_interval_def)
    moreover have "io_step (c\<lparr>reconnect_param := reconnect_param c'\<rparr>) c'"
      using False linked unfolding c'
      by (auto simp: linked_def io_step_def set_reconnect_interval_def set_reconnect_timer_def mc_countdown_ms_def
          HAL_UptimeMs_def hal_call_def split: option.splits prod.splits)
    ultimately show ?thesis using False by simp
  qed
qed

lemma handle_reconnect_accepted:
  assumes "iotx_mc_handle_reconnect P c = Some (SUCCESS_RETURN, c')" and "in_yield_cb c = 0"
  shows "connection_accepted P c c'"
proof -
  obtain ex c1 where c1: "mc_time_is_expired P (reconnect_deadline c) c = (ex, c1)" by force
  from assms(1) c1 have ex: ex
    by (auto simp: iotx_mc_handle_reconnect_def split: if_splits)
  with assms(1) c1 obtain c2 where c2: "wrapper_mqtt_connect P (ipstack_disconnect c1) = Some (SUCCESS_RETURN, c2)"
    and c': "c' = iotx_mc_set_client_state IOTX_MC_STATE_CONNECTED c2"
    by (auto simp: iotx_mc_handle_reconnect_def iotx_mc_attempt_reconnect_def Let_def bind_eq_Some_conv
        split: if_split_asm)
  have step: "io_step c (ipstack_disconnect c1)"
    by (rule io_step_trans [OF env_io_step [OF env_step_timers(4) [OF c1]] io_step_calls(4)])
  then have y: "in_yield_cb (ipstack_disconnect c1) = 0" using assms(2) by (simp add: io_step_def)
  have "client_state c2 = IOTX_MC_STATE_CONNECTED" using connect_linked [OF c2 y] by (simp add: linked_def)
  then have "c' = c2" unfolding c' iotx_mc_set_client_state_def by simp
  with connection_accepted_io [OF step connect_accepted [OF c2 y]] show ?thesis by simp
qed

text \<open>
  Property C17: the reconnection backs off. Before its deadline \<open>iotx_mc_handle_reconnect\<close>
  only sleeps 100 ms and makes no attempt. An attempt that fails leaves the client
  reconnecting, doubles the interval if it is below 60 s (up to 64 s, after which it is 60 s
  for good) and sets the next deadline that long after the failure, but never more than
  60 s; an attempt succeeds only with an accepting CONNACK and makes the client connected.
  The interval stays one of eight values.
\<close>

theorem reconnect_backoff:
  assumes "iotx_mc_handle_reconnect P c = Some (rc, c')" and "in_yield_cb c = 0"
    and "reconnect_interval c \<in> set backoff_intervals"
  shows "reconnect_interval c' \<in> set backoff_intervals
       \<and> (if utils_time_is_expired (clock P (hal_calls c)) (Some (reconnect_deadline c)) = 0
          then rc = FAIL_RETURN \<and> observed c' = observed c @ [Slept 100] \<and> env_step c c'
          else if rc = SUCCESS_RETURN
          then client_state c' = IOTX_MC_STATE_CONNECTED \<and> reconnect_param c' = reconnect_param c
               \<and> connection_accepted P c c'
          else client_state c' = client_state c
               \<and> reconnect_interval c' = (if reconnect_interval c < 60000 then 2 * reconnect_interval c else 60000)
               \<and> deadline_in P (min 60000 (reconnect_interval c')) c')"
proof (cases "utils_time_is_expired (clock P (hal_calls c)) (Some (reconnect_deadline c)) = 0")
  case True
  then show ?thesis
    using handle_reconnect_waits [of P c] assms(1,3) by (auto simp: env_step_def io_step_def)
next
  case False
  note attempt = handle_reconnect_attempts [OF assms(1,2) False]
  show ?thesis
  proof (cases "rc = SUCCESS_RETURN")
    case True
    with assms have "connection_accepted P c c'" by (auto intro: handle_reconnect_accepted)
    moreover have "client_state c' = IOTX_MC_STATE_CONNECTED \<and> reconnect_param c' = reconnect_param c"
      using attempt True by (simp add: linked_def io_step_def)
    ultimately show ?thesis using True False assms(3) by simp
  next
    case failed: False
    note attempt = attempt [unfolded if_not_P [OF failed]]
    have "next_interval (reconnect_interval c)
        = (if reconnect_interval c < 60000 then 2 * reconnect_interval c else 60000)"
      by (simp add: next_interval_def mult.commute)
    moreover from attempt have "client_state c' = client_state c" by (simp add: io_step_def)
    moreover have "reconnect_interval c' \<in> set backoff_intervals"
      using attempt next_interval_backoff [OF assms(3)] by simp
    ultimately show ?thesis using failed False attempt by (auto split: if_split_asm)
  qed
qed


theorem reconnect_backoff_witness:
  "\<exists>rc c'. iotx_mc_handle_reconnect (good_platform [0x20, 2, 0, 5])
        (set_reconnect_interval 64000 test_connecting) = Some (rc, c')
     \<and> rc \<noteq> SUCCESS_RETURN \<and> reconnect_interval c' = 60000"
proof -
  let ?c = "set_reconnect_interval 64000 test_connecting"
  let ?P = "good_platform [0x20, 2, 0, 5]"
  have "map_option fst (iotx_mc_handle_reconnect ?P ?c) = Some MQTT_CONNECT_ERROR" by code_simp
  then obtain c' where run: "iotx_mc_handle_reconnect ?P ?c = Some (MQTT_CONNECT_ERROR, c')" by auto
  have "in_yield_cb ?c = 0" "reconnect_interval ?c = 64000" "hal_calls ?c = 0"
    "reconnect_deadline ?c = fresh_timer"
    by (simp_all add: set_reconnect_interval_def test_connecting_def test_client_def blank_client_def)
  moreover have "utils_time_is_expired (clock ?P 0) (Some fresh_timer) \<noteq> 0" by code_simp
  ultimately show ?thesis using reconnect_backoff [OF run] run by (auto simp: backoff_intervals_def)
qed

section \<open>The keep-alive as a state machine\<close>

definition callback_seen :: "iotx_mqtt_event_handle_t \<Rightarrow> iotx_mqtt_event_type_t \<Rightarrow> observation list" where
  "callback_seen h ty = (case h_fp h of None \<Rightarrow> [] | Some fp \<Rightarrow> [Callback fp (pcontext h) ty NoDetail])"

lemma direct_callback_result:
  "env_step c (direct_callback ty c)"
  "observed (direct_callback ty c) = observed c @ callback_seen (handle_event c) ty"
  by (simp_all add: direct_callback_def callback_seen_def env_defs split: option.split)

text \<open>The ping: what may change is the ping's own state and, if it was not sent, the client's.\<close>

definition pinged :: "iotx_mc_client_t \<Rightarrow> iotx_mc_client_t \<Rightarrow> bool" where
  "pinged c c' \<longleftrightarrow>
     io_step (c\<lparr>next_ping_time := next_ping_time c', ping_mark := ping_mark c',
                keepalive_probes := keepalive_probes c', client_state := client_state c'\<rparr>) c'
     \<and> (if client_state c = IOTX_MC_STATE_CONNECTED
        then client_state c' = IOTX_MC_STATE_CONNECTED
               \<and> keepalive_probes c' \<in> {keepalive_probes c, keepalive_probes c + 1}
             \<or> client_state c' = IOTX_MC_STATE_DISCONNECTED \<and> keepalive_probes c' = keepalive_probes c
        else c' = c)"

lemma keepalive_sub_pinged:
  assumes "iotx_mc_keepalive_sub P c = Some (rc, c')"
  shows "pinged c c'"
proof (cases "client_state c = IOTX_MC_STATE_CONNECTED")
  case False
  with assms show ?thesis
    by (simp add: iotx_mc_keepalive_sub_def wrapper_mqtt_check_state_def iotx_mc_get_client_state_def
        pinged_def io_step_def)
next
  case True
  from assms show ?thesis
    unfolding iotx_mc_keepalive_sub_def
    by (elim run_elims)
      (auto simp: pinged_def io_step_def True wrapper_mqtt_check_state_def iotx_mc_get_client_state_def
        iotx_mc_set_client_state_def dest!: io_steps io_step_MQTTKeepalive split: if_splits)
qed

text \<open>What one ping puts on the wire.\<close>

lemma ping_sent:
  assumes "MQTTKeepalive P c = Some (rc, c')" and "writes_bounded P"
  shows "\<exists>sent. observed c' = observed c @ map Sent sent
     \<and> (if rc = SUCCESS_RETURN then concat sent = [0xC0, 0]
        else if rc = MQTT_NETWORK_ERROR then concat sent \<in> {[], [0xC0]} else sent = [])"
proof -
  obtain t c1 where c1: "mc_countdown_ms P fresh_timer 1000 c = (t, c1)" by force
  obtain rc2 c2 where c2: "alloc_send_buffer P 0 c1 = Some (rc2, c2)"
    using assms(1) c1 by (auto simp: MQTTKeepalive_def bind_eq_Some_conv)
  have obs: "observed c2 = observed c"
    using c1 c2 by (auto simp: mc_countdown_ms_def HAL_UptimeMs_def hal_call_def alloc_send_buffer_def
        HAL_Malloc_def Let_def bind_eq_Some_conv split: option.splits if_splits)
  have ser: "MQTTSerialize_pingreq n = (if n < 2 then Some (Inl MQTTPACKET_BUFFER_TOO_SHORT) else Some (Inr [0xC0, 0]))" for n
    by (simp add: MQTTSerialize_pingreq_def MQTTSerialize_zero_def) code_simp
  show ?thesis
  proof (cases "rc2 < 0 \<or> sint (buf_size_send c2) < 2")
    case True
    with assms(1) c1 c2 obs have "rc \<noteq> SUCCESS_RETURN \<and> rc \<noteq> MQTT_NETWORK_ERROR \<and> observed c' = observed c"
      by (auto simp: MQTTKeepalive_def ser store_packet_def split: if_splits)
    then show ?thesis by (intro exI [of _ "[]"]) simp
  next
    case False
    with assms(1) c1 c2 obtain b c4 r where b: "buf_send c2 = Some b" "Suc (Suc 0) \<le> length b"
      and run: "iotx_mc_send_packet P (Some (0xC0 # 0 # drop (Suc (Suc 0)) b)) 2 t (c2\<lparr>buf_send := Some (0xC0 # 0 # drop (Suc (Suc 0)) b)\<rparr>) = Some (r, c4)"
      and rc: "rc = (if r \<noteq> SUCCESS_RETURN then MQTT_NETWORK_ERROR else SUCCESS_RETURN)"
      and c': "c' = snd (reset_send_buffer c4)"
      by (auto simp: MQTTKeepalive_def ser store_packet_def bind_eq_Some_conv split: if_splits)
    have "send_loop P (0xC0 # 0 # drop (Suc (Suc 0)) b) 2 t 0 (c2\<lparr>buf_send := Some (0xC0 # 0 # drop (Suc (Suc 0)) b)\<rparr>) \<noteq> None"
      using run by (auto simp: iotx_mc_send_packet_def bind_eq_Some_conv)
    then obtain n c5 where loop: "send_loop P (0xC0 # 0 # drop (Suc (Suc 0)) b) 2 t 0 (c2\<lparr>buf_send := Some (0xC0 # 0 # drop (Suc (Suc 0)) b)\<rparr>) = Some (n, c5)"
      by auto
    with run have r: "r = (if n = 2 then SUCCESS_RETURN else MQTT_NETWORK_ERROR)" "c4 = c5"
      by (simp_all add: iotx_mc_send_packet_def)
    from send_loop_delivers [OF loop assms(2)] obtain sent where n: "0 \<le> n" "n \<le> 2"
      and sent: "observed c5 = observed c2 @ map Sent sent" "concat sent = take (nat n) (0xC0 # 0 # drop (Suc (Suc 0)) b)"
      by auto
    from n consider "n = 0" | "n = 1" | "n = 2" by linarith
    then have "if n = 2 then concat sent = [0xC0, 0] else concat sent \<in> {[], [0xC0]}"
      using sent(2) by cases simp_all
    with rc r sent(1) c' obs show ?thesis by (intro exI [of _ sent]) (auto split: if_splits)
  qed
qed


text \<open>The time of the next ping has come.\<close>

definition ping_due :: "platform \<Rightarrow> iotx_mc_client_t \<Rightarrow> bool" where
  "ping_due P c \<longleftrightarrow> utils_time_is_expired (clock P (hal_calls c)) (Some (next_ping_time c)) \<noteq> 0"

text \<open>The connection is lost by a ping that was not sent completely.\<close>

lemma keepalive_sub_cause:
  assumes "iotx_mc_keepalive_sub P c = Some (rc, c')" and "writes_bounded P"
    and "client_state c = IOTX_MC_STATE_CONNECTED"
  shows "\<exists>sent. observed c' = observed c @ map Sent sent
     \<and> (client_state c' = IOTX_MC_STATE_CONNECTED \<and> (sent = [] \<or> ping_due P c \<and> concat sent = [0xC0, 0])
        \<or> client_state c' = IOTX_MC_STATE_DISCONNECTED \<and> ping_due P c \<and> concat sent \<in> {[], [0xC0]})"
proof -
  obtain ex c1 where c1: "mc_time_is_expired P (next_ping_time c) c = (ex, c1)" by force
  then have ex: "ex = ping_due P c" "observed c1 = observed c" "client_state c1 = client_state c"
    using timer_calls(1) [OF c1] env_step_timers(4) [OF c1]
    by (auto simp: ping_due_def mc_time_is_expired_def HAL_UptimeMs_def hal_call_def env_step_def io_step_def)
  show ?thesis
  proof (cases ex)
    case False
    with assms(1,3) c1 have "c' = c1"
      by (simp add: iotx_mc_keepalive_sub_def wrapper_mqtt_check_state_def iotx_mc_get_client_state_def)
    with ex assms(3) show ?thesis by (intro exI [of _ "[]"]) simp
  next
    case True
    obtain t c2 where c2: "mc_countdown_ms P (next_ping_time c1) (keepalive_ms c1) c1 = (t, c2)" by force
    let ?c3 = "c2\<lparr>next_ping_time := t\<rparr>"
    have same: "observed ?c3 = observed c" "client_state ?c3 = IOTX_MC_STATE_CONNECTED"
      using c2 ex assms(3) by (auto simp: mc_countdown_ms_def HAL_UptimeMs_def hal_call_def split: option.splits)
    from True assms(1,3) c1 c2 obtain c4 where c4: "MQTTKeepalive P ?c3 = Some (rc, c4)"
      and c': "c' = (if rc \<noteq> SUCCESS_RETURN then if rc = MQTT_NETWORK_ERROR
                     then iotx_mc_set_client_state IOTX_MC_STATE_DISCONNECTED c4 else c4
                     else c4\<lparr>ping_mark := 1, keepalive_probes := keepalive_probes c4 + 1\<rparr>)"
      by (auto simp: iotx_mc_keepalive_sub_def wrapper_mqtt_check_state_def iotx_mc_get_client_state_def Let_def
          bind_eq_Some_conv split: if_splits)
    have "client_state c4 = IOTX_MC_STATE_CONNECTED"
      using io_step_MQTTKeepalive [OF c4] same by (simp add: io_step_def)
    moreover obtain sent where "observed c4 = observed c @ map Sent sent"
      "if rc = SUCCESS_RETURN then concat sent = [0xC0, 0]
       else if rc = MQTT_NETWORK_ERROR then concat sent \<in> {[], [0xC0]} else sent = []"
      using ping_sent [OF c4 assms(2)] same by auto
    ultimately show ?thesis
      using True ex c' by (intro exI [of _ sent]) (auto simp: iotx_mc_set_client_state_def split: if_splits)
  qed
qed


lemma set_reconnect_frame:
  "io_step (c\<lparr>reconnect_param := reconnect_param (set_reconnect_timer P ms c)\<rparr>) (set_reconnect_timer P ms c)"
  by (simp add: set_reconnect_timer_def mc_countdown_ms_def HAL_UptimeMs_def hal_call_def io_step_def
      split: option.split prod.split)

text \<open>
  What may change in \<open>iotx_mc_keepalive\<close>: the connection's own state.
\<close>

definition link_frame :: "iotx_mc_client_t \<Rightarrow> iotx_mc_client_t \<Rightarrow> bool" where
  "link_frame c c' \<longleftrightarrow>
     io_step (c\<lparr>next_ping_time := next_ping_time c', ping_mark := ping_mark c',
                keepalive_probes := keepalive_probes c', client_state := client_state c',
                reconnect_param := reconnect_param c'\<rparr>) c'"

lemma link_frame_trans: "link_frame c c' \<Longrightarrow> link_frame c' c'' \<Longrightarrow> link_frame c c''"
  by (simp add: link_frame_def io_step_def)

lemma link_frameI:
  "io_step c c' \<Longrightarrow> link_frame c c'" "linked c rc c' \<Longrightarrow> link_frame c c'" "pinged c c' \<Longrightarrow> link_frame c c'"
  "io_step (c\<lparr>reconnect_param := reconnect_param c'\<rparr>) c' \<Longrightarrow> link_frame c c'"
  by (auto simp: link_frame_def io_step_def linked_def pinged_def split: if_splits)

lemma suspend_link_result:
  "client_state (suspend_link P c) = IOTX_MC_STATE_DISCONNECTED_RECONNECTING"
  "reconnect_interval (suspend_link P c) = 1000"
  "observed (suspend_link P c)
     = observed c @ callback_seen (handle_event c) IOTX_MQTT_EVENT_DISCONNECT @ [NetDisconnect]"
  "link_frame c (suspend_link P c)"
proof -
  let ?c1 = "iotx_mc_disconnect_callback c"
  let ?c2 = "set_reconnect_interval IOTX_MC_RECONNECT_INTERVAL_MIN_MS ?c1"
  let ?c3 = "set_reconnect_timer P (reconnect_interval ?c2) ?c2"
  have eq: "suspend_link P c = iotx_mc_set_client_state IOTX_MC_STATE_DISCONNECTED_RECONNECTING
      (ipstack_disconnect ?c3)"
    by (simp add: suspend_link_def Let_def)
  show "client_state (suspend_link P c) = IOTX_MC_STATE_DISCONNECTED_RECONNECTING"
    unfolding eq by (simp add: iotx_mc_set_client_state_def)
  show "reconnect_interval (suspend_link P c) = 1000"
    unfolding eq
    by (simp add: iotx_mc_set_client_state_def ipstack_disconnect_def observe_def hal_call_def
        set_reconnect_timer_deadline(2)) (simp add: set_reconnect_interval_def)
  show "observed (suspend_link P c)
      = observed c @ callback_seen (handle_event c) IOTX_MQTT_EVENT_DISCONNECT @ [NetDisconnect]"
    unfolding eq
    by (simp add: iotx_mc_set_client_state_def ipstack_disconnect_def observe_def hal_call_def
        set_reconnect_timer_deadline(4))
      (simp add: set_reconnect_interval_def iotx_mc_disconnect_callback_def direct_callback_result(2))
  have "link_frame c ?c2"
    using direct_callback_result(1) [of c IOTX_MQTT_EVENT_DISCONNECT]
    by (simp add: set_reconnect_interval_def iotx_mc_disconnect_callback_def link_frame_def env_step_def io_step_def)
  moreover have "link_frame ?c2 ?c3" by (rule link_frameI(4) [OF set_reconnect_frame])
  moreover have "link_frame ?c3 (suspend_link P c)"
    unfolding eq by (simp add: iotx_mc_set_client_state_def ipstack_disconnect_def observe_def hal_call_def
        link_frame_def io_step_def)
  ultimately show "link_frame c (suspend_link P c)" by (blast intro: link_frame_trans)
qed

text \<open>One round of the keep-alive on a client whose state is \<open>client_state c\<close> after the ping.\<close>

lemma keepalive_cases:
  assumes "iotx_mc_keepalive P c = Some c'" and "in_yield_cb c = 0"
  obtains (idle) c1 where "pinged c c1" "client_state c1 \<in> {IOTX_MC_STATE_INVALID, IOTX_MC_STATE_INITIALIZED, IOTX_MC_STATE_CONNECTED}" "c' = c1"
  | (lost) c1 where "pinged c c1" "client_state c1 = IOTX_MC_STATE_DISCONNECTED" "c' = suspend_link P c1"
  | (failed) rc where "client_state c \<in> {IOTX_MC_STATE_DISCONNECTED_RECONNECTING, IOTX_MC_STATE_CONNECT_BLOCK}"
      "iotx_mc_handle_reconnect P (c\<lparr>ping_mark := 0\<rparr>) = Some (rc, c')" "rc \<noteq> SUCCESS_RETURN"
  | (resumed) c2 where "client_state c \<in> {IOTX_MC_STATE_DISCONNECTED_RECONNECTING, IOTX_MC_STATE_CONNECT_BLOCK}"
      "iotx_mc_handle_reconnect P (c\<lparr>ping_mark := 0\<rparr>) = Some (SUCCESS_RETURN, c2)"
      "c' = set_reconnect_interval IOTX_MC_RECONNECT_INTERVAL_MIN_MS (iotx_mc_reconnect_callback c2)"
proof -
  obtain rc1 c1 where sub: "iotx_mc_keepalive_sub P c = Some (rc1, c1)"
    using assms(1) by (auto simp: iotx_mc_keepalive_def bind_eq_Some_conv)
  note ping = keepalive_sub_pinged [OF sub]
  have run: "(let currentState = iotx_mc_get_client_state c1 in
       if currentState = IOTX_MC_STATE_DISCONNECTED_RECONNECTING
          \<or> currentState = IOTX_MC_STATE_CONNECT_BLOCK
       then do {
         (rc, c) \<leftarrow> iotx_mc_handle_reconnect P (c1\<lparr>ping_mark := 0\<rparr>);
         Some (if rc \<noteq> SUCCESS_RETURN then c
               else if rc = MQTT_CONNECT_BLOCK then c
               else set_reconnect_interval IOTX_MC_RECONNECT_INTERVAL_MIN_MS
                      (iotx_mc_reconnect_callback c)) }
       else if currentState = IOTX_MC_STATE_DISCONNECTED then Some (suspend_link P c1) else Some c1) = Some c'"
    using assms(1) sub by (simp add: iotx_mc_keepalive_def)
  show thesis
  proof (cases "client_state c1")
    case IOTX_MC_STATE_DISCONNECTED
    with run have "c' = suspend_link P c1" by (simp add: iotx_mc_get_client_state_def)
    with ping IOTX_MC_STATE_DISCONNECTED show thesis by (rule lost)
  next
    case IOTX_MC_STATE_DISCONNECTED_RECONNECTING
    then have "c1 = c" using ping by (auto simp: pinged_def split: if_splits)
    with run IOTX_MC_STATE_DISCONNECTED_RECONNECTING failed resumed show thesis
      by (auto simp: iotx_mc_get_client_state_def bind_eq_Some_conv split: if_split_asm)
  next
    case IOTX_MC_STATE_CONNECT_BLOCK
    then have "c1 = c" using ping by (auto simp: pinged_def split: if_splits)
    with run IOTX_MC_STATE_CONNECT_BLOCK failed resumed show thesis
      by (auto simp: iotx_mc_get_client_state_def bind_eq_Some_conv split: if_split_asm)
  qed (use run ping idle in \<open>auto simp: iotx_mc_get_client_state_def\<close>)
qed

lemma handle_reconnect_frame:
  assumes "iotx_mc_handle_reconnect P c = Some (rc, c')" and "in_yield_cb c = 0"
  shows "link_frame c c'"
    and "if rc = SUCCESS_RETURN then client_state c' = IOTX_MC_STATE_CONNECTED else client_state c' = client_state c"
proof -
  have "link_frame c c' \<and> (if rc = SUCCESS_RETURN then client_state c' = IOTX_MC_STATE_CONNECTED
      else client_state c' = client_state c)"
  proof (cases "utils_time_is_expired (clock P (hal_calls c)) (Some (reconnect_deadline c)) = 0")
    case True
    with handle_reconnect_waits [OF this] assms(1) show ?thesis
      by (auto simp: link_frame_def env_step_def io_step_def)
  next
    case False
    show ?thesis
    proof (cases "rc = SUCCESS_RETURN")
      case True
      with handle_reconnect_attempts [OF assms False] have "linked c rc c'" by simp
      with True show ?thesis by (simp add: link_frameI(2)) (simp add: linked_def)
    next
      case failed: False
      with handle_reconnect_attempts [OF assms False]
      have "io_step (c\<lparr>reconnect_param := reconnect_param c'\<rparr>) c'" by simp
      with failed show ?thesis by (simp add: link_frameI(4)) (simp add: io_step_def)
    qed
  qed
  then show "link_frame c c'"
    and "if rc = SUCCESS_RETURN then client_state c' = IOTX_MC_STATE_CONNECTED else client_state c' = client_state c"
    by blast+
qed

lemma resume_link_result:
  fixes c2 :: iotx_mc_client_t
  defines "c' \<equiv> set_reconnect_interval IOTX_MC_RECONNECT_INTERVAL_MIN_MS (iotx_mc_reconnect_callback c2)"
  shows "client_state c' = client_state c2" "reconnect_interval c' = 1000" "link_frame c2 c'"
    "observed c' = observed c2 @ callback_seen (handle_event c2) IOTX_MQTT_EVENT_RECONNECT"
  using direct_callback_result(1) [of c2 IOTX_MQTT_EVENT_RECONNECT]
    direct_callback_result(2) [of IOTX_MQTT_EVENT_RECONNECT c2] unfolding c'_def
  by (simp_all add: set_reconnect_interval_def iotx_mc_reconnect_callback_def link_frame_def env_step_def
      io_step_def)

lemma keepalive_frame:
  assumes "iotx_mc_keepalive P c = Some c'" and "in_yield_cb c = 0"
  shows "link_frame c c'"
  using assms
proof (cases rule: keepalive_cases)
  case (idle c1)
  then show ?thesis by (simp add: link_frameI(3))
next
  case (lost c1)
  then show ?thesis using suspend_link_result(4) by (auto intro: link_frame_trans link_frameI(3))
next
  case (failed rc)
  with handle_reconnect_frame(1) [OF failed(2)] assms(2) show ?thesis
    by (simp add: link_frame_def io_step_def)
next
  case (resumed c2)
  with handle_reconnect_frame(1) [OF resumed(2)] resume_link_result(3) [of c2] assms(2) show ?thesis
    by (simp add: link_frame_def io_step_def)
qed

text \<open>A connected client: the ping, and its loss.\<close>

lemma keepalive_connected:
  assumes "iotx_mc_keepalive P c = Some c'" and "writes_bounded P" and "client_state c = IOTX_MC_STATE_CONNECTED"
  shows "\<exists>sent. client_state c' = IOTX_MC_STATE_CONNECTED \<and> observed c' = observed c @ map Sent sent
                 \<and> (sent = [] \<or> ping_due P c \<and> concat sent = [0xC0, 0])
             \<or> client_state c' = IOTX_MC_STATE_DISCONNECTED_RECONNECTING \<and> reconnect_interval c' = 1000
                 \<and> ping_due P c \<and> concat sent \<in> {[], [0xC0]}
                 \<and> observed c' = observed c @ map Sent sent
                      @ callback_seen (handle_event c) IOTX_MQTT_EVENT_DISCONNECT @ [NetDisconnect]"
proof -
  obtain rc c1 where c1: "iotx_mc_keepalive_sub P c = Some (rc, c1)"
    using assms(1) by (auto simp: iotx_mc_keepalive_def bind_eq_Some_conv)
  from keepalive_sub_cause [OF c1 assms(2,3)] obtain sent where
    obs: "observed c1 = observed c @ map Sent sent"
    and st: "client_state c1 = IOTX_MC_STATE_CONNECTED \<and> (sent = [] \<or> ping_due P c \<and> concat sent = [0xC0, 0])
        \<or> client_state c1 = IOTX_MC_STATE_DISCONNECTED \<and> ping_due P c \<and> concat sent \<in> {[], [0xC0]}" by blast
  have h: "handle_event c1 = handle_event c"
    using keepalive_sub_pinged [OF c1] by (simp add: pinged_def io_step_def)
  have "c' = (if client_state c1 = IOTX_MC_STATE_DISCONNECTED then suspend_link P c1 else c1)"
    using assms(1) c1 st by (auto simp: iotx_mc_keepalive_def iotx_mc_get_client_state_def)
  with obs st h suspend_link_result(1-3) [of P c1] show ?thesis by (intro exI [of _ sent]) auto
qed

lemma keepalive_reconnecting:
  assumes "iotx_mc_keepalive P c = Some c'" and "in_yield_cb c = 0"
    and "client_state c \<in> {IOTX_MC_STATE_DISCONNECTED_RECONNECTING, IOTX_MC_STATE_CONNECT_BLOCK}"
  shows "client_state c' = client_state c
           \<or> client_state c' = IOTX_MC_STATE_CONNECTED \<and> reconnect_interval c' = 1000
               \<and> (\<exists>c2. connection_accepted P (c\<lparr>ping_mark := 0\<rparr>) c2
                    \<and> observed c' = observed c2 @ callback_seen (handle_event c) IOTX_MQTT_EVENT_RECONNECT)"
  using assms(1,2)
proof (cases rule: keepalive_cases)
  case (idle c1)
  with assms(3) show ?thesis by (auto simp: pinged_def split: if_splits)
next
  case (lost c1)
  with assms(3) show ?thesis by (auto simp: pinged_def split: if_splits)
next
  case (failed rc)
  with handle_reconnect_frame(2) [OF failed(2)] assms(2) show ?thesis by auto
next
  case (resumed c2)
  have "handle_event c2 = handle_event c" "client_state c2 = IOTX_MC_STATE_CONNECTED"
    using handle_reconnect_frame [OF resumed(2)] assms(2) by (simp_all add: link_frame_def io_step_def)
  moreover have "connection_accepted P (c\<lparr>ping_mark := 0\<rparr>) c2"
    using handle_reconnect_accepted [OF resumed(2)] assms(2) by simp
  ultimately show ?thesis using resumed(3) resume_link_result(1,2,4) [of c2] by auto
qed

text \<open>The keep-alive in each of the states.\<close>

lemma keepalive_result:
  assumes "iotx_mc_keepalive P c = Some c'" and "in_yield_cb c = 0" and "writes_bounded P"
  shows "link_frame c c'
    \<and> (case client_state c of
         IOTX_MC_STATE_INVALID \<Rightarrow> c' = c
       | IOTX_MC_STATE_INITIALIZED \<Rightarrow> c' = c
       | IOTX_MC_STATE_CONNECTED \<Rightarrow>
           (\<exists>sent. client_state c' = IOTX_MC_STATE_CONNECTED \<and> observed c' = observed c @ map Sent sent
                 \<and> (sent = [] \<or> ping_due P c \<and> concat sent = [0xC0, 0])
             \<or> client_state c' = IOTX_MC_STATE_DISCONNECTED_RECONNECTING \<and> reconnect_interval c' = 1000
                 \<and> ping_due P c \<and> concat sent \<in> {[], [0xC0]}
                 \<and> observed c' = observed c @ map Sent sent
                      @ callback_seen (handle_event c) IOTX_MQTT_EVENT_DISCONNECT @ [NetDisconnect])
       | IOTX_MC_STATE_DISCONNECTED \<Rightarrow>
           client_state c' = IOTX_MC_STATE_DISCONNECTED_RECONNECTING \<and> reconnect_interval c' = 1000
           \<and> observed c' = observed c @ callback_seen (handle_event c) IOTX_MQTT_EVENT_DISCONNECT @ [NetDisconnect]
       | _ \<Rightarrow>
           client_state c' = client_state c
           \<or> client_state c' = IOTX_MC_STATE_CONNECTED \<and> reconnect_interval c' = 1000
               \<and> (\<exists>c2. connection_accepted P (c\<lparr>ping_mark := 0\<rparr>) c2
                    \<and> observed c' = observed c2 @ callback_seen (handle_event c) IOTX_MQTT_EVENT_RECONNECT))"
proof (rule conjI)
  show "link_frame c c'" using keepalive_frame [OF assms(1,2)] .
  have idle: "c' = c" if "client_state c \<in> {IOTX_MC_STATE_INVALID, IOTX_MC_STATE_INITIALIZED}"
    using assms(1,2) that by (cases rule: keepalive_cases) (auto simp: pinged_def split: if_splits)
  have suspended: "c' = suspend_link P c" if "client_state c = IOTX_MC_STATE_DISCONNECTED"
    using assms(1,2) that by (cases rule: keepalive_cases) (auto simp: pinged_def)
  show "case client_state c of
         IOTX_MC_STATE_INVALID \<Rightarrow> c' = c
       | IOTX_MC_STATE_INITIALIZED \<Rightarrow> c' = c
       | IOTX_MC_STATE_CONNECTED \<Rightarrow>
           (\<exists>sent. client_state c' = IOTX_MC_STATE_CONNECTED \<and> observed c' = observed c @ map Sent sent
                 \<and> (sent = [] \<or> ping_due P c \<and> concat sent = [0xC0, 0])
             \<or> client_state c' = IOTX_MC_STATE_DISCONNECTED_RECONNECTING \<and> reconnect_interval c' = 1000
                 \<and> ping_due P c \<and> concat sent \<in> {[], [0xC0]}
                 \<and> observed c' = observed c @ map Sent sent
                      @ callback_seen (handle_event c) IOTX_MQTT_EVENT_DISCONNECT @ [NetDisconnect])
       | IOTX_MC_STATE_DISCONNECTED \<Rightarrow>
           client_state c' = IOTX_MC_STATE_DISCONNECTED_RECONNECTING \<and> reconnect_interval c' = 1000
           \<and> observed c' = observed c @ callback_seen (handle_event c) IOTX_MQTT_EVENT_DISCONNECT @ [NetDisconnect]
       | _ \<Rightarrow>
           client_state c' = client_state c
           \<or> client_state c' = IOTX_MC_STATE_CONNECTED \<and> reconnect_interval c' = 1000
               \<and> (\<exists>c2. connection_accepted P (c\<lparr>ping_mark := 0\<rparr>) c2
                    \<and> observed c' = observed c2 @ callback_seen (handle_event c) IOTX_MQTT_EVENT_RECONNECT)"
    using idle suspended suspend_link_result(1-3) [of P c] keepalive_connected [OF assms(1,3)]
      keepalive_reconnecting [OF assms(1,2)]
    by (cases "client_state c") simp_all
qed

text \<open>
  Property C16: the keep-alive moves the client through its states, each time for its cause
  and as the application is told. A client that was never connected is left alone. A
  connected client stays connected, having sent nothing or one whole PINGREQ when its ping
  was due; it loses the connection only when a ping was due and the network did not take
  the two bytes of the PINGREQ (none of them, or only the first). A client that has lost the
  connection is suspended: the callback for DISCONNECT, the transport closed, the interval
  back to one second, and reconnecting. A reconnecting one stays so, or is connected again
  by an accepting CONNACK, followed by the callback for RECONNECT, with the interval back to
  one second. Subscriptions, waiting publishes and packet identifiers survive all of this.
\<close>

theorem keepalive_transitions:
  assumes "iotx_mc_keepalive P c = Some c'" and "in_yield_cb c = 0" and "writes_bounded P"
  shows "link_frame c c'
    \<and> (case client_state c of
         IOTX_MC_STATE_INVALID \<Rightarrow> c' = c
       | IOTX_MC_STATE_INITIALIZED \<Rightarrow> c' = c
       | IOTX_MC_STATE_CONNECTED \<Rightarrow>
           (\<exists>sent. client_state c' = IOTX_MC_STATE_CONNECTED \<and> observed c' = observed c @ map Sent sent
                 \<and> (sent = [] \<or> ping_due P c \<and> concat sent = [0xC0, 0])
             \<or> client_state c' = IOTX_MC_STATE_DISCONNECTED_RECONNECTING \<and> reconnect_interval c' = 1000
                 \<and> ping_due P c \<and> concat sent \<in> {[], [0xC0]}
                 \<and> observed c' = observed c @ map Sent sent
                      @ callback_seen (handle_event c) IOTX_MQTT_EVENT_DISCONNECT @ [NetDisconnect])
       | IOTX_MC_STATE_DISCONNECTED \<Rightarrow>
           client_state c' = IOTX_MC_STATE_DISCONNECTED_RECONNECTING \<and> reconnect_interval c' = 1000
           \<and> observed c' = observed c @ callback_seen (handle_event c) IOTX_MQTT_EVENT_DISCONNECT @ [NetDisconnect]
       | _ \<Rightarrow>
           client_state c' = client_state c
           \<or> client_state c' = IOTX_MC_STATE_CONNECTED \<and> reconnect_interval c' = 1000
               \<and> (\<exists>c2. connection_accepted P (c\<lparr>ping_mark := 0\<rparr>) c2
                    \<and> observed c' = observed c2 @ callback_seen (handle_event c) IOTX_MQTT_EVENT_RECONNECT))"
  using assms by (rule keepalive_result)

theorem keepalive_transitions_witness:
  "\<exists>c'. iotx_mc_keepalive (good_platform [])
       (test_client\<lparr>client_state := IOTX_MC_STATE_DISCONNECTED\<rparr>) = Some c'
     \<and> client_state c' = IOTX_MC_STATE_DISCONNECTED_RECONNECTING \<and> reconnect_interval c' = 1000"
proof -
  let ?c = "test_client\<lparr>client_state := IOTX_MC_STATE_DISCONNECTED\<rparr>"
  have "iotx_mc_keepalive (good_platform []) ?c \<noteq> None" by code_simp
  then obtain c' where run: "iotx_mc_keepalive (good_platform []) ?c = Some c'" by auto
  have "in_yield_cb ?c = 0" by (simp add: test_client_def blank_client_def)
  from keepalive_transitions [OF run this good_network_bounded] run show ?thesis by (auto simp: test_client_def)
qed

end
