(* ===== verification/Mqtt_Subscribe.thy ===== *)
theory Mqtt_Subscribe
  imports Mqtt_Connect
begin

text \<open>
  Subscriptions in \<open>mqtt/iotx_mqtt_client.c\<close>: the list of filters with their callbacks
  (\<open>iotx_mc_check_handle_is_identical\<close>, \<open>MQTTSubscribe\<close>, \<open>MQTTUnsubscribe\<close>) and the public
  functions on it. The lemmas show that the list never holds a pair of filter and callback
  twice, that a subscription that could not be sent leaves no trace, and what an
  unsubscription removes.
\<close>

section \<open>Comparing subscriptions\<close>

text \<open>A \<open>topic_filter\<close> of the list is never NULL; 0 means identical.\<close>

definition iotx_mc_check_handle_is_identical_ex ::
    "iotx_mc_topic_handle_t \<Rightarrow> iotx_mc_topic_handle_t \<Rightarrow> int" where
  "iotx_mc_check_handle_is_identical_ex h1 h2 =
     (let topicNameLen = c_strlen (topic_filter h1) in
      if topicNameLen \<noteq> c_strlen (topic_filter h2) then 1
      else if take topicNameLen (topic_filter h1) \<noteq> take topicNameLen (topic_filter h2) then 1
      else 0)"

definition iotx_mc_check_handle_is_identical ::
    "iotx_mc_topic_handle_t \<Rightarrow> iotx_mc_topic_handle_t \<Rightarrow> int" where
  "iotx_mc_check_handle_is_identical h1 h2 =
     (if iotx_mc_check_handle_is_identical_ex h1 h2 \<noteq> 0 then 1
      else if h_fp (th_handle h1) \<noteq> h_fp (th_handle h2) then 1
      else if pcontext (th_handle h1) \<noteq> pcontext (th_handle h2) then 1
      else 0)"

section \<open>Subscribing\<close>

text \<open>\<open>sizeof(iotx_mc_topic_handle_t)\<close> on the 32-bit target.\<close>

abbreviation "sizeof_topic_handle \<equiv> 24 :: u32"

text \<open>
  The handler of a filter: two allocations, and the filter copied with its final NUL. The
  first result tells whether both succeeded. The same lines stand in \<open>MQTTSubscribe\<close> and in
  \<open>MQTTUnsubscribe\<close> (which leaves the callback NULL).
\<close>

definition new_topic_handle ::
    "platform \<Rightarrow> bytes \<Rightarrow> iotx_mqtt_event_handle_t \<Rightarrow> iotx_mc_client_t
      \<Rightarrow> iotx_mc_topic_handle_t option \<times> iotx_mc_client_t" where
  "new_topic_handle P topicFilter handle c =
     (let (ok, c) = HAL_Malloc P sizeof_topic_handle c in
      if \<not> ok then (None, c)
      else
        let (ok, c) = HAL_Malloc P (of_nat (c_strlen topicFilter) + 1) c in
        if \<not> ok then (None, c)
        else (Some \<lparr>th_handle = handle, topic_filter = c_str topicFilter\<rparr>, c))"

text \<open>The end of \<open>MQTTSubscribe\<close>: the list gets the handler unless it has an identical one.\<close>

definition add_topic_handle :: "iotx_mc_topic_handle_t \<Rightarrow> iotx_mc_client_t \<Rightarrow> iotx_mc_client_t" where
  "add_topic_handle handler c =
     (let dup = foldl (\<lambda>dup node. if iotx_mc_check_handle_is_identical node handler = 0 then 1 else dup)
                  (0 :: u8) (list_sub_handle c)
      in if dup = 0 then c\<lparr>list_sub_handle := list_sub_handle c @ [handler]\<rparr> else c)"

definition MQTTSubscribe ::
    "platform \<Rightarrow> bytes \<Rightarrow> int \<Rightarrow> int \<Rightarrow> nat \<Rightarrow> nat \<Rightarrow> iotx_mc_client_t \<Rightarrow> (int \<times> iotx_mc_client_t) option"
where
  "MQTTSubscribe P topicFilter qos msgId messageHandler context c =
     (let topic = MQTTString_initializer\<lparr>cstring := Some topicFilter\<rparr>;
          (timer, c) = mc_countdown_ms P fresh_timer (request_timeout_ms c) c;
          (handler, c) = new_topic_handle P topicFilter
                           \<lparr>h_fp = Some messageHandler, pcontext = context\<rparr> c
      in case handler of
           None \<Rightarrow> Some (FAIL_RETURN, c)
         | Some handler \<Rightarrow>
             do {
               (rc, c) \<leftarrow> alloc_send_buffer P (int (c_strlen topicFilter)) c;
               if rc < 0 then Some (FAIL_RETURN, c)
               else do {
                 (len, c) \<leftarrow> store_packet
                    (MQTTSerialize_subscribe (sint (buf_size_send c)) 0 (word_of_int msgId) [(topic, qos)]) c;
                 if len \<le> 0 then Some (MQTT_SUBSCRIBE_PACKET_ERROR, snd (reset_send_buffer c))
                 else do {
                   (rc, c) \<leftarrow> iotx_mc_send_packet P (buf_send c) len timer c;
                   if rc \<noteq> SUCCESS_RETURN then Some (MQTT_NETWORK_ERROR, snd (reset_send_buffer c))
                   else Some (SUCCESS_RETURN, add_topic_handle handler (snd (reset_send_buffer c))) } } })"

definition wrapper_mqtt_subscribe ::
    "platform \<Rightarrow> bytes option \<Rightarrow> int \<Rightarrow> nat option \<Rightarrow> nat \<Rightarrow> iotx_mc_client_t
      \<Rightarrow> (int \<times> iotx_mc_client_t) option" where
  "wrapper_mqtt_subscribe P topicFilter qos topic_handle_func context c =
     (case (topicFilter, topic_handle_func) of
        (Some topic, Some func) \<Rightarrow>
          if c_strlen topic = 0 then Some (NULL_VALUE_ERROR, c)
          else
            let (msgId, c) = iotx_mc_get_next_packetid c in
            if wrapper_mqtt_check_state c = 0 then Some (MQTT_STATE_ERROR, c)
            else do {
              ok \<leftarrow> iotx_mc_check_topic topicFilter TOPIC_FILTER_TYPE None;
              if ok \<noteq> 0 then Some (MQTT_TOPIC_FORMAT_ERROR, c)
              else do {
                (rc, c) \<leftarrow> MQTTSubscribe P topic qos msgId func context c;
                if rc \<noteq> SUCCESS_RETURN
                then Some (rc, if rc = MQTT_NETWORK_ERROR
                               then iotx_mc_set_client_state IOTX_MC_STATE_DISCONNECTED c else c)
                else Some (msgId, c) } }
      | _ \<Rightarrow> Some (NULL_VALUE_ERROR, c))"

section \<open>Unsubscribing\<close>

text \<open>
  The topic that is searched for is the filter including its final NUL: its length is
  \<open>strlen + 1\<close>.
\<close>

definition unsubscribe_topic :: "bytes \<Rightarrow> MQTTString" where
  "unsubscribe_topic filter' =
     \<lparr>cstring = None, lenstring = \<lparr>ls_len = int (c_strlen filter') + 1,
                                   ls_data = Some (c_str filter' @ [0])\<rparr>\<rparr>"

text \<open>The loop over the list: the nodes that are equal to or match the topic are deleted.\<close>

fun remove_handles ::
    "MQTTString \<Rightarrow> iotx_mc_topic_handle_t list \<Rightarrow> iotx_mc_topic_handle_t list option" where
  "remove_handles cur_topic [] = Some []"
| "remove_handles cur_topic (node # rest) =
     do { hit \<leftarrow> topic_handled node cur_topic;
          rest \<leftarrow> remove_handles cur_topic rest;
          Some (if hit then rest else node # rest) }"

definition MQTTUnsubscribe ::
    "platform \<Rightarrow> bytes \<Rightarrow> int \<Rightarrow> iotx_mc_client_t \<Rightarrow> (int \<times> iotx_mc_client_t) option" where
  "MQTTUnsubscribe P topicFilter msgId c =
     (let topic = MQTTString_initializer\<lparr>cstring := Some topicFilter\<rparr>;
          (timer, c) = mc_countdown_ms P fresh_timer (request_timeout_ms c) c;
          (handler, c) = new_topic_handle P topicFilter \<lparr>h_fp = None, pcontext = 0\<rparr> c
      in case handler of
           None \<Rightarrow> Some (FAIL_RETURN, c)
         | Some handler \<Rightarrow>
             do {
               (rc, c) \<leftarrow> alloc_send_buffer P (int (c_strlen topicFilter)) c;
               if rc < 0 then Some (FAIL_RETURN, c)
               else do {
                 (len, c) \<leftarrow> store_packet
                    (MQTTSerialize_unsubscribe (sint (buf_size_send c)) 0 (word_of_int msgId) [topic]) c;
                 if len \<le> 0 then Some (MQTT_UNSUBSCRIBE_PACKET_ERROR, snd (reset_send_buffer c))
                 else do {
                   (rc, c) \<leftarrow> iotx_mc_send_packet P (buf_send c) len timer c;
                   if rc \<noteq> SUCCESS_RETURN then Some (MQTT_NETWORK_ERROR, snd (reset_send_buffer c))
                   else do {
                     nodes \<leftarrow> remove_handles (unsubscribe_topic (topic_filter handler)) (list_sub_handle c);
                     Some (SUCCESS_RETURN, snd (reset_send_buffer (c\<lparr>list_sub_handle := nodes\<rparr>))) } } } })"

definition wrapper_mqtt_unsubscribe ::
    "platform \<Rightarrow> bytes option \<Rightarrow> iotx_mc_client_t \<Rightarrow> (int \<times> iotx_mc_client_t) option" where
  "wrapper_mqtt_unsubscribe P topicFilter c =
     (case topicFilter of
        None \<Rightarrow> Some (NULL_VALUE_ERROR, c)
      | Some topic \<Rightarrow>
          let (msgId, c) = iotx_mc_get_next_packetid c in
          do {
            ok \<leftarrow> iotx_mc_check_topic topicFilter TOPIC_FILTER_TYPE None;
            if ok \<noteq> 0 then Some (MQTT_TOPIC_FORMAT_ERROR, c)
            else if wrapper_mqtt_check_state c = 0 then Some (MQTT_STATE_ERROR, c)
            else do {
              (rc, c) \<leftarrow> MQTTUnsubscribe P topic msgId c;
              if rc \<noteq> SUCCESS_RETURN
              then Some (rc, if rc = MQTT_NETWORK_ERROR
                             then iotx_mc_set_client_state IOTX_MC_STATE_DISCONNECTED c else c)
              else Some (msgId, c) } })"

section \<open>The list of subscriptions\<close>

definition filters_c :: "iotx_mc_topic_handle_t list \<Rightarrow> bool" where
  "filters_c nodes \<longleftrightarrow> list_all (\<lambda>n. is_c_str (topic_filter n)) nodes"

lemma filters_c_simps [simp]:
  "filters_c []" "filters_c (n # ns) \<longleftrightarrow> is_c_str (topic_filter n) \<and> filters_c ns"
  "filters_c (ms @ ns) \<longleftrightarrow> filters_c ms \<and> filters_c ns"
  by (auto simp: filters_c_def)

lemma identical_iff:
  assumes "is_c_str (topic_filter h1)" and "is_c_str (topic_filter h2)"
  shows "iotx_mc_check_handle_is_identical h1 h2 = 0 \<longleftrightarrow> h1 = h2"
proof -
  have "iotx_mc_check_handle_is_identical_ex h1 h2 = 0 \<longleftrightarrow> topic_filter h1 = topic_filter h2"
    using assms by (auto simp: iotx_mc_check_handle_is_identical_ex_def Let_def)
  moreover have "iotx_mc_check_handle_is_identical_ex h1 h2 \<in> {0, 1}"
    by (simp add: iotx_mc_check_handle_is_identical_ex_def Let_def)
  ultimately show ?thesis
    by (auto simp: iotx_mc_check_handle_is_identical_def split: if_splits)
qed

lemma dup_fold:
  "filters_c nodes \<Longrightarrow> is_c_str (topic_filter h) \<Longrightarrow>
     foldl (\<lambda>dup node. if iotx_mc_check_handle_is_identical node h = 0 then 1 else dup) d nodes
       = (if h \<in> set nodes then (1 :: u8) else d)"
  by (induction nodes arbitrary: d) (auto simp: identical_iff)

definition with_handle ::
    "iotx_mc_topic_handle_t \<Rightarrow> iotx_mc_topic_handle_t list \<Rightarrow> iotx_mc_topic_handle_t list" where
  "with_handle h nodes = (if h \<in> set nodes then nodes else nodes @ [h])"

lemma add_topic_handle_eq:
  "filters_c (list_sub_handle c) \<Longrightarrow> is_c_str (topic_filter h) \<Longrightarrow>
     add_topic_handle h c = c\<lparr>list_sub_handle := with_handle h (list_sub_handle c)\<rparr>"
  by (simp add: add_topic_handle_def dup_fold with_handle_def)

lemma io_step_new_handle: "new_topic_handle P f h c = (r, c') \<Longrightarrow> io_step c c'"
  by (auto simp: new_topic_handle_def Let_def split: prod.splits if_splits dest!: io_steps
      intro: io_step_trans)

lemma new_handle_result:
  "new_topic_handle P f h c = (Some n, c') \<Longrightarrow> n = \<lparr>th_handle = h, topic_filter = c_str f\<rparr>"
  "new_topic_handle P f h c = (r, c') \<Longrightarrow> observed c' = observed c"
  by (auto simp: new_topic_handle_def HAL_Malloc_def hal_call_def Let_def split: if_splits)

lemma io_stepD:
  "io_step c c' \<Longrightarrow> list_sub_handle c' = list_sub_handle c" "io_step c c' \<Longrightarrow> client_state c' = client_state c"
  "io_step c c' \<Longrightarrow> packet_id c' = packet_id c" "io_step c c' \<Longrightarrow> request_timeout_ms c' = request_timeout_ms c"
  by (simp_all add: io_step_def)

lemma countdown_observed: "mc_countdown_ms P t ms c = (t', c') \<Longrightarrow> observed c' = observed c"
  by (auto simp: mc_countdown_ms_def HAL_UptimeMs_def hal_call_def split: option.splits)

lemma alloc_send_observed: "alloc_send_buffer P n c = Some (rc, c') \<Longrightarrow> observed c' = observed c"
  by (auto simp: alloc_send_buffer_def HAL_Malloc_def hal_call_def Let_def
      split: Option.bind_splits if_splits)

lemma serialize_subscribe_out:
  assumes "MQTTSerialize_subscribe n 0 i [(c_string f, q)] = Some r"
  shows "(case r of Inl e \<Rightarrow> e \<le> 0 | Inr out \<Rightarrow>
           out = fixed_header SUBSCRIBE 0 1 0 # MQTTPacket_encode (int (length (filters_body i [(c_string f, q)])))
                   @ filters_body i [(c_string f, q)])"
proof (cases "MQTTPacket_len (MQTTSerialize_subscribeLength (map fst [(c_string f, q)])) \<le> n")
  case True
  with serialize_subscribe_eq [of "[(c_string f, q)]" n 0 i] assms show ?thesis by auto
next
  case False
  with assms show ?thesis by (auto simp: MQTTSerialize_subscribe_def Let_def)
qed

text \<open>The packet that subscribes one filter.\<close>

definition subscribe_packet :: "u16 \<Rightarrow> bytes \<Rightarrow> int \<Rightarrow> bytes" where
  "subscribe_packet i f q =
     fixed_header SUBSCRIBE 0 1 0 # MQTTPacket_encode (int (length (filters_body i [(c_string f, q)])))
       @ filters_body i [(c_string f, q)]"

lemma initializer_c_string: "MQTTString_initializer\<lparr>cstring := Some f\<rparr> = c_string f"
  by (simp add: c_string_def)

text \<open>
  The common middle of both functions: a buffer is allocated, a packet stored in it and sent;
  then \<open>k\<close> goes on.
\<close>

definition transmit ::
    "platform \<Rightarrow> int \<Rightarrow> (iotx_mc_client_t \<Rightarrow> serialized) \<Rightarrow> int \<Rightarrow> iotx_time_t
      \<Rightarrow> (iotx_mc_client_t \<Rightarrow> (int \<times> iotx_mc_client_t) option) \<Rightarrow> iotx_mc_client_t
      \<Rightarrow> (int \<times> iotx_mc_client_t) option" where
  "transmit P n ser err timer k c =
     do {
       (rc, c) \<leftarrow> alloc_send_buffer P n c;
       if rc < 0 then Some (FAIL_RETURN, c)
       else do {
         (len, c) \<leftarrow> store_packet (ser c) c;
         if len \<le> 0 then Some (err, snd (reset_send_buffer c))
         else do {
           (rc, c) \<leftarrow> iotx_mc_send_packet P (buf_send c) len timer c;
           if rc \<noteq> SUCCESS_RETURN then Some (MQTT_NETWORK_ERROR, snd (reset_send_buffer c))
           else k c } } }"

lemma transmit_cases:
  assumes "transmit P n ser err timer k c = Some (rc, c')" and "writes_bounded P"
    and "\<And>c e. ser c = Some (Inl e) \<Longrightarrow> e \<le> 0"
  obtains (not_sent) "io_step c c'" "rc \<in> {FAIL_RETURN, err, MQTT_NETWORK_ERROR}"
  | (sent) c1 c2 out chunks where "ser c1 = Some (Inr out)" "io_step c c2"
      "observed c2 = observed c @ map Sent chunks" "concat chunks = out" "k c2 = Some (rc, c')"
  using assms(1) unfolding transmit_def
proof (elim run_elims, goal_cases)
  case (1 r c3)
  with io_step_alloc(1) [OF 1(3)] show ?case by auto
next
  case (2 r c3 len c4)
  from io_step_trans [OF io_step_alloc(1) [OF 2(3)] io_step_trans [OF io_step_store [OF 2(5)] io_step_reset(1)]] 2
  show ?case by auto
next
  case (3 r c3 len c4 r5 c5)
  from io_step_trans [OF io_step_alloc(1) [OF 3(3)] io_step_trans [OF io_step_store [OF 3(5)]
        io_step_trans [OF env_io_step [OF env_step_send [OF 3(7)]] io_step_reset(1)]]] 3
  show ?case by auto
next
  case (4 r c3 len c4 r5 c5)
  note step = io_step_trans [OF io_step_alloc(1) [OF 4(3)] io_step_trans [OF io_step_store [OF 4(5)]
        env_io_step [OF env_step_send [OF 4(7)]]]]
  obtain b where b: "buf_send c3 = Some b"
    using alloc_send_buffer_size [OF 4(3,4)] by blast
  obtain out rest where out: "ser c3 = Some (Inr out)" "len = int (length out)" "buf_send c4 = Some (out @ rest)"
    "observed c4 = observed c3"
    using store_packet_result [OF 4(5,6) b assms(3) [of c3]] by blast
  have "r5 = SUCCESS_RETURN" using 4(8) by simp
  then obtain chunks where "observed c5 = observed c4 @ map Sent chunks" "concat chunks = out"
    using send_packet_success [OF assms(2), of out rest timer c4 c5] 4(7) out by auto
  moreover have "observed c4 = observed c" using alloc_send_observed [OF 4(3)] out(4) by simp
  ultimately show ?case using 4(2) out(1) step 4(9) by auto
qed

lemma MQTTSubscribe_outcome:
  assumes "MQTTSubscribe P f q i fp ctx c = Some (rc, c')" and "writes_bounded P"
  shows "if rc = SUCCESS_RETURN
         then \<exists>c1 chunks. io_step c c1 \<and> observed c1 = observed c @ map Sent chunks
                \<and> concat chunks = subscribe_packet (word_of_int i) f q
                \<and> c' = add_topic_handle \<lparr>th_handle = \<lparr>h_fp = Some fp, pcontext = ctx\<rparr>, topic_filter = c_str f\<rparr> c1
         else rc < 0 \<and> io_step c c'"
proof -
  obtain t c1 where c1: "mc_countdown_ms P fresh_timer (request_timeout_ms c) c = (t, c1)" by force
  obtain h c2 where c2: "new_topic_handle P f \<lparr>h_fp = Some fp, pcontext = ctx\<rparr> c1 = (h, c2)" by force
  have s2: "io_step c c2" "observed c2 = observed c"
    using io_step_trans [OF io_steps(6) [OF c1] io_step_new_handle [OF c2]] new_handle_result(2) [OF c2]
      countdown_observed [OF c1] by simp_all
  show ?thesis
  proof (cases h)
    case None
    with assms(1) c1 c2 s2 show ?thesis by (auto simp: MQTTSubscribe_def)
  next
    case (Some n)
    then have n: "n = \<lparr>th_handle = \<lparr>h_fp = Some fp, pcontext = ctx\<rparr>, topic_filter = c_str f\<rparr>"
      using c2 new_handle_result(1) by simp
    have "transmit P (int (c_strlen f))
        (\<lambda>c. MQTTSerialize_subscribe (sint (buf_size_send c)) 0 (word_of_int i) [(c_string f, q)])
        MQTT_SUBSCRIBE_PACKET_ERROR t
        (\<lambda>c. Some (SUCCESS_RETURN, add_topic_handle n (snd (reset_send_buffer c)))) c2 = Some (rc, c')"
      using assms(1) c1 c2 Some by (simp add: MQTTSubscribe_def initializer_c_string transmit_def)
    then show ?thesis
    proof (cases rule: transmit_cases [OF _ assms(2), consumes 1, case_names negative not_sent sent])
      case (negative c e)
      then show ?case using serialize_subscribe_out by fastforce
    next
      case not_sent
      with s2 show ?thesis by (auto intro: io_step_trans)
    next
      case (sent c3 c5 out chunks)
      note step = io_step_trans [OF s2(1) io_step_trans [OF sent(2) io_step_reset(1)]]
      have "out = subscribe_packet (word_of_int i) f q"
        using serialize_subscribe_out [OF sent(1)] by (simp add: subscribe_packet_def)
      with sent(3-5) s2(2) step n show ?thesis
        by (auto intro!: exI [of _ "snd (reset_send_buffer c5)"] exI [of _ chunks])
    qed
  qed
qed

text \<open>
  Property C8: the subscribe contract. When \<open>wrapper_mqtt_subscribe\<close> returns a non-negative
  number, it is a fresh packet identifier, the client was connected, the filter passed the
  check, exactly one SUBSCRIBE packet with that identifier, filter and QoS was sent, and the
  list of subscriptions is the old one with the new handler at its end (or unchanged when
  an identical one was there). With any other result the list is what it was, and the client
  is at most disconnected.
\<close>

theorem subscribe_contract:
  assumes "wrapper_mqtt_subscribe P (Some f) q (Some fp) ctx c = Some (rc, c')" and "writes_bounded P"
    and "packet_id c \<le> 65535" and "filters_c (list_sub_handle c)"
  shows "if 0 \<le> rc
         then 1 \<le> rc \<and> rc \<le> 65535 \<and> uint (packet_id c') = rc
              \<and> client_state c = IOTX_MC_STATE_CONNECTED \<and> client_state c' = IOTX_MC_STATE_CONNECTED
              \<and> iotx_mc_check_topic (Some f) TOPIC_FILTER_TYPE None = Some SUCCESS_RETURN
              \<and> (\<exists>chunks. observed c' = observed c @ map Sent chunks
                   \<and> concat chunks = subscribe_packet (word_of_int rc) f q)
              \<and> list_sub_handle c' = with_handle \<lparr>th_handle = \<lparr>h_fp = Some fp, pcontext = ctx\<rparr>,
                                                    topic_filter = c_str f\<rparr> (list_sub_handle c)
         else list_sub_handle c' = list_sub_handle c
              \<and> client_state c' \<in> {client_state c, IOTX_MC_STATE_DISCONNECTED}"
proof (cases "c_strlen f = 0")
  case True
  with assms(1) show ?thesis by (simp add: wrapper_mqtt_subscribe_def)
next
  case nonempty: False
  obtain i c1 where c1: "iotx_mc_get_next_packetid c = (i, c1)" by force
  note fresh = next_packetid [OF assms(3) c1]
  have same: "list_sub_handle c1 = list_sub_handle c" "client_state c1 = client_state c" "observed c1 = observed c"
    using c1 by (auto simp: iotx_mc_get_next_packetid_def Let_def)
  have run: "(if wrapper_mqtt_check_state c1 = 0 then Some (MQTT_STATE_ERROR, c1)
            else do {
              ok \<leftarrow> iotx_mc_check_topic (Some f) TOPIC_FILTER_TYPE None;
              if ok \<noteq> 0 then Some (MQTT_TOPIC_FORMAT_ERROR, c1)
              else do {
                (rc, c) \<leftarrow> MQTTSubscribe P f q i fp ctx c1;
                if rc \<noteq> SUCCESS_RETURN
                then Some (rc, if rc = MQTT_NETWORK_ERROR
                               then iotx_mc_set_client_state IOTX_MC_STATE_DISCONNECTED c else c)
                else Some (i, c) } }) = Some (rc, c')"
    using assms(1) nonempty c1 by (simp add: wrapper_mqtt_subscribe_def)
  then show ?thesis
  proof (elim run_elims, goal_cases)
    case (3 ok r c2)
    with MQTTSubscribe_outcome [OF 3(4) assms(2)] have "r < 0" and step: "io_step c1 c2" by simp_all
    with 3 io_stepD(1,2) [OF step] same show ?case
      by (auto simp: iotx_mc_set_client_state_def)
  next
    case (4 ok r c2)
    let ?h = "\<lparr>th_handle = \<lparr>h_fp = Some fp, pcontext = ctx\<rparr>, topic_filter = c_str f\<rparr>"
    obtain c3 chunks where c3: "io_step c1 c3" "observed c3 = observed c1 @ map Sent chunks"
      "concat chunks = subscribe_packet (word_of_int i) f q" "c2 = add_topic_handle ?h c3"
      using MQTTSubscribe_outcome [OF 4(4) assms(2)] 4(5) by auto
    have "filters_c (list_sub_handle c3)" using io_stepD(1) [OF c3(1)] same assms(4) by simp
    then have c2: "c2 = c3\<lparr>list_sub_handle := with_handle ?h (list_sub_handle c3)\<rparr>"
      using c3(4) add_topic_handle_eq [of c3 ?h] by simp
    have conn: "client_state c1 = IOTX_MC_STATE_CONNECTED"
      using 4(1) by (simp add: wrapper_mqtt_check_state_def iotx_mc_get_client_state_def split: if_splits)
    have "rc = i" "c' = c2" "ok = 0" using 4 by auto
    with 4(2) c2 c3(2,3) io_stepD(1-3) [OF c3(1)] same fresh conn show ?case by auto
  qed (use same in \<open>auto simp: iotx_mc_get_next_packetid_def\<close>)
qed

theorem subscribe_contract_witness:
  "\<exists>c'. wrapper_mqtt_subscribe (test_platform 100 []) (Some (ascii ''/a/+'')) 1 (Some 7) 0 test_client = Some (1, c')
     \<and> list_sub_handle c' = [test_subscription 7 ''/a/+'']"
proof -
  let ?run = "wrapper_mqtt_subscribe (test_platform 100 []) (Some (ascii ''/a/+'')) 1 (Some 7) 0 test_client"
  have "map_option fst ?run = Some 1" by code_simp
  then obtain c' where run: "?run = Some (1, c')" by auto
  have "packet_id test_client \<le> 65535" "list_sub_handle test_client = []"
    by (simp_all add: test_client_def blank_client_def)
  with subscribe_contract [OF run test_platform_bounded] run show ?thesis
    by (auto simp: with_handle_def test_subscription_def ascii_def c_str_def)
qed

section \<open>What an unsubscription removes\<close>

lemma unsubscribe_topic_received: "unsubscribe_topic f = received_topic (c_str f @ [0]) []"
  by (simp add: unsubscribe_topic_def received_topic_def c_strlen_def)

text \<open>The handlers whose filter matches the topic with its NUL go; the others stay.\<close>

definition survives :: "bytes \<Rightarrow> iotx_mc_topic_handle_t \<Rightarrow> bool" where
  "survives f node \<longleftrightarrow> \<not> match_rest (topic_filter node) (c_str f @ [0])"

lemma topic_handled_unsubscribe:
  assumes "is_c_str (topic_filter node)"
  shows "topic_handled node (unsubscribe_topic f) = Some (\<not> survives f node)"
proof -
  have "topic_filter node \<noteq> c_str f @ [0]" using assms by (auto simp: is_c_str_def)
  then show ?thesis
    using topic_handled_received [OF assms, of "c_str f @ [0]" "[]"]
    by (simp add: unsubscribe_topic_received survives_def subscribed_def)
qed

lemma remove_handles_eq:
  "filters_c nodes \<Longrightarrow> remove_handles (unsubscribe_topic f) nodes = Some (filter (survives f) nodes)"
  by (induction nodes) (simp_all add: topic_handled_unsubscribe)

lemma match_needs_wildcard:
  "match_rest g (n @ [0]) \<Longrightarrow> is_c_str g \<Longrightarrow> g \<noteq> [] \<and> last g \<in> {43, 35}"
proof (induction g "n @ [0]" arbitrary: n rule: match_rest.induct)
  case (3 f fs c m)
  show ?case
  proof (cases fs)
    case Nil
    with 3 show ?thesis by (cases n) (auto simp: is_c_str_def split: if_splits)
  next
    case (Cons f' fs')
    have run: "match_rest (f # fs) (c # m)" using 3 by simp
    with Cons have "f \<noteq> 35" by (auto split: if_splits)
    moreover have "is_c_str fs" using 3 by (simp add: is_c_str_def)
    ultimately have fs: "is_c_str fs" "f \<noteq> 35" by simp_all
    show ?thesis
    proof (cases n)
      case Nil
      with 3 Cons fs show ?thesis by (auto split: if_splits)
    next
      case (Cons c' n')
      then have m: "m = n' @ [0]" using 3(4) by simp
      have "dropWhile (\<lambda>x. x \<noteq> 47) (n' @ [0]) = dropWhile (\<lambda>x. x \<noteq> 47) n' @ [0]
          \<or> dropWhile (\<lambda>x. x \<noteq> 47) (n' @ [0]) = []"
        unfolding dropWhile_append by simp
      then obtain k where "dropWhile (\<lambda>x. x \<noteq> 47) (n' @ [0]) = k @ [0]
          \<or> dropWhile (\<lambda>x. x \<noteq> 47) (n' @ [0]) = []" by blast
      then show ?thesis
        using 3 fs m \<open>fs = f' # fs'\<close> by (auto split: if_splits)
    qed
  qed
qed auto

text \<open>The packet that unsubscribes one filter.\<close>

definition unsubscribe_packet :: "u16 \<Rightarrow> bytes \<Rightarrow> bytes" where
  "unsubscribe_packet i f =
     fixed_header UNSUBSCRIBE 0 1 0 # MQTTPacket_encode (int (length (names_body i [c_string f])))
       @ names_body i [c_string f]"

lemma serialize_unsubscribe_out:
  assumes "MQTTSerialize_unsubscribe n 0 i [c_string f] = Some r"
  shows "(case r of Inl e \<Rightarrow> e \<le> 0 | Inr out \<Rightarrow> out = unsubscribe_packet i f)"
proof (cases "MQTTPacket_len (MQTTSerialize_unsubscribeLength [c_string f]) \<le> n")
  case True
  with serialize_unsubscribe_eq [of "[c_string f]" n 0 i] assms show ?thesis
    by (auto simp: unsubscribe_packet_def)
next
  case False
  with assms show ?thesis by (auto simp: MQTTSerialize_unsubscribe_def Let_def)
qed

lemma MQTTUnsubscribe_outcome:
  assumes "MQTTUnsubscribe P f i c = Some (rc, c')" and "writes_bounded P" and "filters_c (list_sub_handle c)"
  shows "if rc = SUCCESS_RETURN
         then \<exists>chunks. observed c' = observed c @ map Sent chunks
                \<and> concat chunks = unsubscribe_packet (word_of_int i) f
                \<and> list_sub_handle c' = filter (survives f) (list_sub_handle c)
                \<and> io_step (c\<lparr>list_sub_handle := list_sub_handle c'\<rparr>) c'
         else rc < 0 \<and> io_step c c'"
proof -
  obtain t c1 where c1: "mc_countdown_ms P fresh_timer (request_timeout_ms c) c = (t, c1)" by force
  obtain h c2 where c2: "new_topic_handle P f \<lparr>h_fp = None, pcontext = 0\<rparr> c1 = (h, c2)" by force
  have s2: "io_step c c2" "observed c2 = observed c"
    using io_step_trans [OF io_steps(6) [OF c1] io_step_new_handle [OF c2]] new_handle_result(2) [OF c2]
      countdown_observed [OF c1] by simp_all
  show ?thesis
  proof (cases h)
    case None
    with assms(1) c1 c2 s2 show ?thesis by (auto simp: MQTTUnsubscribe_def)
  next
    case (Some n)
    then have n: "topic_filter n = c_str f"
      using c2 new_handle_result(1) by fastforce
    have "transmit P (int (c_strlen f))
        (\<lambda>c. MQTTSerialize_unsubscribe (sint (buf_size_send c)) 0 (word_of_int i) [c_string f])
        MQTT_UNSUBSCRIBE_PACKET_ERROR t
        (\<lambda>c. do { nodes \<leftarrow> remove_handles (unsubscribe_topic (topic_filter n)) (list_sub_handle c);
                  Some (SUCCESS_RETURN, snd (reset_send_buffer (c\<lparr>list_sub_handle := nodes\<rparr>))) }) c2
        = Some (rc, c')"
      using assms(1) c1 c2 Some by (simp add: MQTTUnsubscribe_def initializer_c_string transmit_def)
    then show ?thesis
    proof (cases rule: transmit_cases [OF _ assms(2), consumes 1, case_names negative not_sent sent])
      case (negative c e)
      then show ?case using serialize_unsubscribe_out by fastforce
    next
      case not_sent
      with s2 show ?thesis by (auto intro: io_step_trans)
    next
      case (sent c3 c5 out chunks)
      note step = io_step_trans [OF s2(1) sent(2)]
      have out: "out = unsubscribe_packet (word_of_int i) f"
        using serialize_unsubscribe_out [OF sent(1)] by simp
      have "filters_c (list_sub_handle c5)" using io_stepD(1) [OF step] assms(3) by simp
      then have c': "rc = SUCCESS_RETURN"
        "c' = snd (reset_send_buffer (c5\<lparr>list_sub_handle := filter (survives f) (list_sub_handle c5)\<rparr>))"
        using sent(5) n remove_handles_eq [of "list_sub_handle c5" "c_str f"]
        by (simp_all add: survives_def [abs_def])
      have "list_sub_handle c' = filter (survives f) (list_sub_handle c)" "observed c' = observed c5"
        "io_step (c\<lparr>list_sub_handle := list_sub_handle c'\<rparr>) c'"
        using c'(2) step by (auto simp: reset_send_buffer_def io_step_def)
      with c'(1) out sent(3,4) s2(2) show ?thesis by auto
    qed
  qed
qed

text \<open>
  Property C31: unsubscribing does not remove what was subscribed. A successful
  \<open>wrapper_mqtt_unsubscribe\<close> sends the UNSUBSCRIBE packet and deletes from the list the
  handlers whose filter matches the topic with its final NUL counted as a character. So no
  handler whose filter ends in an ordinary character is ever deleted, not even the one for
  the very filter that is unsubscribed: its callback goes on being called. Without success
  the list is unchanged.
\<close>

theorem unsubscribe_keeps_literal:
  assumes "wrapper_mqtt_unsubscribe P (Some f) c = Some (rc, c')" and "writes_bounded P"
    and "packet_id c \<le> 65535" and "filters_c (list_sub_handle c)"
  shows "if 0 \<le> rc
         then (\<exists>chunks. observed c' = observed c @ map Sent chunks
                \<and> concat chunks = unsubscribe_packet (word_of_int rc) f)
              \<and> list_sub_handle c'
                  = filter (\<lambda>n. \<not> match_rest (topic_filter n) (c_str f @ [0])) (list_sub_handle c)
              \<and> set (list_sub_handle c') \<supseteq>
                  {n \<in> set (list_sub_handle c). topic_filter n \<noteq> [] \<and> last (topic_filter n) \<notin> {43, 35}}
         else list_sub_handle c' = list_sub_handle c"
proof -
  obtain i c1 where c1: "iotx_mc_get_next_packetid c = (i, c1)" by force
  note fresh = next_packetid [OF assms(3) c1]
  have same: "list_sub_handle c1 = list_sub_handle c" "observed c1 = observed c"
    using c1 by (auto simp: iotx_mc_get_next_packetid_def Let_def)
  have run: "do {
            ok \<leftarrow> iotx_mc_check_topic (Some f) TOPIC_FILTER_TYPE None;
            if ok \<noteq> 0 then Some (MQTT_TOPIC_FORMAT_ERROR, c1)
            else if wrapper_mqtt_check_state c1 = 0 then Some (MQTT_STATE_ERROR, c1)
            else do {
              (rc, c) \<leftarrow> MQTTUnsubscribe P f i c1;
              if rc \<noteq> SUCCESS_RETURN
              then Some (rc, if rc = MQTT_NETWORK_ERROR
                             then iotx_mc_set_client_state IOTX_MC_STATE_DISCONNECTED c else c)
              else Some (i, c) } } = Some (rc, c')"
    using assms(1) c1 by (simp add: wrapper_mqtt_unsubscribe_def)
  then show ?thesis
  proof (elim run_elims, goal_cases)
    case (3 ok r c2)
    with MQTTUnsubscribe_outcome [OF 3(4) assms(2)] assms(4) same
    have "r < 0" and step: "io_step c1 c2" by simp_all
    with 3 io_stepD(1) [OF step] same show ?case by (auto simp: iotx_mc_set_client_state_def)
  next
    case (4 ok r c2)
    then obtain chunks where c2: "observed c2 = observed c1 @ map Sent chunks"
      "concat chunks = unsubscribe_packet (word_of_int i) f"
      "list_sub_handle c2 = filter (survives f) (list_sub_handle c1)"
      using MQTTUnsubscribe_outcome [OF 4(4) assms(2)] assms(4) same by auto
    have "rc = i" "c' = c2" using 4 by auto
    moreover have "survives f n" if "n \<in> set (list_sub_handle c)" "last (topic_filter n) \<notin> {43, 35}" for n
      using that match_needs_wildcard [of "topic_filter n" "c_str f"] assms(4)
      by (auto simp: survives_def filters_c_def list_all_iff)
    ultimately show ?case
      using c2 same fresh(4) by (auto simp: survives_def [abs_def])
  qed (use same in auto)
qed

theorem unsubscribe_keeps_literal_witness:
  "\<exists>c'. wrapper_mqtt_unsubscribe (test_platform 100 []) (Some (ascii ''/a/b''))
       (test_client\<lparr>list_sub_handle := [test_subscription 7 ''/a/b'', test_subscription 8 ''/a/+'']\<rparr>)
     = Some (1, c')
     \<and> test_subscription 7 ''/a/b'' \<in> set (list_sub_handle c')
     \<and> test_subscription 8 ''/a/+'' \<notin> set (list_sub_handle c')"
proof -
  let ?c = "test_client\<lparr>list_sub_handle := [test_subscription 7 ''/a/b'', test_subscription 8 ''/a/+'']\<rparr>"
  let ?run = "wrapper_mqtt_unsubscribe (test_platform 100 []) (Some (ascii ''/a/b'')) ?c"
  have "map_option fst ?run = Some 1" by code_simp
  then obtain c' where run: "?run = Some (1, c')" by auto
  have "packet_id ?c \<le> 65535" "filters_c (list_sub_handle ?c)"
    by (simp_all add: test_client_def blank_client_def test_subscription_def is_c_str_def ascii_def)
  from unsubscribe_keeps_literal [OF run test_platform_bounded this] run show ?thesis
    by (simp add: test_subscription_def ascii_def c_str_def)
qed

end
