(* ===== verification/Mqtt_Session.thy ===== *)
theory Mqtt_Session
  imports Mqtt_Subscribe
begin

text \<open>
  A session of \<open>mqtt/iotx_mqtt_client.c\<close>: the receiving loop \<open>_mqtt_cycle\<close>,
  \<open>wrapper_mqtt_yield\<close>, the synchronous subscription, and the calls of the public interface
  as the steps of a transition system. The lemmas show the invariant that every call keeps
  and that the states the client goes through refine a four-state machine.
\<close>

section \<open>Yielding\<close>

text \<open>
  The \<open>do .. while\<close> loop of \<open>_mqtt_cycle\<close>. It ends when the clock says so, which nothing
  forces it to: the loop is a partial function.
\<close>

partial_function (option) mqtt_cycle_loop ::
    "platform \<Rightarrow> iotx_time_t \<Rightarrow> iotx_mc_client_t \<Rightarrow> iotx_mc_client_t option" where
  "mqtt_cycle_loop pl tmr c =
     do {
       (rc, c) \<leftarrow> iotx_mc_cycle pl tmr c;
       (rc, c) \<leftarrow> (if rc = SUCCESS_RETURN then MQTTPubInfoProc pl c else Some (rc, c));
       let (left_t, c) = mc_time_left pl tmr c;
           c = HAL_SleepMs (if left_t < 10 then uint left_t else 10) c;
           (expired, c) = mc_time_is_expired pl tmr c
       in if expired then Some c else mqtt_cycle_loop pl tmr c }"

declare mqtt_cycle_loop.simps [code]

definition mqtt_cycle :: "platform \<Rightarrow> iotx_mc_client_t \<Rightarrow> iotx_mc_client_t option" where
  "mqtt_cycle P c =
     (let (tmr, c) = mc_countdown_ms P fresh_timer (cycle_timeout_ms c) c in mqtt_cycle_loop P tmr c)"

definition wrapper_mqtt_yield ::
    "platform \<Rightarrow> int \<Rightarrow> iotx_mc_client_t \<Rightarrow> (int \<times> iotx_mc_client_t) option" where
  "wrapper_mqtt_yield P timeout_ms c =
     (if timeout_ms < 0 then Some (-1, c)
      else
        let timeout_ms = (if timeout_ms = 0 then 10 else timeout_ms);
            c = c\<lparr>cycle_timeout_ms := word_of_int timeout_ms\<rparr>
        in do {
          c \<leftarrow> iotx_mc_keepalive P c;
          c \<leftarrow> mqtt_cycle P c;
          Some (0, c) })"

section \<open>Subscribing and waiting\<close>

abbreviation "sizeof_sub_sync_node \<equiv> 20 :: u32"

text \<open>
  The rounds of \<open>wrapper_mqtt_subscribe_sync\<close>. Only the first node of the list is looked at:
  the loop over it ends with an unconditional \<open>break\<close>.
\<close>

definition sync_enqueue ::
    "platform \<Rightarrow> int \<Rightarrow> bool \<Rightarrow> iotx_mc_client_t \<Rightarrow> bool \<times> iotx_mc_client_t" where
  "sync_enqueue P ret subed c =
     (if \<not> subed \<and> ret \<ge> 0
      then let (ok, c) = HAL_Malloc P sizeof_sub_sync_node c
           in if ok then (True, c\<lparr>list_sub_sync_ack := list_sub_sync_ack c
                              @ [\<lparr>ss_packet_id = ret, ack_type = IOTX_MQTT_EVENT_UNDEF\<rparr>]\<rparr>)
              else (subed, c)
      else (subed, c))"

partial_function (option) subscribe_sync_loop ::
    "platform \<Rightarrow> iotx_time_t \<Rightarrow> bytes option \<Rightarrow> int \<Rightarrow> nat option \<Rightarrow> nat \<Rightarrow> int \<Rightarrow> bool
      \<Rightarrow> iotx_mc_client_t \<Rightarrow> (int \<times> iotx_mc_client_t) option" where
  "subscribe_sync_loop pl timer topic qos func ctx ret subed c =
     do {
       (ret, leave, c) \<leftarrow>
          (if ret < 0
           then do { (r, c) \<leftarrow> wrapper_mqtt_subscribe pl topic qos func ctx c;
                     Some (r, in_yield_cb c \<noteq> 0 \<or> qos = 3, c) }
           else Some (ret, False, c));
       if leave then Some (ret, c)
       else
         let (subed, c) = sync_enqueue pl ret subed c in
         do {
           (_, c) \<leftarrow> wrapper_mqtt_yield pl 100 c;
           let (hit, ack) = (case list_sub_sync_ack c of
                               [] \<Rightarrow> (False, IOTX_MQTT_EVENT_UNDEF)
                             | node # _ \<Rightarrow> (ss_packet_id node = ret, ack_type node))
           in if hit \<and> ack = IOTX_MQTT_EVENT_SUBCRIBE_SUCCESS
              then Some (ret, c\<lparr>list_sub_sync_ack := tl (list_sub_sync_ack c)\<rparr>)
              else
                let again = hit \<and> (ack = IOTX_MQTT_EVENT_SUBCRIBE_NACK \<or> ack = IOTX_MQTT_EVENT_SUBCRIBE_TIMEOUT);
                    c = (if again then c\<lparr>list_sub_sync_ack := tl (list_sub_sync_ack c)\<rparr> else c);
                    ret = (if again then -1 else ret);
                    subed = (if again then False else subed);
                    (expired, c) = mc_time_is_expired pl timer c
                in if expired
                   then Some (-1, c\<lparr>list_sub_sync_ack :=
                                     filter (\<lambda>n. ss_packet_id n \<noteq> ret) (list_sub_sync_ack c)\<rparr>)
                   else subscribe_sync_loop pl timer topic qos func ctx ret subed c } }"

declare subscribe_sync_loop.simps [code]

definition wrapper_mqtt_subscribe_sync ::
    "platform \<Rightarrow> bytes option \<Rightarrow> int \<Rightarrow> nat option \<Rightarrow> nat \<Rightarrow> int \<Rightarrow> iotx_mc_client_t
      \<Rightarrow> (int \<times> iotx_mc_client_t) option" where
  "wrapper_mqtt_subscribe_sync P topic qos func ctx timeout_ms c =
     (let qos = (if qos > 2 then 0 else qos);
          (timer, c) = mc_countdown_ms P fresh_timer (word_of_int timeout_ms) c
      in subscribe_sync_loop P timer topic qos func ctx (-1) False c)"

section \<open>What a cycle changes\<close>

text \<open>
  \<open>cycled\<close>: the ping state, the acknowledgements of the waiting publishes and subscriptions,
  and the client's state from connected to disconnected.
\<close>

definition cycled :: "iotx_mc_client_t \<Rightarrow> iotx_mc_client_t \<Rightarrow> bool" where
  "cycled c c' \<longleftrightarrow>
     io_step (c\<lparr>client_state := client_state c', ping_mark := ping_mark c',
                keepalive_probes := keepalive_probes c', list_pub_wait_ack := list_pub_wait_ack c',
                list_sub_sync_ack := list_sub_sync_ack c'\<rparr>) c'
     \<and> (client_state c' = client_state c
        \<or> client_state c = IOTX_MC_STATE_CONNECTED \<and> client_state c' = IOTX_MC_STATE_DISCONNECTED)
     \<and> keepalive_probes c' \<in> {keepalive_probes c, 0}
     \<and> (wait_list_ok (list_pub_wait_ack c) \<longrightarrow> wait_list_ok (list_pub_wait_ack c'))"

lemma cycled_io: "io_step c c' \<Longrightarrow> cycled c c'"
  by (simp add: cycled_def io_step_def)

lemma cycled_trans: "cycled c c' \<Longrightarrow> cycled c' c'' \<Longrightarrow> cycled c c''"
  unfolding cycled_def io_step_def by auto

lemma cycled_yield: "cycled c c' \<Longrightarrow> in_yield_cb c' = in_yield_cb c"
  by (simp add: cycled_def io_step_def)

lemma cycled_notify: "in_yield_cb c = 0 \<Longrightarrow> cycled c (notify ty msg c)"
  by (rule cycled_io [OF io_step_notify])

lemma cycled_mask: "cycled c (snd (iotx_mc_mask_pubInfo_from i c))"
  using wait_list_ok_mask [of i c] by (simp add: cycled_def iotx_mc_mask_pubInfo_from_def io_step_def)

lemma cycled_then_notify:
  "cycled c c1 \<Longrightarrow> in_yield_cb c = 0 \<Longrightarrow> cycled c (notify ty msg c1)"
  using cycled_notify [of c1] cycled_yield [of c c1] by (auto intro: cycled_trans)

lemma cycled_PUBACK:
  assumes "iotx_mc_handle_recv_PUBACK c = Some (rc, c')" and "in_yield_cb c = 0"
  shows "cycled c c'"
proof -
  have "c' = c \<or> (\<exists>i ty msg. c' = notify ty msg (snd (iotx_mc_mask_pubInfo_from i c)))"
    using assms(1) unfolding iotx_mc_handle_recv_PUBACK_def
    by (elim run_elims) (auto simp: iotx_mc_mask_pubInfo_from_def)
  then show ?thesis using assms(2) cycled_mask by (auto intro: cycled_then_notify cycled_io)
qed

lemma cycled_SUBACK:
  assumes "iotx_mc_handle_recv_SUBACK c = Some (rc, c')" and "in_yield_cb c = 0"
  shows "cycled c c'"
proof -
  have "c' = c \<or> (\<exists>i ty. c' = notify ty (PacketId (uint i)) (iotx_mqtt_event_handle_sub (uint (i :: u16)) ty c))"
    using assms(1) unfolding iotx_mc_handle_recv_SUBACK_def Let_def by (elim run_elims) auto
  moreover have "cycled c (iotx_mqtt_event_handle_sub i ty c)" for i ty
    by (simp add: cycled_def iotx_mqtt_event_handle_sub_def io_step_def)
  ultimately show ?thesis using assms(2) by (auto intro: cycled_then_notify cycled_io)
qed

lemma cycled_UNSUBACK:
  assumes "iotx_mc_handle_recv_UNSUBACK c = Some (rc, c')" and "in_yield_cb c = 0"
  shows "cycled c c'"
proof -
  have "c' = c \<or> (\<exists>ty msg. c' = notify ty msg c)"
    using assms(1) unfolding iotx_mc_handle_recv_UNSUBACK_def by (elim run_elims) auto
  then show ?thesis using assms(2) by (auto intro: cycled_notify cycled_io)
qed

lemma env_step_deliver_loop:
  "deliver_loop nodes t msg flag c = Some (flag', c') \<Longrightarrow> in_yield_cb c = 0 \<Longrightarrow> env_step c c'"
proof (induction nodes arbitrary: flag c)
  case (Cons node nodes)
  let ?c = "snd (handle_event_call (th_handle node) IOTX_MQTT_EVENT_PUBLISH_RECEIVED (TopicInfo msg) c)"
  have step: "env_step c ?c" using handle_event_call_fields(2) Cons.prems(2) by blast
  then have "in_yield_cb ?c = 0" using Cons.prems(2) by (simp add: env_step_def io_step_def)
  with Cons step show ?case
    by (auto simp: bind_eq_Some_conv split: if_split_asm intro: env_step_trans)
qed simp

lemma io_step_deliver_message:
  assumes "iotx_mc_deliver_message t msg c = Some c'" and "in_yield_cb c = 0"
  shows "io_step c c'"
proof -
  obtain flag c1 msg1 where c1: "deliver_loop (list_sub_handle c) t msg1 0 c = Some (flag, c1)"
    and c': "c' = c1 \<or> c' = notify IOTX_MQTT_EVENT_PUBLISH_RECEIVED (TopicInfo msg1) c1"
    using assms(1) by (auto simp: iotx_mc_deliver_message_def Let_def bind_eq_Some_conv split: if_splits)
  have "io_step c c1" using env_io_step [OF env_step_deliver_loop [OF c1 assms(2)]] .
  with c' assms(2) io_step_notify_after show ?thesis by auto
qed

lemma io_step_MQTTPuback: "MQTTPuback P i ty c = Some (rc, c') \<Longrightarrow> io_step c c'"
  unfolding MQTTPuback_def by (elim run_elims) (auto dest!: io_runs simp: io_ends)

lemma cycled_PUBLISH:
  assumes "iotx_mc_handle_recv_PUBLISH P c = Some (rc, c')" and "in_yield_cb c = 0"
  shows "cycled c c'"
proof -
  have "io_step c c'"
    using assms(1) unfolding iotx_mc_handle_recv_PUBLISH_def
    by (elim run_elims)
      (auto dest!: io_step_MQTTPuback io_step_deliver_message [OF _ assms(2)] intro: io_step_trans)
  then show ?thesis by (rule cycled_io)
qed

text \<open>
  What the ping counter is after a cycle: a client with two unanswered pings is disconnected
  before anything is read, and data that arrives clears the counter.
\<close>

lemma cycled_cycle:
  assumes "iotx_mc_cycle P timer c = Some (rc, c')" and "in_yield_cb c = 0"
  shows "cycled c c'"
    and "keepalive_probes c \<le> 1 \<or> client_state c = IOTX_MC_STATE_CONNECTED \<Longrightarrow> keepalive_probes c' \<le> 1"
proof -
  have "cycled c c' \<and> (keepalive_probes c \<le> 1 \<or> client_state c = IOTX_MC_STATE_CONNECTED
          \<longrightarrow> keepalive_probes c' \<le> 1)"
  proof (cases "client_state c = IOTX_MC_STATE_CONNECTED")
    case False
    with assms(1) show ?thesis by (simp add: iotx_mc_cycle_def iotx_mc_get_client_state_def cycled_io)
  next
    case conn: True
    let ?c = "if IOTX_MC_KEEPALIVE_PROBE_MAX < keepalive_probes c
              then (iotx_mc_set_client_state IOTX_MC_STATE_DISCONNECTED c)\<lparr>keepalive_probes := 0\<rparr> else c"
    have c1: "cycled c ?c" "keepalive_probes ?c \<le> 1" "in_yield_cb ?c = 0"
      using conn assms(2) by (auto simp: cycled_def io_step_def iotx_mc_set_client_state_def)
    obtain r pt c2 where read: "iotx_mc_read_packet P timer None ?c = Some (r, pt, c2)"
      using assms(1) conn by (auto simp: iotx_mc_cycle_def iotx_mc_get_client_state_def bind_eq_Some_conv Let_def)
    have c2: "cycled c c2" "keepalive_probes c2 \<le> 1" "in_yield_cb c2 = 0"
      and step2: "io_step ?c c2"
      using io_step_read_packet [OF read c1(3)] c1 cycled_trans [OF c1(1) cycled_io]
      by (simp_all add: io_step_def)
    have reset: "cycled c3 (snd (reset_recv_buffer c3))"
      "keepalive_probes (snd (reset_recv_buffer c3)) = keepalive_probes c3" for c3
      using io_step_reset(2) [of c3] by (simp_all add: cycled_io) (simp add: io_step_def)
    show ?thesis
    proof (cases "r = SUCCESS_RETURN")
      case False
      then have "c' = snd (reset_recv_buffer c2)
          \<or> c' = iotx_mc_set_client_state IOTX_MC_STATE_DISCONNECTED (snd (reset_recv_buffer c2))"
        using assms(1) conn read
        by (auto simp: iotx_mc_cycle_def iotx_mc_get_client_state_def Let_def split: if_splits)
      moreover have "cycled c (snd (reset_recv_buffer c2))" using cycled_trans [OF c2(1) reset(1)] .
      moreover from this have "cycled c (iotx_mc_set_client_state IOTX_MC_STATE_DISCONNECTED (snd (reset_recv_buffer c2)))"
        using conn by (simp add: cycled_def io_step_def iotx_mc_set_client_state_def)
      ultimately show ?thesis
        using c2(2) reset(2) by (auto simp: iotx_mc_set_client_state_def)
    next
      case True
      let ?c3 = "c2\<lparr>ping_mark := 0, keepalive_probes := 0\<rparr>"
      have c3: "cycled c ?c3" "in_yield_cb ?c3 = 0"
        using c2(1,3) by (auto simp: cycled_def io_step_def)
      have "c' = snd (reset_recv_buffer c2)
          \<or> (\<exists>r c4. c' = snd (reset_recv_buffer c4) \<and> (c4 = ?c3 \<or> iotx_mc_handle_recv_PUBACK ?c3 = Some (r, c4)
                \<or> iotx_mc_handle_recv_SUBACK ?c3 = Some (r, c4) \<or> iotx_mc_handle_recv_PUBLISH P ?c3 = Some (r, c4)
                \<or> iotx_mc_handle_recv_UNSUBACK ?c3 = Some (r, c4)))"
        using assms(1) conn read True
        by (auto simp: iotx_mc_cycle_def iotx_mc_get_client_state_def bind_eq_Some_conv Let_def split: if_split_asm)
      then show ?thesis
      proof (elim disjE exE conjE)
        assume "c' = snd (reset_recv_buffer c2)"
        then show ?thesis using cycled_trans [OF c2(1) reset(1)] c2(2) reset(2) by simp
      next
        fix r4 c4
        assume c': "c' = snd (reset_recv_buffer c4)"
        {
          assume "cycled ?c3 c4"
          then have "cycled c c4" "keepalive_probes c4 = 0"
            using cycled_trans [OF c3(1)] by (auto simp: cycled_def)
          then have "cycled c c'" "keepalive_probes c' \<le> 1"
            using cycled_trans [OF _ reset(1)] reset(2) c' by auto
        } note finish = this
        have "cycled ?c3 ?c3" by (rule cycled_io) simp
        then show "c4 = ?c3 \<Longrightarrow> ?thesis" using finish by blast
        show "iotx_mc_handle_recv_PUBACK ?c3 = Some (r4, c4) \<Longrightarrow> ?thesis"
          using finish cycled_PUBACK [OF _ c3(2)] by auto
        show "iotx_mc_handle_recv_SUBACK ?c3 = Some (r4, c4) \<Longrightarrow> ?thesis"
          using finish cycled_SUBACK [OF _ c3(2)] by auto
        show "iotx_mc_handle_recv_PUBLISH P ?c3 = Some (r4, c4) \<Longrightarrow> ?thesis"
          using finish cycled_PUBLISH [OF _ c3(2)] by auto
        show "iotx_mc_handle_recv_UNSUBACK ?c3 = Some (r4, c4) \<Longrightarrow> ?thesis"
          using finish cycled_UNSUBACK [OF _ c3(2)] by auto
      qed
    qed
  qed
  then show "cycled c c'"
    and "keepalive_probes c \<le> 1 \<or> client_state c = IOTX_MC_STATE_CONNECTED \<Longrightarrow> keepalive_probes c' \<le> 1"
    by blast+
qed

lemma pub_info_loop_idle:
  "pub_info_loop P ns c = Some (ns', c') \<Longrightarrow> client_state c \<noteq> IOTX_MC_STATE_CONNECTED \<Longrightarrow> c' = c"
  by (induction ns arbitrary: ns') (auto simp: iotx_mc_get_client_state_def split: Option.bind_splits if_splits)

lemma cycled_PubInfoProc:
  assumes "MQTTPubInfoProc P c = Some (rc, c')"
  shows "cycled c c'" and "keepalive_probes c' = keepalive_probes c"
proof -
  obtain ns c1 where loop: "pub_info_loop P (list_pub_wait_ack c) c = Some (ns, c1)"
    and c': "c' = c1\<lparr>list_pub_wait_ack := ns\<rparr>"
    using assms by (auto simp: MQTTPubInfoProc_def split: Option.bind_splits)
  have frame: "proc_frame c c1" using pub_info_loop_result [OF loop] by (simp add: proc_result_def)
  have state: "client_state c1 = client_state c
      \<or> client_state c = IOTX_MC_STATE_CONNECTED \<and> client_state c1 = IOTX_MC_STATE_DISCONNECTED"
    using frame pub_info_loop_idle [OF loop] by (auto simp: proc_frame_def)
  show "cycled c c'" "keepalive_probes c' = keepalive_probes c"
    using frame state wait_list_ok_proc [OF assms] unfolding c'
    by (simp_all add: cycled_def proc_frame_def io_step_def)
qed

definition pings_ok :: "iotx_mc_client_t \<Rightarrow> bool" where
  "pings_ok c \<longleftrightarrow> keepalive_probes c \<le> 1 \<or> client_state c = IOTX_MC_STATE_CONNECTED"

lemma mqtt_cycle_loop_cycled:
  assumes "mqtt_cycle_loop P t c = Some c'" and "in_yield_cb c = 0"
  shows "cycled c c' \<and> (pings_ok c \<longrightarrow> keepalive_probes c' \<le> 1)"
proof (rule mqtt_cycle_loop.raw_induct [where P = "\<lambda>pl t c c'. in_yield_cb c = 0 \<longrightarrow>
      cycled c c' \<and> (pings_ok c \<longrightarrow> keepalive_probes c' \<le> 1)", OF _ assms(1), rule_format])
  fix f pl t c c'
  assume IH: "\<And>pl t c c'. f pl t c = Some c' \<Longrightarrow> in_yield_cb c = 0 \<Longrightarrow>
      cycled c c' \<and> (pings_ok c \<longrightarrow> keepalive_probes c' \<le> 1)"
    and run: "do {
       (rc, c) \<leftarrow> iotx_mc_cycle pl t c;
       (rc, c) \<leftarrow> (if rc = SUCCESS_RETURN then MQTTPubInfoProc pl c else Some (rc, c));
       let (left_t, c) = mc_time_left pl t c;
           c = HAL_SleepMs (if left_t < 10 then uint left_t else 10) c;
           (expired, c) = mc_time_is_expired pl t c
       in if expired then Some c else f pl t c } = Some c'"
    and y: "in_yield_cb c = 0"
  obtain rc1 c1 where c1: "iotx_mc_cycle pl t c = Some (rc1, c1)"
    using run by (auto simp: bind_eq_Some_conv)
  obtain rc2 c2 where c2: "(if rc1 = SUCCESS_RETURN then MQTTPubInfoProc pl c1 else Some (rc1, c1)) = Some (rc2, c2)"
    using run c1 by (auto simp: bind_eq_Some_conv)
  obtain l c3 where c3: "mc_time_left pl t c2 = (l, c3)" by force
  let ?c4 = "HAL_SleepMs (if l < 10 then uint l else 10) c3"
  obtain e c5 where c5: "mc_time_is_expired pl t ?c4 = (e, c5)" by force
  have rest: "if e then c' = c5 else f pl t c5 = Some c'"
    using run c1 c2 c3 c5 by (auto simp: Let_def)
  note cyc = cycled_cycle [OF c1 y, folded pings_ok_def]
  have c12: "cycled c1 c2 \<and> keepalive_probes c2 = keepalive_probes c1"
    using c2 cycled_PubInfoProc by (auto split: if_splits intro: cycled_io)
  have io: "io_step c2 c5"
    using io_step_trans [OF io_steps(10) [OF c3] io_step_trans [OF io_step_calls(3) io_steps(9) [OF c5]]] .
  have c: "cycled c c5" using cycled_trans [OF cyc(1)] cycled_trans c12 cycled_io [OF io] by blast
  have probes: "keepalive_probes c5 = keepalive_probes c1" using c12 io by (simp add: io_step_def)
  show "cycled c c' \<and> (pings_ok c \<longrightarrow> keepalive_probes c' \<le> 1)"
  proof (cases e)
    case True
    with rest c cyc(2) probes show ?thesis by simp
  next
    case False
    have "in_yield_cb c5 = 0" using cycled_yield [OF c] y by simp
    with IH rest False have "cycled c5 c' \<and> (pings_ok c5 \<longrightarrow> keepalive_probes c' \<le> 1)" by simp
    moreover have "pings_ok c \<Longrightarrow> pings_ok c5" using cyc(2) probes by (simp add: pings_ok_def)
    ultimately show ?thesis using cycled_trans [OF c] by blast
  qed
qed (rule assms(2))

section \<open>The invariant of a session\<close>

text \<open>The four states of a connection and how they follow each other.\<close>

inductive link_step :: "iotx_mc_state_t \<Rightarrow> iotx_mc_state_t \<Rightarrow> bool" where
  accepted: "link_step IOTX_MC_STATE_INITIALIZED IOTX_MC_STATE_CONNECTED"
| lost: "link_step IOTX_MC_STATE_CONNECTED IOTX_MC_STATE_DISCONNECTED"
| suspended: "link_step IOTX_MC_STATE_DISCONNECTED IOTX_MC_STATE_DISCONNECTED_RECONNECTING"
| restored: "link_step IOTX_MC_STATE_DISCONNECTED_RECONNECTING IOTX_MC_STATE_CONNECTED"

inductive_cases link_stepE: "link_step s t"

definition link_states :: "iotx_mc_state_t list" where
  "link_states = [IOTX_MC_STATE_INITIALIZED, IOTX_MC_STATE_CONNECTED, IOTX_MC_STATE_DISCONNECTED,
                  IOTX_MC_STATE_DISCONNECTED_RECONNECTING]"

lemma in_link_states [simp]:
  "s \<in> set link_states \<longleftrightarrow> s \<notin> {IOTX_MC_STATE_INVALID, IOTX_MC_STATE_CONNECT_BLOCK}"
  by (cases s) (simp_all add: link_states_def)

abbreviation link_path :: "iotx_mc_state_t \<Rightarrow> iotx_mc_state_t \<Rightarrow> bool" where
  "link_path \<equiv> link_step\<^sup>*\<^sup>*"

text \<open>
  What holds of the client between two calls of the public interface: the state is one of four; the packet identifier
  is in MQTT's range; the waiting publishes are bounded and consistent; the filters are C
  strings and no pair of filter and callback is there twice; the reconnection interval is
  one of the back-off; at most one ping is unanswered; no callback is running; the
  configured intervals are in their ranges.
\<close>

definition session_inv :: "iotx_mc_client_t \<Rightarrow> bool" where
  "session_inv c \<longleftrightarrow>
     client_state c \<in> set link_states
     \<and> packet_id c \<le> 65535
     \<and> wait_list_ok (list_pub_wait_ack c)
     \<and> filters_c (list_sub_handle c) \<and> distinct (list_sub_handle c)
     \<and> reconnect_interval c \<in> set backoff_intervals
     \<and> keepalive_probes c \<le> 1
     \<and> in_yield_cb c = 0
     \<and> 30 \<le> keepAliveInterval (connect_data c) \<and> keepAliveInterval (connect_data c) \<le> 180
     \<and> 500 \<le> request_timeout_ms c \<and> request_timeout_ms c \<le> 5000"

lemma link_paths [intro]:
  "link_path IOTX_MC_STATE_CONNECTED IOTX_MC_STATE_DISCONNECTED"
  "link_path IOTX_MC_STATE_CONNECTED IOTX_MC_STATE_DISCONNECTED_RECONNECTING"
  "link_path IOTX_MC_STATE_DISCONNECTED IOTX_MC_STATE_DISCONNECTED_RECONNECTING"
  "link_path IOTX_MC_STATE_DISCONNECTED_RECONNECTING IOTX_MC_STATE_CONNECTED"
  "link_path IOTX_MC_STATE_INITIALIZED IOTX_MC_STATE_CONNECTED"
  by (blast intro: link_step.intros rtranclp.intros)+

lemma link_path_states: "link_path s t \<Longrightarrow> s \<in> set link_states \<Longrightarrow> t \<in> set link_states"
  by (induction rule: rtranclp_induct) (auto elim: link_stepE)

lemma link_path_never_back:
  "link_path s t \<Longrightarrow> t = IOTX_MC_STATE_INITIALIZED \<Longrightarrow> s = IOTX_MC_STATE_INITIALIZED"
  by (induction rule: rtranclp_induct) (auto elim: link_stepE)

text \<open>
  A call keeps the session: it preserves the invariant and moves the state along the machine.
\<close>

definition session_kept :: "iotx_mc_client_t \<Rightarrow> iotx_mc_client_t \<Rightarrow> bool" where
  "session_kept c c' \<longleftrightarrow>
     (session_inv c \<longrightarrow> session_inv c' \<and> link_path (client_state c) (client_state c'))"

lemma session_kept_trans: "session_kept c c' \<Longrightarrow> session_kept c' c'' \<Longrightarrow> session_kept c c''"
  unfolding session_kept_def by (meson rtranclp_trans)

lemma session_kept_io: "io_step c c' \<Longrightarrow> session_kept c c'"
  by (simp add: session_kept_def session_inv_def io_step_def)

lemma session_kept_linked:
  assumes "linked c rc c'" and "client_state c = IOTX_MC_STATE_INITIALIZED"
  shows "session_kept c c'"
proof (cases "rc = SUCCESS_RETURN")
  case True
  then have "client_state c' = IOTX_MC_STATE_CONNECTED"
    "io_step (c\<lparr>client_state := IOTX_MC_STATE_CONNECTED, next_ping_time := next_ping_time c'\<rparr>) c'"
    using assms(1) by (simp_all add: linked_def)
  then show ?thesis
    using assms(2) by (auto simp: session_kept_def session_inv_def io_step_def)
next
  case False
  with assms(1) show ?thesis by (simp add: linked_def session_kept_io)
qed

text \<open>The keep-alive may leave two pings unanswered, which the cycle after it repairs.\<close>

definition session_inv_pinged :: "iotx_mc_client_t \<Rightarrow> bool" where
  "session_inv_pinged c \<longleftrightarrow> session_inv (c\<lparr>keepalive_probes := 0\<rparr>) \<and> pings_ok c"

lemma session_inv_link_frame:
  assumes "link_frame c c'" and "session_inv c" and "client_state c' \<in> set link_states" and "reconnect_interval c' \<in> set backoff_intervals"
    and "pings_ok c'"
  shows "session_inv_pinged c'"
  using assms by (simp add: session_inv_pinged_def session_inv_def link_frame_def io_step_def)

lemma handle_reconnect_interval:
  assumes "iotx_mc_handle_reconnect P c = Some (rc, c')" and "in_yield_cb c = 0"
    and "reconnect_interval c \<in> set backoff_intervals"
  shows "reconnect_interval c' \<in> set backoff_intervals" and "keepalive_probes c' = keepalive_probes c"
proof -
  have "reconnect_interval c' \<in> set backoff_intervals \<and> keepalive_probes c' = keepalive_probes c"
  proof (cases "utils_time_is_expired (clock P (hal_calls c)) (Some (reconnect_deadline c)) = 0")
    case True
    with handle_reconnect_waits [OF this] assms(1,3) show ?thesis
      by (auto simp: env_step_def io_step_def)
  next
    case False
    note attempt = handle_reconnect_attempts [OF assms(1,2) False]
    show ?thesis
    proof (cases "rc = SUCCESS_RETURN")
      case True
      with attempt assms(3) show ?thesis by (simp add: linked_def io_step_def)
    next
      case failed: False
      note attempt = attempt [unfolded if_not_P [OF failed]]
      have "keepalive_probes c' = keepalive_probes c"
        using attempt by (simp add: io_step_def)
      with attempt next_interval_backoff [OF assms(3)] show ?thesis by auto
    qed
  qed
  then show "reconnect_interval c' \<in> set backoff_intervals" and "keepalive_probes c' = keepalive_probes c"
    by blast+
qed

lemma keepalive_session:
  assumes "iotx_mc_keepalive P c = Some c'" and "session_inv c"
  shows "session_inv_pinged c'" and "link_path (client_state c) (client_state c')"
proof -
  have inv: "in_yield_cb c = 0" "reconnect_interval c \<in> set backoff_intervals" "keepalive_probes c \<le> 1"
    "client_state c \<in> set link_states"
    using assms(2) by (simp_all add: session_inv_def)
  note frame = keepalive_frame [OF assms(1) inv(1)]
  have "reconnect_interval c' \<in> set backoff_intervals \<and> pings_ok c' \<and> client_state c' \<in> set link_states
      \<and> link_path (client_state c) (client_state c')"
    using assms(1) inv(1)
  proof (cases rule: keepalive_cases)
    case (idle c1)
    then have "client_state c1 = client_state c" "pings_ok c1"
      using inv(3) by (auto simp: pinged_def pings_ok_def split: if_splits)
    moreover have "reconnect_interval c1 = reconnect_interval c"
      using idle by (auto simp: pinged_def io_step_def split: if_splits)
    ultimately show ?thesis using idle inv by simp
  next
    case (lost c1)
    then have "keepalive_probes c1 \<le> 1" "link_path (client_state c) IOTX_MC_STATE_DISCONNECTED"
      using inv(3) by (auto simp: pinged_def split: if_splits)
    moreover have "keepalive_probes (suspend_link P c1) = keepalive_probes c1"
      by (simp add: suspend_link_def Let_def set_reconnect_interval_def set_reconnect_timer_def mc_countdown_ms_def
          iotx_mc_disconnect_callback_def direct_callback_def HAL_UptimeMs_def env_defs ipstack_disconnect_def
          iotx_mc_set_client_state_def split: option.split prod.split)
    moreover have "link_path (client_state c) IOTX_MC_STATE_DISCONNECTED_RECONNECTING"
      using calculation(2) link_paths(3) by (rule rtranclp_trans)
    ultimately show ?thesis
      using lost(3) suspend_link_result(1,2) [of P c1] by (simp add: pings_ok_def backoff_intervals_def)
  next
    case (failed rc)
    have "client_state c' = client_state c"
      using handle_reconnect_frame(2) [OF failed(2)] failed(3) inv(1) by simp
    then show ?thesis
      using handle_reconnect_interval [OF failed(2)] inv by (simp add: pings_ok_def)
  next
    case (resumed c2)
    have "client_state c' = IOTX_MC_STATE_CONNECTED" "reconnect_interval c' = 1000"
      using handle_reconnect_frame(2) [OF resumed(2)] resume_link_result(1,2) [of c2] resumed(3) inv(1) by simp_all
    then show ?thesis
      using resumed(1) inv(4) by (auto simp: pings_ok_def backoff_intervals_def)
  qed
  then show "session_inv_pinged c'" and "link_path (client_state c) (client_state c')"
    using session_inv_link_frame [OF frame assms(2)] by blast+
qed

lemma cycled_session:
  assumes "cycled c c'" and "session_inv_pinged c" and "keepalive_probes c' \<le> 1"
  shows "session_inv c'" and "link_path (client_state c) (client_state c')"
proof -
  have "client_state c' = client_state c
      \<or> client_state c = IOTX_MC_STATE_CONNECTED \<and> client_state c' = IOTX_MC_STATE_DISCONNECTED"
    using assms(1) by (simp add: cycled_def)
  moreover have "session_inv_pinged c \<Longrightarrow> client_state c' \<in> set link_states \<Longrightarrow> session_inv c'"
    using assms(1,3) by (simp add: session_inv_pinged_def session_inv_def cycled_def io_step_def)
  moreover have "client_state c \<in> set link_states"
    using assms(2) by (simp add: session_inv_pinged_def session_inv_def)
  ultimately show "session_inv c'" "link_path (client_state c) (client_state c')"
    using assms(2) by auto
qed

lemma session_kept_yield:
  assumes "wrapper_mqtt_yield P ms c = Some (rc, c')"
  shows "session_kept c c'"
proof (cases "ms < 0")
  case True
  with assms show ?thesis by (simp add: wrapper_mqtt_yield_def session_kept_io)
next
  case False
  let ?c0 = "c\<lparr>cycle_timeout_ms := word_of_int (if ms = 0 then 10 else ms)\<rparr>"
  obtain c1 where c1: "iotx_mc_keepalive P ?c0 = Some c1" and c2: "mqtt_cycle P c1 = Some c'"
    using assms False by (auto simp: wrapper_mqtt_yield_def bind_eq_Some_conv Let_def)
  obtain t c3 where c3: "mc_countdown_ms P fresh_timer (cycle_timeout_ms c1) c1 = (t, c3)" by force
  have loop: "mqtt_cycle_loop P t c3 = Some c'" using c2 c3 by (simp add: mqtt_cycle_def)
  show ?thesis unfolding session_kept_def
  proof
    assume "session_inv c"
    then have inv: "session_inv ?c0" by (simp add: session_inv_def)
    note kept = keepalive_session [OF c1 inv]
    have frame: "session_inv_pinged c3" "client_state c3 = client_state c1" "in_yield_cb c3 = 0" "pings_ok c3"
      using kept(1) io_steps(6) [OF c3]
      by (simp_all add: session_inv_pinged_def session_inv_def io_step_def pings_ok_def)
    have "cycled c3 c'" "keepalive_probes c' \<le> 1"
      using mqtt_cycle_loop_cycled [OF loop frame(3)] frame(4) by blast+
    from cycled_session [OF this(1) frame(1) this(2)] kept(2) frame(2)
    show "session_inv c' \<and> link_path (client_state c) (client_state c')"
      by (auto intro: rtranclp_trans)
  qed
qed

section \<open>Requests keep the session\<close>

lemma check_state_connected:
  "wrapper_mqtt_check_state c = 0 \<longleftrightarrow> client_state c \<noteq> IOTX_MC_STATE_CONNECTED"
  by (simp add: wrapper_mqtt_check_state_def iotx_mc_get_client_state_def)

lemma session_kept_next_id:
  assumes "iotx_mc_get_next_packetid c = (i, c')"
  shows "session_kept c c'" and "client_state c' = client_state c"
  using next_packetid(3) [OF _ assms] assms
  by (auto simp: session_kept_def session_inv_def iotx_mc_get_next_packetid_def Let_def)

text \<open>How a request ends: an error of the network disconnects the client.\<close>

lemma session_kept_failed:
  assumes "session_kept c c'" and "client_state c' = IOTX_MC_STATE_CONNECTED"
    and "c'' \<in> {c', iotx_mc_set_client_state IOTX_MC_STATE_DISCONNECTED c'}"
  shows "session_kept c c''"
  using assms by (auto simp: session_kept_def session_inv_def iotx_mc_set_client_state_def
      intro: rtranclp_trans [OF _ link_paths(1)])

lemma session_kept_MQTTPublish:
  assumes "MQTTPublish P t m c = Some (rc, c')" and "writes_bounded P"
  shows "session_kept c c'" and "client_state c' = client_state c"
  using publish_outcome [OF assms] wait_list_ok_publish [OF assms]
  by (simp_all add: session_kept_def session_inv_def pub_frame_def io_step_def)

lemma session_kept_MQTTSubscribe:
  assumes "MQTTSubscribe P f q i fp ctx c = Some (rc, c')" and "writes_bounded P"
  shows "session_kept c c'" and "rc \<noteq> SUCCESS_RETURN \<Longrightarrow> client_state c' = client_state c"
proof -
  note out = MQTTSubscribe_outcome [OF assms]
  show "rc \<noteq> SUCCESS_RETURN \<Longrightarrow> client_state c' = client_state c"
    using out io_stepD(2) by auto
  show "session_kept c c'"
  proof (cases "rc = SUCCESS_RETURN")
    case False
    with out show ?thesis by (simp add: session_kept_io)
  next
    case True
    let ?h = "\<lparr>th_handle = \<lparr>h_fp = Some fp, pcontext = ctx\<rparr>, topic_filter = c_str f\<rparr>"
    obtain c1 where c1: "io_step c c1" "c' = add_topic_handle ?h c1" using out True by auto
    have "session_kept c1 c'"
      using add_topic_handle_eq [of c1 ?h] unfolding c1(2)
      by (auto simp: session_kept_def session_inv_def with_handle_def)
    with session_kept_io [OF c1(1)] show ?thesis by (rule session_kept_trans)
  qed
qed

lemma session_kept_MQTTUnsubscribe:
  assumes "MQTTUnsubscribe P f i c = Some (rc, c')" and "writes_bounded P"
  shows "session_kept c c'" and "filters_c (list_sub_handle c) \<Longrightarrow> client_state c' = client_state c"
proof -
  note out = MQTTUnsubscribe_outcome [OF assms]
  then show "filters_c (list_sub_handle c) \<Longrightarrow> client_state c' = client_state c"
    by (auto simp: io_step_def split: if_splits)
  have "session_kept c c'" if "filters_c (list_sub_handle c)"
    using out [OF that]
    by (auto simp: session_kept_def session_inv_def io_step_def filters_c_def list_all_iff split: if_splits)
  then show "session_kept c c'" by (auto simp: session_kept_def session_inv_def)
qed

lemma session_kept_publish:
  assumes "wrapper_mqtt_publish P t m c = Some (rc, m', c')" and "writes_bounded P"
  shows "session_kept c c'"
proof (cases "\<exists>topic msg. t = Some topic \<and> m = Some msg \<and> ti_payload msg \<noteq> None
      \<and> iotx_mc_check_topic t TOPIC_NAME_TYPE None = Some 0 \<and> wrapper_mqtt_check_state c \<noteq> 0")
  case False
  with assms(1) have "c' = c"
    by (auto simp: wrapper_mqtt_publish_def split: option.splits if_splits Option.bind_splits)
  then show ?thesis by (simp add: session_kept_io)
next
  case True
  then obtain topic msg where args: "t = Some topic" "m = Some msg" "ti_payload msg \<noteq> None"
    "iotx_mc_check_topic (Some topic) TOPIC_NAME_TYPE None = Some 0" "client_state c = IOTX_MC_STATE_CONNECTED"
    by (auto simp: check_state_connected)
  obtain n c1 where next': "iotx_mc_get_next_packetid c = (n, c1)" by force
  note id = session_kept_next_id [OF next']
  have same: "session_kept c c" by (rule session_kept_io) simp
  let ?c2 = "if ti_qos msg = 1 then c1 else c"
  have c2: "session_kept c ?c2" "client_state ?c2 = IOTX_MC_STATE_CONNECTED"
    using id same args(5) by simp_all
  have "(\<exists>msg r c3. MQTTPublish P topic msg ?c2 = Some (r, c3)
          \<and> c' \<in> {c3, iotx_mc_set_client_state IOTX_MC_STATE_DISCONNECTED c3})
        \<or> c' = c1"
    using assms(1) args next'
    by (auto simp: wrapper_mqtt_publish_def check_state_connected Let_def split: if_splits Option.bind_splits) blast+
  then show ?thesis
  proof (elim disjE exE conjE)
    fix msg' r c3
    assume run: "MQTTPublish P topic msg' ?c2 = Some (r, c3)"
      and c': "c' \<in> {c3, iotx_mc_set_client_state IOTX_MC_STATE_DISCONNECTED c3}"
    note pub = session_kept_MQTTPublish [OF run assms(2)]
    show ?thesis
      using session_kept_failed [OF session_kept_trans [OF c2(1) pub(1)] _ c'] pub(2) c2(2) by simp
  qed (use id(1) in simp)
qed

lemma session_kept_subscribe:
  assumes "wrapper_mqtt_subscribe P t q fp ctx c = Some (rc, c')" and "writes_bounded P"
  shows "session_kept c c'"
proof (cases "\<exists>f func. t = Some f \<and> fp = Some func \<and> c_strlen f \<noteq> 0")
  case False
  with assms(1) have "c' = c" by (auto simp: wrapper_mqtt_subscribe_def split: option.splits if_splits)
  then show ?thesis by (simp add: session_kept_io)
next
  case True
  then obtain f func where args: "t = Some f" "fp = Some func" "c_strlen f \<noteq> 0" by blast
  obtain i c1 where c1: "iotx_mc_get_next_packetid c = (i, c1)" by force
  note id = session_kept_next_id [OF c1]
  consider (run) r c2 where "client_state c1 = IOTX_MC_STATE_CONNECTED" "MQTTSubscribe P f q i func ctx c1 = Some (r, c2)"
      "r = SUCCESS_RETURN \<and> c' = c2
        \<or> r \<noteq> SUCCESS_RETURN \<and> c' \<in> {c2, iotx_mc_set_client_state IOTX_MC_STATE_DISCONNECTED c2}"
    | (refused) "c' = c1"
    using assms(1) args c1
    by (auto simp: wrapper_mqtt_subscribe_def check_state_connected split: if_splits Option.bind_splits)
  then show ?thesis
  proof cases
    case (run r c2)
    note sub = session_kept_MQTTSubscribe [OF run(2) assms(2)]
    have kept: "session_kept c c2" using session_kept_trans [OF id(1) sub(1)] .
    show ?thesis
    proof (cases "r = SUCCESS_RETURN")
      case True
      with run(3) kept show ?thesis by simp
    next
      case False
      with session_kept_failed [OF kept] sub(2) run(1,3) show ?thesis by simp
    qed
  qed (use id(1) in simp)
qed

lemma session_kept_unsubscribe:
  assumes "wrapper_mqtt_unsubscribe P t c = Some (rc, c')" and "writes_bounded P"
  shows "session_kept c c'"
proof (cases t)
  case None
  with assms(1) have "c' = c" by (simp add: wrapper_mqtt_unsubscribe_def)
  then show ?thesis by (simp add: session_kept_io)
next
  case (Some f)
  obtain i c1 where c1: "iotx_mc_get_next_packetid c = (i, c1)" by force
  note id = session_kept_next_id [OF c1]
  have "(\<exists>r c2. client_state c1 = IOTX_MC_STATE_CONNECTED \<and> MQTTUnsubscribe P f i c1 = Some (r, c2)
        \<and> c' \<in> {c2, iotx_mc_set_client_state IOTX_MC_STATE_DISCONNECTED c2})
      \<or> c' = c1"
    using assms(1) Some c1
    by (auto simp: wrapper_mqtt_unsubscribe_def check_state_connected split: if_splits Option.bind_splits)
  then show ?thesis
  proof (elim disjE exE conjE)
    fix r c2
    assume conn: "client_state c1 = IOTX_MC_STATE_CONNECTED" and run: "MQTTUnsubscribe P f i c1 = Some (r, c2)"
      and c': "c' \<in> {c2, iotx_mc_set_client_state IOTX_MC_STATE_DISCONNECTED c2}"
    note unsub = session_kept_MQTTUnsubscribe [OF run assms(2)]
    have "session_kept c c' " if "session_inv c"
    proof -
      have "filters_c (list_sub_handle c1)"
        using id(1) that by (simp add: session_kept_def session_inv_def)
      with session_kept_failed [OF session_kept_trans [OF id(1) unsub(1)]] unsub(2) conn
        c' show ?thesis by simp
    qed
    then show ?thesis by (auto simp: session_kept_def)
  qed (use id(1) in simp)
qed

lemma session_kept_sync_enqueue: "sync_enqueue P ret subed c = (b, c') \<Longrightarrow> session_kept c c'"
  by (auto simp: sync_enqueue_def HAL_Malloc_def hal_call_def session_kept_def session_inv_def Let_def
      split: if_splits)

lemma session_kept_acks: "session_kept c (c\<lparr>list_sub_sync_ack := ns\<rparr>)"
  by (simp add: session_kept_def session_inv_def)

lemma session_kept_sync_loop:
  assumes "subscribe_sync_loop P timer t q fp ctx ret subed c = Some (r, c')" and "writes_bounded P"
  shows "session_kept c c'"
proof (rule subscribe_sync_loop.raw_induct [where P = "\<lambda>pl timer t q fp ctx ret subed c rc.
      writes_bounded pl \<longrightarrow> session_kept c (snd rc)", OF _ assms(1), simplified, rule_format, OF _ assms(2)],
    goal_cases)
  case (1 f pl timer topic qos func ctx ret subed c y)
  note IH = 1(1) [OF _ 1(3)]
  obtain r1 leave c1 where first: "(if ret < 0
           then do { (r, c) \<leftarrow> wrapper_mqtt_subscribe pl topic qos func ctx c;
                     Some (r, in_yield_cb c \<noteq> 0 \<or> qos = 3, c) }
           else Some (ret, False, c)) = Some (r1, leave, c1)"
    using 1(2) by (auto simp: bind_eq_Some_conv)
  have k1: "session_kept c c1"
    using first session_kept_subscribe [OF _ 1(3)]
    by (auto simp: bind_eq_Some_conv session_kept_io split: if_splits)
  obtain subed' c2 where enq: "sync_enqueue pl r1 subed c1 = (subed', c2)" by force
  show ?case
  proof (cases leave)
    case True
    with 1(2) first k1 show ?thesis by auto
  next
    case False
    obtain r3 c3 where yield': "wrapper_mqtt_yield pl 100 c2 = Some (r3, c3)"
      using 1(2) first enq False by (auto simp: bind_eq_Some_conv)
    have k3: "session_kept c c3"
      using session_kept_trans [OF session_kept_trans [OF k1 session_kept_sync_enqueue [OF enq]]
          session_kept_yield [OF yield']] .
    have acks: "session_kept c (c4\<lparr>list_sub_sync_ack := ns\<rparr>)" if "session_kept c c4" for c4 ns
      using session_kept_trans [OF that session_kept_acks] .
    have expiry: "session_kept c c5" if "session_kept c c4" "mc_time_is_expired pl timer c4 = (e, c5)" for c4 c5 e
      using session_kept_trans [OF that(1) session_kept_io [OF io_steps(9) [OF that(2)]]] .
    obtain hit ack where head: "(case list_sub_sync_ack c3 of [] \<Rightarrow> (False, IOTX_MQTT_EVENT_UNDEF)
        | node # _ \<Rightarrow> (ss_packet_id node = r1, ack_type node)) = (hit, ack)" by force
    let ?again = "hit \<and> (ack = IOTX_MQTT_EVENT_SUBCRIBE_NACK \<or> ack = IOTX_MQTT_EVENT_SUBCRIBE_TIMEOUT)"
    let ?c4 = "if ?again then c3\<lparr>list_sub_sync_ack := tl (list_sub_sync_ack c3)\<rparr> else c3"
    obtain e c5 where e: "mc_time_is_expired pl timer ?c4 = (e, c5)" by force
    have "session_kept c ?c4" using k3 acks by simp
    then have k5: "session_kept c c5" using e by (rule expiry)
    show ?thesis
    proof (cases "hit \<and> ack = IOTX_MQTT_EVENT_SUBCRIBE_SUCCESS")
      case True
      then have "y = (r1, c3\<lparr>list_sub_sync_ack := tl (list_sub_sync_ack c3)\<rparr>)"
        using 1(2) first enq yield' False head by simp
      with acks [OF k3] show ?thesis by simp
    next
      case other: False
      have rest: "(if e then Some (-1, c5\<lparr>list_sub_sync_ack :=
            filter (\<lambda>n. ss_packet_id n \<noteq> (if ?again then -1 else r1)) (list_sub_sync_ack c5)\<rparr>)
          else f pl timer topic qos func ctx (if ?again then -1 else r1) (if ?again then False else subed') c5) = Some y"
        using 1(2) first enq yield' False head e unfolding Let_def by (simp add: other)
      show ?thesis
      proof (cases e)
        case True
        with rest acks [OF k5] show ?thesis by auto
      next
        case False
        with rest IH have "session_kept c5 (snd y)" by simp
        with k5 show ?thesis by (rule session_kept_trans)
      qed
    qed
  qed
qed

section \<open>Sessions\<close>

lemma create_mutexes_result: "create_mutexes n P c = (ok, c') \<Longrightarrow> io_step c c'"
  by (induction n arbitrary: c) (auto simp: hal_call_def io_step_def split: if_splits)

lemma init_parameters:
  "500 \<le> (if r < CONFIG_MQTT_REQ_TIMEOUT_MIN \<or> r > CONFIG_MQTT_REQ_TIMEOUT_MAX then CONFIG_MQTT_REQUEST_TIMEOUT else r :: u32)"
  "(if r < CONFIG_MQTT_REQ_TIMEOUT_MIN \<or> r > CONFIG_MQTT_REQ_TIMEOUT_MAX then CONFIG_MQTT_REQUEST_TIMEOUT else r :: u32) \<le> 5000"
  by auto

lemma session_inv_init:
  assumes "wrapper_mqtt_init P n ps w = Some c" and "in_yield_cb w = 0"
  shows "session_inv c" and "client_state c = IOTX_MC_STATE_INITIALIZED"
proof -
  obtain ok w1 where w1: "HAL_Malloc P n w = (ok, w1)" by force
  then have y: "in_yield_cb (zeroed_client w1) = 0"
    using io_steps(2) [OF w1] assms(2) by (simp add: zeroed_client_def io_step_def)
  obtain g c1 where c1: "create_mutexes 1 P (zeroed_client w1) = (g, c1)" by force
  obtain l c2 where c2: "create_mutexes 4 P c1 = (l, c2)" by force
  note step = io_step_trans [OF create_mutexes_result [OF c1] create_mutexes_result [OF c2]]
  have init: "iotx_mc_init P ps (zeroed_client w1) = (SUCCESS_RETURN, c)"
    using assms(1) w1 by (auto simp: wrapper_mqtt_init_def split: if_splits prod.splits)
  have same: "packet_id c2 = 0" "in_yield_cb c2 = 0"
    using step y by (simp_all add: io_step_def zeroed_client_def blank_client_def)
  then show "session_inv c" "client_state c = IOTX_MC_STATE_INITIALIZED"
    using init c1 c2
    by (auto simp: iotx_mc_init_def iotx_mc_set_connect_params_def iotx_mc_set_client_state_def Let_def
        session_inv_def wait_list_ok_def backoff_intervals_def init_connect_data_def split: if_splits)
qed

text \<open>
  The calls of the public interface on a client, as steps. The connection is made once, on the
  initialised client (\<open>IOT_MQTT_Construct\<close>); reconnecting is up to \<open>wrapper_mqtt_yield\<close>.
\<close>

inductive session_step :: "platform \<Rightarrow> iotx_mc_client_t \<Rightarrow> iotx_mc_client_t \<Rightarrow> bool" for P where
  connecting: "client_state c = IOTX_MC_STATE_INITIALIZED \<Longrightarrow> wrapper_mqtt_connect P c = Some (rc, c')
      \<Longrightarrow> session_step P c c'"
| yielding: "wrapper_mqtt_yield P ms c = Some (rc, c') \<Longrightarrow> session_step P c c'"
| publishing: "wrapper_mqtt_publish P t m c = Some (rc, m', c') \<Longrightarrow> session_step P c c'"
| subscribing: "wrapper_mqtt_subscribe P t q fp ctx c = Some (rc, c') \<Longrightarrow> session_step P c c'"
| subscribing_sync: "wrapper_mqtt_subscribe_sync P t q fp ctx ms c = Some (rc, c') \<Longrightarrow> session_step P c c'"
| unsubscribing: "wrapper_mqtt_unsubscribe P t c = Some (rc, c') \<Longrightarrow> session_step P c c'"

lemma session_kept_connect:
  assumes "wrapper_mqtt_connect P c = Some (rc, c')" and "client_state c = IOTX_MC_STATE_INITIALIZED"
  shows "session_kept c c'"
proof (cases "in_yield_cb c = 0")
  case True
  with session_kept_linked [OF connect_linked [OF assms(1)] assms(2)] show ?thesis by simp
next
  case False
  then show ?thesis by (simp add: session_kept_def session_inv_def)
qed

lemma session_kept_subscribe_sync:
  assumes "wrapper_mqtt_subscribe_sync P t q fp ctx ms c = Some (rc, c')" and "writes_bounded P"
  shows "session_kept c c'"
proof -
  obtain timer c1 where c1: "mc_countdown_ms P fresh_timer (word_of_int ms) c = (timer, c1)" by force
  have "session_kept c1 c'"
    using assms(1) c1 session_kept_sync_loop [OF _ assms(2)] by (auto simp: wrapper_mqtt_subscribe_sync_def Let_def)
  with session_kept_io [OF io_steps(6) [OF c1]] show ?thesis by (rule session_kept_trans)
qed

lemma session_kept_step:
  "session_step P c c' \<Longrightarrow> writes_bounded P \<Longrightarrow> session_kept c c'"
  by (induction rule: session_step.induct)
    (rule session_kept_connect session_kept_yield session_kept_publish session_kept_subscribe
      session_kept_subscribe_sync session_kept_unsubscribe; assumption)+

lemma session_kept_steps:
  "(session_step P)\<^sup>*\<^sup>* c c' \<Longrightarrow> writes_bounded P \<Longrightarrow> session_kept c c'"
proof (induction rule: rtranclp_induct)
  case base
  show ?case by (rule session_kept_io) simp
next
  case (step c1 c2)
  with session_kept_step [OF step(2)] show ?case by (blast intro: session_kept_trans)
qed

text \<open>
  Property C1: the invariant of a session. Whatever the broker sends, the network does and
  the clock shows, after \<open>wrapper_mqtt_init\<close> and any sequence of connecting, yielding,
  publishing, subscribing (also synchronously) and unsubscribing: packet identifiers stay in
  MQTT's range, at most 20 publishes wait and each holds its whole packet, no subscription is
  registered twice, the reconnection interval is one of the back-off's, at most one ping is
  unanswered, and the configured intervals are within their limits.
\<close>

theorem session_invariant:
  assumes "wrapper_mqtt_init P n ps w = Some c0" and "in_yield_cb w = 0" and "writes_bounded P"
    and "(session_step P)\<^sup>*\<^sup>* c0 c"
  shows "session_inv c"
  using session_kept_steps [OF assms(4,3)] session_inv_init [OF assms(1,2)] by (simp add: session_kept_def)

section \<open>What moves the connection\<close>

lemma publish_link:
  assumes "wrapper_mqtt_publish P t m c = Some (rc, m', c')" and "writes_bounded P"
  shows "client_state c' = (if rc = MQTT_NETWORK_ERROR then IOTX_MC_STATE_DISCONNECTED else client_state c)
       \<and> (rc = MQTT_NETWORK_ERROR \<longrightarrow> client_state c = IOTX_MC_STATE_CONNECTED)"
proof -
  obtain n c1 where next': "iotx_mc_get_next_packetid c = (n, c1)" by force
  then have same: "client_state c1 = client_state c" by (rule session_kept_next_id)
  have pos: "uint (w :: u16) \<noteq> MQTT_NETWORK_ERROR" for w using uint_ge_0 [of w] by linarith
  have pub: "client_state c3 = client_state c2" if "MQTTPublish P t m c2 = Some (r, c3)" for t m c2 r c3
    using session_kept_MQTTPublish(2) [OF that assms(2)] .
  from assms(1) next' show ?thesis
    by (auto simp: wrapper_mqtt_publish_def check_state_connected Let_def same pos iotx_mc_set_client_state_def
        dest!: pub session_kept_next_id(2) split: option.splits if_splits Option.bind_splits)
qed

lemma subscribe_link:
  assumes "wrapper_mqtt_subscribe P t q fp ctx c = Some (rc, c')" and "writes_bounded P" and "packet_id c \<le> 65535"
  shows "client_state c' = (if rc = MQTT_NETWORK_ERROR then IOTX_MC_STATE_DISCONNECTED else client_state c)
       \<and> (rc = MQTT_NETWORK_ERROR \<longrightarrow> client_state c = IOTX_MC_STATE_CONNECTED)"
proof -
  obtain n c1 where next': "iotx_mc_get_next_packetid c = (n, c1)" by force
  then have same: "client_state c1 = client_state c" by (rule session_kept_next_id)
  have pos: "n \<noteq> MQTT_NETWORK_ERROR"
    using next_packetid(4) [OF assms(3) next'] by simp
  have sub: "client_state c3 = client_state c2" if run: "MQTTSubscribe P f q i func ctx c2 = Some (r, c3)"
    for f i func c2 r c3
  proof (cases "r = SUCCESS_RETURN")
    case False
    then show ?thesis using session_kept_MQTTSubscribe(2) [OF run assms(2)] by simp
  next
    case True
    then show ?thesis
      using MQTTSubscribe_outcome [OF run assms(2)] 
      by (auto simp: add_topic_handle_def io_step_def split: option.splits)
  qed
  from assms(1) next' show ?thesis
    by (auto simp: wrapper_mqtt_subscribe_def check_state_connected Let_def same pos iotx_mc_set_client_state_def
        dest!: sub session_kept_next_id(2) split: option.splits if_splits Option.bind_splits)
qed

lemma unsubscribe_link:
  assumes "wrapper_mqtt_unsubscribe P t c = Some (rc, c')" and "writes_bounded P" and "packet_id c \<le> 65535"
    and "filters_c (list_sub_handle c)"
  shows "client_state c' = (if rc = MQTT_NETWORK_ERROR then IOTX_MC_STATE_DISCONNECTED else client_state c)
       \<and> (rc = MQTT_NETWORK_ERROR \<longrightarrow> client_state c = IOTX_MC_STATE_CONNECTED)"
proof -
  obtain n c1 where next': "iotx_mc_get_next_packetid c = (n, c1)" by force
  then have same: "client_state c1 = client_state c" "list_sub_handle c1 = list_sub_handle c"
    by (auto simp: iotx_mc_get_next_packetid_def Let_def split: if_splits)
  have pos: "n \<noteq> MQTT_NETWORK_ERROR"
    using next_packetid(4) [OF assms(3) next'] by simp
  have unsub: "client_state c3 = client_state c1" if "MQTTUnsubscribe P f i c1 = Some (r, c3)" for f i r c3
    using session_kept_MQTTUnsubscribe(2) [OF that assms(2)] assms(4) same by simp
  from assms(1) next' show ?thesis
    by (auto simp: wrapper_mqtt_unsubscribe_def check_state_connected Let_def same pos iotx_mc_set_client_state_def
        dest!: unsub session_kept_next_id(2) split: option.splits if_splits Option.bind_splits)
qed


text \<open>The client as \<open>wrapper_mqtt_yield\<close> hands it to the keep-alive.\<close>

abbreviation yielding_client :: "int \<Rightarrow> iotx_mc_client_t \<Rightarrow> iotx_mc_client_t" where
  "yielding_client ms c \<equiv> c\<lparr>cycle_timeout_ms := word_of_int (if ms = 0 then 10 else ms)\<rparr>"

lemma yield_link:
  assumes "wrapper_mqtt_yield P ms c = Some (rc, c')" and "0 \<le> ms" and "session_inv c"
  obtains c1 where "iotx_mc_keepalive P (yielding_client ms c) = Some c1"
    "client_state c' = client_state c1
     \<or> client_state c1 = IOTX_MC_STATE_CONNECTED \<and> client_state c' = IOTX_MC_STATE_DISCONNECTED"
proof -
  obtain c1 where c1: "iotx_mc_keepalive P (yielding_client ms c) = Some c1" and c2: "mqtt_cycle P c1 = Some c'"
    using assms(1,2) by (auto simp: wrapper_mqtt_yield_def bind_eq_Some_conv Let_def)
  obtain t c3 where c3: "mc_countdown_ms P fresh_timer (cycle_timeout_ms c1) c1 = (t, c3)" by force
  have "session_inv (yielding_client ms c)" using assms(3) by (simp add: session_inv_def)
  note kept = keepalive_session [OF c1 this]
  have "client_state c3 = client_state c1" "in_yield_cb c3 = 0"
    using kept(1) io_steps(6) [OF c3] by (simp_all add: session_inv_pinged_def session_inv_def io_step_def)
  moreover have "cycled c3 c'"
    using mqtt_cycle_loop_cycled [of P t c3 c'] c2 c3 calculation(2) by (simp add: mqtt_cycle_def)
  ultimately show thesis using that [OF c1] by (auto simp: cycled_def)
qed

text \<open>
  The moves of \<open>wrapper_mqtt_yield\<close>: \<open>c1\<close> is the client after the keep-alive, which the
  receiving loop can then only disconnect.
\<close>

definition yield_moves :: "platform \<Rightarrow> int \<Rightarrow> iotx_mc_client_t \<Rightarrow> iotx_mc_client_t \<Rightarrow> bool" where
  "yield_moves P ms c c' \<longleftrightarrow>
     (\<exists>c1. iotx_mc_keepalive P (yielding_client ms c) = Some c1 \<and>
       (case client_state c of
         IOTX_MC_STATE_INITIALIZED \<Rightarrow> client_state c' = IOTX_MC_STATE_INITIALIZED
       | IOTX_MC_STATE_CONNECTED \<Rightarrow>
           client_state c1 = IOTX_MC_STATE_CONNECTED
             \<and> client_state c' \<in> {IOTX_MC_STATE_CONNECTED, IOTX_MC_STATE_DISCONNECTED}
           \<or> client_state c' = IOTX_MC_STATE_DISCONNECTED_RECONNECTING \<and> ping_due P c
             \<and> (\<exists>sent. concat sent \<in> {[], [0xC0]} \<and> observed c1 = observed c @ map Sent sent
                  @ callback_seen (handle_event c) IOTX_MQTT_EVENT_DISCONNECT @ [NetDisconnect])
       | IOTX_MC_STATE_DISCONNECTED \<Rightarrow> client_state c' = IOTX_MC_STATE_DISCONNECTED_RECONNECTING
       | IOTX_MC_STATE_DISCONNECTED_RECONNECTING \<Rightarrow>
           client_state c' = IOTX_MC_STATE_DISCONNECTED_RECONNECTING
           \<or> client_state c' \<in> {IOTX_MC_STATE_CONNECTED, IOTX_MC_STATE_DISCONNECTED}
             \<and> (\<exists>c2. connection_accepted P ((yielding_client ms c)\<lparr>ping_mark := 0\<rparr>) c2
                  \<and> observed c1 = observed c2 @ callback_seen (handle_event c) IOTX_MQTT_EVENT_RECONNECT)
       | _ \<Rightarrow> False))"

lemma yield_transitions:
  assumes "wrapper_mqtt_yield P ms c = Some (rc, c')" and "0 \<le> ms" and "session_inv c" and "writes_bounded P"
  shows "yield_moves P ms c c'"
proof -
  obtain c1 where c1: "iotx_mc_keepalive P (yielding_client ms c) = Some c1"
    and st: "client_state c' = client_state c1
      \<or> client_state c1 = IOTX_MC_STATE_CONNECTED \<and> client_state c' = IOTX_MC_STATE_DISCONNECTED"
    using assms(1-3) by (rule yield_link)
  have y: "in_yield_cb (yielding_client ms c) = 0" using assms(3) by (simp add: session_inv_def)
  have due: "ping_due P (yielding_client ms c) = ping_due P c" by (simp add: ping_due_def)
  note key = keepalive_result [OF c1 y assms(4)]
  show ?thesis unfolding yield_moves_def
  proof (intro exI [of _ c1] conjI c1, goal_cases)
    case 1
    have "client_state c \<notin> {IOTX_MC_STATE_INVALID, IOTX_MC_STATE_CONNECT_BLOCK}"
      using assms(3) by (simp add: session_inv_def)
    with key st due show ?case by (cases "client_state c") auto
  qed
qed

text \<open>A request disconnects the client exactly when it reports the error of the network.\<close>

definition request_moves :: "int \<Rightarrow> iotx_mc_client_t \<Rightarrow> iotx_mc_client_t \<Rightarrow> bool" where
  "request_moves rc c c' \<longleftrightarrow>
     client_state c' = (if rc = MQTT_NETWORK_ERROR then IOTX_MC_STATE_DISCONNECTED else client_state c)
     \<and> (rc = MQTT_NETWORK_ERROR \<longrightarrow> client_state c = IOTX_MC_STATE_CONNECTED)"

text \<open>
  Property C2: what each call does to the connection of a client in a session.
  \<open>wrapper_mqtt_connect\<close> connects an initialised client only by an accepting CONNACK and
  otherwise leaves it initialised. \<open>wrapper_mqtt_yield\<close> leaves an initialised client alone;
  a connected one stays connected, or is disconnected by the receiving loop, or is
  reconnecting because a due ping was not sent completely; a disconnected one becomes
  reconnecting; a reconnecting one stays so or was connected again by an accepting CONNACK
  (after which the receiving loop may have lost it); with a negative time nothing changes.
  Publishing, subscribing and unsubscribing disconnect the client exactly when they return
  \<open>MQTT_NETWORK_ERROR\<close>, which they do only on a connected one, and otherwise leave its state.
\<close>

theorem session_refines:
  assumes "wrapper_mqtt_init P n ps w = Some c0" and "in_yield_cb w = 0" and "writes_bounded P"
    and "(session_step P)\<^sup>*\<^sup>* c0 c"
  shows "(\<forall>rc c'. client_state c = IOTX_MC_STATE_INITIALIZED \<longrightarrow> wrapper_mqtt_connect P c = Some (rc, c') \<longrightarrow>
            (if rc = SUCCESS_RETURN
             then client_state c' = IOTX_MC_STATE_CONNECTED \<and> connection_accepted P c c'
             else client_state c' = IOTX_MC_STATE_INITIALIZED))
       \<and> (\<forall>ms rc c'. wrapper_mqtt_yield P ms c = Some (rc, c') \<longrightarrow>
            (if ms < 0 then c' = c else yield_moves P ms c c'))
       \<and> (\<forall>t m rc m' c'. wrapper_mqtt_publish P t m c = Some (rc, m', c') \<longrightarrow> request_moves rc c c')
       \<and> (\<forall>t q fp ctx rc c'. wrapper_mqtt_subscribe P t q fp ctx c = Some (rc, c') \<longrightarrow> request_moves rc c c')
       \<and> (\<forall>t rc c'. wrapper_mqtt_unsubscribe P t c = Some (rc, c') \<longrightarrow> request_moves rc c c')"
proof -
  have inv: "session_inv c"
    using session_kept_steps [OF assms(4,3)] session_inv_init [OF assms(1,2)] by (simp add: session_kept_def)
  then have ok: "packet_id c \<le> 65535" "filters_c (list_sub_handle c)" "in_yield_cb c = 0"
    by (simp_all add: session_inv_def)
  show ?thesis
  proof (intro conjI allI impI, goal_cases)
    case (1 rc c')
    with connect_linked [OF 1(2) ok(3)] connect_accepted [OF _ ok(3)] show ?case
      by (auto simp: linked_def io_step_def)
  next
    case (2 ms rc c')
    with yield_transitions [OF 2 _ inv assms(3)] show ?case by (auto simp: wrapper_mqtt_yield_def)
  next
    case (3 t m rc m' c')
    from publish_link [OF 3 assms(3)] show ?case by (simp add: request_moves_def)
  next
    case (4 t q fp ctx rc c')
    from subscribe_link [OF 4 assms(3) ok(1)] show ?case by (simp add: request_moves_def)
  next
    case (5 t rc c')
    from unsubscribe_link [OF 5 assms(3) ok(1,2)] show ?case by (simp add: request_moves_def)
  qed
qed

text \<open>A run: the client connects and publishes one message with QoS 1.\<close>

definition test_session :: "(iotx_mc_client_t \<times> iotx_mc_client_t \<times> iotx_mc_client_t) option" where
  "test_session =
     (let P = good_platform [0x20, 2, 0, 0] in
      do { c0 \<leftarrow> wrapper_mqtt_init P 200 test_params blank_client;
           (_, c1) \<leftarrow> wrapper_mqtt_connect P c0;
           (_, _, c2) \<leftarrow> wrapper_mqtt_publish P (Some (ascii ''/a/bc'')) (Some test_message) c1;
           Some (c0, c1, c2) })"

lemma good_platform_bounded: "writes_bounded (good_platform rx)"
  by (simp add: writes_bounded_def good_platform_def)

lemma test_session_run:
  obtains c0 c1 c2 where "wrapper_mqtt_init (good_platform [0x20, 2, 0, 0]) 200 test_params blank_client = Some c0"
    "session_step (good_platform [0x20, 2, 0, 0]) c0 c1" "session_step (good_platform [0x20, 2, 0, 0]) c1 c2"
    "wrapper_mqtt_connect (good_platform [0x20, 2, 0, 0]) c0 = Some (SUCCESS_RETURN, c1)"
    "client_state c1 = IOTX_MC_STATE_CONNECTED" "length (list_pub_wait_ack c2) = 1"
proof -
  have "map_option (\<lambda>(c0, c1, c2). (client_state c0, client_state c1, length (list_pub_wait_ack c2))) test_session
      = Some (IOTX_MC_STATE_INITIALIZED, IOTX_MC_STATE_CONNECTED, 1)"
    by code_simp
  then obtain c0 c1 c2 where run: "test_session = Some (c0, c1, c2)"
    and st: "client_state c0 = IOTX_MC_STATE_INITIALIZED" "client_state c1 = IOTX_MC_STATE_CONNECTED"
      "length (list_pub_wait_ack c2) = 1" by auto
  from run have "wrapper_mqtt_init (good_platform [0x20, 2, 0, 0]) 200 test_params blank_client = Some c0"
    and "session_step (good_platform [0x20, 2, 0, 0]) c0 c1" and "session_step (good_platform [0x20, 2, 0, 0]) c1 c2"
    using st by (auto simp: test_session_def Let_def bind_eq_Some_conv intro: session_step.intros)
  moreover obtain rc where con: "wrapper_mqtt_connect (good_platform [0x20, 2, 0, 0]) c0 = Some (rc, c1)"
    using run by (auto simp: test_session_def Let_def bind_eq_Some_conv)
  moreover have "in_yield_cb c0 = 0"
    using session_inv_init(1) [OF calculation(1)] by (simp add: blank_client_def session_inv_def)
  then have "rc = SUCCESS_RETURN"
    using connect_linked [OF con] st by (auto simp: linked_def io_step_def split: if_splits)
  ultimately show thesis using st that by blast
qed

theorem session_invariant_witness:
  "\<exists>c. session_inv c \<and> length (list_pub_wait_ack c) = 1"
proof -
  obtain c0 c1 c2 where run: "wrapper_mqtt_init (good_platform [0x20, 2, 0, 0]) 200 test_params blank_client = Some c0"
    "session_step (good_platform [0x20, 2, 0, 0]) c0 c1" "session_step (good_platform [0x20, 2, 0, 0]) c1 c2"
    "length (list_pub_wait_ack c2) = 1"
    by (rule test_session_run)
  then have "(session_step (good_platform [0x20, 2, 0, 0]))\<^sup>*\<^sup>* c0 c2" by (simp add: rtranclp.intros)
  with session_invariant [OF run(1) _ good_platform_bounded] run(4) show ?thesis
    by (auto simp: blank_client_def)
qed

theorem session_refines_witness:
  "\<exists>(c :: iotx_mc_client_t) c'. client_state c = IOTX_MC_STATE_INITIALIZED \<and> client_state c' = IOTX_MC_STATE_CONNECTED
     \<and> connection_accepted (good_platform [0x20, 2, 0, 0]) c c'"
proof -
  obtain c0 c1 c2 where run: "wrapper_mqtt_init (good_platform [0x20, 2, 0, 0]) 200 test_params blank_client = Some c0"
    "wrapper_mqtt_connect (good_platform [0x20, 2, 0, 0]) c0 = Some (SUCCESS_RETURN, c1)"
    by (rule test_session_run)
  have "in_yield_cb blank_client = 0" by (simp add: blank_client_def)
  from session_refines [OF run(1) this good_network_bounded rtranclp.rtrancl_refl] session_inv_init(2) [OF run(1) this] run(2)
  show ?thesis by (metis (full_types))
qed

end
