(* ===== verification/C_Buffer.thy ===== *)
theory C_Buffer
  imports Prelude
begin

text \<open>
  Arrays of characters of a fixed size that a function fills with strings: \<open>memset\<close>, \<open>strlen\<close> and
  \<open>memcpy\<close> at the end of what is there, each undefined outside the array. \<open>buf_of n s\<close> is an array
  of \<open>n\<close> bytes with the string \<open>s\<close> in it and zeros behind.
\<close>

named_theorems c_buf \<open>arrays that hold a string\<close>

definition mem_zero :: "bytes \<Rightarrow> nat \<Rightarrow> bytes option" where
  "mem_zero m n = (if n \<le> length m then Some (replicate n 0 @ drop n m) else None)"

definition mem_write :: "bytes \<Rightarrow> nat \<Rightarrow> bytes \<Rightarrow> bytes option" where
  "mem_write m i s = (if i + length s \<le> length m then Some (take i m @ s @ drop (i + length s) m) else None)"

definition buf_strlen :: "bytes \<Rightarrow> nat option" where
  "buf_strlen m = (if 0 \<in> set m then Some (length (takeWhile (\<lambda>b. b \<noteq> 0) m)) else None)"

text \<open>\<open>memcpy(m + strlen(m), s, strlen(s))\<close> and the string that an array holds.\<close>

definition str_append :: "bytes \<Rightarrow> bytes \<Rightarrow> bytes option" where
  "str_append m s = do { n \<leftarrow> buf_strlen m; mem_write m n s }"

definition buf_str :: "bytes \<Rightarrow> bytes option" where
  "buf_str m = do { n \<leftarrow> buf_strlen m; Some (take n m) }"

definition buf_of :: "nat \<Rightarrow> bytes \<Rightarrow> bytes" where
  "buf_of n s = s @ replicate (n - length s) 0"

lemma buf_of_empty: "replicate n 0 = buf_of n []"
  by (simp add: buf_of_def)

lemma length_buf_of [c_buf]: "length s \<le> n \<Longrightarrow> length (buf_of n s) = n"
  by (simp add: buf_of_def)

lemma mem_zero_all [c_buf]: "length m = n \<Longrightarrow> mem_zero m n = Some (buf_of n [])"
  by (simp add: mem_zero_def buf_of_def)

lemma takeWhile_c_str: "is_c_str s \<Longrightarrow> takeWhile (\<lambda>b. b \<noteq> 0) (s @ replicate n 0) = s"
  by (induction s) (auto simp: takeWhile_eq_Nil_iff)

lemma buf_strlen_inside [c_buf]: "is_c_str s \<Longrightarrow> length s < n \<Longrightarrow> buf_strlen (buf_of n s) = Some (length s)"
  by (simp add: buf_strlen_def buf_of_def takeWhile_c_str)

lemma buf_strlen_full [c_buf]: "is_c_str s \<Longrightarrow> n \<le> length s \<Longrightarrow> buf_strlen (buf_of n s) = None"
  by (simp add: buf_strlen_def buf_of_def is_c_str_def)

lemma buf_str_inside [c_buf]: "is_c_str s \<Longrightarrow> length s < n \<Longrightarrow> buf_str (buf_of n s) = Some s"
  by (simp add: buf_str_def buf_strlen_inside) (simp add: buf_of_def)

lemma buf_str_full [c_buf]: "is_c_str s \<Longrightarrow> n \<le> length s \<Longrightarrow> buf_str (buf_of n s) = None"
  by (simp add: buf_str_def buf_strlen_full)

lemma mem_write_end:
  "length s + length t \<le> n \<Longrightarrow> mem_write (buf_of n s) (length s) t = Some (buf_of n (s @ t))"
  by (simp add: mem_write_def buf_of_def)

lemma mem_write_start [c_buf]: "length t \<le> n \<Longrightarrow> mem_write (buf_of n []) 0 t = Some (buf_of n t)"
  using mem_write_end [of "[]" t n] by simp

lemma str_append_inside [c_buf]:
  "is_c_str s \<Longrightarrow> length s < n \<Longrightarrow> length s + length t \<le> n \<Longrightarrow> str_append (buf_of n s) t = Some (buf_of n (s @ t))"
  by (simp add: str_append_def buf_strlen_inside mem_write_end)

text \<open>Overwriting the last character.\<close>

lemma mem_write_last:
  assumes "length s < n"
  shows "mem_write (buf_of n (s @ [c])) (length s) [d] = Some (buf_of n (s @ [d]))"
  using assms by (simp add: mem_write_def buf_of_def)

end
