(* ===== verification/Infra_Hash.thy ===== *)
theory Infra_Hash
  imports Prelude
begin

text \<open>
  The hash functions of the SDK: \<open>infra/infra_md5.c\<close>, \<open>infra/infra_sha1.c\<close> and
  \<open>infra/infra_sha256.c\<close>, which share their streaming code line by line, and the second SHA-256
  of \<open>dev_bind/impl/sha256.c\<close>, which feeds its block byte by byte. The streaming code is proved
  once, in the locale \<open>md_hash\<close> over a compression function, and the locale is interpreted for
  the four compression functions.
\<close>

section \<open>Words and bytes\<close>

text \<open>\<open>GET_UINT32_BE\<close>, \<open>PUT_UINT32_BE\<close> and their little-endian counterparts.\<close>

definition get_uint32_be :: "bytes \<Rightarrow> nat \<Rightarrow> u32" where
  "get_uint32_be b i = push_bit 24 (ucast (b ! i)) OR push_bit 16 (ucast (b ! (i + 1)))
     OR push_bit 8 (ucast (b ! (i + 2))) OR ucast (b ! (i + 3))"

definition put_uint32_be :: "u32 \<Rightarrow> bytes" where
  "put_uint32_be n = [ucast (drop_bit 24 n), ucast (drop_bit 16 n), ucast (drop_bit 8 n), ucast n]"

definition get_uint32_le :: "bytes \<Rightarrow> nat \<Rightarrow> u32" where
  "get_uint32_le b i = ucast (b ! i) OR push_bit 8 (ucast (b ! (i + 1)))
     OR push_bit 16 (ucast (b ! (i + 2))) OR push_bit 24 (ucast (b ! (i + 3)))"

definition put_uint32_le :: "u32 \<Rightarrow> bytes" where
  "put_uint32_le n = [ucast (n AND 0xFF), ucast (drop_bit 8 n AND 0xFF), ucast (drop_bit 16 n AND 0xFF),
     ucast (drop_bit 24 n AND 0xFF)]"

text \<open>The 64-bit length of a message in bits, from its two halves.\<close>

definition msglen_be :: "u32 \<Rightarrow> u32 \<Rightarrow> bytes" where
  "msglen_be high low = put_uint32_be high @ put_uint32_be low"

definition msglen_le :: "u32 \<Rightarrow> u32 \<Rightarrow> bytes" where
  "msglen_le high low = put_uint32_le low @ put_uint32_le high"

section \<open>The streaming code\<close>

record hash_context =
  total0 :: u32
  total1 :: u32
  h_state :: "u32 list"
  h_buffer :: bytes

text \<open>\<open>memset(ctx, 0, sizeof(ctx))\<close> with a state of \<open>n\<close> words.\<close>

definition hash_init :: "nat \<Rightarrow> hash_context" where
  "hash_init n = \<lparr>total0 = 0, total1 = 0, h_state = replicate n 0, h_buffer = replicate 64 0\<rparr>"

definition hash_starts :: "u32 list \<Rightarrow> hash_context \<Rightarrow> hash_context" where
  "hash_starts iv ctx = ctx\<lparr>total0 := 0, total1 := 0, h_state := iv\<rparr>"

text \<open>The loop over whole blocks of the input: the state, and the input that is left.\<close>

function hash_blocks :: "(u32 list \<Rightarrow> bytes \<Rightarrow> u32 list) \<Rightarrow> u32 list \<Rightarrow> bytes \<Rightarrow> u32 list \<times> bytes" where
  "hash_blocks process st input =
     (if 64 \<le> length input then hash_blocks process (process st (take 64 input)) (drop 64 input)
      else (st, input))"
  by pat_completeness auto
termination
  by (relation "measure (\<lambda>(_, _, input). length input)") auto

declare hash_blocks.simps [simp del]

text \<open>The 64-bit byte counter.\<close>

definition count_bytes :: "u32 \<Rightarrow> hash_context \<Rightarrow> hash_context" where
  "count_bytes ilen ctx =
     (let ctx = ctx\<lparr>total0 := (total0 ctx + ilen) AND 0xFFFFFFFF\<rparr>
      in if total0 ctx < ilen then ctx\<lparr>total1 := total1 ctx + 1\<rparr> else ctx)"

text \<open>A block that was begun is completed and compressed; the input that is left, and the new \<open>left\<close>.\<close>

definition complete_block ::
    "(u32 list \<Rightarrow> bytes \<Rightarrow> u32 list) \<Rightarrow> nat \<Rightarrow> bytes \<Rightarrow> hash_context \<Rightarrow> hash_context \<times> bytes \<times> nat" where
  "complete_block process left input ctx =
     (let fill = 64 - left in
      if left \<noteq> 0 \<and> fill \<le> length input
      then let buf = take left (h_buffer ctx) @ take fill input
           in (ctx\<lparr>h_buffer := buf, h_state := process (h_state ctx) buf\<rparr>, drop fill input, 0)
      else (ctx, input, left))"

definition keep_rest :: "nat \<Rightarrow> bytes \<Rightarrow> hash_context \<Rightarrow> hash_context" where
  "keep_rest left input ctx =
     (if 0 < length input
      then ctx\<lparr>h_buffer := take left (h_buffer ctx) @ input @ drop (left + length input) (h_buffer ctx)\<rparr>
      else ctx)"

definition block_update ::
    "(u32 list \<Rightarrow> bytes \<Rightarrow> u32 list) \<Rightarrow> bytes \<Rightarrow> u32 \<Rightarrow> hash_context \<Rightarrow> hash_context option" where
  "block_update process input ilen ctx =
     (if ilen = 0 then Some ctx
      else do {
        input \<leftarrow> mem_slice input 0 (unat ilen);
        let left = unat (total0 ctx AND 0x3F);
            ctx = count_bytes ilen ctx;
            (ctx, input, left) = complete_block process left input ctx;
            (st, input) = hash_blocks process (h_state ctx) input
        in Some (keep_rest left input (ctx\<lparr>h_state := st\<rparr>)) })"

definition hash_padding :: bytes where
  "hash_padding = 0x80 # replicate 63 0"

text \<open>The padding and the length; the digest is read from the state that is left.\<close>

definition block_finish ::
    "(u32 list \<Rightarrow> bytes \<Rightarrow> u32 list) \<Rightarrow> (u32 \<Rightarrow> u32 \<Rightarrow> bytes) \<Rightarrow> hash_context \<Rightarrow> hash_context option" where
  "block_finish process msglen ctx =
     (let high = drop_bit 29 (total0 ctx) OR push_bit 3 (total1 ctx);
          low = push_bit 3 (total0 ctx);
          last = total0 ctx AND 0x3F;
          padn = (if last < 56 then 56 - last else 120 - last)
      in do { ctx \<leftarrow> block_update process hash_padding padn ctx;
              block_update process (msglen high low) 8 ctx })"

section \<open>What the streaming code computes\<close>

text \<open>
  The reference: pad the message with a byte 0x80, zeros up to 8 bytes before the end of a
  block and the length in bits, and compress the blocks one after the other.
\<close>

definition md_pad :: "(u32 \<Rightarrow> u32 \<Rightarrow> bytes) \<Rightarrow> nat \<Rightarrow> bytes" where
  "md_pad msglen n =
     0x80 # replicate (nat ((55 - int n) mod 64)) 0
       @ (let bits = of_nat (8 * n) :: u64 in msglen (ucast (drop_bit 32 bits)) (ucast bits))"

function blocks_of :: "bytes \<Rightarrow> bytes list" where
  "blocks_of m = (if m = [] then [] else take 64 m # blocks_of (drop 64 m))"
  by pat_completeness auto
termination
  by (relation "measure length") auto

declare blocks_of.simps [simp del]

definition md_digest ::
    "(u32 list \<Rightarrow> bytes \<Rightarrow> u32 list) \<Rightarrow> u32 list \<Rightarrow> (u32 \<Rightarrow> u32 \<Rightarrow> bytes) \<Rightarrow> bytes \<Rightarrow> u32 list" where
  "md_digest process iv msglen m = foldl process iv (blocks_of (m @ md_pad msglen (length m)))"

text \<open>A context after the bytes \<open>m\<close> were fed to it.\<close>

definition holds :: "(u32 list \<Rightarrow> bytes \<Rightarrow> u32 list) \<Rightarrow> u32 list \<Rightarrow> bytes \<Rightarrow> hash_context \<Rightarrow> bool" where
  "holds process iv m ctx \<longleftrightarrow>
     word_cat (total1 ctx) (total0 ctx) = (of_nat (length m) :: u64)
     \<and> length (h_buffer ctx) = 64
     \<and> hash_blocks process iv m = (h_state ctx, take (length m mod 64) (h_buffer ctx))"

lemma hash_blocks_step:
  "64 \<le> length m \<Longrightarrow> hash_blocks process st m = hash_blocks process (process st (take 64 m)) (drop 64 m)"
  "length m < 64 \<Longrightarrow> hash_blocks process st m = (st, m)"
  by (simp_all add: hash_blocks.simps [of process st m])

lemma hash_blocks_append:
  "hash_blocks process st (m @ d) = (let (st', r) = hash_blocks process st m in hash_blocks process st' (r @ d))"
proof (induction process st m rule: hash_blocks.induct)
  case (1 process st m)
  show ?case
  proof (cases "64 \<le> length m")
    case True
    then have "hash_blocks process st (m @ d) = hash_blocks process (process st (take 64 m)) (drop 64 m @ d)"
      by (subst hash_blocks_step(1)) simp_all
    also have "\<dots> = (let (st', r) = hash_blocks process (process st (take 64 m)) (drop 64 m)
        in hash_blocks process st' (r @ d))"
      by (rule 1 [OF True])
    finally show ?thesis unfolding hash_blocks_step(1) [OF True, symmetric] .
  next
    case False
    then have "hash_blocks process st m = (st, m)" by (simp only: hash_blocks_step not_le)
    then show ?thesis by simp
  qed
qed

lemma hash_blocks_left: "length (snd (hash_blocks process st m)) = length m mod 64"
proof (induction process st m rule: hash_blocks.induct)
  case (1 process st m)
  show ?case
  proof (cases "64 \<le> length m")
    case True
    with 1 show ?thesis unfolding hash_blocks_step(1) [OF True] by (simp add: le_mod_geq)
  next
    case False
    then have "hash_blocks process st m = (st, m)" by (simp only: hash_blocks_step not_le)
    with False show ?thesis by simp
  qed
qed

lemma hash_blocks_whole:
  "length m mod 64 = 0 \<Longrightarrow> hash_blocks process st m = (foldl process st (blocks_of m), [])"
proof (induction process st m rule: hash_blocks.induct)
  case (1 process st m)
  show ?case
  proof (cases "64 \<le> length m")
    case True
    then have "m \<noteq> []" by auto
    then have "blocks_of m = take 64 m # blocks_of (drop 64 m)" by (simp only: blocks_of.simps [of m] if_False)
    with 1 True show ?thesis unfolding hash_blocks_step(1) [OF True] by (simp add: le_mod_geq)
  next
    case False
    with 1(2) have "m = []" by simp
    then show ?thesis by (simp add: hash_blocks_step blocks_of.simps [of "[]"])
  qed
qed

subsection \<open>The byte counter\<close>

lemma uint_word_cat: "uint (word_cat a b :: u64) = uint (a :: u32) * 2 ^ 32 + uint (b :: u32)"
proof -
  have "uint a * 2 ^ 32 + uint b < 2 ^ 64"
    using uint_bounded [of a] uint_bounded [of b] by simp
  moreover have "word_cat a b = (word_of_int (uint a * 2 ^ 32 + uint b) :: u64)"
    using uint_bounded [of b]
    by (simp add: word_cat_eq' concat_bit_eq push_bit_eq_mult take_bit_int_eq_self add.commute
        del: of_int_add of_int_mult)
  moreover have "0 \<le> uint a * 2 ^ 32 + uint b" by simp
  ultimately show ?thesis
    by (simp add: uint_word_of_int mod_pos_pos_trivial del: of_int_add of_int_mult)
qed

lemma counter_low: "word_cat (a :: u32) b = (of_nat n :: u64) \<Longrightarrow> (b :: u32) = of_nat n"
proof -
  assume "word_cat (a :: u32) b = (of_nat n :: u64)"
  then have "(ucast (word_cat a b :: u64) :: u32) = ucast (of_nat n :: u64)" by simp
  moreover have "(ucast (word_cat a b :: u64) :: u32) = b"
    by (rule bit_word_eqI) (simp add: bit_simps bit_word_cat_iff)
  moreover have "(ucast (of_nat n :: u64) :: u32) = of_nat n"
    by (rule bit_word_eqI) (simp add: bit_simps)
  ultimately show "b = of_nat n" by simp
qed

lemma counter_left: "word_cat (a :: u32) b = (of_nat n :: u64) \<Longrightarrow> unat ((b :: u32) AND 0x3F) = n mod 64"
proof -
  assume "word_cat (a :: u32) b = (of_nat n :: u64)"
  then have b: "b = of_nat n" by (rule counter_low)
  have m: "(0x3F :: u32) = mask 6" by (simp add: mask_eq_exp_minus_1)
  have "unat (take_bit 6 (of_nat n :: u32)) = take_bit 6 (unat (of_nat n :: u32))" by (rule unsigned_take_bit_eq)
  also have "unat (of_nat n :: u32) = take_bit 32 n" by (simp add: unat_of_nat take_bit_eq_mod)
  also have "take_bit 6 (take_bit 32 n) = take_bit 6 n" by simp
  finally have "unat (take_bit 6 (of_nat n :: u32)) = n mod 64" by (simp add: take_bit_eq_mod [of 6 n])
  then show ?thesis unfolding b m take_bit_eq_mask [symmetric] .
qed

lemma carry_int:
  fixes x y z :: int
  assumes "0 \<le> x" "x < 4294967296" "0 \<le> y" "y < 4294967296" "0 \<le> z" "z < 4294967296"
  shows "(if (x + y) mod 4294967296 < y then (z + 1) mod 4294967296 else z) * 4294967296 + (x + y) mod 4294967296
       = (z * 4294967296 + x + y) mod 18446744073709551616"
proof (cases "x + y < 4294967296")
  case True
  then have "(x + y) mod 4294967296 = x + y" using assms by (intro mod_pos_pos_trivial) linarith+
  moreover have "(z * 4294967296 + x + y) mod 18446744073709551616 = z * 4294967296 + x + y"
    using assms True by (intro mod_pos_pos_trivial) linarith+
  ultimately show ?thesis using assms by simp
next
  case False
  then have sum: "(x + y) mod 4294967296 = x + y - 4294967296"
    using assms by (subst mod_pos_geq) (linarith+, intro mod_pos_pos_trivial, linarith+)
  have less: "x + y - 4294967296 < y" using assms by linarith
  show ?thesis
  proof (cases "z = 4294967295")
    case True
    have "(z * 4294967296 + x + y) mod 18446744073709551616 = (x + y - 4294967296) mod 18446744073709551616"
      unfolding True by (subst mod_add_self1 [symmetric]) (simp add: algebra_simps)
    also have "\<dots> = x + y - 4294967296" using assms False by (intro mod_pos_pos_trivial) linarith+
    finally show ?thesis using sum less True by simp
  next
    case False
    then have "(z + 1) mod 4294967296 = z + 1" using assms by (intro mod_pos_pos_trivial) linarith+
    moreover have "(z * 4294967296 + x + y) mod 18446744073709551616 = z * 4294967296 + x + y"
      using assms False by (intro mod_pos_pos_trivial) linarith+
    ultimately show ?thesis using sum less by simp
  qed
qed

lemma counter_add:
  fixes t0 t1 i :: u32
  shows "word_cat (if t0 + i < i then t1 + 1 else t1) (t0 + i) = (word_cat t1 t0 + ucast i :: u64)"
proof -
  have i: "uint (ucast i :: u64) = uint i"
    using uint_bounded [of i] by (simp add: unsigned_ucast_eq take_bit_int_eq_self)
  have b: "0 \<le> uint t0" "uint t0 < 4294967296" "0 \<le> uint i" "uint i < 4294967296" "0 \<le> uint t1" "uint t1 < 4294967296"
    using uint_bounded [of t0] uint_bounded [of i] uint_bounded [of t1] by simp_all
  have "uint (word_cat (if t0 + i < i then t1 + 1 else t1) (t0 + i) :: u64)
      = (if (uint t0 + uint i) mod 4294967296 < uint i then (uint t1 + 1) mod 4294967296 else uint t1) * 4294967296
        + (uint t0 + uint i) mod 4294967296"
    by (simp add: uint_word_cat uint_word_ariths word_less_def)
  also have "\<dots> = (uint t1 * 4294967296 + uint t0 + uint i) mod 18446744073709551616"
    by (rule carry_int [OF b])
  also have "\<dots> = uint (word_cat t1 t0 + ucast i :: u64)"
    by (simp add: uint_word_cat uint_word_ariths i)
  finally show ?thesis by (simp only: word_uint_eq_iff)
qed

lemma counter_bits:
  assumes "word_cat (t1 :: u32) (t0 :: u32) = (of_nat n :: u64)"
  shows "drop_bit 29 t0 OR push_bit 3 t1 = ucast (drop_bit 32 (of_nat (8 * n) :: u64))"
    and "push_bit 3 t0 = ucast (of_nat (8 * n) :: u64)"
proof -
  have bits: "(of_nat (8 * n) :: u64) = push_bit 3 (word_cat t1 t0)"
    using assms by (simp add: push_bit_eq_mult)
  show "drop_bit 29 t0 OR push_bit 3 t1 = ucast (drop_bit 32 (of_nat (8 * n) :: u64))"
    unfolding bits by (rule bit_word_eqI) (auto simp: bit_simps bit_word_cat_iff dest: bit_imp_le_length)
  show "push_bit 3 t0 = ucast (of_nat (8 * n) :: u64)"
    unfolding bits by (rule bit_word_eqI) (auto simp: bit_simps bit_word_cat_iff)
qed

subsection \<open>Feeding a context\<close>

lemma update_holds:
  assumes "holds process iv m ctx" and "mem_slice input 0 (unat ilen) = Some d"
  shows "\<exists>ctx'. block_update process input ilen ctx = Some ctx' \<and> holds process iv (m @ d) ctx'"
proof (cases "ilen = 0")
  case True
  with assms(2) have "d = []" by (auto dest: mem_slice_length)
  with True assms(1) show ?thesis by (simp add: block_update_def)
next
  case False
  define left where "left = length m mod 64"
  have len: "length d = unat ilen" using assms(2) by (rule mem_slice_length)
  have cnt: "word_cat (total1 ctx) (total0 ctx) = (of_nat (length m) :: u64)"
    and buf: "length (h_buffer ctx) = 64"
    and st: "hash_blocks process iv m = (h_state ctx, take left (h_buffer ctx))"
    using assms(1) by (simp_all add: holds_def left_def)
  have l: "unat (total0 ctx AND 0x3F) = left" using counter_left [OF cnt] by (simp add: left_def)
  have left: "left < 64" by (simp add: left_def)
  let ?t0 = "total0 ctx + ilen"
  let ?t1 = "if ?t0 < ilen then total1 ctx + 1 else total1 ctx"
  have total: "word_cat ?t1 ?t0 = (of_nat (length (m @ d)) :: u64)"
    unfolding counter_add cnt using len by simp
  have all: "(w :: u32) AND 0xFFFFFFFF = w" for w
  proof -
    have "(0xFFFFFFFF :: u32) = - 1" by simp
    then show ?thesis by (simp only: bit.conj_one_right)
  qed
  have whole: "hash_blocks process iv (m @ d) = hash_blocks process (h_state ctx) (take left (h_buffer ctx) @ d)"
    by (subst hash_blocks_append) (simp add: st)
  let ?c = "count_bytes ilen ctx"
  have c: "total0 ?c = ?t0" "total1 ?c = ?t1" "h_state ?c = h_state ctx" "h_buffer ?c = h_buffer ctx"
    by (simp_all add: count_bytes_def all Let_def)
  define full where "full \<longleftrightarrow> left \<noteq> 0 \<and> 64 - left \<le> length d"
  let ?buf = "take left (h_buffer ctx) @ take (64 - left) d"
  obtain c1 d1 left1 where complete: "complete_block process left d ?c = (c1, d1, left1)"
    using prod_cases3 by blast
  then have c1: "total0 c1 = ?t0" "total1 c1 = ?t1" "h_state c1 = (if full then process (h_state ctx) ?buf else h_state ctx)"
    "h_buffer c1 = (if full then ?buf else h_buffer ctx)"
    "d1 = (if full then drop (64 - left) d else d)" "left1 = (if full then 0 else left)"
    using c by (auto simp: complete_block_def full_def Let_def split: if_splits)
  obtain st2 d2 where blocks: "hash_blocks process (h_state c1) d1 = (st2, d2)" by force
  let ?ctx = "keep_rest left1 d2 (c1\<lparr>h_state := st2\<rparr>)"
  have run: "block_update process input ilen ctx = Some ?ctx"
    using False assms(2) blocks l complete by (simp add: block_update_def)
  have ctx': "total0 ?ctx = ?t0" "total1 ?ctx = ?t1" "h_state ?ctx = st2"
    "h_buffer ?ctx = (if 0 < length d2 then take left1 (h_buffer c1) @ d2 @ drop (left1 + length d2) (h_buffer c1)
                      else h_buffer c1)"
    using c1 by (simp_all add: keep_rest_def)
  have buf1: "length (h_buffer c1) = 64" using buf left c1 by (auto simp: full_def)
  have d2: "length d2 = length d1 mod 64" using hash_blocks_left [of process "h_state c1" d1] blocks by simp
  have split: "left1 = 0 \<or> (0 < left1 \<and> \<not> full \<and> left1 + length d1 < 64)"
    using left by (auto simp: c1 full_def)
  have cut: "hash_blocks process iv (m @ d) = hash_blocks process (h_state c1) (take left1 (h_buffer c1) @ d1)"
  proof (cases full)
    case True
    then have "take 64 (take left (h_buffer ctx) @ d) = ?buf" "drop 64 (take left (h_buffer ctx) @ d) = d1"
      "64 \<le> length (take left (h_buffer ctx) @ d)"
      using buf left by (auto simp: full_def c1)
    with True show ?thesis unfolding whole by (simp add: hash_blocks_step(1) c1)
  next
    case False
    then show ?thesis unfolding whole by (simp add: c1)
  qed
  have size: "length (m @ d) mod 64 = (left1 + length d1) mod 64"
  proof (cases full)
    case True
    then have "left + length d = 64 + length d1" using left by (auto simp: full_def c1)
    then have "(left + length d) mod 64 = length d1 mod 64" by simp
    with True show ?thesis by (simp add: left_def c1 mod_simps)
  next
    case False
    then show ?thesis by (simp add: left_def c1 mod_simps)
  qed
  have "hash_blocks process iv (m @ d) = (st2, take (length (m @ d) mod 64) (h_buffer ?ctx)) \<and> length (h_buffer ?ctx) = 64"
    using split
  proof
    assume "left1 = 0"
    moreover from this d2 size have "length (m @ d) mod 64 = length d2" by simp
    moreover have "length d2 < 64" using d2 by simp
    ultimately show ?thesis
      unfolding cut ctx' using blocks buf1 by simp
  next
    assume "0 < left1 \<and> \<not> full \<and> left1 + length d1 < 64"
    moreover from this have "st2 = h_state c1" "d2 = d1" using blocks by (simp_all add: hash_blocks_step(2))
    moreover from calculation size have "length (m @ d) mod 64 = left1 + length d1" by simp
    ultimately show ?thesis
      unfolding cut ctx' using buf1 by (simp add: hash_blocks_step(2))
  qed
  with run total ctx' show ?thesis by (auto simp: holds_def)
qed

lemma blocks_length: "length m mod 64 = 0 \<Longrightarrow> \<forall>b \<in> set (blocks_of m). length b = 64"
proof (induction m rule: blocks_of.induct)
  case (1 m)
  show ?case
  proof (cases "m = []")
    case True
    then show ?thesis by (simp add: blocks_of.simps)
  next
    case False
    have big: "64 \<le> length m"
    proof (rule ccontr)
      assume "\<not> 64 \<le> length m"
      then have "length m mod 64 = length m" by simp
      with 1(2) False show False by simp
    qed
    then have "length m mod 64 = (length m - 64) mod 64" by (rule le_mod_geq)
    with 1(2) have "length (drop 64 m) mod 64 = 0" by (simp only: length_drop)
    have rest: "\<forall>b \<in> set (blocks_of (drop 64 m)). length b = 64" by (rule 1(1) [OF False \<open>length (drop 64 m) mod 64 = 0\<close>])
    have "length (take 64 m) = 64" using big by simp
    moreover have "blocks_of m = take 64 m # blocks_of (drop 64 m)"
      using False by (subst blocks_of.simps) (rule if_not_P)
    ultimately show ?thesis using rest by (metis set_ConsD)
  qed
qed

lemma starts_holds: "length (h_buffer ctx) = 64 \<Longrightarrow> holds process iv [] (hash_starts iv ctx)"
proof -
  have "(word_cat (0 :: u32) (0 :: u32) :: u64) = 0"
    by (rule bit_word_eqI) (simp add: bit_word_cat_iff)
  then show "length (h_buffer ctx) = 64 \<Longrightarrow> holds process iv [] (hash_starts iv ctx)"
    by (simp add: holds_def hash_starts_def hash_blocks_step(2))
qed

lemma pad_length: "length (msglen (ucast (drop_bit 32 (of_nat (8 * n) :: u64))) (ucast (of_nat (8 * n) :: u64))) = 8
    \<Longrightarrow> (n + length (md_pad msglen n)) mod 64 = 0"
proof -
  assume "length (msglen (ucast (drop_bit 32 (of_nat (8 * n) :: u64))) (ucast (of_nat (8 * n) :: u64))) = 8"
  then have "int (n + length (md_pad msglen n)) = int n + (55 - int n) mod 64 + 9"
    by (simp add: md_pad_def Let_def)
  also have "int n + (55 - int n) mod 64 + 9 = (55 - int n) mod 64 + (int n + 9)" by simp
  also have "\<dots> mod 64 = 0" by (subst mod_add_left_eq) simp
  finally show ?thesis by (metis of_nat_eq_0_iff of_nat_mod of_nat_numeral)
qed

lemma finish_holds:
  assumes "holds process iv m ctx" and "\<And>h l. length (msglen h l) = 8"
  shows "\<exists>ctx'. block_finish process msglen ctx = Some ctx' \<and> h_state ctx' = md_digest process iv msglen m
           \<and> holds process iv (m @ md_pad msglen (length m)) ctx'"
proof -
  let ?n = "length m"
  have cnt: "word_cat (total1 ctx) (total0 ctx) = (of_nat ?n :: u64)" using assms(1) by (simp add: holds_def)
  let ?last = "total0 ctx AND 0x3F"
  let ?padn = "if ?last < 56 then 56 - ?last else 120 - ?last"
  have last: "unat ?last = ?n mod 64" by (rule counter_left [OF cnt])
  have padn: "unat ?padn = (if ?n mod 64 < 56 then 56 - ?n mod 64 else 120 - ?n mod 64)"
    using last by (simp add: word_less_nat_alt unat_sub word_le_nat_alt)
  have zeros: "unat ?padn = Suc (nat ((55 - int ?n) mod 64))"
  proof -
    have "(55 - int ?n) mod 64 = (55 - int (?n mod 64)) mod 64" by (simp add: mod_simps zmod_int)
    also have "\<dots> = (if ?n mod 64 < 56 then 55 - int (?n mod 64) else 119 - int (?n mod 64))"
    proof (cases "?n mod 64 < 56")
      case True
      then show ?thesis by (simp add: mod_pos_pos_trivial)
    next
      case False
      have "(55 - int (?n mod 64)) mod 64 = (119 - int (?n mod 64)) mod 64"
        using mod_add_self2 [of "55 - int (?n mod 64)" 64] by (simp add: algebra_simps)
      also have "\<dots> = 119 - int (?n mod 64)" using False by (intro mod_pos_pos_trivial) simp_all
      finally show ?thesis using False by simp
    qed
    finally show ?thesis
      unfolding padn by (auto simp: nat_diff_distrib')
  qed
  define k where "k = nat ((55 - int ?n) mod 64)"
  have k: "k < 64" by (simp add: k_def)
  have pad: "mem_slice hash_padding 0 (unat ?padn) = Some (0x80 # replicate k 0)"
    using k zeros by (simp add: hash_padding_def mem_slice_def k_def min_def)
  obtain ctx1 where ctx1: "block_update process hash_padding ?padn ctx = Some ctx1"
    "holds process iv (m @ 0x80 # replicate k 0) ctx1"
    using update_holds [OF assms(1) pad] by blast
  let ?h = "drop_bit 29 (total0 ctx) OR push_bit 3 (total1 ctx)" and ?l = "push_bit 3 (total0 ctx)"
  have "mem_slice (msglen ?h ?l) 0 (unat (8 :: u32)) = Some (msglen ?h ?l)"
    using assms(2) by (simp add: mem_slice_def)
  from update_holds [OF ctx1(2) this]
  obtain ctx2 where ctx2: "block_update process (msglen ?h ?l) 8 ctx1 = Some ctx2"
    "holds process iv ((m @ 0x80 # replicate k 0) @ msglen ?h ?l) ctx2" by blast
  have padded: "(m @ 0x80 # replicate k 0) @ msglen ?h ?l = m @ md_pad msglen ?n"
    unfolding counter_bits [OF cnt] by (simp add: md_pad_def k_def Let_def)
  have "length (m @ md_pad msglen ?n) mod 64 = 0"
    using pad_length [of msglen ?n] assms(2) by simp
  then have "h_state ctx2 = md_digest process iv msglen m"
    using ctx2(2) hash_blocks_whole unfolding padded by (simp add: holds_def md_digest_def)
  with ctx1 ctx2 padded show ?thesis
    by (auto simp: block_finish_def Let_def)
qed

text \<open>A client that feeds the pieces of a message one after the other.\<close>

fun update_all :: "(bytes \<Rightarrow> 'c \<Rightarrow> 'c option) \<Rightarrow> bytes list \<Rightarrow> 'c \<Rightarrow> 'c option" where
  "update_all update [] ctx = Some ctx"
| "update_all update (d # ds) ctx = do { ctx \<leftarrow> update d ctx; update_all update ds ctx }"

section \<open>The interface of a compression function\<close>

text \<open>
  What the streaming code needs: the length is written in 8 bytes, and compressing keeps the
  number of words. From it: however a message is cut into pieces, the digest is the one of
  the reference.
\<close>

locale md_hash =
  fixes process :: "u32 list \<Rightarrow> bytes \<Rightarrow> u32 list" and iv :: "u32 list" and msglen :: "u32 \<Rightarrow> u32 \<Rightarrow> bytes"
  assumes msglen_length: "length (msglen h l) = 8"
    and process_length: "length st = length iv \<Longrightarrow> length b = 64 \<Longrightarrow> length (process st b) = length iv"
begin

abbreviation feed :: "bytes list \<Rightarrow> hash_context \<Rightarrow> hash_context option" where
  "feed \<equiv> update_all (\<lambda>d. block_update process d (of_nat (length d)))"

lemma update_chunk:
  assumes "holds process iv m ctx" and "length d < 2 ^ 32"
  obtains ctx' where "block_update process d (of_nat (length d)) ctx = Some ctx'" and "holds process iv (m @ d) ctx'"
proof -
  have "unat (of_nat (length d) :: u32) = length d"
    using assms(2) by (simp add: unat_of_nat)
  then have "mem_slice d 0 (unat (of_nat (length d) :: u32)) = Some d" by (simp add: mem_slice_def)
  from update_holds [OF assms(1) this] that show thesis by blast
qed

lemma feed_holds:
  assumes "holds process iv m ctx" and "\<forall>d \<in> set ds. length d < 2 ^ 32"
  shows "\<exists>ctx'. feed ds ctx = Some ctx' \<and> holds process iv (m @ concat ds) ctx'"
  using assms
proof (induction ds arbitrary: m ctx)
  case (Cons d ds)
  from Cons.prems(2) have "length d < 2 ^ 32" by simp
  from update_chunk [OF Cons.prems(1) this] obtain ctx1
    where "block_update process d (of_nat (length d)) ctx = Some ctx1" "holds process iv (m @ d) ctx1" .
  with Cons.IH [of "m @ d" ctx1] Cons.prems(2) show ?case by simp
qed simp

lemma digest:
  assumes "\<forall>d \<in> set ds. length d < 2 ^ 32"
  shows "\<exists>ctx1 ctx2. feed ds (hash_starts iv (hash_init n)) = Some ctx1
           \<and> block_finish process msglen ctx1 = Some ctx2 \<and> h_state ctx2 = md_digest process iv msglen (concat ds)"
proof -
  have "holds process iv [] (hash_starts iv (hash_init n))" by (rule starts_holds) (simp add: hash_init_def)
  from feed_holds [OF this assms] obtain ctx1
    where "feed ds (hash_starts iv (hash_init n)) = Some ctx1" "holds process iv (concat ds) ctx1" by auto
  with finish_holds [of process iv "concat ds" ctx1 msglen] msglen_length show ?thesis by blast
qed

lemma digest_length: "length (md_digest process iv msglen m) = length iv"
proof -
  have "length (foldl process st bs) = length iv" if "length st = length iv" "\<forall>b \<in> set bs. length b = 64" for st bs
    using that by (induction bs arbitrary: st) (simp_all add: process_length)
  moreover have "\<forall>b \<in> set (blocks_of (m @ md_pad msglen (length m))). length b = 64"
    using pad_length [of msglen "length m"] msglen_length by (intro blocks_length) simp
  ultimately show ?thesis by (simp add: md_digest_def)
qed

end

text \<open>Two compression functions that agree on what the streaming code feeds them.\<close>

lemma md_digest_cong:
  assumes "\<And>st b. length st = length iv \<Longrightarrow> length b = 64 \<Longrightarrow> process st b = process' st b \<and> length (process st b) = length iv"
    and "\<And>h l. length (msglen h l) = 8"
  shows "md_digest process iv msglen m = md_digest process' iv msglen m"
proof -
  have "foldl process st bs = foldl process' st bs" if "length st = length iv" "\<forall>b \<in> set bs. length b = 64" for st bs
    using that
  proof (induction bs arbitrary: st)
    case (Cons b bs)
    then have "length b = 64" by simp
    note agree = assms(1) [OF Cons.prems(1) this]
    have "foldl process (process st b) bs = foldl process' (process st b) bs"
      by (rule Cons.IH) (use conjunct2 [OF agree] Cons.prems(2) in simp_all)
    with agree show ?case by (metis foldl_Cons)
  qed simp
  moreover have "\<forall>b \<in> set (blocks_of (m @ md_pad msglen (length m))). length b = 64"
    using pad_length [of msglen "length m"] assms(2) by (intro blocks_length) simp
  ultimately show ?thesis by (simp add: md_digest_def)
qed

section \<open>Digests and HMACs\<close>

text \<open>
  The common shape of the four HMAC functions. A key of more than 64 bytes: they return without
  an output (\<open>Some None\<close>). The lengths are ints or unsigned; \<open>memcpy\<close> of a negative one is
  undefined.
\<close>

definition hmac_pad :: "u8 \<Rightarrow> bytes \<Rightarrow> bytes" where
  "hmac_pad x key = map (\<lambda>b. b XOR x) (key @ replicate (64 - length key) 0)"

definition hash_hmac ::
    "hash_context \<Rightarrow> (bytes \<Rightarrow> u32 \<Rightarrow> hash_context \<Rightarrow> hash_context option)
      \<Rightarrow> (hash_context \<Rightarrow> (bytes \<times> hash_context) option)
      \<Rightarrow> bytes \<Rightarrow> u32 \<Rightarrow> bytes \<Rightarrow> int \<Rightarrow> bytes option option" where
  "hash_hmac started update finish msg msg_len key key_len =
     (if key_len > 64 then Some None
      else if key_len < 0 then None
      else do {
        k \<leftarrow> mem_slice key 0 (nat key_len);
        let k_ipad = hmac_pad 0x36 k; k_opad = hmac_pad 0x5c k in
        do {
          context \<leftarrow> update k_ipad 64 started;
          context \<leftarrow> update msg msg_len context;
          (out, _) \<leftarrow> finish context;
          context \<leftarrow> update k_opad 64 started;
          context \<leftarrow> update out (of_nat (length out)) context;
          (out, _) \<leftarrow> finish context;
          Some (Some out) } })"

text \<open>The reference (RFC 2104) for keys of at most one block.\<close>

definition hmac_spec :: "(bytes \<Rightarrow> bytes) \<Rightarrow> bytes \<Rightarrow> bytes \<Rightarrow> bytes" where
  "hmac_spec H key m =
     H (hmac_pad 0x5c key @ H (hmac_pad 0x36 key @ m))"

text \<open>A hash function: how its words are written, and a state of at most eight of them.\<close>

locale digest_function = md_hash +
  fixes put :: "u32 \<Rightarrow> bytes"
  assumes put_length: "length (put w) = 4" and iv_length: "length iv \<le> 8"
begin

definition hash :: "bytes \<Rightarrow> bytes" where
  "hash m = concat (map put (md_digest process iv msglen m))"

definition finish :: "hash_context \<Rightarrow> (bytes \<times> hash_context) option" where
  "finish ctx = do { ctx \<leftarrow> block_finish process msglen ctx; Some (concat (map put (h_state ctx)), ctx) }"

lemma hash_length: "length (hash m) \<le> 32"
proof -
  have "length (concat (map put ws)) = 4 * length ws" for ws
    using put_length by (induction ws) simp_all
  then show ?thesis using digest_length iv_length by (simp add: hash_def)
qed

lemma finished:
  assumes "holds process iv m ctx"
  obtains ctx' where "finish ctx = Some (hash m, ctx')"
  using finish_holds [of process iv m ctx msglen] assms msglen_length by (auto simp: finish_def hash_def)

lemma stream:
  assumes "\<forall>d \<in> set ds. length d < 2 ^ 32"
  shows "\<exists>ctx ctx'. feed ds (hash_starts iv (hash_init n)) = Some ctx \<and> finish ctx = Some (hash (concat ds), ctx')"
  using digest [OF assms, of n] by (auto simp: finish_def hash_def)

lemma one_shot:
  assumes "mem_slice input 0 (unat ilen) = Some m"
  shows "\<exists>ctx ctx'. block_update process input ilen (hash_starts iv (hash_init n)) = Some ctx
           \<and> finish ctx = Some (hash m, ctx')"
proof -
  have "holds process iv [] (hash_starts iv (hash_init n))" by (rule starts_holds) (simp add: hash_init_def)
  from update_holds [OF this assms] obtain ctx
    where "block_update process input ilen (hash_starts iv (hash_init n)) = Some ctx" "holds process iv m ctx" by auto
  with finished show ?thesis by metis
qed

lemma hmac:
  assumes "mem_slice key 0 (nat key_len) = Some k" and "0 \<le> key_len" and "key_len \<le> 64"
    and "mem_slice msg 0 (unat msg_len) = Some m"
  shows "hash_hmac (hash_starts iv (hash_init n)) (block_update process) finish msg msg_len key key_len
       = Some (Some (hmac_spec hash k m))"
proof -
  let ?s = "hash_starts iv (hash_init n)"
  have k: "length k = nat key_len" using assms(1) by (rule mem_slice_length)
  let ?ip = "hmac_pad 0x36 k" and ?op = "hmac_pad 0x5c k"
  have len: "length ?ip = 64" "length ?op = 64" using k assms(3) by (simp_all add: hmac_pad_def)
  have start: "holds process iv [] ?s" by (rule starts_holds) (simp add: hash_init_def)
  have slice: "mem_slice x 0 (unat (of_nat (length x) :: u32)) = Some x" if "length x < 2 ^ 32" for x
    using that by (simp add: mem_slice_def unat_of_nat)
  from update_holds [OF start slice, of ?ip] len obtain c1
    where c1: "block_update process ?ip 64 ?s = Some c1" "holds process iv ?ip c1" by auto
  from update_holds [OF c1(2) assms(4)] obtain c2
    where c2: "block_update process msg msg_len c1 = Some c2" "holds process iv (?ip @ m) c2" by blast
  from finished [OF c2(2)] obtain c3 where c3: "finish c2 = Some (hash (?ip @ m), c3)" .
  from update_holds [OF start slice, of ?op] len obtain c4
    where c4: "block_update process ?op 64 ?s = Some c4" "holds process iv ?op c4" by auto
  have "length (hash (?ip @ m)) < 2 ^ 32" using hash_length [of "?ip @ m"] by simp
  from update_holds [OF c4(2) slice [OF this]] obtain c5
    where c5: "block_update process (hash (?ip @ m)) (of_nat (length (hash (?ip @ m)))) c4 = Some c5"
      "holds process iv (?op @ hash (?ip @ m)) c5" by blast
  from finished [OF c5(2)] obtain c6 where c6: "finish c5 = Some (hash (?op @ hash (?ip @ m)), c6)" .
  have "hmac_spec hash k m = hash (?op @ hash (?ip @ m))" by (simp add: hmac_spec_def)
  with assms(1-3) c1(1) c2(1) c3 c4(1) c5(1) c6 show ?thesis
    by (simp add: hash_hmac_def Let_def)
qed

end

end
