(* ===== verification/Infra_Digest.thy ===== *)
theory Infra_Digest
  imports Infra_Hash
begin

text \<open>
  The compression functions of MD5, SHA-1 and SHA-256 with their one-shot functions and HMACs,
  and the second SHA-256 (\<open>dev_bind/impl/sha256.c\<close>). What they compute is in
  \<open>Infra_Digest_Correct\<close>.
\<close>

section \<open>MD5\<close>

text \<open>\<open>S(x,n)\<close> of MD5 and SHA-1.\<close>

definition rotate_left :: "u32 \<Rightarrow> nat \<Rightarrow> u32" where
  "rotate_left x n = push_bit n x OR drop_bit (32 - n) (x AND 0xFFFFFFFF)"

definition md5_F1 :: "u32 \<Rightarrow> u32 \<Rightarrow> u32 \<Rightarrow> u32" where
  "md5_F1 x y z = z XOR (x AND (y XOR z))"

definition md5_F2 :: "u32 \<Rightarrow> u32 \<Rightarrow> u32 \<Rightarrow> u32" where
  "md5_F2 x y z = y XOR (z AND (x XOR y))"

definition md5_F3 :: "u32 \<Rightarrow> u32 \<Rightarrow> u32 \<Rightarrow> u32" where
  "md5_F3 x y z = x XOR y XOR z"

definition md5_F4 :: "u32 \<Rightarrow> u32 \<Rightarrow> u32 \<Rightarrow> u32" where
  "md5_F4 x y z = y XOR (x OR NOT z)"

text \<open>The arguments \<open>k\<close>, \<open>s\<close>, \<open>t\<close> of the 16 calls of \<open>P\<close> in each round.\<close>

definition md5_round1 :: "(nat \<times> nat \<times> u32) list" where
  "md5_round1 =
    [(0, 7, 0xD76AA478), (1, 12, 0xE8C7B756), (2, 17, 0x242070DB), (3, 22, 0xC1BDCEEE),
    (4, 7, 0xF57C0FAF), (5, 12, 0x4787C62A), (6, 17, 0xA8304613), (7, 22, 0xFD469501),
    (8, 7, 0x698098D8), (9, 12, 0x8B44F7AF), (10, 17, 0xFFFF5BB1), (11, 22, 0x895CD7BE),
    (12, 7, 0x6B901122), (13, 12, 0xFD987193), (14, 17, 0xA679438E), (15, 22, 0x49B40821)]"

definition md5_round2 :: "(nat \<times> nat \<times> u32) list" where
  "md5_round2 =
    [(1, 5, 0xF61E2562), (6, 9, 0xC040B340), (11, 14, 0x265E5A51), (0, 20, 0xE9B6C7AA),
    (5, 5, 0xD62F105D), (10, 9, 0x02441453), (15, 14, 0xD8A1E681), (4, 20, 0xE7D3FBC8),
    (9, 5, 0x21E1CDE6), (14, 9, 0xC33707D6), (3, 14, 0xF4D50D87), (8, 20, 0x455A14ED),
    (13, 5, 0xA9E3E905), (2, 9, 0xFCEFA3F8), (7, 14, 0x676F02D9), (12, 20, 0x8D2A4C8A)]"

definition md5_round3 :: "(nat \<times> nat \<times> u32) list" where
  "md5_round3 =
    [(5, 4, 0xFFFA3942), (8, 11, 0x8771F681), (11, 16, 0x6D9D6122), (14, 23, 0xFDE5380C),
    (1, 4, 0xA4BEEA44), (4, 11, 0x4BDECFA9), (7, 16, 0xF6BB4B60), (10, 23, 0xBEBFBC70),
    (13, 4, 0x289B7EC6), (0, 11, 0xEAA127FA), (3, 16, 0xD4EF3085), (6, 23, 0x04881D05),
    (9, 4, 0xD9D4D039), (12, 11, 0xE6DB99E5), (15, 16, 0x1FA27CF8), (2, 23, 0xC4AC5665)]"

definition md5_round4 :: "(nat \<times> nat \<times> u32) list" where
  "md5_round4 =
    [(0, 6, 0xF4292244), (7, 10, 0x432AFF97), (14, 15, 0xAB9423A7), (5, 21, 0xFC93A039),
    (12, 6, 0x655B59C3), (3, 10, 0x8F0CCC92), (10, 15, 0xFFEFF47D), (1, 21, 0x85845DD1),
    (8, 6, 0x6FA87E4F), (15, 10, 0xFE2CE6E0), (6, 15, 0xA3014314), (13, 21, 0x4E0811A1),
    (4, 6, 0xF7537E82), (11, 10, 0xBD3AF235), (2, 15, 0x2AD7D2BB), (9, 21, 0xEB86D391)]"

text \<open>
  \<open>P(a,b,c,d,k,s,t)\<close>; the next call has its arguments moved by one place, so the four words are
  given back in the order in which it takes them.
\<close>

definition md5_P ::
    "(u32 \<Rightarrow> u32 \<Rightarrow> u32 \<Rightarrow> u32) \<Rightarrow> u32 list \<Rightarrow> nat \<times> nat \<times> u32 \<Rightarrow> u32 \<times> u32 \<times> u32 \<times> u32
      \<Rightarrow> u32 \<times> u32 \<times> u32 \<times> u32" where
  "md5_P F X = (\<lambda>(k, s, t) (a, b, c, d).
     (d, rotate_left (a + (F b c d + X ! k + t)) s + b, b, c))"

definition utils_md5_process :: "u32 list \<Rightarrow> bytes \<Rightarrow> u32 list" where
  "utils_md5_process st data =
     (let X = map (\<lambda>i. get_uint32_le data (4 * i)) [0..<16];
          r = (st ! 0, st ! 1, st ! 2, st ! 3);
          r = fold (md5_P md5_F1 X) md5_round1 r;
          r = fold (md5_P md5_F2 X) md5_round2 r;
          r = fold (md5_P md5_F3 X) md5_round3 r;
          (a, b, c, d) = fold (md5_P md5_F4 X) md5_round4 r
      in [st ! 0 + a, st ! 1 + b, st ! 2 + c, st ! 3 + d])"

definition md5_iv :: "u32 list" where
  "md5_iv = [0x67452301, 0xEFCDAB89, 0x98BADCFE, 0x10325476]"

definition utils_md5_starts :: "hash_context \<Rightarrow> hash_context" where
  "utils_md5_starts = hash_starts md5_iv"

definition utils_md5_update :: "bytes \<Rightarrow> u32 \<Rightarrow> hash_context \<Rightarrow> hash_context option" where
  "utils_md5_update = block_update utils_md5_process"

definition utils_md5_finish :: "hash_context \<Rightarrow> (bytes \<times> hash_context) option" where
  "utils_md5_finish ctx =
     do { ctx \<leftarrow> block_finish utils_md5_process msglen_le ctx;
          Some (concat (map put_uint32_le (h_state ctx)), ctx) }"

definition utils_md5 :: "bytes \<Rightarrow> u32 \<Rightarrow> bytes option" where
  "utils_md5 input ilen =
     do { ctx \<leftarrow> utils_md5_update input ilen (utils_md5_starts (hash_init 4));
          (digest, ctx) \<leftarrow> utils_md5_finish ctx;
          Some digest }"

section \<open>SHA-1\<close>

definition sha1_F1 :: "u32 \<Rightarrow> u32 \<Rightarrow> u32 \<Rightarrow> u32" where
  "sha1_F1 x y z = z XOR (x AND (y XOR z))"

definition sha1_F2 :: "u32 \<Rightarrow> u32 \<Rightarrow> u32 \<Rightarrow> u32" where
  "sha1_F2 x y z = x XOR y XOR z"

definition sha1_F3 :: "u32 \<Rightarrow> u32 \<Rightarrow> u32 \<Rightarrow> u32" where
  "sha1_F3 x y z = (x AND y) OR (z AND (x OR y))"

text \<open>\<open>R(t)\<close>: the 16 words are a ring, \<open>& 0x0F\<close> is the remainder by 16.\<close>

definition sha1_R :: "nat \<Rightarrow> u32 list \<Rightarrow> u32 list" where
  "sha1_R t W =
     (let temp = W ! ((t - 3) mod 16) XOR W ! ((t - 8) mod 16) XOR W ! ((t - 14) mod 16) XOR W ! (t mod 16)
      in W[t mod 16 := rotate_left temp 1])"

text \<open>\<open>P(a,b,c,d,e,x)\<close>, the five words in the order in which the next call takes them.\<close>

definition sha1_P ::
    "(u32 \<Rightarrow> u32 \<Rightarrow> u32 \<Rightarrow> u32) \<Rightarrow> u32 \<Rightarrow> u32 \<Rightarrow> u32 \<times> u32 \<times> u32 \<times> u32 \<times> u32
      \<Rightarrow> u32 \<times> u32 \<times> u32 \<times> u32 \<times> u32" where
  "sha1_P F K x = (\<lambda>(a, b, c, d, e).
     (e + (rotate_left a 5 + F b c d + K + x), a, rotate_left b 30, c, d))"

definition sha1_step :: "nat \<Rightarrow> u32 list \<times> (u32 \<times> u32 \<times> u32 \<times> u32 \<times> u32)
      \<Rightarrow> u32 list \<times> (u32 \<times> u32 \<times> u32 \<times> u32 \<times> u32)" where
  "sha1_step t = (\<lambda>(W, v).
     let W = (if t < 16 then W else sha1_R t W); x = W ! (t mod 16)
     in (W, if t < 20 then sha1_P sha1_F1 0x5A827999 x v
            else if t < 40 then sha1_P sha1_F2 0x6ED9EBA1 x v
            else if t < 60 then sha1_P sha1_F3 0x8F1BBCDC x v
            else sha1_P sha1_F2 0xCA62C1D6 x v))"

definition utils_sha1_process :: "u32 list \<Rightarrow> bytes \<Rightarrow> u32 list" where
  "utils_sha1_process st data =
     (let W = map (\<lambda>i. get_uint32_be data (4 * i)) [0..<16];
          (_, a, b, c, d, e) = fold sha1_step [0..<80] (W, st ! 0, st ! 1, st ! 2, st ! 3, st ! 4)
      in [st ! 0 + a, st ! 1 + b, st ! 2 + c, st ! 3 + d, st ! 4 + e])"

definition sha1_iv :: "u32 list" where
  "sha1_iv = [0x67452301, 0xEFCDAB89, 0x98BADCFE, 0x10325476, 0xC3D2E1F0]"

definition utils_sha1_starts :: "hash_context \<Rightarrow> hash_context" where
  "utils_sha1_starts = hash_starts sha1_iv"

definition utils_sha1_update :: "bytes \<Rightarrow> u32 \<Rightarrow> hash_context \<Rightarrow> hash_context option" where
  "utils_sha1_update = block_update utils_sha1_process"

definition utils_sha1_finish :: "hash_context \<Rightarrow> (bytes \<times> hash_context) option" where
  "utils_sha1_finish ctx =
     do { ctx \<leftarrow> block_finish utils_sha1_process msglen_be ctx;
          Some (concat (map put_uint32_be (h_state ctx)), ctx) }"

definition utils_sha1 :: "bytes \<Rightarrow> u32 \<Rightarrow> bytes option" where
  "utils_sha1 input ilen =
     do { ctx \<leftarrow> utils_sha1_update input ilen (utils_sha1_starts (hash_init 5));
          (digest, ctx) \<leftarrow> utils_sha1_finish ctx;
          Some digest }"

section \<open>SHA-256\<close>

definition sha256_K :: "u32 list" where
  "sha256_K =
     [0x428A2F98, 0x71374491, 0xB5C0FBCF, 0xE9B5DBA5, 0x3956C25B, 0x59F111F1, 0x923F82A4, 0xAB1C5ED5,
      0xD807AA98, 0x12835B01, 0x243185BE, 0x550C7DC3, 0x72BE5D74, 0x80DEB1FE, 0x9BDC06A7, 0xC19BF174,
      0xE49B69C1, 0xEFBE4786, 0x0FC19DC6, 0x240CA1CC, 0x2DE92C6F, 0x4A7484AA, 0x5CB0A9DC, 0x76F988DA,
      0x983E5152, 0xA831C66D, 0xB00327C8, 0xBF597FC7, 0xC6E00BF3, 0xD5A79147, 0x06CA6351, 0x14292967,
      0x27B70A85, 0x2E1B2138, 0x4D2C6DFC, 0x53380D13, 0x650A7354, 0x766A0ABB, 0x81C2C92E, 0x92722C85,
      0xA2BFE8A1, 0xA81A664B, 0xC24B8B70, 0xC76C51A3, 0xD192E819, 0xD6990624, 0xF40E3585, 0x106AA070,
      0x19A4C116, 0x1E376C08, 0x2748774C, 0x34B0BCB5, 0x391C0CB3, 0x4ED8AA4A, 0x5B9CCA4F, 0x682E6FF3,
      0x748F82EE, 0x78A5636F, 0x84C87814, 0x8CC70208, 0x90BEFFFA, 0xA4506CEB, 0xBEF9A3F7, 0xC67178F2]"

definition sha256_SHR :: "u32 \<Rightarrow> nat \<Rightarrow> u32" where
  "sha256_SHR x n = drop_bit n (x AND 0xFFFFFFFF)"

definition sha256_ROTR :: "u32 \<Rightarrow> nat \<Rightarrow> u32" where
  "sha256_ROTR x n = sha256_SHR x n OR push_bit (32 - n) x"

definition sha256_S0 :: "u32 \<Rightarrow> u32" where
  "sha256_S0 x = sha256_ROTR x 7 XOR sha256_ROTR x 18 XOR sha256_SHR x 3"

definition sha256_S1 :: "u32 \<Rightarrow> u32" where
  "sha256_S1 x = sha256_ROTR x 17 XOR sha256_ROTR x 19 XOR sha256_SHR x 10"

definition sha256_S2 :: "u32 \<Rightarrow> u32" where
  "sha256_S2 x = sha256_ROTR x 2 XOR sha256_ROTR x 13 XOR sha256_ROTR x 22"

definition sha256_S3 :: "u32 \<Rightarrow> u32" where
  "sha256_S3 x = sha256_ROTR x 6 XOR sha256_ROTR x 11 XOR sha256_ROTR x 25"

definition sha256_F0 :: "u32 \<Rightarrow> u32 \<Rightarrow> u32 \<Rightarrow> u32" where
  "sha256_F0 x y z = (x AND y) OR (z AND (x OR y))"

definition sha256_F1 :: "u32 \<Rightarrow> u32 \<Rightarrow> u32 \<Rightarrow> u32" where
  "sha256_F1 x y z = z XOR (x AND (y XOR z))"

text \<open>\<open>W[i]\<close>, appended to the words before it.\<close>

definition sha256_W :: "bytes \<Rightarrow> u32 list \<Rightarrow> nat \<Rightarrow> u32" where
  "sha256_W data W i =
     (if i < 16 then get_uint32_be data (4 * i)
      else sha256_S1 (W ! (i - 2)) + W ! (i - 7) + sha256_S0 (W ! (i - 15)) + W ! (i - 16))"

text \<open>One turn of the loop (\<open>INFRA_SHA256_SMALLER\<close>): \<open>P\<close>, then the eight words move on.\<close>

definition sha256_step :: "bytes \<Rightarrow> nat \<Rightarrow> u32 list \<times> u32 list \<Rightarrow> u32 list \<times> u32 list" where
  "sha256_step data i = (\<lambda>(W, A).
     let W = W @ [sha256_W data W i];
         temp1 = A ! 7 + sha256_S3 (A ! 4) + sha256_F1 (A ! 4) (A ! 5) (A ! 6) + sha256_K ! i + W ! i;
         temp2 = sha256_S2 (A ! 0) + sha256_F0 (A ! 0) (A ! 1) (A ! 2);
         A = A[3 := A ! 3 + temp1];
         A = A[7 := temp1 + temp2]
     in (W, A ! 7 # butlast A))"

definition utils_sha256_process :: "u32 list \<Rightarrow> bytes \<Rightarrow> u32 list" where
  "utils_sha256_process st data =
     (let (_, A) = fold (sha256_step data) [0..<64] ([], take 8 st) in map2 (+) st A)"

definition sha256_iv :: "u32 list" where
  "sha256_iv = [0x6A09E667, 0xBB67AE85, 0x3C6EF372, 0xA54FF53A, 0x510E527F, 0x9B05688C, 0x1F83D9AB, 0x5BE0CD19]"

definition utils_sha256_starts :: "hash_context \<Rightarrow> hash_context" where
  "utils_sha256_starts = hash_starts sha256_iv"

definition utils_sha256_update :: "bytes \<Rightarrow> u32 \<Rightarrow> hash_context \<Rightarrow> hash_context option" where
  "utils_sha256_update = block_update utils_sha256_process"

text \<open>\<open>is224\<close> is always 0.\<close>

definition utils_sha256_finish :: "hash_context \<Rightarrow> (bytes \<times> hash_context) option" where
  "utils_sha256_finish ctx =
     do { ctx \<leftarrow> block_finish utils_sha256_process msglen_be ctx;
          Some (concat (map put_uint32_be (h_state ctx)), ctx) }"

definition utils_sha256 :: "bytes \<Rightarrow> u32 \<Rightarrow> bytes option" where
  "utils_sha256 input ilen =
     do { ctx \<leftarrow> utils_sha256_update input ilen (utils_sha256_starts (hash_init 8));
          (digest, ctx) \<leftarrow> utils_sha256_finish ctx;
          Some digest }"

section \<open>HMACs\<close>

definition utils_hb2hex :: "u8 \<Rightarrow> u8" where
  "utils_hb2hex hb = (let hb = hb AND 0xF in if hb < 10 then 48 + hb else hb - 10 + 97)"

definition hex_digest :: "bytes \<Rightarrow> bytes" where
  "hex_digest out = concat (map (\<lambda>b. [utils_hb2hex (drop_bit 4 b), utils_hb2hex b]) out)"

text \<open>\<open>msg_len\<close> and \<open>key_len\<close> are ints for MD5 and SHA-1.\<close>

definition utils_hmac_md5 :: "bytes \<Rightarrow> int \<Rightarrow> bytes \<Rightarrow> int \<Rightarrow> bytes option option" where
  "utils_hmac_md5 msg msg_len key key_len =
     map_option (map_option hex_digest)
       (hash_hmac (utils_md5_starts (hash_init 4)) utils_md5_update utils_md5_finish msg (word_of_int msg_len) key key_len)"

definition utils_hmac_sha1 :: "bytes \<Rightarrow> int \<Rightarrow> bytes \<Rightarrow> int \<Rightarrow> bytes option option" where
  "utils_hmac_sha1 msg msg_len key key_len =
     map_option (map_option hex_digest)
       (hash_hmac (utils_sha1_starts (hash_init 5)) utils_sha1_update utils_sha1_finish msg (word_of_int msg_len) key key_len)"

definition utils_hmac_sha1_hex :: "bytes \<Rightarrow> int \<Rightarrow> bytes \<Rightarrow> int \<Rightarrow> bytes option option" where
  "utils_hmac_sha1_hex msg msg_len key key_len =
     hash_hmac (utils_sha1_starts (hash_init 5)) utils_sha1_update utils_sha1_finish msg (word_of_int msg_len) key key_len"

definition utils_hmac_sha256 :: "bytes \<Rightarrow> u32 \<Rightarrow> bytes \<Rightarrow> u32 \<Rightarrow> bytes option option" where
  "utils_hmac_sha256 msg msg_len key key_len =
     hash_hmac (utils_sha256_starts (hash_init 8)) utils_sha256_update utils_sha256_finish msg msg_len key (uint key_len)"

section \<open>The SHA-256 of the device binding\<close>

record SHA256_CTX =
  sc_count :: u64
  sc_buf :: bytes
  sc_state :: "u32 list"

definition ror :: "u32 \<Rightarrow> nat \<Rightarrow> u32" where
  "ror value bits = drop_bit bits value OR push_bit (32 - bits) value"

text \<open>The two loops that fill \<open>W\<close>.\<close>

definition transform_W :: "bytes \<Rightarrow> u32 list" where
  "transform_W p =
     fold (\<lambda>t W.
         let s0 = ror (W ! (t - 15)) 7 XOR ror (W ! (t - 15)) 18 XOR drop_bit 3 (W ! (t - 15));
             s1 = ror (W ! (t - 2)) 17 XOR ror (W ! (t - 2)) 19 XOR drop_bit 10 (W ! (t - 2))
         in W @ [W ! (t - 16) + s0 + W ! (t - 7) + s1]) [16..<64]
       (map (\<lambda>t. get_uint32_be p (4 * t)) [0..<16])"

type_synonym word8 = "u32 \<times> u32 \<times> u32 \<times> u32 \<times> u32 \<times> u32 \<times> u32 \<times> u32"

definition transform_round :: "u32 list \<Rightarrow> nat \<Rightarrow> word8 \<Rightarrow> word8" where
  "transform_round W t = (\<lambda>(A, B, C, D, E, F, G, H).
     let s0 = ror A 2 XOR ror A 13 XOR ror A 22;
         maj = (A AND B) XOR (A AND C) XOR (B AND C);
         t2 = s0 + maj;
         s1 = ror E 6 XOR ror E 11 XOR ror E 25;
         ch = (E AND F) XOR (NOT E AND G);
         t1 = H + s1 + ch + sha256_K ! t + W ! t
     in (t1 + t2, A, B, C, D + t1, E, F, G))"

definition SHA256_Transform :: "u32 list \<Rightarrow> bytes \<Rightarrow> u32 list" where
  "SHA256_Transform st buf =
     (let (A, B, C, D, E, F, G, H) = fold (transform_round (transform_W buf)) [0..<64]
            (st ! 0, st ! 1, st ! 2, st ! 3, st ! 4, st ! 5, st ! 6, st ! 7)
      in [st ! 0 + A, st ! 1 + B, st ! 2 + C, st ! 3 + D, st ! 4 + E, st ! 5 + F, st ! 6 + G, st ! 7 + H])"

definition SHA256_init :: "SHA256_CTX \<Rightarrow> SHA256_CTX" where
  "SHA256_init ctx = ctx\<lparr>sc_state := sha256_iv, sc_count := 0\<rparr>"

text \<open>The loop of \<open>SHA256_update\<close> over the bytes; a negative \<open>len\<close> runs through memory.\<close>

fun update_loop :: "bytes \<Rightarrow> nat \<Rightarrow> SHA256_CTX \<Rightarrow> SHA256_CTX" where
  "update_loop [] i ctx = ctx"
| "update_loop (b # p) i ctx =
     (let ctx = ctx\<lparr>sc_buf := (sc_buf ctx)[i := b]\<rparr>; i = i + 1 in
      if i = 64 then update_loop p 0 (ctx\<lparr>sc_state := SHA256_Transform (sc_state ctx) (sc_buf ctx)\<rparr>)
      else update_loop p i ctx)"

definition SHA256_update :: "bytes \<Rightarrow> int \<Rightarrow> SHA256_CTX \<Rightarrow> SHA256_CTX option" where
  "SHA256_update data len ctx =
     (if len < 0 then None
      else do {
        p \<leftarrow> mem_slice data 0 (nat len);
        Some (update_loop p (unat (sc_count ctx AND 63)) (ctx\<lparr>sc_count := sc_count ctx + word_of_int len\<rparr>)) })"

text \<open>The zeros of the padding: at most 63 turns, so 64 are fuel enough.\<close>

fun final_zeros :: "nat \<Rightarrow> SHA256_CTX \<Rightarrow> SHA256_CTX option" where
  "final_zeros 0 ctx = None"
| "final_zeros (Suc n) ctx =
     (if sc_count ctx AND 63 \<noteq> 56 then do { ctx \<leftarrow> SHA256_update [0] 1 ctx; final_zeros n ctx }
      else Some ctx)"

fun final_length :: "u64 \<Rightarrow> nat list \<Rightarrow> SHA256_CTX \<Rightarrow> SHA256_CTX option" where
  "final_length cnt [] ctx = Some ctx"
| "final_length cnt (i # is) ctx =
     do { ctx \<leftarrow> SHA256_update [ucast (drop_bit ((7 - i) * 8) cnt)] 1 ctx; final_length cnt is ctx }"

text \<open>The digest is written into the buffer of the context.\<close>

definition SHA256_final :: "SHA256_CTX \<Rightarrow> SHA256_CTX option" where
  "SHA256_final ctx =
     (let cnt = sc_count ctx * 8 in
      do { ctx \<leftarrow> SHA256_update [0x80] 1 ctx;
           ctx \<leftarrow> final_zeros 64 ctx;
           ctx \<leftarrow> final_length cnt [0..<8] ctx;
           let digest = concat (map put_uint32_be (sc_state ctx)) in
           Some (ctx\<lparr>sc_buf := digest @ drop (length digest) (sc_buf ctx)\<rparr>) })"

definition SHA256_hash :: "bytes \<Rightarrow> int \<Rightarrow> SHA256_CTX \<Rightarrow> bytes option" where
  "SHA256_hash data len ctx =
     do { ctx \<leftarrow> SHA256_update data len (SHA256_init ctx);
          ctx \<leftarrow> SHA256_final ctx;
          mem_slice (sc_buf ctx) 0 32 }"

end
