(* ===== verification/Infra_Digest_Correct.thy ===== *)
theory Infra_Digest_Correct
  imports Infra_Digest
begin

text \<open>
  What the digests of \<open>Infra_Digest\<close> compute: the reference functions of FIPS 180-4 (SHA-1 and
  SHA-256) and RFC 1321 (the round functions of MD5), the proof that the optimised compression
  functions equal them, the interpretations of \<open>digest_function\<close> and from them the
  correctness of streaming, one-shot digests and HMACs. The second SHA-256, which feeds its
  block byte by byte, gives the same digests.
\<close>

section \<open>Bitwise identities\<close>

text \<open>The functions of FIPS 180-4, 4.1.1 and 4.1.2.\<close>

definition Ch :: "u32 \<Rightarrow> u32 \<Rightarrow> u32 \<Rightarrow> u32" where
  "Ch x y z = (x AND y) XOR (NOT x AND z)"

definition Maj :: "u32 \<Rightarrow> u32 \<Rightarrow> u32 \<Rightarrow> u32" where
  "Maj x y z = (x AND y) XOR (x AND z) XOR (y AND z)"

definition Parity :: "u32 \<Rightarrow> u32 \<Rightarrow> u32 \<Rightarrow> u32" where
  "Parity x y z = x XOR y XOR z"

definition Sigma0 :: "u32 \<Rightarrow> u32" where
  "Sigma0 x = word_rotr 2 x XOR word_rotr 13 x XOR word_rotr 22 x"

definition Sigma1 :: "u32 \<Rightarrow> u32" where
  "Sigma1 x = word_rotr 6 x XOR word_rotr 11 x XOR word_rotr 25 x"

definition sigma0 :: "u32 \<Rightarrow> u32" where
  "sigma0 x = word_rotr 7 x XOR word_rotr 18 x XOR drop_bit 3 x"

definition sigma1 :: "u32 \<Rightarrow> u32" where
  "sigma1 x = word_rotr 17 x XOR word_rotr 19 x XOR drop_bit 10 x"

lemma word_all_ones: "(w :: u32) AND 0xFFFFFFFF = w"
proof -
  have "(0xFFFFFFFF :: u32) = - 1" by simp
  then show ?thesis by (simp only: bit.conj_one_right)
qed

lemma rotr_drop_push:
  assumes "0 < n" and "n < 32"
  shows "drop_bit n x OR push_bit (32 - n) x = word_rotr n (x :: u32)"
proof (rule bit_word_eqI)
  fix i
  assume "i < LENGTH(32)"
  then have i: "i < 32" by simp
  have rot: "bit (word_rotr n x) i \<longleftrightarrow> bit x ((i + n) mod 32)" using i by (simp add: bit_word_rotr_iff)
  have or: "bit (drop_bit n x OR push_bit (32 - n) x) i \<longleftrightarrow> bit x (i + n) \<or> (32 - n \<le> i \<and> bit x (i - (32 - n)))"
    using i by (auto simp: bit_simps add.commute)
  show "bit (drop_bit n x OR push_bit (32 - n) x) i = bit (word_rotr n x) i"
  proof (cases "i + n < 32")
    case True
    then show ?thesis unfolding rot or using assms by auto
  next
    case False
    then have "(i + n) mod 32 = i - (32 - n)" "\<not> bit x (i + n)"
      using i assms bit_imp_le_length [of x "i + n"] by (auto simp: mod_if)
    then show ?thesis unfolding rot or using False by auto
  qed
qed

lemma rotate_left_rotl:
  assumes "0 < n" and "n < 32"
  shows "rotate_left x n = word_rotl n x"
proof -
  have "word_rotl n x = word_rotr (32 - n) x"
  proof (rule bit_word_eqI)
    fix i
    assume "i < LENGTH(32)"
    then show "bit (word_rotl n x) i = bit (word_rotr (32 - n) x) i"
      using assms by (simp add: bit_word_rotl_iff bit_word_rotr_iff)
  qed
  also have "\<dots> = rotate_left x n"
    using rotr_drop_push [of "32 - n" x] assms by (simp add: rotate_left_def word_all_ones or.commute)
  finally show ?thesis by simp
qed

lemma choices:
  "z XOR (x AND (y XOR z)) = Ch x y z"
  "(x AND y) OR (z AND (x OR y)) = Maj x y z"
  by (rule bit_word_eqI; auto simp: Ch_def Maj_def bit_simps)+

lemmas sha1_functions = sha1_F1_def [unfolded choices] sha1_F3_def [unfolded choices] sha1_F2_def [folded Parity_def]

lemma sha256_ROTR_rotr: "0 < n \<Longrightarrow> n < 32 \<Longrightarrow> sha256_ROTR x n = word_rotr n x"
  by (simp add: sha256_ROTR_def sha256_SHR_def word_all_ones rotr_drop_push)

lemma sha256_functions:
  "sha256_F1 x y z = Ch x y z" "sha256_F0 x y z = Maj x y z"
  "sha256_S2 x = Sigma0 x" "sha256_S3 x = Sigma1 x" "sha256_S0 x = sigma0 x" "sha256_S1 x = sigma1 x"
  by (simp_all add: sha256_F0_def sha256_F1_def choices sha256_S0_def sha256_S1_def sha256_S2_def sha256_S3_def
      sha256_ROTR_rotr sha256_SHR_def word_all_ones Sigma0_def Sigma1_def sigma0_def sigma1_def)

lemma ror_rotr: "0 < n \<Longrightarrow> n < 32 \<Longrightarrow> ror x n = word_rotr n x"
  by (simp add: ror_def rotr_drop_push)

section \<open>SHA-256\<close>

text \<open>The message schedule and one step of the compression (FIPS 180-4, 6.2.2).\<close>

fun sha256_schedule :: "bytes \<Rightarrow> nat \<Rightarrow> u32 list" where
  "sha256_schedule M 0 = []"
| "sha256_schedule M (Suc t) =
     (let W = sha256_schedule M t in
      W @ [if t < 16 then get_uint32_be M (4 * t)
           else sigma1 (W ! (t - 2)) + W ! (t - 7) + sigma0 (W ! (t - 15)) + W ! (t - 16)])"

definition sha256_round :: "u32 list \<Rightarrow> nat \<Rightarrow> word8 \<Rightarrow> word8" where
  "sha256_round W t = (\<lambda>(a, b, c, d, e, f, g, h).
     let T1 = h + Sigma1 e + Ch e f g + sha256_K ! t + W ! t;
         T2 = Sigma0 a + Maj a b c
     in (T1 + T2, a, b, c, d + T1, e, f, g))"

definition words8 :: "word8 \<Rightarrow> u32 list" where
  "words8 = (\<lambda>(a, b, c, d, e, f, g, h). [a, b, c, d, e, f, g, h])"

definition sha256_compress :: "u32 list \<Rightarrow> bytes \<Rightarrow> u32 list" where
  "sha256_compress H M =
     map2 (+) H (words8 (fold (sha256_round (sha256_schedule M 64)) [0..<64]
       (H ! 0, H ! 1, H ! 2, H ! 3, H ! 4, H ! 5, H ! 6, H ! 7)))"

definition fips_sha256 :: "bytes \<Rightarrow> bytes" where
  "fips_sha256 m = concat (map put_uint32_be (md_digest sha256_compress sha256_iv msglen_be m))"

lemma sha256_schedule_length [simp]: "length (sha256_schedule M t) = t"
  by (induction t) (simp_all add: Let_def)

lemma schedule_nth: "i < t \<Longrightarrow> sha256_schedule M t ! i = sha256_schedule M (Suc i) ! i"
proof (induction t)
  case (Suc t)
  then show ?case by (cases "i = t") (simp_all add: Let_def nth_append)
qed simp

lemma eight:
  assumes "length (xs :: u32 list) = 8"
  obtains a b c d e f g h where "xs = [a, b, c, d, e, f, g, h]"
proof -
  have "length xs = Suc (Suc (Suc (Suc (Suc (Suc (Suc (Suc 0)))))))" using assms by simp
  then show thesis using that unfolding length_Suc_conv length_0_conv by blast
qed

lemma sha256_step_round:
  assumes "t < 64"
  shows "sha256_step M t (sha256_schedule M t, words8 v)
       = (sha256_schedule M (Suc t), words8 (sha256_round (sha256_schedule M 64) t v))"
proof -
  obtain a b c d e f g h where v: "v = (a, b, c, d, e, f, g, h)" by (metis prod.exhaust)
  have W: "sha256_schedule M t @ [sha256_W M (sha256_schedule M t) t] = sha256_schedule M (Suc t)"
    by (simp add: sha256_W_def sha256_functions Let_def)
  have "sha256_schedule M (Suc t) ! t = sha256_schedule M 64 ! t" using schedule_nth [OF assms] by simp
  then show ?thesis
    unfolding sha256_step_def prod.case W Let_def v sha256_round_def words8_def
    by (simp add: sha256_functions add_ac del: sha256_schedule.simps)
qed

lemma sha256_steps:
  assumes "t \<le> 64"
  shows "fold (sha256_step M) [0..<t] ([], words8 v)
       = (sha256_schedule M t, words8 (fold (sha256_round (sha256_schedule M 64)) [0..<t] v))"
  using assms
proof (induction t)
  case (Suc t)
  then show ?case using sha256_step_round [of t M] by (simp del: sha256_schedule.simps)
qed simp

lemma sha256_process:
  assumes "length st = 8"
  shows "utils_sha256_process st M = sha256_compress st M" and "length (sha256_compress st M) = 8"
proof -
  from eight [OF assms] obtain a b c d e f g h where st: "st = [a, b, c, d, e, f, g, h]" .
  let ?v = "(a, b, c, d, e, f, g, h)"
  have start: "take 8 st = words8 ?v" by (simp add: st words8_def)
  have v: "(st ! 0, st ! 1, st ! 2, st ! 3, st ! 4, st ! 5, st ! 6, st ! 7) = ?v" by (simp add: st)
  show "utils_sha256_process st M = sha256_compress st M"
    unfolding utils_sha256_process_def sha256_compress_def start v sha256_steps [of 64, simplified] by simp
  show "length (sha256_compress st M) = 8"
    unfolding sha256_compress_def v by (simp add: st words8_def split: prod.split)
qed

text \<open>The second implementation: all of the schedule first, then the rounds.\<close>

lemma transform_W: "transform_W M = sha256_schedule M 64"
proof -
  define f where "f t W = (let s0 = ror (W ! (t - 15)) 7 XOR ror (W ! (t - 15)) 18 XOR drop_bit 3 (W ! (t - 15));
             s1 = ror (W ! (t - 2)) 17 XOR ror (W ! (t - 2)) 19 XOR drop_bit 10 (W ! (t - 2))
         in W @ [W ! (t - 16) + s0 + W ! (t - 7) + s1])" for t W
  have start: "map (\<lambda>t. get_uint32_be M (4 * t)) [0..<t] = sha256_schedule M t" if "t \<le> 16" for t
    using that by (induction t) (simp_all add: Let_def)
  have next': "f t (sha256_schedule M t) = sha256_schedule M (Suc t)" if "16 \<le> t" for t
    using that by (simp add: f_def Let_def ror_rotr sigma0_def sigma1_def add_ac)
  have "fold f [16..<16 + n] (sha256_schedule M 16) = sha256_schedule M (16 + n)" for n
  proof (induction n)
    case (Suc n)
    have "[16..<16 + Suc n] = [16..<16 + n] @ [16 + n]" using upt_Suc_append [of 16 "16 + n"] by simp
    then show ?case unfolding fold_append using Suc next' [of "16 + n"] by (simp del: sha256_schedule.simps upt_Suc)
  qed simp
  moreover have "(16 :: nat) + 48 = 64" by simp
  ultimately have "fold f [16..<64] (sha256_schedule M 16) = sha256_schedule M 64" by metis
  then show ?thesis
    unfolding transform_W_def f_def [abs_def] start [OF order_refl] .
qed

lemma transform_round: "transform_round W t v = sha256_round W t v"
  by (cases v) (simp add: transform_round_def sha256_round_def ror_rotr Sigma0_def Sigma1_def Ch_def Maj_def Let_def add_ac)

lemma SHA256_Transform_compress:
  assumes "length st = 8"
  shows "SHA256_Transform st M = sha256_compress st M"
proof -
  from eight [OF assms] obtain a b c d e f g h where st: "st = [a, b, c, d, e, f, g, h]" .
  have "transform_round (transform_W M) = sha256_round (sha256_schedule M 64)"
    by (intro ext) (simp add: transform_W transform_round)
  then show ?thesis
    unfolding SHA256_Transform_def sha256_compress_def words8_def
    by (simp add: st split: prod.split)
qed

section \<open>SHA-1\<close>

text \<open>The message schedule and one step (FIPS 180-4, 6.1.2), with all 80 words of the schedule.\<close>

fun sha1_schedule :: "bytes \<Rightarrow> nat \<Rightarrow> u32 list" where
  "sha1_schedule M 0 = []"
| "sha1_schedule M (Suc t) =
     (let W = sha1_schedule M t in
      W @ [if t < 16 then get_uint32_be M (4 * t)
           else word_rotl 1 (W ! (t - 3) XOR W ! (t - 8) XOR W ! (t - 14) XOR W ! (t - 16))])"

type_synonym word5 = "u32 \<times> u32 \<times> u32 \<times> u32 \<times> u32"

definition sha1_f :: "nat \<Rightarrow> u32 \<Rightarrow> u32 \<Rightarrow> u32 \<Rightarrow> u32" where
  "sha1_f t = (if t < 20 then Ch else if t < 40 then Parity else if t < 60 then Maj else Parity)"

definition sha1_K :: "nat \<Rightarrow> u32" where
  "sha1_K t = (if t < 20 then 0x5A827999 else if t < 40 then 0x6ED9EBA1 else if t < 60 then 0x8F1BBCDC else 0xCA62C1D6)"

definition sha1_round :: "u32 list \<Rightarrow> nat \<Rightarrow> word5 \<Rightarrow> word5" where
  "sha1_round W t = (\<lambda>(a, b, c, d, e).
     (word_rotl 5 a + sha1_f t b c d + e + sha1_K t + W ! t, a, word_rotl 30 b, c, d))"

definition sha1_compress :: "u32 list \<Rightarrow> bytes \<Rightarrow> u32 list" where
  "sha1_compress H M =
     (let (a, b, c, d, e) = fold (sha1_round (sha1_schedule M 80)) [0..<80] (H ! 0, H ! 1, H ! 2, H ! 3, H ! 4)
      in [H ! 0 + a, H ! 1 + b, H ! 2 + c, H ! 3 + d, H ! 4 + e])"

definition fips_sha1 :: "bytes \<Rightarrow> bytes" where
  "fips_sha1 m = concat (map put_uint32_be (md_digest sha1_compress sha1_iv msglen_be m))"

lemma sha1_schedule_length [simp]: "length (sha1_schedule M t) = t"
  by (induction t) (simp_all add: Let_def)

lemma sha1_schedule_nth: "i < t \<Longrightarrow> sha1_schedule M t ! i = sha1_schedule M (Suc i) ! i"
proof (induction t)
  case (Suc t)
  then show ?case by (cases "i = t") (simp_all add: Let_def nth_append)
qed simp

lemma sha1_schedule_prefix: "i < s \<Longrightarrow> i < t \<Longrightarrow> sha1_schedule M s ! i = sha1_schedule M t ! i"
  by (metis sha1_schedule_nth)

text \<open>The ring holds the last 16 words of the schedule.\<close>

definition ring :: "bytes \<Rightarrow> nat \<Rightarrow> u32 list \<Rightarrow> bool" where
  "ring M t W \<longleftrightarrow> length W = 16 \<and> (\<forall>i. t - 16 \<le> i \<and> i < max t 16 \<longrightarrow> W ! (i mod 16) = sha1_schedule M 80 ! i)"

lemma ring_start: "ring M 0 (map (\<lambda>i. get_uint32_be M (4 * i)) [0..<16])"
proof -
  have "sha1_schedule M 80 ! i = get_uint32_be M (4 * i)" if "i < 16" for i
    using that sha1_schedule_nth [of i 80 M] by (simp add: Let_def nth_append)
  then show ?thesis by (simp add: ring_def)
qed

lemma ring_at: "ring M t W \<Longrightarrow> t - 16 \<le> i \<Longrightarrow> i < max t 16 \<Longrightarrow> W ! (i mod 16) = sha1_schedule M 80 ! i"
  by (simp add: ring_def)

lemma ring_step:
  assumes "ring M t W" and "t < 80"
  defines "W' \<equiv> if t < 16 then W else sha1_R t W"
  shows "ring M (Suc t) W'" and "W' ! (t mod 16) = sha1_schedule M 80 ! t"
proof -
  have len: "length W = 16" using assms(1) by (simp add: ring_def)
  have word: "sha1_schedule M 80 ! t = word_rotl 1 (W ! ((t - 3) mod 16) XOR W ! ((t - 8) mod 16)
      XOR W ! ((t - 14) mod 16) XOR W ! (t mod 16))" if "16 \<le> t"
  proof -
    have "W ! (t mod 16) = W ! ((t - 16) mod 16)" using that by (simp add: le_mod_geq)
    moreover have "W ! ((t - k) mod 16) = sha1_schedule M t ! (t - k)" if "0 < k" "k \<le> 16" for k
      using ring_at [OF assms(1), of "t - k"] sha1_schedule_prefix [of "t - k" t 80 M] that \<open>16 \<le> t\<close> assms(2)
      by simp
    ultimately show ?thesis
      using that sha1_schedule_nth [OF assms(2), of M] by (simp add: Let_def nth_append)
  qed
  have W': "W' = (if t < 16 then W else W[t mod 16 := sha1_schedule M 80 ! t])"
    using word by (simp add: W'_def sha1_R_def Let_def rotate_left_rotl)
  have "W' ! (i mod 16) = sha1_schedule M 80 ! i" if "Suc t - 16 \<le> i" "i < max (Suc t) 16" for i
  proof (cases "t < 16")
    case True
    then show ?thesis using ring_at [OF assms(1), of i] that unfolding W' by (simp split: if_splits)
  next
    case False
    show ?thesis
    proof (cases "i = t")
      case True
      then show ?thesis unfolding W' using False len by simp
    next
      case neq: False
      have "i mod 16 \<noteq> t mod 16"
      proof
        assume "i mod 16 = t mod 16"
        moreover have near: "i < t" "t < i + 16" using neq that False by auto
        ultimately have "16 dvd t - i" using mod_eq_dvd_iff_nat [of i t 16] by simp
        then show False using near by (auto dest: dvd_imp_le)
      qed
      then show ?thesis unfolding W' using False ring_at [OF assms(1), of i] that neq by simp
    qed
  qed
  then show "ring M (Suc t) W'" using len by (simp add: ring_def W')
  show "W' ! (t mod 16) = sha1_schedule M 80 ! t"
  proof (cases "t < 16")
    case True
    then show ?thesis using ring_at [OF assms(1), of t] unfolding W' by simp
  next
    case False
    then show ?thesis unfolding W' using len by simp
  qed
qed

lemma sha1_steps:
  assumes "t \<le> 80" and "ring M 0 W"
  shows "\<exists>W'. ring M t W' \<and> fold sha1_step [0..<t] (W, v) = (W', fold (sha1_round (sha1_schedule M 80)) [0..<t] v)"
  using assms
proof (induction t)
  case (Suc t)
  then obtain W' where W': "ring M t W'" "fold sha1_step [0..<t] (W, v) = (W', fold (sha1_round (sha1_schedule M 80)) [0..<t] v)"
    by auto
  obtain a b c d e where v: "fold (sha1_round (sha1_schedule M 80)) [0..<t] v = (a, b, c, d, e)" by (metis prod.exhaust)
  define W2 where "W2 = (if t < 16 then W' else sha1_R t W')"
  have "ring M (Suc t) W2" "W2 ! (t mod 16) = sha1_schedule M 80 ! t"
    unfolding W2_def using ring_step [OF W'(1)] Suc.prems(1) by simp_all
  moreover from this(2) have "sha1_step t (W', a, b, c, d, e) = (W2, sha1_round (sha1_schedule M 80) t (a, b, c, d, e))"
    unfolding sha1_step_def prod.case Let_def W2_def [symmetric]
    by (simp add: sha1_P_def sha1_round_def sha1_f_def sha1_K_def sha1_F1_def sha1_F3_def
        choices sha1_F2_def Parity_def rotate_left_rotl add_ac)
  ultimately show ?case using W'(2) v by auto
qed simp

lemma sha1_process:
  shows "utils_sha1_process st M = sha1_compress st M" and "length (sha1_compress st M) = 5"
proof -
  from sha1_steps [OF order_refl ring_start] obtain W' where
    "fold sha1_step [0..<80] (map (\<lambda>i. get_uint32_be M (4 * i)) [0..<16], st ! 0, st ! 1, st ! 2, st ! 3, st ! 4)
      = (W', fold (sha1_round (sha1_schedule M 80)) [0..<80] (st ! 0, st ! 1, st ! 2, st ! 3, st ! 4))" by blast
  then show "utils_sha1_process st M = sha1_compress st M"
    unfolding utils_sha1_process_def sha1_compress_def Let_def by simp
  show "length (sha1_compress st M) = 5" by (simp add: sha1_compress_def Let_def split: prod.split)
qed

section \<open>The interpretations\<close>

lemma words_length: "length (put_uint32_be w) = 4" "length (put_uint32_le w) = 4"
  "length (msglen_be h l) = 8" "length (msglen_le h l) = 8"
  by (simp_all add: put_uint32_be_def put_uint32_le_def msglen_be_def msglen_le_def)

lemma iv_lengths [simp]: "length md5_iv = 4" "length sha1_iv = 5" "length sha256_iv = 8"
  by (simp_all add: md5_iv_def sha1_iv_def sha256_iv_def)

interpretation md5: digest_function utils_md5_process md5_iv msglen_le put_uint32_le
  by unfold_locales (simp_all add: words_length utils_md5_process_def Let_def split: prod.split)

interpretation sha1: digest_function utils_sha1_process sha1_iv msglen_be put_uint32_be
  by unfold_locales (simp_all add: words_length sha1_process)

interpretation sha256: digest_function utils_sha256_process sha256_iv msglen_be put_uint32_be
  by unfold_locales (simp_all add: words_length sha256_process)

lemma sha1_hash: "sha1.hash m = fips_sha1 m"
proof -
  have "md_digest utils_sha1_process sha1_iv msglen_be m = md_digest sha1_compress sha1_iv msglen_be m"
    by (rule md_digest_cong) (simp_all add: words_length sha1_process)
  then show ?thesis by (simp add: sha1.hash_def fips_sha1_def)
qed

lemma sha256_hash: "sha256.hash m = fips_sha256 m"
proof -
  have "md_digest utils_sha256_process sha256_iv msglen_be m = md_digest sha256_compress sha256_iv msglen_be m"
    by (rule md_digest_cong) (simp_all add: words_length sha256_process)
  then show ?thesis by (simp add: sha256.hash_def fips_sha256_def)
qed

lemma finish_functions:
  "utils_md5_finish = md5.finish" "utils_sha1_finish = sha1.finish" "utils_sha256_finish = sha256.finish"
  by (intro ext, simp add: utils_md5_finish_def md5.finish_def utils_sha1_finish_def sha1.finish_def
      utils_sha256_finish_def sha256.finish_def)+

lemma one_shot_digests:
  assumes "mem_slice input 0 (unat ilen) = Some m"
  shows "utils_md5 input ilen = Some (md5.hash m)" and "utils_sha1 input ilen = Some (fips_sha1 m)"
    and "utils_sha256 input ilen = Some (fips_sha256 m)"
  using md5.one_shot [OF assms, of 4] sha1.one_shot [OF assms, of 5] sha256.one_shot [OF assms, of 8]
  by (auto simp: utils_md5_def utils_sha1_def utils_sha256_def utils_md5_update_def utils_sha1_update_def
      utils_sha256_update_def utils_md5_starts_def utils_sha1_starts_def utils_sha256_starts_def
      finish_functions sha1_hash sha256_hash)

lemma hmac_digests:
  assumes "mem_slice key 0 (nat key_len) = Some k" and "0 \<le> key_len" and "key_len \<le> 64"
    and "mem_slice msg 0 (nat msg_len) = Some m" and "0 \<le> msg_len" and "msg_len < 2 ^ 32"
  shows "utils_hmac_md5 msg msg_len key key_len = Some (Some (hex_digest (hmac_spec md5.hash k m)))"
    and "utils_hmac_sha1 msg msg_len key key_len = Some (Some (hex_digest (hmac_spec fips_sha1 k m)))"
    and "utils_hmac_sha1_hex msg msg_len key key_len = Some (Some (hmac_spec fips_sha1 k m))"
    and "utils_hmac_sha256 msg (word_of_int msg_len) key (word_of_int key_len) = Some (Some (hmac_spec fips_sha256 k m))"
proof -
  have "unat (word_of_int msg_len :: u32) = nat msg_len"
    using assms(5,6) by (simp add: unat_eq_nat_uint uint_word_of_int)
  then have msg: "mem_slice msg 0 (unat (word_of_int msg_len :: u32)) = Some m" using assms(4) by simp
  have key: "uint (word_of_int key_len :: u32) = key_len" using assms(2,3) by (simp add: uint_word_of_int)
  note hmacs = md5.hmac [OF assms(1-3) msg, of 4] sha1.hmac [OF assms(1-3) msg, of 5] sha256.hmac [OF assms(1-3) msg, of 8]
  have "sha1.hash = fips_sha1" "sha256.hash = fips_sha256" by (intro ext sha1_hash sha256_hash)+
  note specs = hmacs [unfolded this]
  show "utils_hmac_md5 msg msg_len key key_len = Some (Some (hex_digest (hmac_spec md5.hash k m)))"
    using specs(1) by (simp add: utils_hmac_md5_def utils_md5_update_def utils_md5_starts_def finish_functions)
  show "utils_hmac_sha1 msg msg_len key key_len = Some (Some (hex_digest (hmac_spec fips_sha1 k m)))"
    using specs(2) by (simp add: utils_hmac_sha1_def utils_sha1_update_def utils_sha1_starts_def finish_functions)
  show "utils_hmac_sha1_hex msg msg_len key key_len = Some (Some (hmac_spec fips_sha1 k m))"
    using specs(2) by (simp add: utils_hmac_sha1_hex_def utils_sha1_update_def utils_sha1_starts_def finish_functions)
  show "utils_hmac_sha256 msg (word_of_int msg_len) key (word_of_int key_len) = Some (Some (hmac_spec fips_sha256 k m))"
    using specs(3) by (simp add: utils_hmac_sha256_def key utils_sha256_update_def utils_sha256_starts_def finish_functions)
qed

section \<open>The byte-wise SHA-256\<close>

text \<open>A context after the bytes \<open>m\<close>; \<open>filled\<close> leaves the counter out.\<close>

definition filled :: "bytes \<Rightarrow> SHA256_CTX \<Rightarrow> bool" where
  "filled m ctx \<longleftrightarrow> length (sc_buf ctx) = 64 \<and> length (sc_state ctx) = 8
     \<and> hash_blocks sha256_compress sha256_iv m = (sc_state ctx, take (length m mod 64) (sc_buf ctx))"

definition fed :: "bytes \<Rightarrow> SHA256_CTX \<Rightarrow> bool" where
  "fed m ctx \<longleftrightarrow> sc_count ctx = of_nat (length m) \<and> filled m ctx"

lemma update_loop_filled:
  assumes "filled m ctx" and "i = length m mod 64"
  shows "filled (m @ p) (update_loop p i ctx) \<and> sc_count (update_loop p i ctx) = sc_count ctx"
  using assms
proof (induction p arbitrary: m i ctx)
  case (Cons b p)
  let ?buf = "(sc_buf ctx)[i := b]"
  have buf: "length (sc_buf ctx) = 64" and i: "i < 64" and st: "length (sc_state ctx) = 8"
    using Cons.prems by (simp_all add: filled_def)
  have upto: "take (Suc i) ?buf = take i (sc_buf ctx) @ [b]"
    using buf i by (simp add: take_Suc_conv_app_nth)
  have blocks: "hash_blocks sha256_compress sha256_iv (m @ [b])
      = hash_blocks sha256_compress (sc_state ctx) (take (Suc i) ?buf)"
    unfolding upto by (subst hash_blocks_append) (use Cons.prems in \<open>simp add: filled_def\<close>)
  show ?case
  proof (cases "Suc i = 64")
    case True
    let ?ctx = "ctx\<lparr>sc_buf := ?buf, sc_state := SHA256_Transform (sc_state ctx) ?buf\<rparr>"
    have "take (Suc i) ?buf = ?buf" using True buf by simp
    then have "hash_blocks sha256_compress sha256_iv (m @ [b]) = (sha256_compress (sc_state ctx) ?buf, [])"
      unfolding blocks using buf by (simp add: hash_blocks_step)
    moreover have "length (m @ [b]) mod 64 = 0" using True Cons.prems(2) by (simp add: mod_Suc)
    ultimately have "filled (m @ [b]) ?ctx"
      using buf sha256_process(2) [OF st, of ?buf] by (simp add: filled_def SHA256_Transform_compress [OF st])
    with Cons.IH [of "m @ [b]" ?ctx 0] \<open>length (m @ [b]) mod 64 = 0\<close> True show ?thesis by simp
  next
    case False
    let ?ctx = "ctx\<lparr>sc_buf := ?buf\<rparr>"
    have "hash_blocks sha256_compress sha256_iv (m @ [b]) = (sc_state ctx, take (Suc i) ?buf)"
      unfolding blocks using i False buf by (intro hash_blocks_step(2)) simp
    moreover have size: "length (m @ [b]) mod 64 = Suc i" using False Cons.prems(2) by (simp add: mod_Suc)
    ultimately have "filled (m @ [b]) ?ctx" using buf st by (simp add: filled_def)
    with Cons.IH [of "m @ [b]" ?ctx "Suc i"] size False show ?thesis by simp
  qed
qed simp

lemma count_left: "unat ((of_nat n :: u64) AND 63) = n mod 64"
proof -
  have m: "(63 :: u64) = mask 6" by (simp add: mask_eq_exp_minus_1)
  have "unat (take_bit 6 (of_nat n :: u64)) = take_bit 6 (unat (of_nat n :: u64))" by (rule unsigned_take_bit_eq)
  also have "unat (of_nat n :: u64) = take_bit 64 n" by (simp add: unat_of_nat take_bit_eq_mod)
  also have "take_bit 6 (take_bit 64 n) = take_bit 6 n" by simp
  finally have "unat (take_bit 6 (of_nat n :: u64)) = n mod 64" by (simp add: take_bit_eq_mod [of 6 n])
  then show ?thesis unfolding m take_bit_eq_mask [symmetric] .
qed

lemma SHA256_update_fed:
  assumes "fed m ctx" and "mem_slice data 0 (nat len) = Some d" and "0 \<le> len"
  shows "\<exists>ctx'. SHA256_update data len ctx = Some ctx' \<and> fed (m @ d) ctx'"
proof -
  have len: "len = int (length d)" using mem_slice_length [OF assms(2)] assms(3) by simp
  have left: "unat (sc_count ctx AND 63) = length m mod 64" using assms(1) count_left by (simp add: fed_def)
  let ?ctx = "ctx\<lparr>sc_count := sc_count ctx + word_of_int len\<rparr>"
  have "filled m ?ctx" using assms(1) by (simp add: fed_def filled_def)
  from update_loop_filled [OF this refl, of d] left
  have "filled (m @ d) (update_loop d (unat (sc_count ctx AND 63)) ?ctx)"
    "sc_count (update_loop d (unat (sc_count ctx AND 63)) ?ctx) = of_nat (length (m @ d))"
    using assms(1) len by (simp_all add: fed_def)
  then show ?thesis using assms(2,3) by (simp add: SHA256_update_def fed_def)
qed

lemma SHA256_update_byte:
  assumes "fed m ctx"
  obtains ctx' where "SHA256_update [b] 1 ctx = Some ctx'" and "fed (m @ [b]) ctx'"
  using SHA256_update_fed [OF assms, of "[b]" 1 "[b]"] by (auto simp: mem_slice_def)

lemma final_zeros_fed:
  assumes "fed m ctx" and "nat ((56 - int (length m)) mod 64) < n"
  shows "\<exists>ctx'. final_zeros n ctx = Some ctx' \<and> fed (m @ replicate (nat ((56 - int (length m)) mod 64)) 0) ctx'"
  using assms
proof (induction n arbitrary: m ctx)
  case (Suc n)
  let ?k = "\<lambda>m :: bytes. (56 - int (length m)) mod 64"
  have count: "sc_count ctx AND 63 = 56 \<longleftrightarrow> length m mod 64 = 56"
  proof -
    have c: "sc_count ctx = of_nat (length m)" using Suc.prems(1) by (simp add: fed_def)
    show ?thesis unfolding c word_unat_eq_iff [of "_ AND _"] count_left by simp
  qed
  have zero: "length m mod 64 = 56 \<longleftrightarrow> ?k m = 0" by presburger
  show ?case
  proof (cases "?k m = 0")
    case True
    with count zero Suc.prems(1) show ?thesis by simp
  next
    case False
    have less: "?k (m @ [0]) = ?k m - 1"
    proof -
      have "?k (m @ [0]) = (?k m - 1) mod 64" by (simp add: mod_simps)
      also have "\<dots> = ?k m - 1"
        using False pos_mod_bound [of 64 "56 - int (length m)"] pos_mod_sign [of 64 "56 - int (length m)"]
        by (intro mod_pos_pos_trivial) linarith+
      finally show ?thesis .
    qed
    have pos: "0 < ?k m" using False pos_mod_sign [of 64 "56 - int (length m)"] by linarith
    from SHA256_update_byte [OF Suc.prems(1)] obtain ctx1
      where ctx1: "SHA256_update [0] 1 ctx = Some ctx1" "fed (m @ [0]) ctx1" .
    have "nat (?k (m @ [0])) < n" using Suc.prems(2) less pos by linarith
    from Suc.IH [OF ctx1(2) this] obtain ctx2
      where ctx2: "final_zeros n ctx1 = Some ctx2" "fed ((m @ [0]) @ replicate (nat (?k (m @ [0]))) 0) ctx2" by blast
    have "[0] @ replicate (nat (?k (m @ [0]))) 0 = replicate (nat (?k m)) (0 :: u8)"
    proof -
      have "nat (?k m) = Suc (nat (?k (m @ [0])))" using less pos by linarith
      then show ?thesis by simp
    qed
    with ctx1(1) ctx2 count zero False show ?thesis by simp
  qed
qed simp

lemma final_length_fed:
  assumes "fed m ctx"
  shows "\<exists>ctx'. final_length cnt is ctx = Some ctx' \<and> fed (m @ map (\<lambda>i. ucast (drop_bit ((7 - i) * 8) cnt)) is) ctx'"
  using assms
proof (induction "is" arbitrary: m ctx)
  case (Cons i "is")
  from SHA256_update_byte [OF Cons.prems] obtain ctx1
    where ctx1: "SHA256_update [ucast (drop_bit ((7 - i) * 8) cnt)] 1 ctx = Some ctx1"
      "fed (m @ [ucast (drop_bit ((7 - i) * 8) cnt)]) ctx1" .
  with Cons.IH [OF ctx1(2)] show ?case by simp
qed simp

lemma length_bytes:
  "map (\<lambda>i. ucast (drop_bit ((7 - i) * 8) (cnt :: u64)) :: u8) [0..<8]
   = msglen_be (ucast (drop_bit 32 cnt)) (ucast cnt)"
proof -
  have low: "(ucast (drop_bit k (ucast cnt :: u32)) :: u8) = ucast (drop_bit k cnt)" if "k \<le> 24" for k
    using that by (intro bit_word_eqI) (auto simp: bit_simps)
  have high: "(ucast (drop_bit k (ucast (drop_bit 32 cnt) :: u32)) :: u8) = ucast (drop_bit (32 + k) cnt)" if "k \<le> 24" for k
    using that by (intro bit_word_eqI) (auto simp: bit_simps add_ac)
  show ?thesis
    using low [of 0] low [of 8] low [of 16] low [of 24] high [of 0] high [of 8] high [of 16] high [of 24]
    by (simp add: msglen_be_def put_uint32_be_def upt_rec)
qed

lemma SHA256_final_fed:
  assumes "fed m ctx"
  shows "\<exists>ctx'. SHA256_final ctx = Some ctx' \<and> take 32 (sc_buf ctx') = fips_sha256 m"
proof -
  let ?k = "nat ((56 - int (length (m @ [0x80]))) mod 64)"
  from SHA256_update_byte [OF assms] obtain ctx1
    where ctx1: "SHA256_update [0x80] 1 ctx = Some ctx1" "fed (m @ [0x80]) ctx1" .
  have "?k < 64" using pos_mod_bound [of 64 "56 - int (length (m @ [0x80]))"] by linarith
  from final_zeros_fed [OF ctx1(2) this] obtain ctx2
    where ctx2: "final_zeros 64 ctx1 = Some ctx2" "fed ((m @ [0x80]) @ replicate ?k 0) ctx2" by blast
  have cnt: "sc_count ctx * 8 = of_nat (8 * length m)" using assms by (simp add: fed_def)
  from final_length_fed [OF ctx2(2), of "sc_count ctx * 8" "[0..<8]"] obtain ctx3
    where ctx3: "final_length (sc_count ctx * 8) [0..<8] ctx2 = Some ctx3"
      "fed (((m @ [0x80]) @ replicate ?k 0) @ msglen_be (ucast (drop_bit 32 (sc_count ctx * 8))) (ucast (sc_count ctx * 8))) ctx3"
    unfolding length_bytes by blast
  have "56 - int (length (m @ [0x80])) = 55 - int (length m)" by simp
  then have "fed (m @ md_pad msglen_be (length m)) ctx3"
    using ctx3(2) unfolding cnt by (simp add: md_pad_def Let_def)
  moreover have "length (m @ md_pad msglen_be (length m)) mod 64 = 0"
    using pad_length [of msglen_be "length m"] by (simp add: words_length)
  ultimately have st: "sc_state ctx3 = md_digest sha256_compress sha256_iv msglen_be m" "length (sc_state ctx3) = 8"
    using hash_blocks_whole [of "m @ md_pad msglen_be (length m)" sha256_compress sha256_iv]
    by (simp_all add: fed_def filled_def md_digest_def)
  have "length (concat (map put_uint32_be ws)) = 4 * length ws" for ws
    by (induction ws) (simp_all add: words_length)
  with st have "length (fips_sha256 m) = 32" by (simp add: fips_sha256_def flip: st(1))
  then show ?thesis
    using ctx1(1) ctx2(1) ctx3(1) st(1) by (simp add: SHA256_final_def Let_def fips_sha256_def)
qed

lemma SHA256_pieces:
  assumes "fed m ctx"
  shows "\<exists>ctx'. update_all (\<lambda>d. SHA256_update d (int (length d))) ds ctx = Some ctx' \<and> fed (m @ concat ds) ctx'"
  using assms
proof (induction ds arbitrary: m ctx)
  case (Cons d ds)
  from SHA256_update_fed [OF Cons.prems, of d "int (length d)" d] obtain ctx1
    where ctx1: "SHA256_update d (int (length d)) ctx = Some ctx1" "fed (m @ d) ctx1" by (auto simp: mem_slice_def)
  with Cons.IH [OF ctx1(2)] show ?case by simp
qed simp

lemma SHA256_init_fed: "length (sc_buf ctx) = 64 \<Longrightarrow> fed [] (SHA256_init ctx)"
  by (simp add: fed_def filled_def SHA256_init_def hash_blocks_step)

text \<open>
  Property C12: the digests are the standard ones, however the message arrives. For any cutting
  of a message into pieces of less than 4 GiB, feeding them one after the other and finishing
  gives the SHA-1 and the SHA-256 of FIPS 180-4 of the whole message; the second SHA-256 of the
  SDK, which fills its block byte by byte, gives the same bytes.
\<close>

theorem digests_correct:
  assumes "\<forall>d \<in> set ds. length d < 2 ^ 32" and "length (sc_buf ctx) = 64"
  shows "(\<exists>ctx1 ctx2. update_all (\<lambda>d. utils_sha256_update d (of_nat (length d))) ds (utils_sha256_starts (hash_init 8)) = Some ctx1
            \<and> utils_sha256_finish ctx1 = Some (fips_sha256 (concat ds), ctx2))
       \<and> (\<exists>ctx1 ctx2. update_all (\<lambda>d. utils_sha1_update d (of_nat (length d))) ds (utils_sha1_starts (hash_init 5)) = Some ctx1
            \<and> utils_sha1_finish ctx1 = Some (fips_sha1 (concat ds), ctx2))
       \<and> (\<exists>ctx1 ctx2. update_all (\<lambda>d. SHA256_update d (int (length d))) ds (SHA256_init ctx) = Some ctx1
            \<and> SHA256_final ctx1 = Some ctx2 \<and> take 32 (sc_buf ctx2) = fips_sha256 (concat ds))"
proof (intro conjI)
  show "\<exists>ctx1 ctx2. update_all (\<lambda>d. utils_sha256_update d (of_nat (length d))) ds (utils_sha256_starts (hash_init 8)) = Some ctx1
      \<and> utils_sha256_finish ctx1 = Some (fips_sha256 (concat ds), ctx2)"
    using sha256.stream [OF assms(1), of 8]
    by (simp add: utils_sha256_update_def utils_sha256_starts_def finish_functions sha256_hash)
  show "\<exists>ctx1 ctx2. update_all (\<lambda>d. utils_sha1_update d (of_nat (length d))) ds (utils_sha1_starts (hash_init 5)) = Some ctx1
      \<and> utils_sha1_finish ctx1 = Some (fips_sha1 (concat ds), ctx2)"
    using sha1.stream [OF assms(1), of 5]
    by (simp add: utils_sha1_update_def utils_sha1_starts_def finish_functions sha1_hash)
  show "\<exists>ctx1 ctx2. update_all (\<lambda>d. SHA256_update d (int (length d))) ds (SHA256_init ctx) = Some ctx1
      \<and> SHA256_final ctx1 = Some ctx2 \<and> take 32 (sc_buf ctx2) = fips_sha256 (concat ds)"
    using SHA256_pieces [OF SHA256_init_fed [OF assms(2)], of ds] SHA256_final_fed by (metis append_Nil)
qed

theorem digests_correct_witness:
  "\<exists>ctx1 ctx2. update_all (\<lambda>d. utils_sha256_update d (of_nat (length d))) [[97], [98, 99]] (utils_sha256_starts (hash_init 8)) = Some ctx1
     \<and> utils_sha256_finish ctx1 = Some (fips_sha256 [97, 98, 99], ctx2)"
proof -
  define ctx where "ctx = \<lparr>sc_count = 0, sc_buf = replicate 64 0, sc_state = []\<rparr>"
  have "length (sc_buf ctx) = 64" by (simp add: ctx_def)
  moreover have "\<forall>d \<in> set [[97], [98, 99 :: u8]]. length d < 2 ^ 32" by simp
  ultimately show ?thesis using digests_correct [of "[[97], [98, 99]]" ctx] by simp
qed

end
