(* ===== verification/Dev_Sign.thy ===== *)
theory Dev_Sign
  imports C_Buffer Infra_String Infra_Digest_Correct
begin

text \<open>
  The signature of a device (\<open>dev_sign/dev_sign_mqtt.c\<close>): from the product key, the device name and
  the device secret to the host name, client identifier, user name and password of the MQTT connection.
  \<open>SUPPORT_TLS\<close> and \<open>DEVICE_MODEL_CLASSIC\<close> are defined, \<open>MQTT_PRE_AUTH\<close> is not. The strings of the
  device are C strings; the arrays of the function and of the result have their sizes, and a string
  that leaves no room for its NUL is undefined where its length is taken.
\<close>

section \<open>Constants\<close>

definition DEV_SIGN_SOURCE_MAXLEN :: nat where "DEV_SIGN_SOURCE_MAXLEN = 200"
definition DEV_SIGN_HOSTNAME_MAXLEN :: nat where "DEV_SIGN_HOSTNAME_MAXLEN = 64"
definition DEV_SIGN_CLIENT_ID_MAXLEN :: nat where "DEV_SIGN_CLIENT_ID_MAXLEN = 200"
definition DEV_SIGN_USERNAME_MAXLEN :: nat where "DEV_SIGN_USERNAME_MAXLEN = 64"
definition DEV_SIGN_PASSWORD_MAXLEN :: nat where "DEV_SIGN_PASSWORD_MAXLEN = 65"

definition IOTX_PRODUCT_KEY_LEN :: nat where "IOTX_PRODUCT_KEY_LEN = 20"
definition IOTX_DEVICE_NAME_LEN :: nat where "IOTX_DEVICE_NAME_LEN = 32"
definition IOTX_DEVICE_SECRET_LEN :: nat where "IOTX_DEVICE_SECRET_LEN = 64"

definition TIMESTAMP_VALUE :: bytes where "TIMESTAMP_VALUE = ascii ''2524608000000''"

definition clientid_kv :: "(bytes \<times> bytes) list" where
  "clientid_kv =
     [(ascii ''timestamp'', TIMESTAMP_VALUE), (ascii ''securemode'', ascii ''2''),
      (ascii ''signmethod'', ascii ''hmacsha256''), (ascii ''gw'', ascii ''0''), (ascii ''ext'', ascii ''0''),
      (ascii ''_v'', ascii ''sdk-c-3.0.1'')]"

text \<open>The domains of the regions; the last is set by the application (\<open>None\<close>: NULL).\<close>

definition g_infra_mqtt_domain :: "bytes option \<Rightarrow> bytes option list" where
  "g_infra_mqtt_domain custom =
     [Some (ascii ''iot-as-mqtt.cn-shanghai.aliyuncs.com''), Some (ascii ''iot-as-mqtt.ap-southeast-1.aliyuncs.com''),
      Some (ascii ''iot-as-mqtt.ap-northeast-1.aliyuncs.com''), Some (ascii ''iot-as-mqtt.us-west-1.aliyuncs.com''),
      Some (ascii ''iot-as-mqtt.eu-central-1.aliyuncs.com''), custom]"

datatype iotx_mqtt_region_types_t =
    IOTX_CLOUD_REGION_SHANGHAI | IOTX_CLOUD_REGION_SINGAPORE | IOTX_CLOUD_REGION_JAPAN
  | IOTX_CLOUD_REGION_USA_WEST | IOTX_CLOUD_REGION_GERMANY | IOTX_CLOUD_REGION_CUSTOM | IOTX_CLOUD_DOMAIN_MAX

fun region_number :: "iotx_mqtt_region_types_t \<Rightarrow> nat" where
  "region_number IOTX_CLOUD_REGION_SHANGHAI = 0"
| "region_number IOTX_CLOUD_REGION_SINGAPORE = 1"
| "region_number IOTX_CLOUD_REGION_JAPAN = 2"
| "region_number IOTX_CLOUD_REGION_USA_WEST = 3"
| "region_number IOTX_CLOUD_REGION_GERMANY = 4"
| "region_number IOTX_CLOUD_REGION_CUSTOM = 5"
| "region_number IOTX_CLOUD_DOMAIN_MAX = 6"

definition SIGN_SUCCESS :: int where "SIGN_SUCCESS = 0"
definition SIGN_FAIL :: int where "SIGN_FAIL = -1"
definition ERROR_DEV_SIGN_HOST_NAME_TOO_SHORT :: int where "ERROR_DEV_SIGN_HOST_NAME_TOO_SHORT = -1100"
definition ERROR_DEV_SIGN_CLIENT_ID_TOO_SHORT :: int where "ERROR_DEV_SIGN_CLIENT_ID_TOO_SHORT = -1101"
definition ERROR_DEV_SIGN_USERNAME_TOO_SHORT :: int where "ERROR_DEV_SIGN_USERNAME_TOO_SHORT = -1102"
definition ERROR_DEV_SIGN_SOURCE_TOO_SHORT :: int where "ERROR_DEV_SIGN_SOURCE_TOO_SHORT = -1104"
definition ERROR_DEV_SIGN_CUSTOM_DOMAIN_IS_NULL :: int where "ERROR_DEV_SIGN_CUSTOM_DOMAIN_IS_NULL = -1105"

record iotx_dev_meta_info_t =
  mt_product_key :: bytes
  mt_product_secret :: bytes
  mt_device_name :: bytes
  mt_device_secret :: bytes

record iotx_sign_mqtt_t =
  sg_hostname :: bytes
  sg_port :: u16
  sg_clientid :: bytes
  sg_username :: bytes
  sg_password :: bytes

section \<open>The parts\<close>

text \<open>\<open>_hex2str\<close>: the digits of \<open>n\<close> bytes, without a NUL.\<close>

definition sign_hex2str :: "bytes \<Rightarrow> nat \<Rightarrow> bytes \<Rightarrow> bytes option" where
  "sign_hex2str input n output =
     do { bs \<leftarrow> mem_slice input 0 n; mem_write output 0 (concat (map (hex_pair zEncode_upper) bs)) }"

text \<open>\<open>_sign_get_clientid\<close>: its loop, and the last comma replaced by a bar.\<close>

fun clientid_loop :: "(bytes \<times> bytes) list \<Rightarrow> bytes \<Rightarrow> (int \<times> bytes) option" where
  "clientid_loop [] out =
     do { n \<leftarrow> buf_strlen out;
          if n = 0 then None
          else do { out \<leftarrow> mem_write out (n - 1) (ascii ''|''); Some (SIGN_SUCCESS, out) } }"
| "clientid_loop ((k, v) # kvs) out =
     do { n \<leftarrow> buf_strlen out;
          if n + length k + length v + 2 \<ge> DEV_SIGN_CLIENT_ID_MAXLEN then Some (SIGN_FAIL, out)
          else do {
            out \<leftarrow> str_append out k;
            out \<leftarrow> str_append out (ascii ''='');
            out \<leftarrow> str_append out v;
            out \<leftarrow> str_append out (ascii '','');
            clientid_loop kvs out } }"

definition sign_get_clientid :: "bytes option \<Rightarrow> bytes option \<Rightarrow> (int \<times> bytes option) option" where
  "sign_get_clientid clientid_string device_id =
     (case (clientid_string, device_id) of
        (Some out, Some device_id) \<Rightarrow> do {
          out \<leftarrow> mem_zero out DEV_SIGN_CLIENT_ID_MAXLEN;
          d \<leftarrow> buf_str device_id;
          out \<leftarrow> mem_write out 0 d;
          out \<leftarrow> str_append out (ascii ''|'');
          (r, out) \<leftarrow> clientid_loop clientid_kv out;
          Some (r, Some out) }
      | _ \<Rightarrow> Some (SIGN_FAIL, clientid_string))"

text \<open>
  \<open>_iotx_generate_sign_string\<close>; the length is kept in 16 bits. A secret that is longer than a
  block leaves the zeros of the digest's array.
\<close>

definition sign_length :: "bytes \<Rightarrow> bytes \<Rightarrow> bytes \<Rightarrow> u16" where
  "sign_length d device_name product_key =
     of_nat (length ''clientId%sdeviceName%sproductKey%stimestamp%s'' + 1 + length d + length device_name
       + length product_key + length TIMESTAMP_VALUE)"

definition iotx_generate_sign_string ::
    "bytes \<Rightarrow> bytes \<Rightarrow> bytes \<Rightarrow> bytes \<Rightarrow> bytes \<Rightarrow> (int \<times> bytes) option" where
  "iotx_generate_sign_string device_id device_name product_key device_secret sign_string =
     do {
       d \<leftarrow> buf_str device_id;
       if unat (sign_length d device_name product_key) \<ge> DEV_SIGN_SOURCE_MAXLEN
       then Some (ERROR_DEV_SIGN_SOURCE_TOO_SHORT, sign_string)
       else do {
         let s = replicate DEV_SIGN_SOURCE_MAXLEN 0;
         s \<leftarrow> mem_write s 0 (ascii ''clientId'');
         s \<leftarrow> str_append s d;
         s \<leftarrow> str_append s (ascii ''deviceName'');
         s \<leftarrow> str_append s device_name;
         s \<leftarrow> str_append s (ascii ''productKey'');
         s \<leftarrow> str_append s product_key;
         s \<leftarrow> str_append s (ascii ''timestamp'');
         s \<leftarrow> str_append s TIMESTAMP_VALUE;
         n \<leftarrow> buf_strlen s;
         out \<leftarrow> utils_hmac_sha256 s (of_nat n) device_secret (of_nat (length device_secret));
         let sign_hex = (case out of Some h \<Rightarrow> h | None \<Rightarrow> replicate 32 0);
         sign_string \<leftarrow> sign_hex2str sign_hex 32 sign_string;
         Some (SIGN_SUCCESS, sign_string) } }"

section \<open>\<open>IOT_Sign_MQTT\<close>\<close>

definition zeroed_sign :: iotx_sign_mqtt_t where
  "zeroed_sign = \<lparr>sg_hostname = replicate DEV_SIGN_HOSTNAME_MAXLEN 0, sg_port = 0,
     sg_clientid = replicate DEV_SIGN_CLIENT_ID_MAXLEN 0, sg_username = replicate DEV_SIGN_USERNAME_MAXLEN 0,
     sg_password = replicate DEV_SIGN_PASSWORD_MAXLEN 0\<rparr>"

definition sign_device_id :: "iotx_dev_meta_info_t \<Rightarrow> bytes option" where
  "sign_device_id meta =
     do { let d = replicate (IOTX_PRODUCT_KEY_LEN + IOTX_DEVICE_NAME_LEN + 1) 0;
          d \<leftarrow> mem_write d 0 (mt_product_key meta);
          d \<leftarrow> str_append d (ascii ''.'');
          str_append d (mt_device_name meta) }"

definition sign_hostname ::
    "bytes option \<Rightarrow> iotx_mqtt_region_types_t \<Rightarrow> iotx_dev_meta_info_t \<Rightarrow> bytes \<Rightarrow> (int \<times> bytes) option" where
  "sign_hostname custom region meta hostname =
     (let domain = g_infra_mqtt_domain custom ! region_number region in
      if region = IOTX_CLOUD_REGION_CUSTOM then
        case domain of
          None \<Rightarrow> Some (ERROR_DEV_SIGN_CUSTOM_DOMAIN_IS_NULL, hostname)
        | Some domain \<Rightarrow>
            if unat (of_nat (length domain + 1) :: u16) \<ge> DEV_SIGN_HOSTNAME_MAXLEN
            then Some (ERROR_DEV_SIGN_HOST_NAME_TOO_SHORT, hostname)
            else do { hostname \<leftarrow> mem_zero hostname DEV_SIGN_HOSTNAME_MAXLEN;
                      hostname \<leftarrow> mem_write hostname 0 domain;
                      Some (SIGN_SUCCESS, hostname) }
      else do {
        domain \<leftarrow> domain;
        if unat (of_nat (length (mt_product_key meta) + length domain + 2) :: u16) \<ge> DEV_SIGN_HOSTNAME_MAXLEN
        then Some (ERROR_DEV_SIGN_HOST_NAME_TOO_SHORT, hostname)
        else do { hostname \<leftarrow> mem_zero hostname DEV_SIGN_HOSTNAME_MAXLEN;
                  hostname \<leftarrow> mem_write hostname 0 (mt_product_key meta);
                  hostname \<leftarrow> str_append hostname (ascii ''.'');
                  hostname \<leftarrow> str_append hostname domain;
                  Some (SIGN_SUCCESS, hostname) } })"

definition sign_username :: "iotx_dev_meta_info_t \<Rightarrow> bytes \<Rightarrow> (int \<times> bytes) option" where
  "sign_username meta username =
     (if unat (of_nat (length (mt_device_name meta) + length (mt_product_key meta) + 2) :: u16) \<ge> DEV_SIGN_USERNAME_MAXLEN
      then Some (ERROR_DEV_SIGN_USERNAME_TOO_SHORT, username)
      else do { username \<leftarrow> mem_zero username DEV_SIGN_USERNAME_MAXLEN;
                username \<leftarrow> mem_write username 0 (mt_device_name meta);
                username \<leftarrow> str_append username (ascii ''&'');
                username \<leftarrow> str_append username (mt_product_key meta);
                Some (SIGN_SUCCESS, username) })"

definition IOT_Sign_MQTT ::
    "bytes option \<Rightarrow> iotx_mqtt_region_types_t \<Rightarrow> iotx_dev_meta_info_t option \<Rightarrow> iotx_sign_mqtt_t
      \<Rightarrow> (int \<times> iotx_sign_mqtt_t) option" where
  "IOT_Sign_MQTT custom region meta signout =
     (if region = IOTX_CLOUD_DOMAIN_MAX \<or> meta = None then Some (-1, signout)
      else do {
        meta \<leftarrow> meta;
        let signout = zeroed_sign;
        device_id \<leftarrow> sign_device_id meta;
        (r, clientid) \<leftarrow> sign_get_clientid (Some (sg_clientid signout)) (Some device_id);
        let signout = signout\<lparr>sg_clientid := the clientid\<rparr>;
        if r \<noteq> SIGN_SUCCESS then Some (ERROR_DEV_SIGN_CLIENT_ID_TOO_SHORT, signout)
        else do {
          password \<leftarrow> mem_zero (sg_password signout) DEV_SIGN_PASSWORD_MAXLEN;
          (r, password) \<leftarrow> iotx_generate_sign_string device_id (mt_device_name meta) (mt_product_key meta)
                              (mt_device_secret meta) password;
          let signout = signout\<lparr>sg_password := password\<rparr>;
          if r < SIGN_SUCCESS then Some (r, signout)
          else do {
            (r, hostname) \<leftarrow> sign_hostname custom region meta (sg_hostname signout);
            let signout = signout\<lparr>sg_hostname := hostname\<rparr>;
            if r \<noteq> SIGN_SUCCESS then Some (r, signout)
            else do {
              (r, username) \<leftarrow> sign_username meta (sg_username signout);
              let signout = signout\<lparr>sg_username := username\<rparr>;
              if r \<noteq> SIGN_SUCCESS then Some (r, signout)
              else Some (SIGN_SUCCESS, signout\<lparr>sg_port := 443\<rparr>) } } } })"

section \<open>What is signed\<close>

definition device_identifier :: "bytes \<Rightarrow> bytes \<Rightarrow> bytes" where
  "device_identifier pk dn = pk @ ascii ''.'' @ dn"

text \<open>The text of the MQTT signature in the cloud's documentation: names and values in this order.\<close>

definition sign_source :: "bytes \<Rightarrow> bytes \<Rightarrow> bytes" where
  "sign_source pk dn =
     ascii ''clientId'' @ device_identifier pk dn @ ascii ''deviceName'' @ dn @ ascii ''productKey'' @ pk
       @ ascii ''timestamp'' @ TIMESTAMP_VALUE"

definition client_identifier :: "bytes \<Rightarrow> bytes \<Rightarrow> bytes" where
  "client_identifier pk dn = device_identifier pk dn
     @ ascii ''|timestamp=2524608000000,securemode=2,signmethod=hmacsha256,gw=0,ext=0,_v=sdk-c-3.0.1|''"

definition meta_ok :: "iotx_dev_meta_info_t \<Rightarrow> bool" where
  "meta_ok meta \<longleftrightarrow> is_c_str (mt_product_key meta) \<and> length (mt_product_key meta) \<le> IOTX_PRODUCT_KEY_LEN
     \<and> is_c_str (mt_device_name meta) \<and> length (mt_device_name meta) \<le> IOTX_DEVICE_NAME_LEN
     \<and> is_c_str (mt_device_secret meta) \<and> length (mt_device_secret meta) \<le> IOTX_DEVICE_SECRET_LEN"

lemmas sign_sizes = DEV_SIGN_SOURCE_MAXLEN_def DEV_SIGN_HOSTNAME_MAXLEN_def DEV_SIGN_CLIENT_ID_MAXLEN_def
  DEV_SIGN_USERNAME_MAXLEN_def DEV_SIGN_PASSWORD_MAXLEN_def IOTX_PRODUCT_KEY_LEN_def IOTX_DEVICE_NAME_LEN_def
  IOTX_DEVICE_SECRET_LEN_def

lemma ascii_length: "length (ascii t) = length t"
  by (simp add: ascii_def)

lemma ascii_append: "ascii (t @ u) = ascii t @ ascii u"
  by (simp add: ascii_def)

lemma literals_c_str:
  "is_c_str (ascii ''clientId'')" "is_c_str (ascii ''deviceName'')" "is_c_str (ascii ''productKey'')"
  "is_c_str (ascii ''timestamp'')" "is_c_str TIMESTAMP_VALUE" "is_c_str (ascii ''.'')" "is_c_str (ascii ''|'')"
  "is_c_str (ascii ''='')" "is_c_str (ascii '','')" "is_c_str (ascii ''&'')"
  by (simp_all add: ascii_def TIMESTAMP_VALUE_def)

text \<open>The array of the device's identifier has 53 bytes.\<close>

lemma device_id_built:
  assumes "meta_ok meta"
  shows "sign_device_id meta = Some (buf_of 53 (device_identifier (mt_product_key meta) (mt_device_name meta)))"
  using assms literals_c_str
  by (simp add: sign_device_id_def meta_ok_def sign_sizes buf_of_empty c_buf ascii_length device_identifier_def)

text \<open>The loop over the pairs writes each of them as \<open>key=value,\<close>.\<close>

definition kv_text :: "(bytes \<times> bytes) list \<Rightarrow> bytes" where
  "kv_text kvs = concat (map (\<lambda>(k, v). k @ ascii ''='' @ v @ ascii '','') kvs)"

lemma clientid_loop_built:
  assumes "is_c_str s" and "s \<noteq> []" and "\<forall>(k, v) \<in> set kvs. is_c_str k \<and> is_c_str v"
    and "length s + length (kv_text kvs) < DEV_SIGN_CLIENT_ID_MAXLEN"
  shows "clientid_loop kvs (buf_of 200 s) = Some (SIGN_SUCCESS, buf_of 200 (butlast (s @ kv_text kvs) @ ascii ''|''))"
  using assms
proof (induction kvs arbitrary: s)
  case Nil
  then obtain t c where s: "s = t @ [c]" by (cases s rule: rev_cases) auto
  with Nil have "mem_write (buf_of 200 s) (length t) (ascii ''|'') = Some (buf_of 200 (t @ ascii ''|''))"
    using mem_write_last [of t 200 c] by (simp add: sign_sizes ascii_def kv_text_def)
  with Nil s show ?case by (simp add: kv_text_def c_buf sign_sizes)
next
  case (Cons m kvs)
  obtain k v where m: "m = (k, v)" by (cases m)
  let ?t = "s @ k @ ascii ''='' @ v @ ascii '',''"
  have kv: "kv_text (m # kvs) = k @ ascii ''='' @ v @ ascii '','' @ kv_text kvs" by (simp add: kv_text_def m)
  have fits: "length s + length k + length v + 2 + length (kv_text kvs) < 200"
    using Cons.prems(4) by (simp add: kv sign_sizes ascii_length)
  then have "clientid_loop (m # kvs) (buf_of 200 s) = clientid_loop kvs (buf_of 200 ?t)"
    using Cons.prems(1,3) m literals_c_str by (simp add: c_buf sign_sizes ascii_length)
  also have "\<dots> = Some (SIGN_SUCCESS, buf_of 200 (butlast (?t @ kv_text kvs) @ ascii ''|''))"
    using Cons.prems m fits literals_c_str by (intro Cons.IH) (auto simp: sign_sizes ascii_length)
  finally show ?case by (simp add: kv)
qed

lemma clientid_kv_text:
  "kv_text clientid_kv = ascii ''timestamp=2524608000000,securemode=2,signmethod=hmacsha256,gw=0,ext=0,_v=sdk-c-3.0.1,''"
  by code_simp

lemma clientid_kv_c_str: "\<forall>(k, v) \<in> set clientid_kv. is_c_str k \<and> is_c_str v"
  by (simp add: clientid_kv_def TIMESTAMP_VALUE_def ascii_def)

lemma clientid_built:
  assumes "is_c_str d" and "length d < 53"
  shows "sign_get_clientid (Some (buf_of 200 [])) (Some (buf_of 53 d))
    = Some (SIGN_SUCCESS, Some (buf_of 200 (d @ ascii ''|'' @ butlast (kv_text clientid_kv) @ ascii ''|'')))"
proof -
  have "length (d @ ascii ''|'') + length (kv_text clientid_kv) < DEV_SIGN_CLIENT_ID_MAXLEN"
    using assms(2) by (simp add: clientid_kv_text ascii_length sign_sizes)
  note loop = clientid_loop_built [OF _ _ clientid_kv_c_str this]
  have "kv_text clientid_kv \<noteq> []" by (simp add: clientid_kv_text ascii_def)
  then have "butlast ((d @ ascii ''|'') @ kv_text clientid_kv) = d @ ascii ''|'' @ butlast (kv_text clientid_kv)"
    by (simp add: butlast_append)
  moreover have "ascii ''|'' \<noteq> []" by (simp add: ascii_def)
  ultimately show ?thesis using loop assms literals_c_str
    by (simp add: sign_get_clientid_def c_buf sign_sizes ascii_length)
qed

lemma bar_text: "ascii ''|'' @ butlast (kv_text clientid_kv) @ ascii ''|''
    = ascii ''|timestamp=2524608000000,securemode=2,signmethod=hmacsha256,gw=0,ext=0,_v=sdk-c-3.0.1|''"
  by (simp add: clientid_kv_text ascii_def)

text \<open>The password: the digits of the HMAC.\<close>

lemma sha256_length: "length (fips_sha256 m) = 32"
proof -
  have "length (words8 v) = 8" for v by (simp add: words8_def split: prod.split)
  then have "length (foldl sha256_compress H bs) = 8" if "length H = 8" for H bs
    using that by (induction bs arbitrary: H) (simp_all add: sha256_compress_def)
  moreover have "length (concat (map put_uint32_be ws)) = 4 * length ws" for ws
    by (induction ws) (simp_all add: words_length)
  ultimately show ?thesis by (simp add: fips_sha256_def md_digest_def)
qed

definition sign_password :: "bytes \<Rightarrow> bytes \<Rightarrow> bytes \<Rightarrow> bytes" where
  "sign_password pk dn ds = concat (map (hex_pair zEncode_upper) (hmac_spec fips_sha256 ds (sign_source pk dn)))"

lemma password_built:
  assumes "meta_ok meta" and "length (device_identifier (mt_product_key meta) (mt_device_name meta)) < 53"
  shows "iotx_generate_sign_string (buf_of 53 (device_identifier (mt_product_key meta) (mt_device_name meta)))
      (mt_device_name meta) (mt_product_key meta) (mt_device_secret meta) (buf_of 65 [])
    = Some (SIGN_SUCCESS, buf_of 65 (sign_password (mt_product_key meta) (mt_device_name meta) (mt_device_secret meta)))"
proof -
  let ?pk = "mt_product_key meta" and ?dn = "mt_device_name meta" and ?ds = "mt_device_secret meta"
  let ?d = "device_identifier ?pk ?dn" and ?s = "sign_source ?pk ?dn"
  have d: "is_c_str ?d" using assms(1) literals_c_str by (simp add: device_identifier_def meta_ok_def)
  have lens: "length ?pk \<le> 20" "length ?dn \<le> 32" "length ?ds \<le> 64" using assms(1) by (simp_all add: meta_ok_def sign_sizes)
  have ts: "length TIMESTAMP_VALUE = 13" by (simp add: TIMESTAMP_VALUE_def ascii_length)
  have small: "\<not> 200 \<le> unat (sign_length ?d ?dn ?pk)"
    using lens assms(2) by (simp add: sign_length_def ts unat_of_nat del: of_nat_add of_nat_Suc)
  have s: "is_c_str ?s" "length ?s < 200"
    using assms lens d literals_c_str by (simp_all add: sign_source_def meta_ok_def ts ascii_length)
  have "mem_slice (buf_of 200 ?s) 0 (nat (int (length ?s))) = Some ?s" using s by (simp add: mem_slice_def buf_of_def)
  moreover have "mem_slice ?ds 0 (nat (int (length ?ds))) = Some ?ds" by (simp add: mem_slice_def)
  ultimately have "utils_hmac_sha256 (buf_of 200 ?s) (word_of_int (int (length ?s))) ?ds (word_of_int (int (length ?ds)))
      = Some (Some (hmac_spec fips_sha256 ?ds ?s))"
    using s lens by (intro hmac_digests(4)) simp_all
  then have hmac: "utils_hmac_sha256 (buf_of 200 ?s) (of_nat (length ?s)) ?ds (of_nat (length ?ds))
      = Some (Some (hmac_spec fips_sha256 ?ds ?s))" by simp
  have "length (hmac_spec fips_sha256 ?ds ?s) = 32" by (simp add: hmac_spec_def sha256_length)
  then have hex: "sign_hex2str (hmac_spec fips_sha256 ?ds ?s) 32 (buf_of 65 []) = Some (buf_of 65 (sign_password ?pk ?dn ?ds))"
    by (simp add: sign_hex2str_def sign_password_def mem_slice_def c_buf length_hex_pairs)
  have "buf_of 200 ?s = buf_of 200 (ascii ''clientId'' @ ?d @ ascii ''deviceName'' @ ?dn @ ascii ''productKey'' @ ?pk
      @ ascii ''timestamp'' @ TIMESTAMP_VALUE)" by (simp add: sign_source_def)
  then show ?thesis
    using assms d small lens s hmac hex literals_c_str
    by (simp add: iotx_generate_sign_string_def sign_sizes buf_of_empty c_buf ascii_length ts meta_ok_def Let_def
        sign_source_def [symmetric])
qed

text \<open>The host: the product key and the region's domain, or the application's domain alone.\<close>

definition sign_host :: "bytes option \<Rightarrow> iotx_mqtt_region_types_t \<Rightarrow> bytes \<Rightarrow> bytes" where
  "sign_host custom region pk =
     (case g_infra_mqtt_domain custom ! region_number region of
        None \<Rightarrow> []
      | Some domain \<Rightarrow> if region = IOTX_CLOUD_REGION_CUSTOM then domain else pk @ ascii ''.'' @ domain)"

lemma hostname_built:
  assumes "meta_ok meta" and "region \<noteq> IOTX_CLOUD_DOMAIN_MAX"
    and "region = IOTX_CLOUD_REGION_CUSTOM \<Longrightarrow> \<exists>domain. custom = Some domain \<and> length domain < 63"
  shows "sign_hostname custom region meta (buf_of 64 []) = Some (SIGN_SUCCESS, buf_of 64 (sign_host custom region (mt_product_key meta)))"
proof -
  have pk: "length (mt_product_key meta) \<le> 20" "is_c_str (mt_product_key meta)"
    using assms(1) by (simp_all add: meta_ok_def sign_sizes)
  have small: "unat (of_nat n :: u16) = n" if "n < 65536" for n
    using that by (simp add: unat_of_nat)
  show ?thesis using assms pk literals_c_str
    by (cases region)
      (auto simp: sign_hostname_def sign_host_def g_infra_mqtt_domain_def sign_sizes ascii_length small c_buf buf_of_empty
         simp del: of_nat_add of_nat_Suc)
qed

lemma username_built:
  assumes "meta_ok meta"
  shows "sign_username meta (buf_of 64 []) = Some (SIGN_SUCCESS, buf_of 64 (mt_device_name meta @ ascii ''&'' @ mt_product_key meta))"
proof -
  have "unat (of_nat n :: u16) = n" if "n < 65536" for n
    using that by (simp add: unat_of_nat)
  then show ?thesis using assms literals_c_str
    by (simp add: sign_username_def meta_ok_def sign_sizes ascii_length c_buf buf_of_empty del: of_nat_add of_nat_Suc)
qed

text \<open>Without room for its NUL the identifier of the device has no length.\<close>

lemma sign_full_length:
  assumes "meta_ok meta" and "region \<noteq> IOTX_CLOUD_DOMAIN_MAX"
    and "length (mt_product_key meta) + length (mt_device_name meta) = IOTX_PRODUCT_KEY_LEN + IOTX_DEVICE_NAME_LEN"
  shows "IOT_Sign_MQTT custom region (Some meta) signout = None"
proof -
  let ?d = "device_identifier (mt_product_key meta) (mt_device_name meta)"
  have "is_c_str ?d" using assms(1) literals_c_str by (simp add: device_identifier_def meta_ok_def)
  moreover have "length ?d = 53" using assms(3) by (simp add: device_identifier_def ascii_length sign_sizes)
  ultimately have "sign_get_clientid (Some (buf_of 200 [])) (Some (buf_of 53 ?d)) = None"
    by (simp add: sign_get_clientid_def c_buf sign_sizes)
  then show ?thesis using assms(2)
    by (simp add: IOT_Sign_MQTT_def zeroed_sign_def device_id_built [OF assms(1)] buf_of_empty sign_sizes)
qed

lemma sign_mqtt_built:
  assumes "meta_ok meta" and "region \<noteq> IOTX_CLOUD_DOMAIN_MAX"
    and "region = IOTX_CLOUD_REGION_CUSTOM \<Longrightarrow> \<exists>domain. custom = Some domain \<and> length domain < 63"
  shows "IOT_Sign_MQTT custom region (Some meta) signout =
    (let pk = mt_product_key meta; dn = mt_device_name meta; ds = mt_device_secret meta in
     if length pk + length dn = IOTX_PRODUCT_KEY_LEN + IOTX_DEVICE_NAME_LEN then None
     else Some (SIGN_SUCCESS,
       \<lparr>sg_hostname = buf_of DEV_SIGN_HOSTNAME_MAXLEN (sign_host custom region pk), sg_port = 443,
        sg_clientid = buf_of DEV_SIGN_CLIENT_ID_MAXLEN (client_identifier pk dn),
        sg_username = buf_of DEV_SIGN_USERNAME_MAXLEN (dn @ ascii ''&'' @ pk),
        sg_password = buf_of DEV_SIGN_PASSWORD_MAXLEN (sign_password pk dn ds)\<rparr>))"
proof -
  let ?d = "device_identifier (mt_product_key meta) (mt_device_name meta)"
  have d: "is_c_str ?d" using assms(1) literals_c_str by (simp add: device_identifier_def meta_ok_def)
  have len: "length ?d = length (mt_product_key meta) + length (mt_device_name meta) + 1"
    by (simp add: device_identifier_def ascii_length)
  show ?thesis
  proof (cases "length (mt_product_key meta) + length (mt_device_name meta) = 52")
    case True
    then show ?thesis using sign_full_length [OF assms(1,2)] by (simp add: sign_sizes)
  next
    case False
    then have small: "length ?d < 53" using assms(1) len by (simp add: meta_ok_def sign_sizes)
    have "client_identifier (mt_product_key meta) (mt_device_name meta) = ?d @ ascii ''|'' @ butlast (kv_text clientid_kv) @ ascii ''|''"
      by (simp add: client_identifier_def bar_text)
    then have "sign_get_clientid (Some (buf_of 200 [])) (Some (buf_of 53 ?d))
        = Some (SIGN_SUCCESS, Some (buf_of 200 (client_identifier (mt_product_key meta) (mt_device_name meta))))"
      using clientid_built [OF d small] by simp
    then show ?thesis using assms(2) False
      by (simp add: IOT_Sign_MQTT_def zeroed_sign_def device_id_built [OF assms(1)] buf_of_empty sign_sizes Let_def
          mem_zero_all length_buf_of password_built [OF assms(1) small] hostname_built [OF assms] username_built [OF assms(1)])
  qed
qed

text \<open>In the region CUSTOM the domain of the application may be missing or too long.\<close>

lemma sign_custom_failed:
  assumes "meta_ok meta" and "length (mt_product_key meta) + length (mt_device_name meta) < IOTX_PRODUCT_KEY_LEN + IOTX_DEVICE_NAME_LEN"
    and "sign_hostname custom IOTX_CLOUD_REGION_CUSTOM meta (buf_of 64 []) = Some (rc, buf_of 64 [])" and "rc \<noteq> SIGN_SUCCESS"
  shows "IOT_Sign_MQTT custom IOTX_CLOUD_REGION_CUSTOM (Some meta) signout
    = Some (rc, zeroed_sign
        \<lparr>sg_clientid := buf_of DEV_SIGN_CLIENT_ID_MAXLEN (client_identifier (mt_product_key meta) (mt_device_name meta)),
         sg_password := buf_of DEV_SIGN_PASSWORD_MAXLEN (sign_password (mt_product_key meta) (mt_device_name meta) (mt_device_secret meta))\<rparr>)"
proof -
  let ?d = "device_identifier (mt_product_key meta) (mt_device_name meta)"
  have d: "is_c_str ?d" using assms(1) literals_c_str by (simp add: device_identifier_def meta_ok_def)
  have small: "length ?d < 53" using assms(2) by (simp add: device_identifier_def ascii_length sign_sizes)
  have "client_identifier (mt_product_key meta) (mt_device_name meta) = ?d @ ascii ''|'' @ butlast (kv_text clientid_kv) @ ascii ''|''"
    by (simp add: client_identifier_def bar_text)
  then show ?thesis
    using clientid_built [OF d small] assms(3,4)
    by (simp add: IOT_Sign_MQTT_def zeroed_sign_def device_id_built [OF assms(1)] buf_of_empty sign_sizes Let_def
        mem_zero_all length_buf_of password_built [OF assms(1) small] SIGN_SUCCESS_def)
qed

lemma hostname_refused:
  "sign_hostname None IOTX_CLOUD_REGION_CUSTOM meta h = Some (ERROR_DEV_SIGN_CUSTOM_DOMAIN_IS_NULL, h)"
  "63 \<le> length domain \<Longrightarrow> length domain < 65535
     \<Longrightarrow> sign_hostname (Some domain) IOTX_CLOUD_REGION_CUSTOM meta h = Some (ERROR_DEV_SIGN_HOST_NAME_TOO_SHORT, h)"
  by (simp_all add: sign_hostname_def g_infra_mqtt_domain_def sign_sizes unat_of_nat del: of_nat_Suc)

lemma sign_no_domain:
  assumes "meta_ok meta" and "length (mt_product_key meta) + length (mt_device_name meta) < IOTX_PRODUCT_KEY_LEN + IOTX_DEVICE_NAME_LEN"
  shows "\<exists>sign. IOT_Sign_MQTT None IOTX_CLOUD_REGION_CUSTOM (Some meta) signout = Some (ERROR_DEV_SIGN_CUSTOM_DOMAIN_IS_NULL, sign)"
  using sign_custom_failed [OF assms hostname_refused(1)]
  by (simp add: SIGN_SUCCESS_def ERROR_DEV_SIGN_CUSTOM_DOMAIN_IS_NULL_def)

text \<open>The result when the host name can not be set: the client identifier and the password only.\<close>

definition unhosted_sign :: "bytes \<Rightarrow> bytes \<Rightarrow> bytes \<Rightarrow> iotx_sign_mqtt_t" where
  "unhosted_sign pk dn ds =
     \<lparr>sg_hostname = replicate DEV_SIGN_HOSTNAME_MAXLEN 0, sg_port = 0,
      sg_clientid = buf_of DEV_SIGN_CLIENT_ID_MAXLEN (client_identifier pk dn),
      sg_username = replicate DEV_SIGN_USERNAME_MAXLEN 0,
      sg_password = buf_of DEV_SIGN_PASSWORD_MAXLEN (sign_password pk dn ds)\<rparr>"

text \<open>
  Property C13: \<open>IOT_Sign_MQTT\<close> for every device whose strings keep to their maximal lengths
  (20, 32 and 64), in every region, with any custom domain shorter than 65535 bytes or none.
  It succeeds and gives the host, the port, the client identifier, the user name and as
  password the hexadecimal HMAC-SHA256 of the documented source text under the device secret, each
  with its NUL, except that: the number of regions as region is refused with -1 and nothing is
  written; in the region CUSTOM a missing domain gives
  \<open>ERROR_DEV_SIGN_CUSTOM_DOMAIN_IS_NULL\<close> and one of 63 bytes or more
  \<open>ERROR_DEV_SIGN_HOST_NAME_TOO_SHORT\<close>, both with the client identifier and the password
  written and the rest zero; and for a product key and a device name of full length together (52
  characters) the array of the device's identifier has no room for the NUL, and the call is
  undefined. The other length checks can not fail.
\<close>

theorem sign_mqtt_contract:
  assumes "meta_ok meta" and "length (case custom of None \<Rightarrow> [] | Some domain \<Rightarrow> domain) < 65535"
  shows "IOT_Sign_MQTT custom region (Some meta) signout =
    (let pk = mt_product_key meta; dn = mt_device_name meta; ds = mt_device_secret meta in
     if region = IOTX_CLOUD_DOMAIN_MAX then Some (-1, signout)
     else if length pk + length dn = IOTX_PRODUCT_KEY_LEN + IOTX_DEVICE_NAME_LEN then None
     else if region = IOTX_CLOUD_REGION_CUSTOM \<and> custom = None
     then Some (ERROR_DEV_SIGN_CUSTOM_DOMAIN_IS_NULL, unhosted_sign pk dn ds)
     else if region = IOTX_CLOUD_REGION_CUSTOM \<and> 63 \<le> length (the custom)
     then Some (ERROR_DEV_SIGN_HOST_NAME_TOO_SHORT, unhosted_sign pk dn ds)
     else Some (SIGN_SUCCESS,
       \<lparr>sg_hostname = buf_of DEV_SIGN_HOSTNAME_MAXLEN (sign_host custom region pk), sg_port = 443,
        sg_clientid = buf_of DEV_SIGN_CLIENT_ID_MAXLEN (client_identifier pk dn),
        sg_username = buf_of DEV_SIGN_USERNAME_MAXLEN (dn @ ascii ''&'' @ pk),
        sg_password = buf_of DEV_SIGN_PASSWORD_MAXLEN (sign_password pk dn ds)\<rparr>))"
proof -
  consider (max) "region = IOTX_CLOUD_DOMAIN_MAX"
    | (full) "region \<noteq> IOTX_CLOUD_DOMAIN_MAX"
        "length (mt_product_key meta) + length (mt_device_name meta) = IOTX_PRODUCT_KEY_LEN + IOTX_DEVICE_NAME_LEN"
    | (none) "region = IOTX_CLOUD_REGION_CUSTOM" "custom = None"
        "length (mt_product_key meta) + length (mt_device_name meta) < IOTX_PRODUCT_KEY_LEN + IOTX_DEVICE_NAME_LEN"
    | (long) domain where "region = IOTX_CLOUD_REGION_CUSTOM" "custom = Some domain" "63 \<le> length domain"
        "length (mt_product_key meta) + length (mt_device_name meta) < IOTX_PRODUCT_KEY_LEN + IOTX_DEVICE_NAME_LEN"
    | (signed) "region \<noteq> IOTX_CLOUD_DOMAIN_MAX"
        "region = IOTX_CLOUD_REGION_CUSTOM \<Longrightarrow> \<exists>domain. custom = Some domain \<and> length domain < 63"
    using assms(1) by (cases custom) (force simp: meta_ok_def not_le)+
  then show ?thesis
  proof cases
    case max
    then show ?thesis by (simp add: IOT_Sign_MQTT_def)
  next
    case full
    then show ?thesis using sign_full_length [OF assms(1)] by (simp add: Let_def)
  next
    case none
    then show ?thesis using sign_custom_failed [OF assms(1) none(3) hostname_refused(1)]
      by (simp add: SIGN_SUCCESS_def ERROR_DEV_SIGN_CUSTOM_DOMAIN_IS_NULL_def unhosted_sign_def zeroed_sign_def Let_def)
  next
    case (long domain)
    then have "length domain < 65535" using assms(2) by simp
    then show ?thesis using sign_custom_failed [OF assms(1) long(4) hostname_refused(2)] long
      by (simp add: SIGN_SUCCESS_def ERROR_DEV_SIGN_HOST_NAME_TOO_SHORT_def unhosted_sign_def zeroed_sign_def Let_def)
  next
    case signed
    then show ?thesis using sign_mqtt_built [OF assms(1) signed] by (auto simp: Let_def)
  qed
qed

theorem sign_mqtt_contract_witness:
  "map_option (\<lambda>(r, s). (r, buf_str (sg_username s), buf_str (sg_hostname s)))
     (IOT_Sign_MQTT None IOTX_CLOUD_REGION_SHANGHAI
        (Some \<lparr>mt_product_key = ascii ''a1X2bEnP82z'', mt_product_secret = [], mt_device_name = ascii ''lamp'',
               mt_device_secret = ascii ''ga7XA6KdlEeiPXQPpRbAjOZXwG8ydgSe''\<rparr>) zeroed_sign)
   = Some (0, Some (ascii ''lamp&a1X2bEnP82z''), Some (ascii ''a1X2bEnP82z.iot-as-mqtt.cn-shanghai.aliyuncs.com''))"
proof -
  let ?m = "\<lparr>mt_product_key = ascii ''a1X2bEnP82z'', mt_product_secret = [], mt_device_name = ascii ''lamp'',
     mt_device_secret = ascii ''ga7XA6KdlEeiPXQPpRbAjOZXwG8ydgSe''\<rparr>"
  have ok: "meta_ok ?m" by code_simp
  have c: "is_c_str (ascii ''lamp&a1X2bEnP82z'')" "is_c_str (ascii ''a1X2bEnP82z.iot-as-mqtt.cn-shanghai.aliyuncs.com'')"
    by code_simp+
  have t: "ascii ''lamp'' @ ascii ''&'' @ ascii ''a1X2bEnP82z'' = ascii ''lamp&a1X2bEnP82z''"
    "sign_host None IOTX_CLOUD_REGION_SHANGHAI (ascii ''a1X2bEnP82z'') = ascii ''a1X2bEnP82z.iot-as-mqtt.cn-shanghai.aliyuncs.com''"
    by code_simp+
  show ?thesis
    using sign_mqtt_contract [OF ok, of None IOTX_CLOUD_REGION_SHANGHAI zeroed_sign] c
    by (simp add: t sign_sizes ascii_length buf_str_inside SIGN_SUCCESS_def Let_def)
qed

end
