(* ===== verification/Dm_Utils.thy ===== *)
theory Dm_Utils
  imports C_Buffer Infra_String
begin

text \<open>
  The helpers of the device model (\<open>dev_model/dm_utils.c\<close>) and the parsing of its topics
  (\<open>dm_msg_uri_parse_pkdn\<close> of \<open>dev_model/dm_message.c\<close>). Pointers to results must be NULL on entry; here
  an argument says whether a pointer is given and whether it is NULL. \<open>mem\<close> says whether an
  allocation succeeds. Not modelled: the conversion of doubles and the calls of lite_cjson.
\<close>

section \<open>Results and formats\<close>

definition DM_SUCCESS :: int where "DM_SUCCESS = 0"
definition DM_FAIL :: int where "DM_FAIL = -1"
definition DM_INVALID_PARAMETER :: int where "DM_INVALID_PARAMETER = -2"
definition DM_MEMORY_NOT_ENOUGH :: int where "DM_MEMORY_NOT_ENOUGH = -3"
definition DM_UTILS_UINT32_STRLEN :: nat where "DM_UTILS_UINT32_STRLEN = 10"

lemmas dm_results = DM_SUCCESS_def DM_FAIL_def DM_INVALID_PARAMETER_def DM_MEMORY_NOT_ENOUGH_def

text \<open>What \<open>%d\<close> prints, and what of a text of \<open>snprintf\<close> is stored in \<open>len\<close> bytes.\<close>

fun decimal :: "nat \<Rightarrow> bytes" where
  "decimal n = (if n < 10 then [48 + of_nat n] else decimal (n div 10) @ [48 + of_nat (n mod 10)])"

declare decimal.simps [simp del]

definition format_d :: "int \<Rightarrow> bytes" where
  "format_d i = (if i < 0 then 45 # decimal (nat (- i)) else decimal (nat i))"

definition stored :: "nat \<Rightarrow> bytes \<Rightarrow> bytes" where
  "stored len txt = take (len - 1) txt"

section \<open>Copies and numbers\<close>

text \<open>\<open>dm_utils_copy\<close>: \<open>input_len\<close> bytes into a new object of \<open>output_len\<close> (\<open>free\<close>: \<open>*output\<close> is NULL).\<close>

definition dm_utils_copy :: "bool \<Rightarrow> bytes option \<Rightarrow> nat \<Rightarrow> bool \<Rightarrow> nat \<Rightarrow> (int \<times> bytes option) option" where
  "dm_utils_copy mem input input_len free output_len =
     (case input of
        None \<Rightarrow> Some (DM_INVALID_PARAMETER, None)
      | Some input \<Rightarrow>
          if \<not> free then Some (DM_INVALID_PARAMETER, None)
          else if \<not> mem then Some (DM_MEMORY_NOT_ENOUGH, None)
          else do { bs \<leftarrow> mem_slice input 0 input_len;
                    out \<leftarrow> mem_write (replicate output_len 0) 0 bs;
                    Some (DM_SUCCESS, Some out) })"

text \<open>The digits go through an array of which \<open>snprintf\<close> gets ten bytes.\<close>

definition dm_utils_itoa :: "bool \<Rightarrow> int \<Rightarrow> bool \<Rightarrow> int \<times> bytes option" where
  "dm_utils_itoa mem input free =
     (if \<not> free then (DM_INVALID_PARAMETER, None)
      else if \<not> mem then (DM_MEMORY_NOT_ENOUGH, None)
      else (DM_SUCCESS, Some (stored 10 (format_d input))))"

section \<open>Hexadecimal\<close>

definition dm_hex_digit :: "u8 \<Rightarrow> u8" where
  "dm_hex_digit c = (if c \<le> 9 then c + 48 else if c \<ge> 10 \<and> c \<le> 15 then c + (65 - 10) else c)"

definition dm_hex_pair :: "u8 \<Rightarrow> bytes" where
  "dm_hex_pair b = [dm_hex_digit (drop_bit 4 b AND 15), dm_hex_digit (b AND 15)]"

definition dm_utils_hex_to_str :: "bool \<Rightarrow> bytes option \<Rightarrow> int \<Rightarrow> bool \<Rightarrow> (int \<times> bytes option) option" where
  "dm_utils_hex_to_str mem input input_len free =
     (case input of
        None \<Rightarrow> Some (DM_INVALID_PARAMETER, None)
      | Some input \<Rightarrow>
          if input_len \<le> 0 \<or> \<not> free then Some (DM_INVALID_PARAMETER, None)
          else if \<not> mem then Some (DM_MEMORY_NOT_ENOUGH, None)
          else do { bs \<leftarrow> mem_slice input 0 (nat input_len);
                    Some (DM_SUCCESS, Some (concat (map dm_hex_pair bs) @ [0])) })"

text \<open>\<open>iter_char\<close> keeps its value at a character that is no upper-case digit.\<close>

definition dm_hex_value :: "u8 \<Rightarrow> u8 \<Rightarrow> u8" where
  "dm_hex_value old c =
     (if 48 \<le> c \<and> c \<le> 57 then c - 48 else if 65 \<le> c \<and> c \<le> 70 then c - 65 + 10 else old)"

fun dm_str_to_hex_loop :: "u8 \<Rightarrow> bytes \<Rightarrow> bytes" where
  "dm_str_to_hex_loop iter (a # b # s) =
     (let hi = dm_hex_value iter a; lo = dm_hex_value hi b in
      ((push_bit 4 hi AND 0xF0) OR (lo AND 0x0F)) # dm_str_to_hex_loop lo s)"
| "dm_str_to_hex_loop iter _ = []"

definition dm_utils_str_to_hex :: "bool \<Rightarrow> bytes option \<Rightarrow> int \<Rightarrow> bool \<Rightarrow> (int \<times> (bytes \<times> int) option) option" where
  "dm_utils_str_to_hex mem input input_len free =
     (case input of
        None \<Rightarrow> Some (DM_INVALID_PARAMETER, None)
      | Some input \<Rightarrow>
          if input_len \<le> 0 \<or> input_len mod 2 \<noteq> 0 \<or> \<not> free then Some (DM_INVALID_PARAMETER, None)
          else if \<not> mem then Some (DM_MEMORY_NOT_ENOUGH, None)
          else do { s \<leftarrow> mem_slice input 0 (nat input_len);
                    Some (DM_SUCCESS, Some (dm_str_to_hex_loop 0 s, input_len div 2)) })"

section \<open>Searching in texts\<close>

text \<open>The offset of the \<open>index\<close>-th delimiter; the last character does not count.\<close>

fun memtok_loop :: "bytes \<Rightarrow> u8 \<Rightarrow> int \<Rightarrow> nat \<Rightarrow> int \<Rightarrow> nat option" where
  "memtok_loop [] d index i count = None"
| "memtok_loop [c] d index i count = None"
| "memtok_loop (c # e # s) d index i count =
     (if c = d then (if count + 1 = index then Some i else memtok_loop (e # s) d index (Suc i) (count + 1))
      else memtok_loop (e # s) d index (Suc i) count)"

definition dm_utils_memtok :: "bytes option \<Rightarrow> int \<Rightarrow> u8 \<Rightarrow> int \<Rightarrow> (int \<times> nat option) option" where
  "dm_utils_memtok input input_len delimiter index =
     (case input of
        None \<Rightarrow> Some (DM_INVALID_PARAMETER, None)
      | Some input \<Rightarrow>
          if input_len \<le> 0 then Some (DM_INVALID_PARAMETER, None)
          else do { s \<leftarrow> mem_slice input 0 (nat input_len);
                    Some (case memtok_loop s delimiter index 0 0 of
                            None \<Rightarrow> (DM_FAIL, None) | Some i \<Rightarrow> (DM_SUCCESS, Some i)) })"

definition dm_utils_replace_char :: "bytes option \<Rightarrow> int \<Rightarrow> u8 \<Rightarrow> u8 \<Rightarrow> (int \<times> bytes option) option" where
  "dm_utils_replace_char input input_len src dest =
     (case input of
        None \<Rightarrow> Some (DM_INVALID_PARAMETER, None)
      | Some input \<Rightarrow>
          if input_len \<le> 0 then Some (DM_INVALID_PARAMETER, Some input)
          else do { s \<leftarrow> mem_slice input 0 (nat input_len);
                    Some (DM_SUCCESS, Some (map (\<lambda>c. if c = src then dest else c) s @ drop (nat input_len) input)) })"

text \<open>
  \<open>dm_utils_strarr_index\<close>: a name with an index in brackets at its end. The scan keeps the first
  brackets; the digits go through an array of ten bytes, which needs a NUL for \<open>atoi\<close>.
\<close>

fun bracket_scan :: "bytes \<Rightarrow> nat \<Rightarrow> u8 \<Rightarrow> nat \<Rightarrow> nat option \<Rightarrow> nat option \<Rightarrow> (nat option \<times> nat option) option" where
  "bracket_scan [] i prev deep pre suf = Some (pre, suf)"
| "bracket_scan (c # s) i prev deep pre suf =
     (if c = 91 then
        if deep \<noteq> 0 then None
        else bracket_scan s (Suc i) c (deep + 1) (if pre = None then Some i else pre) suf
      else if c = 93 then
        if deep \<noteq> 1 then None
        else if prev = 91 then None
        else bracket_scan s (Suc i) c (deep - 1) pre (if suf = None then Some i else suf)
      else bracket_scan s (Suc i) c deep pre suf)"

text \<open>\<open>atoi\<close>: spaces, a sign, digits; a value outside \<open>int\<close> is undefined.\<close>

fun atoi_digits :: "bytes \<Rightarrow> int \<Rightarrow> int" where
  "atoi_digits [] n = n"
| "atoi_digits (c # s) n = (if 48 \<le> c \<and> c \<le> 57 then atoi_digits s (n * 10 + uint (c - 48)) else n)"

definition c_isspace :: "u8 \<Rightarrow> bool" where
  "c_isspace c \<longleftrightarrow> c = 32 \<or> (9 \<le> c \<and> c \<le> 13)"

definition c_atoi :: "bytes \<Rightarrow> int option" where
  "c_atoi s =
     (let t = dropWhile c_isspace s in
      case t of
        [] \<Rightarrow> Some 0
      | c # u \<Rightarrow> c_int (if c = 45 then - atoi_digits u 0 else if c = 43 then atoi_digits u 0 else atoi_digits t 0))"

definition dm_utils_strarr_index :: "bytes option \<Rightarrow> int \<Rightarrow> (int \<times> (nat \<times> nat \<times> int) option) option" where
  "dm_utils_strarr_index input input_len =
     (case input of
        None \<Rightarrow> Some (DM_INVALID_PARAMETER, None)
      | Some input \<Rightarrow>
          if input_len \<le> 1 then Some (DM_INVALID_PARAMETER, None)
          else do {
            s \<leftarrow> mem_slice input 0 (nat input_len);
            case bracket_scan s 0 0 0 None None of
              Some (Some pre, Some suf) \<Rightarrow>
                if int suf + 1 = input_len
                then do { buf \<leftarrow> mem_write (replicate 10 0) 0 (take (suf - pre - 1) (drop (pre + 1) s));
                          str \<leftarrow> buf_str buf;
                          n \<leftarrow> c_atoi str;
                          Some (DM_SUCCESS, Some (pre, suf + 1, n)) }
                else Some (DM_FAIL, None)
            | _ \<Rightarrow> Some (DM_FAIL, None) })"

section \<open>Topics\<close>

text \<open>
  \<open>dm_utils_service_name\<close>. A prefix is a format with two strings: what it prints is
  the parts around them. It is stored in the new object, cut to its size.
\<close>

record prefix_fmt =
  fmt_begin :: bytes
  fmt_middle :: bytes
  fmt_end :: bytes

definition prefix_strlen :: "prefix_fmt \<Rightarrow> nat" where
  "prefix_strlen f = length (fmt_begin f) + 2 + length (fmt_middle f) + 2 + length (fmt_end f)"

definition prefix_text :: "prefix_fmt \<Rightarrow> bytes \<Rightarrow> bytes \<Rightarrow> bytes" where
  "prefix_text f pk dn = fmt_begin f @ pk @ fmt_middle f @ dn @ fmt_end f"

definition DM_URI_SYS_PREFIX :: prefix_fmt where
  "DM_URI_SYS_PREFIX = \<lparr>fmt_begin = ascii ''/sys/'', fmt_middle = ascii ''/'', fmt_end = ascii ''/''\<rparr>"

definition DM_URI_EXT_SESSION_PREFIX :: prefix_fmt where
  "DM_URI_EXT_SESSION_PREFIX = \<lparr>fmt_begin = ascii ''/ext/session/'', fmt_middle = ascii ''/'', fmt_end = ascii ''/''\<rparr>"

definition dm_utils_service_name ::
    "bool \<Rightarrow> prefix_fmt option \<Rightarrow> bytes option \<Rightarrow> bytes option \<Rightarrow> bytes option \<Rightarrow> bool \<Rightarrow> (int \<times> bytes option) option" where
  "dm_utils_service_name mem prefix name product_key device_name free =
     (case (product_key, device_name) of
        (Some pk, Some dn) \<Rightarrow>
          if prefix = None \<and> name = None \<or> \<not> free then Some (DM_INVALID_PARAMETER, None)
          else
            let n = (case prefix of None \<Rightarrow> 0 | Some f \<Rightarrow> prefix_strlen f) + (case name of None \<Rightarrow> 0 | Some s \<Rightarrow> length s)
                    + length pk + length dn + 1 in
            if \<not> mem then Some (DM_MEMORY_NOT_ENOUGH, None)
            else do {
              let buf = buf_of n (case prefix of None \<Rightarrow> [] | Some f \<Rightarrow> stored n (prefix_text f pk dn));
              buf \<leftarrow> (case name of None \<Rightarrow> Some buf | Some s \<Rightarrow> str_append buf s);
              Some (DM_SUCCESS, Some buf) }
      | _ \<Rightarrow> Some (DM_INVALID_PARAMETER, None))"

definition dm_utils_uri_add_prefix :: "bool \<Rightarrow> bytes option \<Rightarrow> bytes option \<Rightarrow> bool \<Rightarrow> (int \<times> bytes option) option" where
  "dm_utils_uri_add_prefix mem prefix uri free =
     (case (prefix, uri) of
        (Some prefix, Some uri) \<Rightarrow>
          if \<not> free then Some (DM_INVALID_PARAMETER, None)
          else if \<not> mem then Some (DM_MEMORY_NOT_ENOUGH, None)
          else do { buf \<leftarrow> mem_write (replicate (length prefix + length uri + 1) 0) 0 prefix;
                    buf \<leftarrow> str_append buf uri;
                    Some (DM_SUCCESS, Some buf) }
      | _ \<Rightarrow> Some (DM_INVALID_PARAMETER, None))"

text \<open>
  \<open>dm_msg_uri_parse_pkdn\<close>: the two levels between the delimiters number \<open>start\<close>, \<open>start + 1\<close> and \<open>end\<close>,
  copied without a NUL into the caller's arrays. An \<open>offset\<close> is kept from its NULL initialisation.
\<close>

definition dm_msg_uri_parse_pkdn ::
    "bytes option \<Rightarrow> int \<Rightarrow> int \<Rightarrow> int \<Rightarrow> bytes option \<Rightarrow> bytes option \<Rightarrow> (int \<times> bytes option \<times> bytes option) option" where
  "dm_msg_uri_parse_pkdn uri uri_len start_deli end_deli product_key device_name =
     (case (uri, product_key, device_name) of
        (Some u, Some pk, Some dn) \<Rightarrow>
          if uri_len \<le> 0 then Some (DM_INVALID_PARAMETER, product_key, device_name)
          else do {
            n \<leftarrow> buf_strlen pk;
            m \<leftarrow> (if n \<ge> 21 then Some 0 else buf_strlen dn);
            if n \<ge> 21 \<or> m \<ge> 33 then Some (DM_INVALID_PARAMETER, product_key, device_name)
            else do {
              (r, start) \<leftarrow> dm_utils_memtok uri uri_len 47 start_deli;
              if r \<noteq> DM_SUCCESS then Some (DM_FAIL, product_key, device_name)
              else do {
                (r, slice) \<leftarrow> dm_utils_memtok uri uri_len 47 (start_deli + 1);
                if r \<noteq> DM_SUCCESS then Some (DM_FAIL, product_key, device_name)
                else do {
                  (r, end_off) \<leftarrow> dm_utils_memtok uri uri_len 47 end_deli;
                  if r \<noteq> DM_SUCCESS then Some (DM_FAIL, product_key, device_name)
                  else do {
                    start \<leftarrow> start; slice \<leftarrow> slice; end_off \<leftarrow> end_off;
                    if slice \<le> start \<or> end_off \<le> slice then None
                    else do {
                      a \<leftarrow> mem_slice u (start + 1) (slice - start - 1);
                      pk \<leftarrow> mem_write pk 0 a;
                      b \<leftarrow> mem_slice u (slice + 1) (end_off - slice - 1);
                      dn \<leftarrow> mem_write dn 0 b;
                      Some (DM_SUCCESS, Some pk, Some dn) } } } } } }
      | _ \<Rightarrow> Some (DM_INVALID_PARAMETER, product_key, device_name))"

section \<open>What they compute\<close>

lemma decimal_not_Nil: "decimal n \<noteq> []"
  by (subst decimal.simps) simp

lemma digit_not_zero: "n < 10 \<Longrightarrow> (48 + of_nat n :: u8) \<noteq> 0"
  by (simp add: unat_eq_0 [symmetric] unat_word_ariths unat_of_nat)

lemma decimal_c_str: "is_c_str (decimal n)"
proof (induction n rule: decimal.induct)
  case (1 n)
  then show ?case using digit_not_zero [of n] digit_not_zero [of "n mod 10"] by (subst decimal.simps) auto
qed

lemma format_d_c_str: "is_c_str (format_d i)"
  by (simp add: format_d_def decimal_c_str)

lemma decimal_length: "n < 10 ^ k \<Longrightarrow> 0 < k \<Longrightarrow> length (decimal n) \<le> k"
proof (induction k arbitrary: n)
  case (Suc k)
  show ?case
  proof (cases "n < 10")
    case True
    then show ?thesis by (subst decimal.simps) simp
  next
    case False
    with Suc.prems have "0 < k" "n div 10 < 10 ^ k" by (cases k; auto)+
    with Suc.IH [of "n div 10"] show ?thesis by (subst decimal.simps) simp
  qed
qed simp

text \<open>A number of 32 bits: at most ten digits and a sign.\<close>

lemma format_d_length: "- (2 ^ 31) \<le> i \<Longrightarrow> i < 2 ^ 31 \<Longrightarrow> length (format_d i) \<le> 11"
proof -
  assume i: "- (2 ^ 31) \<le> i" "i < 2 ^ 31"
  have "nat i < 10 ^ 10" "nat (- i) < 10 ^ 10" using i by (simp_all add: nat_less_iff)
  then have "length (decimal (nat i)) \<le> 10" "length (decimal (nat (- i))) \<le> 10" by (intro decimal_length; simp)+
  then show ?thesis by (simp add: format_d_def)
qed

text \<open>Hexadecimal there and back.\<close>

lemma dm_hex_value_digit:
  assumes "unat c < 16"
  shows "dm_hex_value old (dm_hex_digit c) = c"
proof -
  have "dm_hex_value old (dm_hex_digit (of_nat n)) = of_nat n" if "n \<in> set [0..<16]" for n
    using that by (auto simp: dm_hex_digit_def dm_hex_value_def upt_rec)
  from this [of "unat c"] assms show ?thesis by simp
qed

lemma dm_nibbles: "(push_bit 4 (drop_bit 4 b AND 15) AND 0xF0) OR (b AND 15) = (b :: u8)"
proof -
  have "push_bit 4 (drop_bit 4 b AND 15) AND 0xF0 = push_bit 4 (drop_bit 4 b AND (15 :: u8) AND 15)"
    by (simp add: push_bit_and)
  then show ?thesis using nibbles_join [of b] by (simp add: and.assoc del: push_bit_and)
qed

lemma str_to_hex_pairs: "dm_str_to_hex_loop iter (concat (map dm_hex_pair bs)) = bs"
proof (induction bs arbitrary: iter)
  case (Cons b bs)
  have "dm_hex_value i (dm_hex_digit (drop_bit 4 b AND 15)) = drop_bit 4 b AND 15"
    "dm_hex_value i (dm_hex_digit (b AND 15)) = b AND 15" for i
    by (intro dm_hex_value_digit nibble_bound)+
  with Cons show ?case by (simp add: dm_hex_pair_def Let_def dm_nibbles del: push_bit_and)
qed simp

text \<open>\<open>dm_utils_itoa\<close> is exact up to nine characters, and drops the last digit of longer numbers.\<close>

lemma decimal_longer: "10 ^ k \<le> n \<Longrightarrow> k < length (decimal n)"
proof (induction k arbitrary: n)
  case (Suc k)
  moreover have "(10 :: nat) \<le> 10 ^ Suc k" by simp
  ultimately have "10 ^ k \<le> n div 10" "\<not> n < 10" by (simp_all add: less_eq_div_iff_mult_less_eq mult.commute del: power_Suc) simp_all
  with Suc.IH show ?case by (subst decimal.simps) simp
qed (simp add: decimal_not_Nil)

lemma itoa_exact: "- (10 ^ 8) < i \<Longrightarrow> i < 10 ^ 9 \<Longrightarrow> dm_utils_itoa True i True = (DM_SUCCESS, Some (format_d i))"
proof -
  assume i: "- (10 ^ 8) < i" "i < 10 ^ 9"
  then have "nat i < 10 ^ 9" "nat (- i) < 10 ^ 8" by (simp_all add: nat_less_iff)
  then have "length (decimal (nat i)) \<le> 9" "length (decimal (nat (- i))) \<le> 8" by (intro decimal_length; simp)+
  then show ?thesis by (simp add: dm_utils_itoa_def stored_def format_d_def)
qed

lemma itoa_cut: "10 ^ 9 \<le> i \<Longrightarrow> dm_utils_itoa True i True \<noteq> (DM_SUCCESS, Some (format_d i))"
proof -
  assume "10 ^ 9 \<le> i"
  then have "0 \<le> i" "10 ^ 9 \<le> nat i" by (simp_all add: le_nat_iff)
  then have "9 < length (format_d i)" using decimal_longer [of 9 "nat i"] by (simp add: format_d_def)
  moreover have "length (stored 10 (format_d i)) \<le> 9" by (simp add: stored_def)
  ultimately have "stored 10 (format_d i) \<noteq> format_d i" by (metis not_le)
  then show ?thesis by (simp add: dm_utils_itoa_def)
qed

section \<open>Topics there and back\<close>

lemma memtok_skip:
  "d \<notin> set t \<Longrightarrow> s \<noteq> [] \<Longrightarrow> memtok_loop (t @ s) d index i count = memtok_loop s d index (i + length t) count"
proof (induction t arbitrary: i)
  case (Cons c t)
  then obtain e u where "t @ s = e # u" by (cases "t @ s") auto
  with Cons show ?case by (metis Cons.IH add_Suc_right add_Suc_shift append_Cons length_Cons list.set_intros(1,2) memtok_loop.simps(3))
qed simp

lemma memtok_next:
  assumes "d \<notin> set t" and "s \<noteq> []"
  shows "memtok_loop (t @ d # s) d index i count =
    (if count + 1 = index then Some (i + length t) else memtok_loop s d index (Suc (i + length t)) (count + 1))"
proof -
  obtain e u where "s = e # u" using assms(2) by (cases s) auto
  with assms show ?thesis by (simp add: memtok_skip)
qed

text \<open>The text of a topic \<open>/sys/pk/dn/name\<close> and the offsets of its delimiters.\<close>

definition topic :: "bytes \<Rightarrow> bytes \<Rightarrow> bytes \<Rightarrow> bytes" where
  "topic pk dn name = prefix_text DM_URI_SYS_PREFIX pk dn @ name"

lemma topic_parts: "topic pk dn name = ascii ''/sys'' @ 47 # pk @ 47 # dn @ 47 # name"
  by (simp add: topic_def prefix_text_def DM_URI_SYS_PREFIX_def ascii_def)

lemma topic_offsets:
  assumes "47 \<notin> set pk" and "47 \<notin> set dn" and "name \<noteq> []"
  shows "memtok_loop (topic pk dn name) 47 2 0 0 = Some 4"
    and "memtok_loop (topic pk dn name) 47 3 0 0 = Some (5 + length pk)"
    and "memtok_loop (topic pk dn name) 47 4 0 0 = Some (6 + length pk + length dn)"
proof -
  have "topic pk dn name = [] @ 47 # ascii ''sys'' @ 47 # pk @ 47 # dn @ 47 # name" by (simp add: topic_parts ascii_def)
  then have "memtok_loop (topic pk dn name) 47 index 0 0 =
     (if index = 2 then Some 4 else if index = 3 then Some (5 + length pk) else Some (6 + length pk + length dn))"
    if "index = 2 \<or> index = 3 \<or> index = 4" for index
    using assms that memtok_next [of 47 "[]" "115 # 121 # 115 # 47 # pk @ 47 # dn @ 47 # name" index 0 0]
      memtok_next [of 47 "[115, 121, 115]" "pk @ 47 # dn @ 47 # name" index 1 1] by (auto simp: memtok_next ascii_def)
  then show "memtok_loop (topic pk dn name) 47 2 0 0 = Some 4"
    and "memtok_loop (topic pk dn name) 47 3 0 0 = Some (5 + length pk)"
    and "memtok_loop (topic pk dn name) 47 4 0 0 = Some (6 + length pk + length dn)" by simp_all
qed

text \<open>
  Property C38: from a product key, a device name and a service, none of them with a NUL, the key and
  the name without a slash and the service not empty, \<open>dm_utils_service_name\<close> builds the topic
  \<open>/sys/key/name/service\<close> in an object that has five bytes more than the topic has characters (its
  NUL and four that are not used), and \<open>dm_msg_uri_parse_pkdn\<close> finds the key and the name in the topic
  again; a level of 21 or 33 characters fills the caller's array without a NUL, and a longer one,
  which any sender of a message can choose, is written behind the array.
\<close>

theorem topic_round_trip:
  assumes "is_c_str pk" and "is_c_str dn" and "is_c_str name" and "47 \<notin> set pk" and "47 \<notin> set dn" and "name \<noteq> []"
  shows "dm_utils_service_name True (Some DM_URI_SYS_PREFIX) (Some name) (Some pk) (Some dn) True
      = Some (DM_SUCCESS, Some (buf_of (length (topic pk dn name) + 5) (topic pk dn name)))
    \<and> dm_msg_uri_parse_pkdn (Some (topic pk dn name)) (int (length (topic pk dn name))) 2 4
        (Some (buf_of 21 [])) (Some (buf_of 33 []))
      = (if length pk \<le> 21 \<and> length dn \<le> 33
         then Some (DM_SUCCESS, Some (buf_of 21 pk), Some (buf_of 33 dn)) else None)"
proof
  let ?p = "prefix_text DM_URI_SYS_PREFIX pk dn"
  have p: "is_c_str ?p" "length ?p = length pk + length dn + 7"
    using assms by (simp_all add: prefix_text_def DM_URI_SYS_PREFIX_def ascii_def)
  have "Suc (prefix_strlen DM_URI_SYS_PREFIX + length name + length pk + length dn) = length (topic pk dn name) + 5"
    by (simp add: prefix_strlen_def topic_def p) (simp add: DM_URI_SYS_PREFIX_def ascii_def)
  with p this [symmetric] show "dm_utils_service_name True (Some DM_URI_SYS_PREFIX) (Some name) (Some pk) (Some dn) True
      = Some (DM_SUCCESS, Some (buf_of (length (topic pk dn name) + 5) (topic pk dn name)))"
    by (simp add: dm_utils_service_name_def topic_def stored_def Let_def str_append_inside ac_simps)
next
  let ?t = "topic pk dn name"
  let ?u = "ascii ''/sys'' @ 47 # pk @ [47]"
  have "?t = ?u @ dn @ 47 # name" "length ?u = 6 + length pk" by (simp_all add: topic_parts ascii_def)
  then have "drop (6 + length pk) ?t = dn @ 47 # name" by (metis append_eq_conv_conj)
  then have slices: "take (length pk) (drop 5 ?t) = pk" "take (length dn) (drop (6 + length pk) ?t) = dn"
    by (simp_all add: topic_parts ascii_def)
  have len: "length ?t = 7 + length pk + length dn + length name" by (simp add: topic_parts ascii_def)
  with slices have copies: "mem_slice ?t 5 (length pk) = Some pk" "mem_slice ?t (Suc (5 + length pk)) (length dn) = Some dn"
    by (simp_all add: mem_slice_def)
  define n where "n = int (length ?t)"
  have n: "0 < n" "nat n = length ?t" by (simp_all add: n_def len)
  have tok: "dm_utils_memtok (Some ?t) n 47 index = Some (case memtok_loop ?t 47 index 0 0 of
      None \<Rightarrow> (DM_FAIL, None) | Some i \<Rightarrow> (DM_SUCCESS, Some i))" for index
    using n by (simp add: dm_utils_memtok_def mem_slice_def)
  have parse: "dm_msg_uri_parse_pkdn (Some ?t) n 2 4 (Some (buf_of 21 [])) (Some (buf_of 33 []))
      = do { pk \<leftarrow> mem_write (buf_of 21 []) 0 pk; dn \<leftarrow> mem_write (buf_of 33 []) 0 dn; Some (DM_SUCCESS, Some pk, Some dn) }"
    using n topic_offsets [OF assms(4-6)] copies
    by (simp add: dm_msg_uri_parse_pkdn_def tok buf_strlen_inside)
  have "mem_write (buf_of m []) 0 t = (if length t \<le> m then Some (buf_of m t) else None)" for m t
    by (simp add: mem_write_start) (simp add: mem_write_def buf_of_def)
  then show "dm_msg_uri_parse_pkdn (Some ?t) (int (length ?t)) 2 4 (Some (buf_of 21 [])) (Some (buf_of 33 []))
      = (if length pk \<le> 21 \<and> length dn \<le> 33
         then Some (DM_SUCCESS, Some (buf_of 21 pk), Some (buf_of 33 dn)) else None)"
    using parse by (simp add: n_def)
qed

theorem topic_round_trip_witness:
  "dm_msg_uri_parse_pkdn (Some (ascii ''/sys/a1X2/lamp/thing/service/property/set'')) 41 2 4 (Some (buf_of 21 [])) (Some (buf_of 33 []))
     = Some (0, Some (buf_of 21 (ascii ''a1X2'')), Some (buf_of 33 (ascii ''lamp'')))"
proof -
  have "is_c_str (ascii ''a1X2'')" "is_c_str (ascii ''lamp'')" "is_c_str (ascii ''thing/service/property/set'')"
    "47 \<notin> set (ascii ''a1X2'')" "47 \<notin> set (ascii ''lamp'')" "ascii ''thing/service/property/set'' \<noteq> []"
    by (simp_all add: ascii_def)
  from topic_round_trip [OF this]
  show ?thesis by (simp add: topic_parts ascii_def DM_SUCCESS_def)
qed

end
