(* ===== verification/Mqtt_Api.thy ===== *)
theory Mqtt_Api
  imports Mqtt_Session Infra_Compat Dm_Utils
begin

text \<open>
  The public interface of MQTT (\<open>mqtt/mqtt_api.c\<close>): the one client of the program, the
  subscriptions that are made before there is one, and the reports of \<open>infra/infra_report.c\<close>
  that are published as soon as it is connected. \<open>DYNAMIC_REGISTER\<close>, \<open>MQTT_PRE_AUTH\<close>,
  \<open>ASYNC_PROTOCOL_STACK\<close> and \<open>SUB_PERSISTENCE_ENABLED\<close> are not defined, memory is dynamic.
\<close>

section \<open>The device\<close>

text \<open>
  What the manufacturing partition holds (\<open>wrappers/wrapper_product.c\<close>; \<open>None\<close>: nothing is
  stored or the partition can not be read) and the configured version of the firmware.
\<close>

record device =
  nvs_product_key :: "bytes option"
  nvs_device_name :: "bytes option"
  nvs_device_secret :: "bytes option"
  CONFIG_LINKKIT_FIRMWARE_VERSION :: bytes

definition IOTX_FIRMWARE_VER_LEN :: nat where "IOTX_FIRMWARE_VER_LEN = 32"
definition IOTX_FIRMWARE_VERSION_LEN :: nat where "IOTX_FIRMWARE_VERSION_LEN = 32"
definition IOTX_URI_MAX_LEN :: nat where "IOTX_URI_MAX_LEN = 135"
definition FIRMWARE_VERSION_MSG_LEN :: nat where "FIRMWARE_VERSION_MSG_LEN = 64"
definition IOTX_SDK_VERSION :: bytes where "IOTX_SDK_VERSION = ascii ''3.0.1''"

text \<open>As many bytes are written as are stored, with the final NUL.\<close>

definition HAL_GetProductParam :: "bytes option \<Rightarrow> bytes \<Rightarrow> (int \<times> bytes) option" where
  "HAL_GetProductParam nvs param =
     (case nvs of
        None \<Rightarrow> Some (0, param)
      | Some s \<Rightarrow> do { param \<leftarrow> mem_write param 0 (c_str s @ [0]); Some (int (c_strlen s) + 1, param) })"

definition HAL_GetProductKey :: "device \<Rightarrow> bytes \<Rightarrow> (int \<times> bytes) option" where
  "HAL_GetProductKey D = HAL_GetProductParam (nvs_product_key D)"

definition HAL_GetDeviceName :: "device \<Rightarrow> bytes \<Rightarrow> (int \<times> bytes) option" where
  "HAL_GetDeviceName D = HAL_GetProductParam (nvs_device_name D)"

definition HAL_GetDeviceSecret :: "device \<Rightarrow> bytes \<Rightarrow> (int \<times> bytes) option" where
  "HAL_GetDeviceSecret D = HAL_GetProductParam (nvs_device_secret D)"

definition HAL_GetFirmwareVersion :: "device \<Rightarrow> bytes option \<Rightarrow> (int \<times> bytes option) option" where
  "HAL_GetFirmwareVersion D version =
     (case version of
        None \<Rightarrow> Some (0, None)
      | Some version \<Rightarrow> do {
          version \<leftarrow> mem_zero version IOTX_FIRMWARE_VER_LEN;
          let cfg = c_str (CONFIG_LINKKIT_FIRMWARE_VERSION D);
          if length cfg > IOTX_FIRMWARE_VER_LEN then Some (0, Some version)
          else do { version \<leftarrow> mem_write version 0 cfg; Some (int (length cfg), Some version) } })"

section \<open>The state\<close>

record iotx_mc_offline_subs_t =
  os_topic_filter :: bytes
  os_handle :: nat
  os_user_data :: nat
  os_qos :: u32

text \<open>
  The static variables of \<open>mqtt_api.c\<close> and \<open>infra_report.c\<close>, the settings of the SDK, and what
  was called back on connecting. While there is no client, \<open>world\<close> keeps what the client keeps of
  the platform. \<open>offline_init\<close> and the list are \<open>g_mqtt_offline_subs_list\<close>.
\<close>

record mqtt_api =
  g_mqtt_client :: "iotx_mc_client_t option"
  g_default_sign :: iotx_sign_mqtt_t
  offline_init :: int
  offline_sub_list :: "iotx_mc_offline_subs_t list"
  g_report_id :: u32
  info_report_func :: bool
  sdk :: sdk_impl_ctx_t
  connect_calls :: "nat list"
  world :: iotx_mc_client_t

definition mqtt_api_start :: mqtt_api where
  "mqtt_api_start = \<lparr>g_mqtt_client = None, g_default_sign = zeroed_sign, offline_init = 0, offline_sub_list = [],
     g_report_id = 0, info_report_func = False, sdk = g_sdk_impl_ctx, connect_calls = [], world = blank_client\<rparr>"

definition api_malloc :: "platform \<Rightarrow> u32 \<Rightarrow> mqtt_api \<Rightarrow> bool \<times> mqtt_api" where
  "api_malloc P n s = (let (ok, w) = HAL_Malloc P n (world s) in (ok, s\<lparr>world := w\<rparr>))"

text \<open>
  \<open>handle ? handle : g_mqtt_client\<close>: the caller gives the handle it got or NULL. A handle that is
  given when its client has been destroyed has no defined meaning (the outer \<open>None\<close>).
\<close>

definition client_of :: "bool \<Rightarrow> mqtt_api \<Rightarrow> iotx_mc_client_t option option" where
  "client_of handle s =
     (case g_mqtt_client s of
        Some c \<Rightarrow> Some (Some c)
      | None \<Rightarrow> if handle then None else Some None)"

section \<open>Subscriptions without a client\<close>

definition offline_subs_list_init :: "mqtt_api \<Rightarrow> mqtt_api" where
  "offline_subs_list_init s =
     (if offline_init s \<noteq> 0 then s
      else s\<lparr>offline_init := 1, offline_sub_list := [], world := hal_call (world s)\<rparr>)"

definition offline_subs_list_deinit :: "mqtt_api \<Rightarrow> mqtt_api" where
  "offline_subs_list_deinit s = s\<lparr>offline_init := 0, offline_sub_list := []\<rparr>"

text \<open>The first entry with the same filter is overwritten (\<open>None\<close>: there is none).\<close>

fun offline_replace ::
    "bytes \<Rightarrow> u32 \<Rightarrow> nat \<Rightarrow> nat \<Rightarrow> iotx_mc_offline_subs_t list \<Rightarrow> iotx_mc_offline_subs_t list option" where
  "offline_replace tp qos func ctx [] = None"
| "offline_replace tp qos func ctx (e # es) =
     (if c_strlen (os_topic_filter e) = c_strlen tp \<and> c_str (os_topic_filter e) = c_str tp
      then Some (e\<lparr>os_qos := qos, os_handle := func, os_user_data := ctx\<rparr> # es)
      else map_option (Cons e) (offline_replace tp qos func ctx es))"

abbreviation "sizeof_offline_subs \<equiv> 24 :: u32"

definition iotx_mqtt_offline_subscribe ::
    "platform \<Rightarrow> bytes option \<Rightarrow> u32 \<Rightarrow> nat option \<Rightarrow> nat \<Rightarrow> mqtt_api \<Rightarrow> int \<times> mqtt_api" where
  "iotx_mqtt_offline_subscribe P topicFilter qos topic_handle_func ctx s =
     (case (topicFilter, topic_handle_func) of
        (Some tp, Some func) \<Rightarrow>
          let s = offline_subs_list_init s in
          (case offline_replace tp qos func ctx (offline_sub_list s) of
             Some es \<Rightarrow> (SUCCESS_RETURN, s\<lparr>offline_sub_list := es\<rparr>)
           | None \<Rightarrow>
               let (ok, s) = api_malloc P sizeof_offline_subs s in
               if \<not> ok then (ERROR_MALLOC, s)
               else
                 let (ok, s) = api_malloc P (word_of_nat (c_strlen tp + 1)) s in
                 if \<not> ok then (ERROR_MALLOC, s)
                 else (SUCCESS_RETURN, s\<lparr>offline_sub_list := offline_sub_list s @
                        [\<lparr>os_topic_filter = c_str tp, os_handle = func, os_user_data = ctx, os_qos = qos\<rparr>]\<rparr>))
      | _ \<Rightarrow> (NULL_VALUE_ERROR, s))"

text \<open>The result of subscribing is not looked at.\<close>

fun deal_offline_loop ::
    "platform \<Rightarrow> iotx_mc_offline_subs_t list \<Rightarrow> iotx_mc_client_t \<Rightarrow> iotx_mc_client_t option" where
  "deal_offline_loop P [] c = Some c"
| "deal_offline_loop P (e # es) c =
     do {
       (_, c) \<leftarrow> wrapper_mqtt_subscribe P (Some (os_topic_filter e)) (sint (os_qos e)) (Some (os_handle e))
                   (os_user_data e) c;
       deal_offline_loop P es c }"

definition iotx_mqtt_deal_offline_subs ::
    "platform \<Rightarrow> iotx_mc_client_t \<Rightarrow> mqtt_api \<Rightarrow> (iotx_mc_client_t \<times> mqtt_api) option" where
  "iotx_mqtt_deal_offline_subs P c s =
     (if offline_init s = 0 then Some (c, s)
      else do { c \<leftarrow> deal_offline_loop P (offline_sub_list s) c; Some (c, offline_subs_list_deinit s) })"

section \<open>Publishing and the reports\<close>

text \<open>\<open>IOT_MQTT_Publish_Simple\<close> on a client; \<open>len\<close> bytes of \<open>data\<close> are published.\<close>

definition simple_message :: "int \<Rightarrow> bytes option \<Rightarrow> int \<Rightarrow> iotx_mqtt_topic_info_t" where
  "simple_message qos data len =
     \<lparr>ti_packet_id = 0, ti_qos = word_of_int qos, ti_dup = 0, ti_retain = 0, ti_topic_len = 0,
      ti_payload_len = word_of_int len, ti_ptopic = None, ti_payload = data\<rparr>"

definition publish_simple ::
    "platform \<Rightarrow> bytes option \<Rightarrow> int \<Rightarrow> bytes option \<Rightarrow> int \<Rightarrow> iotx_mc_client_t \<Rightarrow> (int \<times> iotx_mc_client_t) option" where
  "publish_simple P topic_name qos data len c =
     (case topic_name of
        None \<Rightarrow> Some (NULL_VALUE_ERROR, c)
      | Some tp \<Rightarrow>
          if c_strlen tp = 0 then Some (NULL_VALUE_ERROR, c)
          else do {
            (rc, _, c) \<leftarrow> wrapper_mqtt_publish P topic_name (Some (simple_message qos data len)) c;
            Some (if rc < 0 then -1 else rc, c) })"

text \<open>The identifier is printed as a C integer.\<close>

definition iotx_report_id :: "mqtt_api \<Rightarrow> int \<times> mqtt_api" where
  "iotx_report_id s = (sint (g_report_id s), s\<lparr>g_report_id := g_report_id s + 1\<rparr>)"

definition DEVICE_INFO_UPDATE_FMT :: bytes where
  "DEVICE_INFO_UPDATE_FMT = ascii (''{\"id\":\"%d\",\"version\":\"1.0\",\"params\":[''
     @ ''{\"attrKey\":\"SYS_LP_SDK_VERSION\",\"attrValue\":\"%s\",\"domain\":\"SYSTEM\"},''
     @ ''{\"attrKey\":\"SYS_SDK_LANGUAGE\",\"attrValue\":\"C\",\"domain\":\"SYSTEM\"}''
     @ ''],\"method\":\"thing.deviceinfo.update\"}'')"

definition devinfo_text :: "int \<Rightarrow> bytes" where
  "devinfo_text i = ascii ''{\"id\":\"'' @ format_d i @ ascii (''\",\"version\":\"1.0\",\"params\":[''
     @ ''{\"attrKey\":\"SYS_LP_SDK_VERSION\",\"attrValue\":\"'') @ IOTX_SDK_VERSION @ ascii (''\",\"domain\":\"SYSTEM\"},''
     @ ''{\"attrKey\":\"SYS_SDK_LANGUAGE\",\"attrValue\":\"C\",\"domain\":\"SYSTEM\"}''
     @ ''],\"method\":\"thing.deviceinfo.update\"}'')"

text \<open>The product key and the device name as the reports read them.\<close>

definition device_identity :: "device \<Rightarrow> (bytes \<times> bytes) option" where
  "device_identity D =
     do { (_, pk) \<leftarrow> HAL_GetProductKey D (replicate (IOTX_PRODUCT_KEY_LEN + 1) 0);
          (_, dn) \<leftarrow> HAL_GetDeviceName D (replicate (IOTX_DEVICE_NAME_LEN + 1) 0);
          pk \<leftarrow> buf_str pk;
          dn \<leftarrow> buf_str dn;
          Some (pk, dn) }"

definition iotx_report_devinfo ::
    "platform \<Rightarrow> device \<Rightarrow> iotx_mc_client_t \<Rightarrow> mqtt_api \<Rightarrow> (int \<times> iotx_mc_client_t \<times> mqtt_api) option" where
  "iotx_report_devinfo P D c s =
     (if \<not> info_report_func s then Some (-1, c, s)
      else do {
        (pk, dn) \<leftarrow> device_identity D;
        let tp = stored IOTX_URI_MAX_LEN
              (ascii ''/sys/'' @ pk @ ascii ''/'' @ dn @ ascii ''/thing/deviceinfo/update'');
        let msg_len = length DEVICE_INFO_UPDATE_FMT + 10 + length IOTX_SDK_VERSION + 1;
        let (ok, c) = HAL_Malloc P (word_of_nat msg_len) c;
        if \<not> ok then Some (FAIL_RETURN, c, s)
        else do {
          let (i, s) = iotx_report_id s;
          let msg = stored msg_len (devinfo_text i);
          (_, c) \<leftarrow> publish_simple P (Some tp) 1 (Some msg) (int (length msg)) c;
          Some (SUCCESS_RETURN, c, s) } })"

definition firmware_text :: "int \<Rightarrow> bytes \<Rightarrow> bytes" where
  "firmware_text i version =
     ascii ''{\"id\":\"'' @ format_d i @ ascii ''\",\"params\":{\"version\":\"'' @ version @ ascii ''\"}}''"

definition iotx_report_firmware_version ::
    "platform \<Rightarrow> device \<Rightarrow> iotx_mc_client_t \<Rightarrow> mqtt_api \<Rightarrow> (int \<times> iotx_mc_client_t \<times> mqtt_api) option" where
  "iotx_report_firmware_version P D c s =
     (if \<not> info_report_func s then Some (-1, c, s)
      else do {
        (pk, dn) \<leftarrow> device_identity D;
        (ret, version) \<leftarrow> HAL_GetFirmwareVersion D (Some (replicate (IOTX_FIRMWARE_VERSION_LEN + 1) 0));
        if ret \<le> 0 then Some (FAIL_RETURN, c, s)
        else do {
          version \<leftarrow> version;
          version \<leftarrow> buf_str version;
          let tp = stored IOTX_URI_MAX_LEN (ascii ''/ota/device/inform/'' @ pk @ ascii ''/'' @ dn);
          let (i, s) = iotx_report_id s;
          let msg = stored FIRMWARE_VERSION_MSG_LEN (firmware_text i version);
          (ret, c) \<leftarrow> publish_simple P (Some tp) 1 (Some msg) (int (length msg)) c;
          Some (if ret < 0 then ret else SUCCESS_RETURN, c, s) } })"

text \<open>\<open>iotx_report_mid\<close> does nothing; the results of the reports are not used.\<close>

definition iotx_mqtt_report_funcs ::
    "platform \<Rightarrow> device \<Rightarrow> iotx_mc_client_t \<Rightarrow> mqtt_api \<Rightarrow> (iotx_mc_client_t \<times> mqtt_api) option" where
  "iotx_mqtt_report_funcs P D c s =
     do {
       (c, s) \<leftarrow> iotx_mqtt_deal_offline_subs P c s;
       let s = s\<lparr>info_report_func := True\<rparr>;
       (_, c, s) \<leftarrow> iotx_report_devinfo P D c s;
       (_, c, s) \<leftarrow> iotx_report_firmware_version P D c s;
       Some (c, s) }"

section \<open>Constructing and destroying the client\<close>

text \<open>A given string that is not empty, or the default.\<close>

definition string_or :: "bytes option \<Rightarrow> bytes \<Rightarrow> bytes option" where
  "string_or given standard =
     (case given of Some t \<Rightarrow> if c_strlen t \<noteq> 0 then Some t else Some standard | None \<Rightarrow> Some standard)"

text \<open>
  The parameters of the client: those that are given, if they are in range, else the defaults. The
  strings of \<open>g_default_sign\<close> are those its arrays hold.
\<close>

definition default_params :: "iotx_sign_mqtt_t \<Rightarrow> iotx_mqtt_param_t option" where
  "default_params sign =
     do {
       host \<leftarrow> buf_str (sg_hostname sign);
       clientid \<leftarrow> buf_str (sg_clientid sign);
       user \<leftarrow> buf_str (sg_username sign);
       pass \<leftarrow> buf_str (sg_password sign);
       Some \<lparr>ip_port = sg_port sign, ip_host = Some host, ip_client_id = Some clientid, ip_username = Some user,
         ip_password = Some pass, ip_clean_session = 0, ip_request_timeout_ms = CONFIG_MQTT_REQUEST_TIMEOUT,
         ip_keepalive_interval_ms = 60000, ip_write_buf_size = 1024, ip_read_buf_size = 1024,
         ip_handle_event = \<lparr>h_fp = None, pcontext = 0\<rparr>\<rparr> }"

definition with_given :: "iotx_mqtt_param_t \<Rightarrow> iotx_mqtt_param_t \<Rightarrow> iotx_mqtt_param_t" where
  "with_given ip d =
     \<lparr>ip_port = (if ip_port ip \<noteq> 0 then ip_port ip else ip_port d),
      ip_host = string_or (ip_host ip) (the (ip_host d)),
      ip_client_id = string_or (ip_client_id ip) (the (ip_client_id d)),
      ip_username = string_or (ip_username ip) (the (ip_username d)),
      ip_password = string_or (ip_password ip) (the (ip_password d)),
      ip_clean_session = (if ip_clean_session ip = 0 \<or> ip_clean_session ip = 1
                          then ip_clean_session ip else ip_clean_session d),
      ip_request_timeout_ms =
        (if ip_request_timeout_ms ip < CONFIG_MQTT_REQ_TIMEOUT_MIN
            \<or> ip_request_timeout_ms ip > CONFIG_MQTT_REQ_TIMEOUT_MAX
         then ip_request_timeout_ms d else ip_request_timeout_ms ip),
      ip_keepalive_interval_ms =
        (if ip_keepalive_interval_ms ip < 30 * 1000 \<or> ip_keepalive_interval_ms ip > 180 * 1000
         then ip_keepalive_interval_ms d else ip_keepalive_interval_ms ip),
      ip_write_buf_size = (if ip_write_buf_size ip = 0 then ip_write_buf_size d else ip_write_buf_size ip),
      ip_read_buf_size = (if ip_read_buf_size ip = 0 then ip_read_buf_size d else ip_read_buf_size ip),
      ip_handle_event =
        \<lparr>h_fp = (if h_fp (ip_handle_event ip) \<noteq> None then h_fp (ip_handle_event ip) else h_fp (ip_handle_event d)),
         pcontext = (if pcontext (ip_handle_event ip) \<noteq> 0 then pcontext (ip_handle_event ip)
                     else pcontext (ip_handle_event d))\<rparr>\<rparr>"

text \<open>What remains of the platform when \<open>wrapper_mqtt_init\<close> returns NULL.\<close>

definition init_world :: "platform \<Rightarrow> u32 \<Rightarrow> iotx_mqtt_param_t \<Rightarrow> iotx_mc_client_t \<Rightarrow> iotx_mc_client_t" where
  "init_world P n ps w =
     (let (ok, w) = HAL_Malloc P n w in if ok then snd (iotx_mc_init P ps (zeroed_client w)) else w)"

text \<open>From the initialised client to the one that is kept; the callback is told of it.\<close>

definition construct_client ::
    "platform \<Rightarrow> device \<Rightarrow> u32 \<Rightarrow> iotx_mqtt_param_t \<Rightarrow> mqtt_api \<Rightarrow> (bool \<times> mqtt_api) option" where
  "construct_client P D client_size ps s =
     (case wrapper_mqtt_init P client_size ps (world s) of
        None \<Rightarrow> Some (False, s\<lparr>world := init_world P client_size ps (world s)\<rparr>)
      | Some c \<Rightarrow> do {
          (ret, c) \<leftarrow> wrapper_mqtt_connect P c;
          if ret \<noteq> SUCCESS_RETURN \<and> ret \<noteq> MQTT_CONNECT_BLOCK then do {
            (_, _, freed) \<leftarrow> wrapper_mqtt_release P (Some c);
            c \<leftarrow> freed;
            Some (False, s\<lparr>world := c\<rparr>) }
          else do {
            (c, s) \<leftarrow> iotx_mqtt_report_funcs P D c s;
            Some (True, s\<lparr>g_mqtt_client := Some c,
              connect_calls := (case iotx_event_callback ITE_MQTT_CONNECT_SUCC (sdk s) of
                None \<Rightarrow> connect_calls s | Some cb \<Rightarrow> connect_calls s @ [cb])\<rparr>) } })"

text \<open>An array that is empty, or has no NUL at its end, is not accepted.\<close>

definition param_bad :: "nat \<Rightarrow> bytes \<Rightarrow> bool" where
  "param_bad n a \<longleftrightarrow> a ! 0 = 0 \<or> a ! n \<noteq> 0"

definition IOT_MQTT_Construct ::
    "platform \<Rightarrow> device \<Rightarrow> u32 \<Rightarrow> iotx_mqtt_param_t option \<Rightarrow> mqtt_api \<Rightarrow> (bool \<times> mqtt_api) option" where
  "IOT_MQTT_Construct P D client_size pInitParams s =
     (if g_mqtt_client s \<noteq> None then Some (True, s)
      else do {
        (_, pk) \<leftarrow> HAL_GetProductKey D (replicate (IOTX_PRODUCT_KEY_LEN + 1) 0);
        (_, dn) \<leftarrow> HAL_GetDeviceName D (replicate (IOTX_DEVICE_NAME_LEN + 1) 0);
        if param_bad IOTX_PRODUCT_KEY_LEN pk then Some (False, s)
        else if param_bad IOTX_DEVICE_NAME_LEN dn then Some (False, s)
        else do {
          (_, ds) \<leftarrow> HAL_GetDeviceSecret D (replicate (IOTX_DEVICE_SECRET_LEN + 1) 0);
          if param_bad IOTX_DEVICE_SECRET_LEN ds then Some (False, s)
          else do {
            (ret, sign) \<leftarrow> IOT_Sign_MQTT (mqtt_domain_custom (sdk s)) (region_of_int (domain_type (sdk s)))
              (Some \<lparr>mt_product_key = c_str pk, mt_product_secret = [], mt_device_name = c_str dn,
                     mt_device_secret = c_str ds\<rparr>) (g_default_sign s);
            let s = s\<lparr>g_default_sign := sign\<rparr>;
            if ret < SUCCESS_RETURN then Some (False, s)
            else do {
              d \<leftarrow> default_params sign;
              construct_client P D client_size
                (case pInitParams of None \<Rightarrow> d | Some ip \<Rightarrow> with_given ip d) s } } } })"

text \<open>
  \<open>phandler\<close>: NULL (\<open>None\<close>), or a pointer to a variable that holds the client (\<open>Some True\<close>) or NULL.
\<close>

definition IOT_MQTT_Destroy :: "platform \<Rightarrow> bool option \<Rightarrow> mqtt_api \<Rightarrow> (int \<times> mqtt_api) option" where
  "IOT_MQTT_Destroy P phandler s =
     do {
       client \<leftarrow> (case phandler of
                    None \<Rightarrow> Some (g_mqtt_client s)
                  | Some held \<Rightarrow> if held then client_of True s else Some None);
       if client = None then Some (NULL_VALUE_ERROR, s)
       else do {
         (_, _, freed) \<leftarrow> wrapper_mqtt_release P client;
         c \<leftarrow> freed;
         Some (SUCCESS_RETURN, s\<lparr>g_mqtt_client := None, world := c\<rparr>) } }"

section \<open>The calls on the client\<close>

definition IOT_MQTT_Yield :: "platform \<Rightarrow> bool \<Rightarrow> int \<Rightarrow> mqtt_api \<Rightarrow> (int \<times> mqtt_api) option" where
  "IOT_MQTT_Yield P handle timeout_ms s =
     do { client \<leftarrow> client_of handle s;
          case client of
            None \<Rightarrow> Some (NULL_VALUE_ERROR, s)
          | Some c \<Rightarrow> do { (rc, c) \<leftarrow> wrapper_mqtt_yield P timeout_ms c; Some (rc, s\<lparr>g_mqtt_client := Some c\<rparr>) } }"

definition IOT_MQTT_CheckStateNormal :: "bool \<Rightarrow> mqtt_api \<Rightarrow> int option" where
  "IOT_MQTT_CheckStateNormal handle s =
     do { client \<leftarrow> client_of handle s;
          Some (case client of None \<Rightarrow> NULL_VALUE_ERROR | Some c \<Rightarrow> wrapper_mqtt_check_state c) }"

definition filter_missing :: "bytes option \<Rightarrow> bool" where
  "filter_missing tp \<longleftrightarrow> (case tp of None \<Rightarrow> True | Some t \<Rightarrow> c_strlen t = 0)"

definition checked_qos :: "u32 \<Rightarrow> int" where
  "checked_qos qos = (if qos > 2 then 0 else uint qos)"

definition IOT_MQTT_Subscribe ::
    "platform \<Rightarrow> bool \<Rightarrow> bytes option \<Rightarrow> u32 \<Rightarrow> nat option \<Rightarrow> nat \<Rightarrow> mqtt_api \<Rightarrow> (int \<times> mqtt_api) option" where
  "IOT_MQTT_Subscribe P handle topicFilter qos topic_handle_func ctx s =
     do { client \<leftarrow> client_of handle s;
          case client of
            None \<Rightarrow> Some (iotx_mqtt_offline_subscribe P topicFilter qos topic_handle_func ctx s)
          | Some c \<Rightarrow>
              if filter_missing topicFilter \<or> topic_handle_func = None then Some (NULL_VALUE_ERROR, s)
              else do { (rc, c) \<leftarrow> wrapper_mqtt_subscribe P topicFilter (checked_qos qos) topic_handle_func ctx c;
                        Some (rc, s\<lparr>g_mqtt_client := Some c\<rparr>) } }"

definition SUBSCRIBE_SYNC_TIMEOUT_MAX :: int where "SUBSCRIBE_SYNC_TIMEOUT_MAX = 10000"

definition IOT_MQTT_Subscribe_Sync ::
    "platform \<Rightarrow> bool \<Rightarrow> bytes option \<Rightarrow> u32 \<Rightarrow> nat option \<Rightarrow> nat \<Rightarrow> int \<Rightarrow> mqtt_api \<Rightarrow> (int \<times> mqtt_api) option" where
  "IOT_MQTT_Subscribe_Sync P handle topicFilter qos topic_handle_func ctx timeout_ms s =
     do { client \<leftarrow> client_of handle s;
          case client of
            None \<Rightarrow> Some (iotx_mqtt_offline_subscribe P topicFilter qos topic_handle_func ctx s)
          | Some c \<Rightarrow>
              let timeout_ms = (if timeout_ms > SUBSCRIBE_SYNC_TIMEOUT_MAX then SUBSCRIBE_SYNC_TIMEOUT_MAX else timeout_ms) in
              if filter_missing topicFilter \<or> topic_handle_func = None then Some (NULL_VALUE_ERROR, s)
              else do { (rc, c) \<leftarrow> wrapper_mqtt_subscribe_sync P topicFilter (checked_qos qos) topic_handle_func ctx
                                    timeout_ms c;
                        Some (rc, s\<lparr>g_mqtt_client := Some c\<rparr>) } }"

definition IOT_MQTT_Unsubscribe :: "platform \<Rightarrow> bool \<Rightarrow> bytes option \<Rightarrow> mqtt_api \<Rightarrow> (int \<times> mqtt_api) option" where
  "IOT_MQTT_Unsubscribe P handle topicFilter s =
     do { client \<leftarrow> client_of handle s;
          case client of
            None \<Rightarrow> Some (NULL_VALUE_ERROR, s)
          | Some c \<Rightarrow>
              if filter_missing topicFilter then Some (NULL_VALUE_ERROR, s)
              else do { (rc, c) \<leftarrow> wrapper_mqtt_unsubscribe P topicFilter c; Some (rc, s\<lparr>g_mqtt_client := Some c\<rparr>) } }"

text \<open>Here the result has the caller's message, which gets its packet identifier.\<close>

definition IOT_MQTT_Publish ::
    "platform \<Rightarrow> bool \<Rightarrow> bytes option \<Rightarrow> iotx_mqtt_topic_info_t option \<Rightarrow> mqtt_api
      \<Rightarrow> (int \<times> iotx_mqtt_topic_info_t option \<times> mqtt_api) option" where
  "IOT_MQTT_Publish P handle topic_name topic_msg s =
     do { client \<leftarrow> client_of handle s;
          case client of
            None \<Rightarrow> Some (NULL_VALUE_ERROR, topic_msg, s)
          | Some c \<Rightarrow>
              if filter_missing topic_name then Some (NULL_VALUE_ERROR, topic_msg, s)
              else do { (rc, topic_msg, c) \<leftarrow> wrapper_mqtt_publish P topic_name topic_msg c;
                        Some (rc, topic_msg, s\<lparr>g_mqtt_client := Some c\<rparr>) } }"

definition IOT_MQTT_Publish_Simple ::
    "platform \<Rightarrow> bool \<Rightarrow> bytes option \<Rightarrow> int \<Rightarrow> bytes option \<Rightarrow> int \<Rightarrow> mqtt_api \<Rightarrow> (int \<times> mqtt_api) option" where
  "IOT_MQTT_Publish_Simple P handle topic_name qos data len s =
     do { client \<leftarrow> client_of handle s;
          case client of
            None \<Rightarrow> Some (NULL_VALUE_ERROR, s)
          | Some c \<Rightarrow> do { (rc, c) \<leftarrow> publish_simple P topic_name qos data len c; Some (rc, s\<lparr>g_mqtt_client := Some c\<rparr>) } }"

definition IOT_MQTT_Nwk_Event_Handler :: int where
  "IOT_MQTT_Nwk_Event_Handler = -1"

end
