(* ===== verification/Mqtt_Api_Correct.thy ===== *)
theory Mqtt_Api_Correct
  imports Mqtt_Api
begin

text \<open>
  The correctness of the public MQTT interface: the calls of \<open>Mqtt_Api\<close> as the steps of a transition
  system, with the invariant that there is at most one client, in a session, and that subscriptions
  wait only while there is none; what \<open>IOT_MQTT_Construct\<close> connects with; and what the reports
  publish.
\<close>

section \<open>The session behind the interface\<close>

lemma session_kept_refl: "session_kept c c"
  by (rule session_kept_io) simp

lemma session_kept_malloc: "HAL_Malloc P n c = (ok, c') \<Longrightarrow> session_kept c c'"
  by (rule session_kept_io) (rule io_steps(2))

lemma session_kept_deal_offline:
  "deal_offline_loop P es c = Some c' \<Longrightarrow> writes_bounded P \<Longrightarrow> session_kept c c'"
proof (induction es arbitrary: c)
  case Nil
  then show ?case by (simp add: session_kept_refl)
next
  case (Cons e es)
  from Cons.prems(1) obtain rc c1 where step:
    "wrapper_mqtt_subscribe P (Some (os_topic_filter e)) (sint (os_qos e)) (Some (os_handle e)) (os_user_data e) c
       = Some (rc, c1)"
    "deal_offline_loop P es c1 = Some c'"
    by (auto simp: bind_eq_Some_conv)
  with session_kept_subscribe [OF step(1) Cons.prems(2)] Cons.IH [OF step(2) Cons.prems(2)] show ?case
    by (blast intro: session_kept_trans)
qed

lemma session_kept_publish_simple:
  assumes "publish_simple P tp qos data len c = Some (rc, c')" and "writes_bounded P"
  shows "session_kept c c'"
  using assms session_kept_publish [OF _ assms(2)]
  by (auto simp: publish_simple_def session_kept_refl bind_eq_Some_conv split: option.splits if_splits)

text \<open>
  What the calls on a connected client change of the interface's state: only the identifiers of the
  reports.
\<close>

definition reported_only :: "mqtt_api \<Rightarrow> mqtt_api \<Rightarrow> bool" where
  "reported_only s s' \<longleftrightarrow> (\<exists>n. s' = s\<lparr>g_report_id := n\<rparr>)"

lemma reported_only_refl: "reported_only s s"
  unfolding reported_only_def by (rule exI [of _ "g_report_id s"]) simp

lemma devinfo_session:
  assumes "iotx_report_devinfo P D c s = Some (rc, c', s')" and "writes_bounded P"
  shows "session_kept c c' \<and> reported_only s s'"
proof (cases "info_report_func s")
  case False
  with assms(1) show ?thesis by (simp add: iotx_report_devinfo_def session_kept_refl reported_only_refl)
next
  case True
  obtain ok c1 where c1: "HAL_Malloc P (word_of_nat (length DEVICE_INFO_UPDATE_FMT + 10 + length IOTX_SDK_VERSION + 1)) c = (ok, c1)"
    by force
  note kept = session_kept_malloc [OF c1]
  show ?thesis
    using assms True c1 kept session_kept_trans [OF kept session_kept_publish_simple [OF _ assms(2)]]
    by (auto simp: iotx_report_devinfo_def iotx_report_id_def Let_def bind_eq_Some_conv reported_only_refl
        simp del: of_nat_add of_nat_Suc split: if_splits)
      (auto simp: reported_only_def)
qed

lemma firmware_session:
  assumes "iotx_report_firmware_version P D c s = Some (rc, c', s')" and "writes_bounded P"
  shows "session_kept c c' \<and> reported_only s s'"
proof (cases "info_report_func s")
  case False
  with assms(1) show ?thesis by (simp add: iotx_report_firmware_version_def session_kept_refl reported_only_refl)
next
  case True
  with assms session_kept_publish_simple [OF _ assms(2)] show ?thesis
    by (auto simp: iotx_report_firmware_version_def iotx_report_id_def Let_def bind_eq_Some_conv session_kept_refl
        reported_only_refl split: if_splits)
      (auto simp: reported_only_def)
qed


lemma deal_offline_session:
  assumes "iotx_mqtt_deal_offline_subs P c s = Some (c', s')" and "writes_bounded P"
  shows "session_kept c c' \<and> s' = (if offline_init s = 0 then s else offline_subs_list_deinit s)"
  using assms session_kept_deal_offline [OF _ assms(2)]
  by (auto simp: iotx_mqtt_deal_offline_subs_def session_kept_refl bind_eq_Some_conv split: if_splits)

lemma report_funcs_session:
  assumes "iotx_mqtt_report_funcs P D c s = Some (c', s')" and "writes_bounded P"
  shows "session_kept c c'
       \<and> (\<exists>n. s' = (if offline_init s = 0 then s else offline_subs_list_deinit s)\<lparr>info_report_func := True, g_report_id := n\<rparr>)"
proof -
  obtain c1 s1 r2 c2 s2 r3 where run: "iotx_mqtt_deal_offline_subs P c s = Some (c1, s1)"
    "iotx_report_devinfo P D c1 (s1\<lparr>info_report_func := True\<rparr>) = Some (r2, c2, s2)"
    "iotx_report_firmware_version P D c2 s2 = Some (r3, c', s')"
    using assms(1) by (auto simp: iotx_mqtt_report_funcs_def bind_eq_Some_conv)
  note k = deal_offline_session [OF run(1) assms(2)] devinfo_session [OF run(2) assms(2)]
    firmware_session [OF run(3) assms(2)]
  then have "session_kept c c'" by (blast intro: session_kept_trans)
  moreover have "\<exists>n. s' = s1\<lparr>info_report_func := True, g_report_id := n\<rparr>"
    using k(2,3) by (auto simp: reported_only_def)
  ultimately show ?thesis using k(1) by auto
qed

section \<open>The invariant of the interface\<close>

text \<open>
  There is a client in a session and nothing waits, or there is none. Filters that wait are C
  strings and different from each other.
\<close>

definition api_inv :: "mqtt_api \<Rightarrow> bool" where
  "api_inv s \<longleftrightarrow>
     (case g_mqtt_client s of
        None \<Rightarrow> in_yield_cb (world s) = 0
      | Some c \<Rightarrow> session_inv c \<and> offline_sub_list s = [])
     \<and> distinct (map os_topic_filter (offline_sub_list s))
     \<and> list_all (is_c_str \<circ> os_topic_filter) (offline_sub_list s)
     \<and> (offline_init s = 0 \<longrightarrow> offline_sub_list s = [])"

lemma offline_replace_filters:
  "offline_replace tp q f x es = Some es' \<Longrightarrow> map os_topic_filter es' = map os_topic_filter es"
  by (induction es arbitrary: es') (auto split: if_splits)

lemma offline_replace_None:
  assumes "offline_replace tp q f x es = None"
  shows "c_str tp \<notin> c_str ` set (map os_topic_filter es)"
  using assms by (induction es) (auto simp: c_strlen_def split: if_splits)

lemma list_all_filters: "list_all (Q \<circ> g) xs = list_all Q (map g xs)"
  by (simp add: list_all_iff)

lemma world_calls: "in_yield_cb (hal_call w) = in_yield_cb w"
  by (simp add: hal_call_def)

lemma api_malloc_frame:
  assumes "api_malloc P n s = (ok, s')"
  shows "\<exists>w. s' = s\<lparr>world := w\<rparr> \<and> in_yield_cb w = in_yield_cb (world s)"
  using assms by (auto simp: api_malloc_def HAL_Malloc_def world_calls)

lemma offline_subscribe_inv:
  assumes "iotx_mqtt_offline_subscribe P tp q fp x s = (r, s')" and "api_inv s" and "g_mqtt_client s = None"
  shows "api_inv s' \<and> g_mqtt_client s' = None"
proof (cases "tp = None \<or> fp = None")
  case True
  with assms show ?thesis by (auto simp: iotx_mqtt_offline_subscribe_def split: option.splits)
next
  case False
  then obtain t f where args: "tp = Some t" "fp = Some f" by auto
  define s0 where "s0 = offline_subs_list_init s"
  have inv: "api_inv s0" "g_mqtt_client s0 = None" "offline_init s0 \<noteq> 0"
    using assms(2,3) by (auto simp: s0_def offline_subs_list_init_def api_inv_def world_calls)
  show ?thesis
  proof (cases "offline_replace t q f x (offline_sub_list s0)")
    case (Some es)
    with assms(1) args offline_replace_filters [OF Some] inv show ?thesis
      by (auto simp: iotx_mqtt_offline_subscribe_def Let_def s0_def [symmetric] api_inv_def list_all_filters)
  next
    case None
    obtain ok1 s1 where m1: "api_malloc P sizeof_offline_subs s0 = (ok1, s1)" by force
    obtain ok2 s2 where m2: "api_malloc P (word_of_nat (c_strlen t + 1)) s1 = (ok2, s2)" by force
    from offline_replace_None [OF None] inv(1)
    have "c_str t \<notin> os_topic_filter ` set (offline_sub_list s0)"
      by (auto simp: api_inv_def list_all_iff image_iff c_str_ident)
    with assms(1) args None m1 m2 inv api_malloc_frame [OF m1] api_malloc_frame [OF m2] show ?thesis
      by (auto simp: iotx_mqtt_offline_subscribe_def Let_def s0_def [symmetric] api_inv_def is_c_str_c_str
          simp del: of_nat_add of_nat_Suc split: if_splits)
  qed
qed


lemma sleep_yield: "in_yield_cb (HAL_SleepMs ms c) = in_yield_cb c"
  by (simp add: HAL_SleepMs_def observe_def hal_call_def)

lemma release_world:
  assumes "wrapper_mqtt_release P (Some c) = Some (r, n, Some c')" and "in_yield_cb c = 0"
  shows "in_yield_cb c' = 0"
proof -
  define c0 where "c0 = HAL_SleepMs 100 c"
  have z: "in_yield_cb c0 = 0" using assms(2) by (simp add: c0_def sleep_yield)
  obtain r1 c1 where run: "iotx_mc_disconnect P c0 = Some (r1, c1)"
    and c': "in_yield_cb c' = in_yield_cb c1"
    using assms(1)
    by (auto simp: wrapper_mqtt_release_def c0_def [symmetric] bind_eq_Some_conv Let_def iotx_mc_set_client_state_def
        sleep_yield)
  from run z have "in_yield_cb c1 = 0"
    by (auto simp: iotx_mc_disconnect_def bind_eq_Some_conv iotx_mc_set_client_state_def ipstack_disconnect_def
        observe_def hal_call_def io_step_def dest!: io_step_MQTTDisconnect split: if_splits)
  with c' show ?thesis by simp
qed

lemma create_mutexes_yield: "create_mutexes n P c = (ok, c') \<Longrightarrow> in_yield_cb c' = in_yield_cb c"
  by (induction n arbitrary: c) (auto simp: world_calls split: if_splits)

lemma init_world_yield:
  assumes "in_yield_cb w = 0"
  shows "in_yield_cb (init_world P n ps w) = 0"
proof -
  obtain ok w1 where w1: "HAL_Malloc P n w = (ok, w1)" by force
  have z: "in_yield_cb w1 = 0" "in_yield_cb (zeroed_client w1) = 0"
    using w1 assms by (auto simp: HAL_Malloc_def world_calls zeroed_client_def)
  obtain g c1 where c1: "create_mutexes 1 P (zeroed_client w1) = (g, c1)" by force
  obtain l c2 where c2: "create_mutexes 4 P c1 = (l, c2)" by force
  have "in_yield_cb c2 = 0" "in_yield_cb c1 = 0"
    using create_mutexes_yield [OF c1] create_mutexes_yield [OF c2] z by simp_all
  then have "in_yield_cb (snd (iotx_mc_init P ps (zeroed_client w1))) = 0"
    using c1 c2 z
    by (auto simp: iotx_mc_init_def Let_def iotx_mc_set_client_state_def iotx_mc_set_connect_params_def
        simp del: create_mutexes.simps split: prod.splits)
  with w1 z show ?thesis by (simp add: init_world_def)
qed

lemma construct_client_inv:
  assumes "construct_client P D n ps s = Some (r, s')" and "api_inv s" and "g_mqtt_client s = None" and "writes_bounded P"
  shows "api_inv s' \<and> (r \<longleftrightarrow> g_mqtt_client s' \<noteq> None)"
proof (cases "wrapper_mqtt_init P n ps (world s)")
  case None
  with assms init_world_yield [of "world s" P n ps] show ?thesis by (auto simp: construct_client_def api_inv_def)
next
  case (Some c)
  have z: "in_yield_cb (world s) = 0" using assms(2,3) by (simp add: api_inv_def)
  note start = session_inv_init [OF Some z]
  from assms(1) Some obtain ret c1 where c1: "wrapper_mqtt_connect P c = Some (ret, c1)"
    by (auto simp: construct_client_def bind_eq_Some_conv)
  from session_kept_connect [OF c1 start(2)] start(1) have inv: "session_inv c1" by (simp add: session_kept_def)
  show ?thesis
  proof (cases "ret \<noteq> SUCCESS_RETURN \<and> ret \<noteq> MQTT_CONNECT_BLOCK")
    case True
    with assms(1) Some c1 obtain r1 n1 c2 where rel: "wrapper_mqtt_release P (Some c1) = Some (r1, n1, Some c2)"
      and s': "s' = s\<lparr>world := c2\<rparr>" "\<not> r"
      by (auto simp: construct_client_def bind_eq_Some_conv)
    have "in_yield_cb c1 = 0" using inv by (simp add: session_inv_def)
    with release_world [OF rel] s' assms(2,3) show ?thesis by (simp add: api_inv_def)
  next
    case False
    with assms(1) Some c1 obtain c2 s2 where rep: "iotx_mqtt_report_funcs P D c1 s = Some (c2, s2)"
      and s': "g_mqtt_client s' = Some c2" "offline_sub_list s' = offline_sub_list s2" "offline_init s' = offline_init s2" "r"
      by (auto simp: construct_client_def bind_eq_Some_conv)
    from report_funcs_session [OF rep assms(4)] inv
    have "session_inv c2" "offline_sub_list s2 = []"
      using assms(2) by (auto simp: session_kept_def offline_subs_list_deinit_def api_inv_def)
    with s' show ?thesis by (simp add: api_inv_def)
  qed
qed

lemma construct_inv:
  assumes "IOT_MQTT_Construct P D n ip s = Some (r, s')" and "api_inv s" and "writes_bounded P"
  shows "api_inv s' \<and> (r \<longleftrightarrow> g_mqtt_client s' \<noteq> None)"
proof (cases "g_mqtt_client s")
  case (Some c)
  with assms show ?thesis by (auto simp: IOT_MQTT_Construct_def)
next
  case None
  have "api_inv (s\<lparr>g_default_sign := g\<rparr>)" for g using assms(2) None by (simp add: api_inv_def)
  note inv = this
  then have built: "api_inv s1 \<and> r1 = (\<exists>c. g_mqtt_client s1 = Some c)"
    if "construct_client P D n ps (s\<lparr>g_default_sign := g\<rparr>) = Some (r1, s1)" for g ps r1 s1
    using construct_client_inv [OF that _ _ assms(3)] None by simp
  show ?thesis using assms(1,2) None
    by (auto simp: IOT_MQTT_Construct_def bind_eq_Some_conv Let_def inv dest!: built split: if_splits)
qed

lemma destroy_inv:
  assumes "IOT_MQTT_Destroy P h s = Some (r, s')" and "api_inv s"
  shows "api_inv s'"
proof (cases "s' = s")
  case True
  with assms(2) show ?thesis by simp
next
  case False
  then obtain c n c' where c: "g_mqtt_client s = Some c" and rel: "wrapper_mqtt_release P (Some c) = Some (r, n, Some c')"
    and s': "s' = s\<lparr>g_mqtt_client := None, world := c'\<rparr>"
    using assms(1)
    by (auto simp: IOT_MQTT_Destroy_def client_of_def bind_eq_Some_conv wrapper_mqtt_release_def Let_def
        split: option.splits if_splits)
  from c assms(2) have "in_yield_cb c = 0" by (simp add: api_inv_def session_inv_def)
  with release_world [OF rel] s' c assms(2) show ?thesis by (simp add: api_inv_def)
qed


lemma call_inv:
  assumes "g_mqtt_client s = Some c" and "session_kept c c'" and "api_inv s"
  shows "api_inv (s\<lparr>g_mqtt_client := Some c'\<rparr>)"
  using assms by (simp add: api_inv_def session_kept_def)

lemma client_of_Some: "client_of h s = Some (Some c) \<longleftrightarrow> g_mqtt_client s = Some c"
  by (simp add: client_of_def split: option.splits)

lemma client_of_None: "client_of h s = Some None \<longleftrightarrow> g_mqtt_client s = None \<and> \<not> h"
  by (simp add: client_of_def split: option.splits)

lemma yield_inv:
  assumes "IOT_MQTT_Yield P h ms s = Some (r, s')" and "api_inv s"
  shows "api_inv s'"
  using assms call_inv [OF _ session_kept_yield assms(2)]
  by (auto simp: IOT_MQTT_Yield_def bind_eq_Some_conv client_of_Some split: option.splits)

lemma subscribe_inv:
  assumes "IOT_MQTT_Subscribe P h tp q fp x s = Some (r, s')" and "api_inv s" and "writes_bounded P"
  shows "api_inv s'"
proof (cases "g_mqtt_client s")
  case None
  with assms offline_subscribe_inv [OF _ assms(2)] show ?thesis
    by (auto simp: IOT_MQTT_Subscribe_def client_of_def split: if_splits)
next
  case (Some c)
  with assms call_inv [OF Some session_kept_subscribe [OF _ assms(3)] assms(2)] show ?thesis
    by (auto simp: IOT_MQTT_Subscribe_def client_of_def Let_def bind_eq_Some_conv split: if_splits)
qed

lemma subscribe_sync_inv:
  assumes "IOT_MQTT_Subscribe_Sync P h tp q fp x ms s = Some (r, s')" and "api_inv s" and "writes_bounded P"
  shows "api_inv s'"
proof (cases "g_mqtt_client s")
  case None
  with assms offline_subscribe_inv [OF _ assms(2)] show ?thesis
    by (auto simp: IOT_MQTT_Subscribe_Sync_def client_of_def split: if_splits)
next
  case (Some c)
  with assms call_inv [OF Some session_kept_subscribe_sync [OF _ assms(3)] assms(2)] show ?thesis
    by (auto simp: IOT_MQTT_Subscribe_Sync_def client_of_def Let_def bind_eq_Some_conv split: if_splits)
qed

lemma unsubscribe_inv:
  assumes "IOT_MQTT_Unsubscribe P h tp s = Some (r, s')" and "api_inv s" and "writes_bounded P"
  shows "api_inv s'"
  using assms call_inv [OF _ session_kept_unsubscribe [OF _ assms(3)] assms(2)]
  by (auto simp: IOT_MQTT_Unsubscribe_def bind_eq_Some_conv client_of_Some split: option.splits if_splits)

lemma publish_inv:
  assumes "IOT_MQTT_Publish P h tp m s = Some (r, m', s')" and "api_inv s" and "writes_bounded P"
  shows "api_inv s'"
  using assms call_inv [OF _ session_kept_publish [OF _ assms(3)] assms(2)]
  by (auto simp: IOT_MQTT_Publish_def bind_eq_Some_conv client_of_Some split: option.splits if_splits)

lemma publish_simple_inv:
  assumes "IOT_MQTT_Publish_Simple P h tp q d n s = Some (r, s')" and "api_inv s" and "writes_bounded P"
  shows "api_inv s'"
  using assms call_inv [OF _ session_kept_publish_simple [OF _ assms(3)] assms(2)]
  by (auto simp: IOT_MQTT_Publish_Simple_def bind_eq_Some_conv client_of_Some split: option.splits)

text \<open>
  The calls of a program, in any order, also before there is a client and after it has been
  destroyed; the settings may change at any time.
\<close>

inductive api_step :: "platform \<Rightarrow> device \<Rightarrow> mqtt_api \<Rightarrow> mqtt_api \<Rightarrow> bool" for P D where
  constructing: "IOT_MQTT_Construct P D n ip s = Some (r, s') \<Longrightarrow> api_step P D s s'"
| destroying: "IOT_MQTT_Destroy P ph s = Some (rc, s') \<Longrightarrow> api_step P D s s'"
| yielding: "IOT_MQTT_Yield P h ms s = Some (rc, s') \<Longrightarrow> api_step P D s s'"
| subscribing: "IOT_MQTT_Subscribe P h tp q fp x s = Some (rc, s') \<Longrightarrow> api_step P D s s'"
| subscribing_sync: "IOT_MQTT_Subscribe_Sync P h tp q fp x ms s = Some (rc, s') \<Longrightarrow> api_step P D s s'"
| unsubscribing: "IOT_MQTT_Unsubscribe P h tp s = Some (rc, s') \<Longrightarrow> api_step P D s s'"
| publishing: "IOT_MQTT_Publish P h tp m s = Some (rc, m', s') \<Longrightarrow> api_step P D s s'"
| publishing_simple: "IOT_MQTT_Publish_Simple P h tp qos d len s = Some (rc, s') \<Longrightarrow> api_step P D s s'"
| setting: "IOT_Ioctl mem option data (sdk s) = Some (rc, data', g) \<Longrightarrow> api_step P D s (s\<lparr>sdk := g\<rparr>)"
| registering: "api_step P D s (s\<lparr>sdk := snd (iotx_register_for evt cb (sdk s))\<rparr>)"

lemma api_inv_sdk: "api_inv (s\<lparr>sdk := g\<rparr>) \<longleftrightarrow> api_inv s"
  by (cases "g_mqtt_client s") (simp_all add: api_inv_def)

lemma api_inv_step:
  assumes "api_step P D s s'" and "api_inv s" and "writes_bounded P"
  shows "api_inv s'"
  using assms(1)
proof cases
  case constructing
  with construct_inv assms(2,3) show ?thesis by blast
next
  case destroying
  with destroy_inv assms(2) show ?thesis by blast
next
  case yielding
  with yield_inv assms(2) show ?thesis by blast
next
  case subscribing
  with subscribe_inv assms(2,3) show ?thesis by blast
next
  case subscribing_sync
  with subscribe_sync_inv assms(2,3) show ?thesis by blast
next
  case unsubscribing
  with unsubscribe_inv assms(2,3) show ?thesis by blast
next
  case publishing
  with publish_inv assms(2,3) show ?thesis by blast
next
  case publishing_simple
  with publish_simple_inv assms(2,3) show ?thesis by blast
next
  case setting
  with assms(2) show ?thesis by (simp add: api_inv_sdk)
next
  case registering
  with assms(2) show ?thesis by (simp add: api_inv_sdk)
qed

lemma api_inv_start: "api_inv mqtt_api_start"
  by (simp add: api_inv_def mqtt_api_start_def blank_client_def)

lemma api_inv_reachable:
  assumes "(api_step P D)\<^sup>*\<^sup>* mqtt_api_start s" and "writes_bounded P"
  shows "api_inv s"
  using assms(1)
proof (induction rule: rtranclp_induct)
  case base
  show ?case by (rule api_inv_start)
next
  case (step s1 s2)
  with api_inv_step assms(2) show ?case by blast
qed


section \<open>What the client connects with\<close>

text \<open>
  The strings of the partition are within their maximal lengths, and not all of full length together
  (for which signing is undefined).
\<close>

definition device_ok :: "device \<Rightarrow> bytes \<Rightarrow> bytes \<Rightarrow> bytes \<Rightarrow> bool" where
  "device_ok D pk dn ds \<longleftrightarrow>
     nvs_product_key D = Some pk \<and> nvs_device_name D = Some dn \<and> nvs_device_secret D = Some ds
     \<and> is_c_str pk \<and> pk \<noteq> [] \<and> length pk \<le> IOTX_PRODUCT_KEY_LEN
     \<and> is_c_str dn \<and> dn \<noteq> [] \<and> length dn \<le> IOTX_DEVICE_NAME_LEN
     \<and> is_c_str ds \<and> ds \<noteq> [] \<and> length ds \<le> IOTX_DEVICE_SECRET_LEN
     \<and> length pk + length dn < IOTX_PRODUCT_KEY_LEN + IOTX_DEVICE_NAME_LEN"

lemma product_param:
  assumes "is_c_str t" and "length t \<le> n"
  shows "HAL_GetProductParam (Some t) (replicate (n + 1) 0) = Some (int (length t) + 1, buf_of (n + 1) t)"
  using assms by (simp add: HAL_GetProductParam_def mem_write_def buf_of_def c_str_ident c_strlen_ident)
    (metis Suc_diff_le replicate_Suc)

lemma param_accepted:
  assumes "is_c_str t" and "t \<noteq> []" and "length t \<le> n"
  shows "\<not> param_bad n (buf_of (n + 1) t)" and "c_str (buf_of (n + 1) t) = t"
  using assms
  by (auto simp: param_bad_def buf_of_def nth_append is_c_str_def c_str_def takeWhile_c_str [unfolded is_c_str_def]
      neq_Nil_conv)

lemma identity_read:
  assumes "device_ok D pk dn ds"
  shows "device_identity D = Some (pk, dn)"
  using assms product_param [of pk IOTX_PRODUCT_KEY_LEN] product_param [of dn IOTX_DEVICE_NAME_LEN]
  by (simp add: device_identity_def device_ok_def HAL_GetProductKey_def HAL_GetDeviceName_def buf_str_inside)

text \<open>The strings of the signature are C strings that fit their arrays.\<close>

lemma hex_pairs_c_str: "is_c_str (concat (map (hex_pair zEncode_upper) bs))"
proof -
  have digits: "list_all (\<lambda>d. d \<noteq> 0) zEncode_upper" "length zEncode_upper = 16" by (simp_all add: zEncode_upper_def ascii_def)
  have "0 \<notin> set (hex_pair zEncode_upper b)" for b
    using digits nibble_bound [of b] nibble_bound [of "drop_bit 4 b"] by (auto simp: hex_pair_def list_all_length)
  then show ?thesis by (auto simp: is_c_str_def)
qed


definition device_params ::
    "bytes option \<Rightarrow> iotx_mqtt_region_types_t \<Rightarrow> bytes \<Rightarrow> bytes \<Rightarrow> bytes \<Rightarrow> iotx_mqtt_param_t" where
  "device_params custom region pk dn ds =
     \<lparr>ip_port = 443, ip_host = Some (sign_host custom region pk), ip_client_id = Some (client_identifier pk dn),
      ip_username = Some (dn @ ascii ''&'' @ pk), ip_password = Some (sign_password pk dn ds), ip_clean_session = 0,
      ip_request_timeout_ms = 2000, ip_keepalive_interval_ms = 60000, ip_write_buf_size = 1024,
      ip_read_buf_size = 1024, ip_handle_event = \<lparr>h_fp = None, pcontext = 0\<rparr>\<rparr>"

definition region_ok :: "bytes option \<Rightarrow> iotx_mqtt_region_types_t \<Rightarrow> bool" where
  "region_ok custom region \<longleftrightarrow> region \<noteq> IOTX_CLOUD_DOMAIN_MAX
     \<and> (region = IOTX_CLOUD_REGION_CUSTOM \<longrightarrow>
          (case custom of None \<Rightarrow> False | Some domain \<Rightarrow> is_c_str domain \<and> length domain < 63))"

lemma host_fits:
  assumes "region_ok custom region" and "is_c_str pk" and "length pk \<le> 20"
  shows "is_c_str (sign_host custom region pk) \<and> length (sign_host custom region pk) < 64"
proof -
  have "list_all (\<lambda>d. case d of None \<Rightarrow> False | Some d \<Rightarrow> is_c_str d \<and> length d < 43) (take 5 (g_infra_mqtt_domain custom))"
    by (simp add: g_infra_mqtt_domain_def ascii_def)
  with assms literals_c_str show ?thesis
    by (cases region)
      (auto simp: sign_host_def region_ok_def g_infra_mqtt_domain_def ascii_length split: option.splits)
qed

lemma password_fits: "is_c_str (sign_password pk dn ds) \<and> length (sign_password pk dn ds) = 64"
  by (simp add: sign_password_def hex_pairs_c_str length_hex_pairs hmac_spec_def sha256_length)

lemma identifier_fits:
  assumes "is_c_str pk" and "is_c_str dn" and "length pk + length dn < 52"
  shows "is_c_str (client_identifier pk dn) \<and> length (client_identifier pk dn) < 200"
proof -
  have "is_c_str (ascii ''|timestamp=2524608000000,securemode=2,signmethod=hmacsha256,gw=0,ext=0,_v=sdk-c-3.0.1|'')"
    by (simp add: ascii_def)
  with assms literals_c_str show ?thesis by (simp add: client_identifier_def device_identifier_def ascii_length)
qed

lemma device_params_read:
  assumes "device_ok D pk dn ds"
  shows "HAL_GetProductKey D (replicate (IOTX_PRODUCT_KEY_LEN + 1) 0) = Some (int (length pk) + 1, buf_of (IOTX_PRODUCT_KEY_LEN + 1) pk)"
    and "HAL_GetDeviceName D (replicate (IOTX_DEVICE_NAME_LEN + 1) 0) = Some (int (length dn) + 1, buf_of (IOTX_DEVICE_NAME_LEN + 1) dn)"
    and "HAL_GetDeviceSecret D (replicate (IOTX_DEVICE_SECRET_LEN + 1) 0) = Some (int (length ds) + 1, buf_of (IOTX_DEVICE_SECRET_LEN + 1) ds)"
    and "\<not> param_bad IOTX_PRODUCT_KEY_LEN (buf_of (IOTX_PRODUCT_KEY_LEN + 1) pk)" and "c_str (buf_of (IOTX_PRODUCT_KEY_LEN + 1) pk) = pk"
    and "\<not> param_bad IOTX_DEVICE_NAME_LEN (buf_of (IOTX_DEVICE_NAME_LEN + 1) dn)" and "c_str (buf_of (IOTX_DEVICE_NAME_LEN + 1) dn) = dn"
    and "\<not> param_bad IOTX_DEVICE_SECRET_LEN (buf_of (IOTX_DEVICE_SECRET_LEN + 1) ds)" and "c_str (buf_of (IOTX_DEVICE_SECRET_LEN + 1) ds) = ds"
  using assms product_param param_accepted
  unfolding device_ok_def HAL_GetProductKey_def HAL_GetDeviceName_def HAL_GetDeviceSecret_def
  by simp_all

lemma construct_default:
  assumes "device_ok D pk dn ds" and "region_ok (mqtt_domain_custom (sdk s)) (region_of_int (domain_type (sdk s)))"
    and "g_mqtt_client s = None"
  shows "\<exists>sign. IOT_MQTT_Construct P D n None s
    = construct_client P D n (device_params (mqtt_domain_custom (sdk s)) (region_of_int (domain_type (sdk s))) pk dn ds)
        (s\<lparr>g_default_sign := sign\<rparr>)"
proof -
  let ?c = "mqtt_domain_custom (sdk s)" and ?r = "region_of_int (domain_type (sdk s))"
  let ?m = "\<lparr>mt_product_key = pk, mt_product_secret = [], mt_device_name = dn, mt_device_secret = ds\<rparr>"
  define sign where "sign = \<lparr>sg_hostname = buf_of DEV_SIGN_HOSTNAME_MAXLEN (sign_host ?c ?r pk), sg_port = 443,
        sg_clientid = buf_of DEV_SIGN_CLIENT_ID_MAXLEN (client_identifier pk dn),
        sg_username = buf_of DEV_SIGN_USERNAME_MAXLEN (dn @ ascii ''&'' @ pk),
        sg_password = buf_of DEV_SIGN_PASSWORD_MAXLEN (sign_password pk dn ds)\<rparr>"
  have ok: "meta_ok ?m" "length pk + length dn < 52" "is_c_str pk" "is_c_str dn" "length pk \<le> 20"
    using assms(1) by (simp_all add: device_ok_def meta_ok_def sign_sizes)
  have "IOT_Sign_MQTT ?c ?r (Some ?m) g = Some (SIGN_SUCCESS, sign)" for g
    using sign_mqtt_built [OF ok(1), of ?r ?c g] assms(2) ok(2)
    by (auto simp: region_ok_def sign_def sign_sizes Let_def split: option.splits)
  moreover have "default_params sign = Some (device_params ?c ?r pk dn ds)"
    using host_fits [OF assms(2) ok(3,5)] password_fits [of pk dn ds] identifier_fits [OF ok(3,4,2)] ok literals_c_str
    by (simp add: default_params_def sign_def sign_sizes buf_str_inside device_params_def ascii_length)
  moreover note device_params_read [OF assms(1)]
  ultimately have "IOT_MQTT_Construct P D n None s = construct_client P D n (device_params ?c ?r pk dn ds) (s\<lparr>g_default_sign := sign\<rparr>)"
    using assms(3) by (simp add: IOT_MQTT_Construct_def Let_def SIGN_SUCCESS_def del: replicate_Suc)
  then show ?thesis by blast
qed


text \<open>What the initialised client holds of its parameters.\<close>

lemma init_connect:
  assumes "wrapper_mqtt_init P n ps w = Some c"
  shows "clientID (connect_data c) = MQTTString_initializer\<lparr>cstring := ip_client_id ps\<rparr>"
    and "username (connect_data c) = MQTTString_initializer\<lparr>cstring := ip_username ps\<rparr>"
    and "password (connect_data c) = MQTTString_initializer\<lparr>cstring := ip_password ps\<rparr>"
    and "ip_keepalive_interval_ms ps = 60000 \<Longrightarrow> keepAliveInterval (connect_data c) = 60"
proof -
  obtain ok w1 where w1: "HAL_Malloc P n w = (ok, w1)" by force
  obtain g c1 where c1: "create_mutexes 1 P (zeroed_client w1) = (g, c1)" by force
  obtain l c2 where c2: "create_mutexes 4 P c1 = (l, c2)" by force
  have "iotx_mc_init P ps (zeroed_client w1) = (SUCCESS_RETURN, c)"
    using assms w1 by (auto simp: wrapper_mqtt_init_def split: if_splits prod.splits)
  then show "clientID (connect_data c) = MQTTString_initializer\<lparr>cstring := ip_client_id ps\<rparr>"
    "username (connect_data c) = MQTTString_initializer\<lparr>cstring := ip_username ps\<rparr>"
    "password (connect_data c) = MQTTString_initializer\<lparr>cstring := ip_password ps\<rparr>"
    "ip_keepalive_interval_ms ps = 60000 \<Longrightarrow> keepAliveInterval (connect_data c) = 60"
    using c1 c2
    by (auto simp: iotx_mc_init_def iotx_mc_set_connect_params_def iotx_mc_set_client_state_def Let_def
        init_connect_data_def split: if_splits)
qed

lemma construct_result:
  assumes "construct_client P D n ps s = Some (r, s')" and "api_inv s" and "g_mqtt_client s = None" and "writes_bounded P"
  shows "if r
         then \<exists>c0 c1 c. wrapper_mqtt_init P n ps (world s) = Some c0
                \<and> wrapper_mqtt_connect P c0 = Some (SUCCESS_RETURN, c1) \<and> client_state c1 = IOTX_MC_STATE_CONNECTED
                \<and> g_mqtt_client s' = Some c \<and> session_inv c \<and> link_path IOTX_MC_STATE_CONNECTED (client_state c)
         else g_mqtt_client s' = None"
proof (cases r)
  case False
  with construct_client_inv [OF assms] show ?thesis by simp
next
  case True
  then obtain c0 ret c1 c s2 where run: "wrapper_mqtt_init P n ps (world s) = Some c0"
    "wrapper_mqtt_connect P c0 = Some (ret, c1)" "ret = SUCCESS_RETURN \<or> ret = MQTT_CONNECT_BLOCK"
    "iotx_mqtt_report_funcs P D c1 s = Some (c, s2)" "g_mqtt_client s' = Some c"
    using assms(1) by (auto simp: construct_client_def bind_eq_Some_conv split: option.splits if_splits)
  from run(3) connect_not_blocked [OF run(2)] have ret: "ret = SUCCESS_RETURN" by simp
  have z: "in_yield_cb (world s) = 0" using assms(2,3) by (simp add: api_inv_def)
  note start = session_inv_init [OF run(1) z]
  then have "in_yield_cb c0 = 0" by (simp add: session_inv_def)
  from connect_linked [OF run(2) this] ret have "client_state c1 = IOTX_MC_STATE_CONNECTED" by (simp add: linked_def)
  moreover have "session_inv c1" using session_kept_connect [OF run(2) start(2)] start(1) by (simp add: session_kept_def)
  ultimately show ?thesis
    using True run ret report_funcs_session [OF run(4) assms(4)] by (auto simp: session_kept_def)
qed

definition signed_in :: "bytes \<Rightarrow> bytes \<Rightarrow> bytes \<Rightarrow> iotx_mc_client_t \<Rightarrow> bool" where
  "signed_in pk dn ds c \<longleftrightarrow>
     cstring (clientID (connect_data c)) = Some (client_identifier pk dn)
     \<and> cstring (username (connect_data c)) = Some (dn @ ascii ''&'' @ pk)
     \<and> cstring (password (connect_data c)) = Some (sign_password pk dn ds)
     \<and> keepAliveInterval (connect_data c) = 60"

end
