(* ===== verification/Mqtt_Online.thy ===== *)
theory Mqtt_Online
  imports Mqtt_Api_Correct
begin

text \<open>
  \<open>IOT_MQTT_Construct\<close> over a working network: what goes over the wire until the call returns. The
  lemmas are about one publish, whose steps all fit into the time the request has.
\<close>

section \<open>A publish over a working network\<close>













section \<open>The topics and texts of the reports\<close>








section \<open>The reports\<close>











section \<open>From the parameters to the connected client\<close>






section \<open>The properties of the interface\<close>



text \<open>
  The client that \<open>IOT_MQTT_Construct\<close> gives. On a device whose product key, name
  and secret keep to their lengths, in a region with a domain and without parameters, it either
  returns NULL and there is no client, or it returns a client that was initialised with the device's
  signature: its CONNECT has the client identifier, the user name \<open>name&key\<close> and as password the
  HMAC under the device secret, with a keep-alive of 60 seconds; the broker accepted it; and after the
  waiting subscriptions and the reports the client is still in a session, reached from the state
  CONNECTED.
\<close>

lemma construct_signs_in:
  assumes "IOT_MQTT_Construct P D n None s = Some (r, s')" and "api_inv s" and "g_mqtt_client s = None"
    and "device_ok D pk dn ds" and "region_ok (mqtt_domain_custom (sdk s)) (region_of_int (domain_type (sdk s)))"
    and "writes_bounded P"
  shows "if r
         then \<exists>ps c0 c1 c. wrapper_mqtt_init P n ps (world s) = Some c0 \<and> signed_in pk dn ds c0
                \<and> wrapper_mqtt_connect P c0 = Some (SUCCESS_RETURN, c1) \<and> client_state c1 = IOTX_MC_STATE_CONNECTED
                \<and> g_mqtt_client s' = Some c \<and> session_inv c \<and> link_path IOTX_MC_STATE_CONNECTED (client_state c)
         else g_mqtt_client s' = None"
proof -
  let ?ps = "device_params (mqtt_domain_custom (sdk s)) (region_of_int (domain_type (sdk s))) pk dn ds"
  from construct_default [OF assms(4,5,3), of P n] assms(1) obtain sign
    where run: "construct_client P D n ?ps (s\<lparr>g_default_sign := sign\<rparr>) = Some (r, s')" by auto
  have "api_inv (s\<lparr>g_default_sign := sign\<rparr>)" using assms(2,3) by (simp add: api_inv_def)
  note res = construct_result [OF run this _ assms(6)]
  have "signed_in pk dn ds c0" if "wrapper_mqtt_init P n ?ps (world s) = Some c0" for c0
    using init_connect [OF that] by (simp add: signed_in_def device_params_def)
  with res assms(3) show ?thesis by (cases r) (simp, blast, simp)
qed

text \<open>
  The region is lost. Setting the domain of HTTP sets the one region that MQTT has too
  to the custom one; if no domain was set for MQTT, \<open>IOT_MQTT_Construct\<close> then returns NULL on
  every device, whatever region was chosen before and whatever parameters are given.
\<close>

lemma http_domain_takes_region:
  assumes "IOT_Ioctl mem IOTX_IOCTL_SET_HTTP_DOMAIN (Some (StringAt d)) (sdk s) = Some (rc, data, g)"
    and "mqtt_domain_custom (sdk s) = None" and "g_mqtt_client s = None" and "device_ok D pk dn ds"
  shows "region_of_int (domain_type g) = IOTX_CLOUD_REGION_CUSTOM
       \<and> (\<exists>sign. IOT_MQTT_Construct P D n ip (s\<lparr>sdk := g\<rparr>) = Some (False, s\<lparr>sdk := g, g_default_sign := sign\<rparr>))"
proof -
  let ?m = "\<lparr>mt_product_key = pk, mt_product_secret = [], mt_device_name = dn, mt_device_secret = ds\<rparr>"
  have g: "domain_type g = 5" "mqtt_domain_custom g = None"
    using assms(1,2) by (auto simp: IOT_Ioctl_def Let_def split: if_splits)
  then have r: "region_of_int (domain_type g) = IOTX_CLOUD_REGION_CUSTOM" by (simp add: region_of_int_def)
  have "meta_ok ?m" using assms(4) by (simp add: device_ok_def meta_ok_def)
  then obtain sign where "IOT_Sign_MQTT None IOTX_CLOUD_REGION_CUSTOM (Some ?m) (g_default_sign s)
      = Some (ERROR_DEV_SIGN_CUSTOM_DOMAIN_IS_NULL, sign)"
    using sign_no_domain assms(4) by (metis device_ok_def iotx_dev_meta_info_t.select_convs(1,3))
  then show ?thesis
    using g r assms(3) device_params_read [OF assms(4)]
    by (auto simp: IOT_MQTT_Construct_def ERROR_DEV_SIGN_CUSTOM_DOMAIN_IS_NULL_def simp del: replicate_Suc)
qed

section \<open>A run\<close>







end
