(* ===== verification/Coap_Packet.thy ===== *)
theory Coap_Packet
  imports Prelude
begin

text \<open>
  The CoAP packet layer (\<open>coap_server/CoAPPacket\<close>; \<open>coap_cloud\<close> has identical copies of the three
  files): messages with their options (\<open>CoAPMessage_common.c\<close>), serialization
  (\<open>CoAPSerialize_common.c\<close>) and deserialization (\<open>CoAPDeserialize_common.c\<close>). What they
  guarantee is in \<open>Coap_Codec\<close>.
\<close>

section \<open>Messages\<close>

abbreviation "COAP_MSG_MAX_TOKEN_LEN \<equiv> 8 :: nat"
abbreviation "COAP_MSG_MAX_OPTION_NUM \<equiv> 12 :: nat"

abbreviation "COAP_SUCCESS \<equiv> 0 :: int"
abbreviation "COAP_ERROR_INVALID_PARAM \<equiv> 257 :: int"
abbreviation "COAP_ERROR_NULL \<equiv> 258 :: int"
abbreviation "COAP_ERROR_MALLOC \<equiv> 259 :: int"
abbreviation "COAP_ERROR_INVALID_LENGTH \<equiv> 260 :: int"
abbreviation "COAP_ERROR_DATA_SIZE \<equiv> 261 :: int"
abbreviation "COAP_ERROR_NOT_FOUND \<equiv> 263 :: int"
abbreviation "COAP_ERROR_WRITE_FAILED \<equiv> 266 :: int"

abbreviation "COAP_MESSAGE_TYPE_CON \<equiv> 0 :: u8"
abbreviation "COAP_MESSAGE_TYPE_NON \<equiv> 1 :: u8"
abbreviation "COAP_MESSAGE_TYPE_ACK \<equiv> 2 :: u8"
abbreviation "COAP_MESSAGE_TYPE_RST \<equiv> 3 :: u8"

abbreviation "COAP_MSG_CODE_EMPTY_MESSAGE \<equiv> 0 :: u8"

abbreviation "COAP_CUR_VERSION \<equiv> 1 :: u8"

text \<open>The bit-fields of the header (2, 2 and 4 bits) are bytes here; their values fit the fields.\<close>

record CoAPMsgHeader =
  version :: u8
  msg_type :: u8
  tokenlen :: u8
  msg_code :: u8
  msgid :: u16

text \<open>A pointer to data is the bytes from there to the end of its object; NULL is \<open>None\<close>.\<close>

record CoAPMsgOption =
  opt_num :: u16
  opt_len :: u16
  opt_val :: "bytes option"

record CoAPMessage =
  header :: CoAPMsgHeader
  token :: bytes
  options :: "CoAPMsgOption list"
  optcount :: u8
  optdelta :: u8
  payloadlen :: u16
  payload :: "bytes option"
  send_handler :: "nat option"
  user_data :: nat
  keep_msg :: int

section \<open>Building a message\<close>

definition no_option :: CoAPMsgOption where
  "no_option = \<lparr>opt_num = 0, opt_len = 0, opt_val = None\<rparr>"

definition CoAPMessage_zero :: CoAPMessage where
  "CoAPMessage_zero =
     \<lparr>header = \<lparr>version = 0, msg_type = 0, tokenlen = 0, msg_code = 0, msgid = 0\<rparr>,
      token = replicate COAP_MSG_MAX_TOKEN_LEN 0, options = replicate COAP_MSG_MAX_OPTION_NUM no_option,
      optcount = 0, optdelta = 0, payloadlen = 0, payload = None, send_handler = None, user_data = 0,
      keep_msg = 0\<rparr>"

text \<open>A function on a message that may be NULL.\<close>

definition on_message :: "(CoAPMessage \<Rightarrow> int \<times> CoAPMessage) \<Rightarrow> CoAPMessage option \<Rightarrow> int \<times> CoAPMessage option" where
  "on_message f pm = (case pm of None \<Rightarrow> (COAP_ERROR_NULL, None)
                      | Some m \<Rightarrow> let (rc, m) = f m in (rc, Some m))"

definition CoAPMessage_init :: "CoAPMessage option \<Rightarrow> int \<times> CoAPMessage option" where
  "CoAPMessage_init = on_message (\<lambda>m. (COAP_SUCCESS,
     CoAPMessage_zero\<lparr>header := \<lparr>version = COAP_CUR_VERSION, msg_type = COAP_MESSAGE_TYPE_ACK,
                                 tokenlen = 0, msg_code = COAP_MSG_CODE_EMPTY_MESSAGE, msgid = 0\<rparr>\<rparr>))"

definition CoAPMessage_destory :: "CoAPMessage option \<Rightarrow> int \<times> CoAPMessage option" where
  "CoAPMessage_destory = on_message (\<lambda>m. (COAP_SUCCESS,
     m\<lparr>options := map (\<lambda>opt. opt\<lparr>opt_val := None\<rparr>) (options m)\<rparr>))"

definition CoAPMessageId_set :: "u16 \<Rightarrow> CoAPMessage option \<Rightarrow> int \<times> CoAPMessage option" where
  "CoAPMessageId_set i = on_message (\<lambda>m. (COAP_SUCCESS, m\<lparr>header := (header m)\<lparr>msgid := i\<rparr>\<rparr>))"

definition CoAPMessageType_set :: "u8 \<Rightarrow> CoAPMessage option \<Rightarrow> int \<times> CoAPMessage option" where
  "CoAPMessageType_set ty = on_message (\<lambda>m.
     if COAP_MESSAGE_TYPE_CON \<noteq> ty \<and> COAP_MESSAGE_TYPE_NON \<noteq> ty
        \<and> COAP_MESSAGE_TYPE_ACK \<noteq> ty \<and> COAP_MESSAGE_TYPE_RST \<noteq> ty
     then (COAP_ERROR_INVALID_PARAM, m)
     else (COAP_SUCCESS, m\<lparr>header := (header m)\<lparr>msg_type := ty\<rparr>\<rparr>))"

definition CoAPMessageCode_set :: "u8 \<Rightarrow> CoAPMessage option \<Rightarrow> int \<times> CoAPMessage option" where
  "CoAPMessageCode_set c = on_message (\<lambda>m. (COAP_SUCCESS, m\<lparr>header := (header m)\<lparr>msg_code := c\<rparr>\<rparr>))"

definition CoAPMessageCode_get :: "CoAPMessage option \<Rightarrow> int \<times> u8 option" where
  "CoAPMessageCode_get pm = (case pm of None \<Rightarrow> (COAP_ERROR_NULL, None)
                             | Some m \<Rightarrow> (COAP_SUCCESS, Some (msg_code (header m))))"

definition CoAPMessageToken_set ::
    "bytes option \<Rightarrow> u8 \<Rightarrow> CoAPMessage option \<Rightarrow> (int \<times> CoAPMessage option) option" where
  "CoAPMessageToken_set tok n pm =
     (case (pm, tok) of
        (Some m, Some t) \<Rightarrow>
          if COAP_MSG_MAX_TOKEN_LEN < unat n then Some (COAP_ERROR_INVALID_LENGTH, Some m)
          else do { d \<leftarrow> mem_slice t 0 (unat n);
                    Some (COAP_SUCCESS, Some (m\<lparr>token := d @ drop (unat n) (token m),
                                                header := (header m)\<lparr>tokenlen := n\<rparr>\<rparr>)) }
      | _ \<Rightarrow> Some (COAP_ERROR_NULL, pm))"

definition CoAPMessagePayload_set ::
    "bytes option \<Rightarrow> u16 \<Rightarrow> CoAPMessage option \<Rightarrow> int \<times> CoAPMessage option" where
  "CoAPMessagePayload_set p n = on_message (\<lambda>m.
     if 0 < n \<and> p = None then (COAP_ERROR_NULL, m)
     else (COAP_SUCCESS, m\<lparr>payload := p, payloadlen := n\<rparr>))"

definition CoAPMessageUserData_set :: "nat option \<Rightarrow> CoAPMessage option \<Rightarrow> int \<times> CoAPMessage option" where
  "CoAPMessageUserData_set u = on_message (\<lambda>m.
     case u of None \<Rightarrow> (COAP_ERROR_NULL, m) | Some d \<Rightarrow> (COAP_SUCCESS, m\<lparr>user_data := d\<rparr>))"

definition CoAPMessageKeep_Set :: "int \<Rightarrow> CoAPMessage option \<Rightarrow> int \<times> CoAPMessage option" where
  "CoAPMessageKeep_Set k = on_message (\<lambda>m.
     if k < 0 then (COAP_ERROR_NULL, m) else (COAP_SUCCESS, m\<lparr>keep_msg := k\<rparr>))"

section \<open>Options\<close>

text \<open>
  \<open>num\<close> holds the difference to the option before while a message is built, and the option's
  number once it was received. \<open>optdelta\<close>, the number of the option before, is a byte.
\<close>

definition new_option :: "u16 \<Rightarrow> u16 \<Rightarrow> CoAPMessage \<Rightarrow> CoAPMessage" where
  "new_option optnum n m =
     (let i = unat (optcount m)
      in m\<lparr>options := (options m)[i := (options m ! i)\<lparr>opt_num := optnum - ucast (optdelta m), opt_len := n\<rparr>]\<rparr>)"

definition close_option :: "u16 \<Rightarrow> bytes option \<Rightarrow> CoAPMessage \<Rightarrow> CoAPMessage" where
  "close_option optnum v m =
     (let i = unat (optcount m)
      in m\<lparr>options := (options m)[i := (options m ! i)\<lparr>opt_val := v\<rparr>],
           optdelta := ucast optnum, optcount := optcount m + 1\<rparr>)"

text \<open>\<open>ok\<close> is whether \<open>coap_malloc\<close> succeeds.\<close>

definition CoAPStrOption_add ::
    "bool \<Rightarrow> u16 \<Rightarrow> bytes \<Rightarrow> u16 \<Rightarrow> CoAPMessage \<Rightarrow> (int \<times> CoAPMessage) option" where
  "CoAPStrOption_add ok optnum data datalen m =
     (if COAP_MSG_MAX_OPTION_NUM \<le> unat (optcount m) then Some (COAP_ERROR_INVALID_PARAM, m)
      else
        let m = new_option optnum datalen m in
        if \<not> ok then Some (COAP_ERROR_MALLOC, m)
        else do { d \<leftarrow> mem_slice data 0 (unat datalen);
                  Some (COAP_SUCCESS, close_option optnum (Some d) m) })"

text \<open>The bytes of an unsigned option, most significant first, in 0, 1, 2 or 4 bytes.\<close>

definition uint_option_bytes :: "u32 \<Rightarrow> bytes" where
  "uint_option_bytes d =
     (if d = 0 then []
      else if d \<le> 255 then [ucast d]
      else if d \<le> 65535 then [ucast (drop_bit 8 (d AND 0xFF00)), ucast (d AND 0xFF)]
      else [ucast (drop_bit 24 (d AND 0xFF000000)), ucast (drop_bit 16 (d AND 0x00FF0000)),
            ucast (drop_bit 8 (d AND 0x0000FF00)), ucast (d AND 0x000000FF)])"

definition CoAPUintOption_add :: "bool \<Rightarrow> u16 \<Rightarrow> u32 \<Rightarrow> CoAPMessage \<Rightarrow> int \<times> CoAPMessage" where
  "CoAPUintOption_add ok optnum data m =
     (if COAP_MSG_MAX_OPTION_NUM \<le> unat (optcount m) then (COAP_ERROR_INVALID_PARAM, m)
      else
        let bs = uint_option_bytes data;
            m = new_option optnum (of_nat (length bs)) m
        in (COAP_SUCCESS, close_option optnum (if data = 0 \<or> \<not> ok then None else Some bs) m))"

text \<open>The search: \<open>None\<close> when \<open>optcount\<close> is beyond the array, \<open>Some None\<close> when nothing was found.\<close>

fun find_option :: "CoAPMsgOption list \<Rightarrow> nat \<Rightarrow> u16 \<Rightarrow> CoAPMsgOption option option" where
  "find_option opts 0 num = Some None"
| "find_option [] (Suc n) num = None"
| "find_option (opt # opts) (Suc n) num =
     (if opt_num opt = num then Some (Some opt) else find_option opts n num)"

text \<open>The data of an option as \<open>memcpy\<close> reads them.\<close>

definition opt_data :: "CoAPMsgOption \<Rightarrow> bytes option" where
  "opt_data opt = (if opt_len opt = 0 then Some []
                   else do { v \<leftarrow> opt_val opt; mem_slice v 0 (unat (opt_len opt)) })"

text \<open>The result: the return code, the bytes copied to the caller and the new \<open>*datalen\<close>.\<close>

definition CoAPStrOption_get :: "CoAPMessage \<Rightarrow> u16 \<Rightarrow> u16 \<Rightarrow> (int \<times> bytes \<times> u16) option" where
  "CoAPStrOption_get m optnum datalen =
     do { found \<leftarrow> find_option (options m) (unat (optcount m)) optnum;
          case found of
            None \<Rightarrow> Some (COAP_ERROR_NOT_FOUND, [], datalen)
          | Some opt \<Rightarrow>
              if datalen \<ge> opt_len opt
              then do { d \<leftarrow> opt_data opt; Some (COAP_SUCCESS, d, opt_len opt) }
              else Some (COAP_ERROR_INVALID_LENGTH, [], datalen) }"

text \<open>The value is or-ed into \<open>*data\<close>.\<close>

definition be_value :: "bytes \<Rightarrow> u32" where
  "be_value bs = foldl (\<lambda>v b. push_bit 8 v OR ucast b) 0 bs"

definition CoAPUintOption_get :: "CoAPMessage \<Rightarrow> u16 \<Rightarrow> u32 \<Rightarrow> (int \<times> u32) option" where
  "CoAPUintOption_get m optnum data =
     do { found \<leftarrow> find_option (options m) (unat (optcount m)) optnum;
          case found of
            None \<Rightarrow> Some (COAP_ERROR_NOT_FOUND, data)
          | Some opt \<Rightarrow>
              if opt_len opt \<in> {1, 2, 3, 4}
              then do { v \<leftarrow> opt_val opt; d \<leftarrow> mem_slice v 0 (unat (opt_len opt));
                        Some (COAP_SUCCESS, data OR be_value d) }
              else Some (COAP_SUCCESS, 0) }"

definition CoAPOption_present :: "CoAPMessage \<Rightarrow> u16 \<Rightarrow> int option" where
  "CoAPOption_present m optnum =
     do { found \<leftarrow> find_option (options m) (unat (optcount m)) optnum;
          Some (if found = None then COAP_ERROR_NOT_FOUND else COAP_SUCCESS) }"

section \<open>Serialization\<close>

text \<open>Bytes written into an object at a position; writing beyond its end is undefined.\<close>

definition put :: "bytes \<Rightarrow> nat \<Rightarrow> bytes \<Rightarrow> bytes option" where
  "put buf p bs =
     (if p + length bs \<le> length buf then Some (take p buf @ bs @ drop (p + length bs) buf) else None)"

definition header_bytes :: "CoAPMsgHeader \<Rightarrow> bytes" where
  "header_bytes h =
     [(push_bit 6 (version h AND 3) OR push_bit 4 (msg_type h AND 3)) OR (tokenlen h AND 0x0F),
      msg_code h, ucast (drop_bit 8 (msgid h AND 0xFF00)), ucast (msgid h AND 0x00FF)]"

definition CoAPSerialize_Header :: "CoAPMessage \<Rightarrow> bytes \<Rightarrow> nat \<Rightarrow> u16 \<Rightarrow> (u16 \<times> bytes) option" where
  "CoAPSerialize_Header msg buf p buflen =
     (if 4 > buflen then Some (0, buf)
      else do { buf \<leftarrow> put buf p (header_bytes (header msg)); Some (4, buf) })"

definition CoAPSerialize_Token :: "CoAPMessage \<Rightarrow> bytes \<Rightarrow> nat \<Rightarrow> u16 \<Rightarrow> (u16 \<times> bytes) option" where
  "CoAPSerialize_Token msg buf p buflen =
     (let n = tokenlen (header msg) in
      if buflen < ucast n then Some (0, buf)
      else do { t \<leftarrow> mem_slice (token msg) 0 (unat n); buf \<leftarrow> put buf p t; Some (ucast n, buf) })"

text \<open>The nibble and the extension bytes of a number or a length.\<close>

definition opt_nibble :: "u16 \<Rightarrow> u8" where
  "opt_nibble x = (if 269 \<le> x then 14 else if 13 \<le> x then 13 else ucast x)"

definition opt_ext :: "u16 \<Rightarrow> bytes" where
  "opt_ext x =
     (if 269 \<le> x then [ucast (drop_bit 8 ((x - 269) AND 0xFF00)), ucast ((x - 269) AND 0x00FF)]
      else if 13 \<le> x then [ucast (x - 13)] else [])"

definition opt_head :: "u16 \<Rightarrow> u16 \<Rightarrow> bytes" where
  "opt_head num len =
     ((push_bit 4 (opt_nibble num)) OR (opt_nibble len AND 0x0F)) # opt_ext num @ opt_ext len"

definition CoAPSerialize_Option :: "CoAPMsgOption \<Rightarrow> bytes \<Rightarrow> nat \<Rightarrow> (u16 \<times> bytes) option" where
  "CoAPSerialize_Option opt buf p =
     do { d \<leftarrow> opt_data opt;
          let bs = opt_head (opt_num opt) (opt_len opt) @ d in
          do { buf \<leftarrow> put buf p bs; Some (of_nat (length bs), buf) } }"

fun serialize_options_loop ::
    "CoAPMsgOption list \<Rightarrow> nat \<Rightarrow> bytes \<Rightarrow> nat \<Rightarrow> u16 \<Rightarrow> (u16 \<times> bytes) option" where
  "serialize_options_loop opts 0 buf p count = Some (count, buf)"
| "serialize_options_loop [] (Suc n) buf p count = None"
| "serialize_options_loop (opt # opts) (Suc n) buf p count =
     do { (len, buf) \<leftarrow> CoAPSerialize_Option opt buf (p + unat count);
          if 0 < len then serialize_options_loop opts n buf p (count + len) else Some (0, buf) }"

text \<open>\<open>buflen\<close> is not looked at.\<close>

definition CoAPSerialize_Options :: "CoAPMessage \<Rightarrow> bytes \<Rightarrow> nat \<Rightarrow> u16 \<Rightarrow> (u16 \<times> bytes) option" where
  "CoAPSerialize_Options msg buf p buflen =
     serialize_options_loop (options msg) (unat (optcount msg)) buf p 0"

definition CoAPSerialize_OptionLen :: "CoAPMsgOption \<Rightarrow> u16" where
  "CoAPSerialize_OptionLen opt =
     1 + (if 269 \<le> opt_num opt then 2 else if 13 \<le> opt_num opt then 1 else 0)
       + (if 269 \<le> opt_len opt then 2 else if 13 \<le> opt_len opt then 1 else 0) + opt_len opt"

fun options_len_loop :: "CoAPMsgOption list \<Rightarrow> nat \<Rightarrow> u16 \<Rightarrow> u16 option" where
  "options_len_loop opts 0 count = Some count"
| "options_len_loop [] (Suc n) count = None"
| "options_len_loop (opt # opts) (Suc n) count =
     (let len = CoAPSerialize_OptionLen opt in
      if 0 < len then options_len_loop opts n (count + len) else Some 0)"

definition CoAPSerialize_OptionsLen :: "CoAPMessage \<Rightarrow> u16 option" where
  "CoAPSerialize_OptionsLen msg = options_len_loop (options msg) (unat (optcount msg)) 0"

definition CoAPSerialize_Payload :: "CoAPMessage \<Rightarrow> bytes \<Rightarrow> nat \<Rightarrow> int \<Rightarrow> (u16 \<times> bytes) option" where
  "CoAPSerialize_Payload msg buf p buflen =
     (if uint (payloadlen msg) + 1 > buflen then Some (0, buf)
      else if payloadlen msg > 0 \<and> payload msg \<noteq> None
      then do { d \<leftarrow> payload msg; d \<leftarrow> mem_slice d 0 (unat (payloadlen msg));
                buf \<leftarrow> put buf p (0xFF # d);
                Some (payloadlen msg + 1, buf) }
      else Some (0, buf))"

definition CoAPSerialize_MessageLength :: "CoAPMessage \<Rightarrow> u16 option" where
  "CoAPSerialize_MessageLength msg =
     do { n \<leftarrow> CoAPSerialize_OptionsLen msg;
          Some (4 + ucast (tokenlen (header msg)) + n
                + (if 0 < payloadlen msg then payloadlen msg + 1 else 0)) }"

text \<open>The counters are unsigned short: the result is \<open>buflen - remlen\<close> as int.\<close>

definition CoAPSerialize_Message ::
    "CoAPMessage option \<Rightarrow> bytes option \<Rightarrow> u16 \<Rightarrow> (int \<times> bytes option) option" where
  "CoAPSerialize_Message pmsg pbuf buflen =
     (case (pmsg, pbuf) of
        (Some msg, Some buf) \<Rightarrow>
          do {
            (count, buf) \<leftarrow> CoAPSerialize_Header msg buf 0 buflen;
            let p = unat count; remlen = buflen - count in
            do {
              (count, buf) \<leftarrow> CoAPSerialize_Token msg buf p remlen;
              let p = p + unat count; remlen = remlen - count in
              do {
                (count, buf) \<leftarrow> CoAPSerialize_Options msg buf p remlen;
                let p = p + unat count; remlen = remlen - count in
                do {
                  (count, buf) \<leftarrow> CoAPSerialize_Payload msg buf p (uint remlen);
                  let remlen = remlen - count in
                  Some (uint buflen - uint remlen, Some buf) } } } }
      | _ \<Rightarrow> Some (COAP_ERROR_INVALID_PARAM, pbuf))"

section \<open>Deserialization\<close>

definition CoAPDeserialize_Header :: "CoAPMessage \<Rightarrow> bytes \<Rightarrow> nat \<Rightarrow> (int \<times> CoAPMessage) option" where
  "CoAPDeserialize_Header msg buf p =
     do { b0 \<leftarrow> rd buf p; b1 \<leftarrow> rd buf (p + 1); b2 \<leftarrow> rd buf (p + 2); b3 \<leftarrow> rd buf (p + 3);
          Some (4, msg\<lparr>header := \<lparr>version = drop_bit 6 b0 AND 0x03, msg_type = drop_bit 4 b0 AND 0x03,
                                 tokenlen = b0 AND 0x0F, msg_code = b1,
                                 msgid = push_bit 8 (ucast b2) + ucast b3\<rparr>\<rparr>) }"

text \<open>\<open>memcpy\<close> of up to 15 bytes into the 8 bytes of \<open>token\<close>.\<close>

definition CoAPDeserialize_Token :: "CoAPMessage \<Rightarrow> bytes \<Rightarrow> nat \<Rightarrow> (int \<times> CoAPMessage) option" where
  "CoAPDeserialize_Token msg buf p =
     (let n = unat (tokenlen (header msg)) in
      do { t \<leftarrow> mem_slice buf p n;
           token' \<leftarrow> put (token msg) 0 t;
           Some (int n, msg\<lparr>token := token'\<rparr>) })"

text \<open>
  A difference or a length: the nibble itself, or what the one or two bytes at \<open>q\<close> add to it;
  and the cursor behind them.
\<close>

definition opt_read :: "bytes \<Rightarrow> nat \<Rightarrow> u16 \<Rightarrow> (u16 \<times> nat) option" where
  "opt_read buf q nib =
     (if nib = 13 then do { x \<leftarrow> rd buf q; Some (13 + ucast x, q + 1) }
      else if nib = 14
      then do { x \<leftarrow> rd buf q; y \<leftarrow> rd buf (q + 1); Some (269 + push_bit 8 (ucast x) + ucast y, q + 2) }
      else Some (nib, q))"

text \<open>
  One option at position \<open>p\<close>: the option with its number, and how many bytes it takes
  (an int: what it is truncated to is the caller's matter).
\<close>

definition CoAPDeserialize_Option :: "bytes \<Rightarrow> nat \<Rightarrow> u16 \<Rightarrow> (CoAPMsgOption \<times> u16 \<times> nat) option" where
  "CoAPDeserialize_Option buf p predeltas =
     do {
       b \<leftarrow> rd buf p;
       (optdelta, q) \<leftarrow> opt_read buf (p + 1) (ucast (drop_bit 4 (b AND 0xF0)));
       let predelta = predeltas + optdelta in
       do {
         (optlen, q) \<leftarrow> opt_read buf q (ucast (b AND 0x0F));
         Some (\<lparr>opt_num = predelta, opt_len = optlen, opt_val = Some (drop q buf)\<rparr>, predelta,
               q - p + unat optlen) } }"

text \<open>
  The loop, with the number of free elements of \<open>options\<close>: the thirteenth option is written
  behind the array. The result: the options and the cursor.
\<close>

fun deserialize_options_loop ::
    "nat \<Rightarrow> bytes \<Rightarrow> nat \<Rightarrow> int \<Rightarrow> int \<Rightarrow> u16 \<Rightarrow> (CoAPMsgOption list \<times> nat) option" where
  "deserialize_options_loop 0 buf p count buflen optdeltas =
     (if count < buflen then do { b \<leftarrow> rd buf p; if b = 0xFF then Some ([], p) else None }
      else Some ([], p))"
| "deserialize_options_loop (Suc free) buf p count buflen optdeltas =
     (if count < buflen
      then do {
        b \<leftarrow> rd buf p;
        if b = 0xFF then Some ([], p)
        else do {
          (opt, optdeltas, len) \<leftarrow> CoAPDeserialize_Option buf p optdeltas;
          let len = of_nat len :: u16 in
          do { (opts, q) \<leftarrow> deserialize_options_loop free buf (p + unat len) (count + uint len) buflen optdeltas;
               Some (opt # opts, q) } } }
      else Some ([], p))"

definition CoAPDeserialize_Options :: "CoAPMessage \<Rightarrow> bytes \<Rightarrow> nat \<Rightarrow> int \<Rightarrow> (int \<times> CoAPMessage) option" where
  "CoAPDeserialize_Options msg buf p buflen =
     do { (opts, q) \<leftarrow> deserialize_options_loop COAP_MSG_MAX_OPTION_NUM buf p 0 buflen 0;
          Some (int (q - p), msg\<lparr>options := opts @ drop (length opts) (options msg),
                                optcount := of_nat (length opts)\<rparr>) }"

definition CoAPDeserialize_Payload :: "CoAPMessage \<Rightarrow> bytes \<Rightarrow> nat \<Rightarrow> int \<Rightarrow> (int \<times> CoAPMessage) option" where
  "CoAPDeserialize_Payload msg buf p buflen =
     do { b \<leftarrow> rd buf p;
          if b = 0xFF
          then Some (buflen, msg\<lparr>payloadlen := word_of_int (buflen - 1), payload := Some (drop (p + 1) buf)\<rparr>)
          else Some (0, msg) }"

definition CoAPDeserialize_Message ::
    "CoAPMessage option \<Rightarrow> bytes option \<Rightarrow> int \<Rightarrow> (int \<times> CoAPMessage option) option" where
  "CoAPDeserialize_Message pm pbuf buflen =
     (case (pm, pbuf) of
        (Some msg, Some buf) \<Rightarrow>
          if buflen < 4 then Some (COAP_ERROR_INVALID_LENGTH, Some msg)
          else do {
            (count, msg) \<leftarrow> CoAPDeserialize_Header msg buf 0;
            let p = nat count; remlen = buflen - count in
            do {
              (count, msg) \<leftarrow> CoAPDeserialize_Token msg buf p;
              let p = p + nat count; remlen = remlen - count in
              do {
                (count, msg) \<leftarrow> CoAPDeserialize_Options msg buf p remlen;
                let p = p + nat count; remlen = remlen - count in
                do { (_, msg) \<leftarrow> CoAPDeserialize_Payload msg buf p remlen;
                     Some (COAP_SUCCESS, Some msg) } } } }
      | _ \<Rightarrow> Some (COAP_ERROR_INVALID_PARAM, pm))"

end
