(* ===== verification/Coap_Codec.thy ===== *)
theory Coap_Codec
  imports Coap_Packet
begin

text \<open>
  What the CoAP packet layer of \<open>Coap_Packet\<close> guarantees: the exact packet that is written and
  its length, that it is read back field by field, that the options a sender adds are the
  options a receiver finds, and which datagrams make the deserializer leave its arrays.
\<close>

section \<open>Bits and bytes\<close>

lemma byte_masks:
  "(x :: u8) AND 3 = take_bit 2 x" "(x :: u8) AND 15 = take_bit 4 x"
  "(x :: u8) AND 0xF0 = push_bit 4 (take_bit 4 (drop_bit 4 x))"
  "(y :: u16) AND 0xFF = take_bit 8 y" "(y :: u16) AND 0xFF00 = push_bit 8 (take_bit 8 (drop_bit 8 y))"
proof -
  have m: "(3 :: u8) = mask 2" "(15 :: u8) = mask 4" "(0xFF :: u16) = mask 8"
    "(0xF0 :: u8) = push_bit 4 (mask 4)" "(0xFF00 :: u16) = push_bit 8 (mask 8)"
    by (simp_all add: mask_eq_exp_minus_1)
  show "x AND 3 = take_bit 2 x" "x AND 15 = take_bit 4 x" "y AND 0xFF = take_bit 8 y"
    by (simp_all only: m take_bit_eq_mask)
  show "x AND 0xF0 = push_bit 4 (take_bit 4 (drop_bit 4 x))" "y AND 0xFF00 = push_bit 8 (take_bit 8 (drop_bit 8 y))"
    unfolding m by (rule bit_word_eqI; auto simp: bit_simps)+
qed

lemma take_bit_small: "unat x < 2 ^ n \<Longrightarrow> take_bit n x = (x :: 'a::len word)"
  by (simp add: word_unat_eq_iff unsigned_take_bit_eq take_bit_nat_eq_self)

lemma nibbles:
  assumes "unat n < 16" and "unat l < 16"
  shows "drop_bit 4 ((push_bit 4 n OR (l AND 15)) AND 0xF0) = (n :: u8)"
    and "(push_bit 4 n OR (l AND 15)) AND 15 = l"
proof -
  have "take_bit 4 n = n" "take_bit 4 l = l" using assms by (simp_all add: take_bit_small)
  moreover have "drop_bit 4 ((push_bit 4 n OR (l AND 15)) AND 0xF0) = take_bit 4 n"
    "(push_bit 4 n OR (l AND 15)) AND 15 = take_bit 4 l"
    unfolding byte_masks by (rule bit_word_eqI; auto simp: bit_simps)+
  ultimately show "drop_bit 4 ((push_bit 4 n OR (l AND 15)) AND 0xF0) = n"
    "(push_bit 4 n OR (l AND 15)) AND 15 = l" by simp_all
qed

lemma two_bytes:
  "push_bit 8 (ucast (ucast (drop_bit 8 (y AND 0xFF00)) :: u8)) + ucast (ucast (y AND 0x00FF) :: u8) = (y :: u16)"
proof -
  let ?h = "push_bit 8 (ucast (ucast (drop_bit 8 (y AND 0xFF00)) :: u8)) :: u16"
  let ?l = "ucast (ucast (y AND 0x00FF) :: u8) :: u16"
  have "?h AND ?l = 0" unfolding byte_masks by (rule bit_word_eqI) (auto simp: bit_simps)
  then have "?h + ?l = ?h OR ?l" by (rule disjunctive_add_eq_or)
  also have "\<dots> = y" unfolding byte_masks by (rule bit_word_eqI) (auto simp: bit_simps)
  finally show ?thesis .
qed

section \<open>Reading back an option\<close>

lemma opt_cases:
  obtains (small) "unat x < 13" "opt_nibble x = ucast x" "opt_ext x = []"
  | (medium) "13 \<le> x" "\<not> 269 \<le> x" "opt_nibble x = 13" "opt_ext x = [ucast (x - 13)]"
  | (large) "269 \<le> x" "opt_nibble x = 14"
      "opt_ext x = [ucast (drop_bit 8 ((x - 269) AND 0xFF00)), ucast ((x - 269) AND 0x00FF)]"
proof -
  consider "\<not> 13 \<le> x" | "13 \<le> x" "\<not> 269 \<le> x" | "269 \<le> x" by blast
  then show thesis
  proof cases
    case 1
    then have "unat x < 13" by (simp add: word_le_nat_alt not_le)
    moreover from this have "\<not> 269 \<le> x" by (simp add: word_le_nat_alt)
    ultimately show thesis using 1 small by (simp add: opt_nibble_def opt_ext_def)
  qed (use medium large in \<open>simp_all add: opt_nibble_def opt_ext_def\<close>)
qed

lemma ucast_u8:
  "unat (x :: u16) < 256 \<Longrightarrow> unat (ucast x :: u8) = unat x"
  "unat (x :: u16) < 256 \<Longrightarrow> (ucast (ucast x :: u8) :: u16) = x"
proof -
  assume "unat x < 256"
  then show "unat (ucast x :: u8) = unat x"
    by (simp add: unsigned_ucast_eq unsigned_take_bit_eq take_bit_nat_eq_self)
  then show "(ucast (ucast x :: u8) :: u16) = x"
    by (simp add: word_unat_eq_iff unsigned_ucast_eq unsigned_take_bit_eq take_bit_nat_eq_self)
qed

lemma opt_nibble_bound: "unat (opt_nibble x) < 16"
  by (cases x rule: opt_cases) (simp_all add: ucast_u8)

text \<open>What the reader adds up from the nibble and the extension.\<close>

lemma opt_ext_value:
  "13 \<le> x \<Longrightarrow> \<not> 269 \<le> x \<Longrightarrow> 13 + ucast (ucast (x - 13 :: u16) :: u8) = x"
  "269 + push_bit 8 (ucast (ucast (drop_bit 8 ((x - 269 :: u16) AND 0xFF00)) :: u8))
     + ucast (ucast ((x - 269) AND 0x00FF) :: u8) = x"
proof -
  assume "13 \<le> x" "\<not> 269 \<le> x"
  then have "unat (x - 13) < 256" by (simp add: word_le_nat_alt unat_sub not_le)
  then show "13 + ucast (ucast (x - 13) :: u8) = x" by (simp add: ucast_u8)
next
  show "269 + push_bit 8 (ucast (ucast (drop_bit 8 ((x - 269) AND 0xFF00)) :: u8))
      + ucast (ucast ((x - 269) AND 0x00FF) :: u8) = x"
    unfolding add.assoc two_bytes by simp
qed

lemma opt_small: "unat x < 13 \<Longrightarrow> (ucast (ucast x :: u8) :: u16) = x \<and> x \<noteq> 13 \<and> x \<noteq> 14"
  by (auto simp: ucast_u8)

lemma rd_from: "rd m (p + i) = rd (drop p m) i"
  by (auto simp: rd_def add.commute)

lemma opt_read_ext:
  assumes "drop q buf = opt_ext x @ rest"
  shows "opt_read buf q (ucast (opt_nibble x)) = Some (x, q + length (opt_ext x))"
proof -
  have bytes: "rd buf (q + i) = rd (opt_ext x @ rest) i" for i using rd_from [of buf q i] assms by simp
  show ?thesis
  proof (cases x rule: opt_cases)
    case small
    then show ?thesis by (simp add: opt_read_def opt_small)
  next
    case medium
    then show ?thesis using bytes [of 0] by (simp add: opt_read_def rd_Cons opt_ext_value(1))
  next
    case large
    then show ?thesis
      using bytes [of 0] bytes [of 1] opt_ext_value(2) [of x]
      by (simp add: opt_read_def rd_Cons del: push_bit_and)
  qed
qed

lemma deserialize_option:
  assumes "drop p buf = opt_head num len @ rest"
  shows "CoAPDeserialize_Option buf p d
       = Some (\<lparr>opt_num = d + num, opt_len = len, opt_val = Some rest\<rparr>, d + num,
               length (opt_head num len) + unat len)"
proof -
  let ?b = "push_bit 4 (opt_nibble num) OR (opt_nibble len AND 0x0F)"
  have b: "rd buf p = Some ?b" using rd_from [of buf p 0] assms by (simp add: opt_head_def rd_def)
  note nibs = nibbles [OF opt_nibble_bound [of num] opt_nibble_bound [of len]]
  have after: "drop (p + Suc k) buf = drop k (opt_ext num @ opt_ext len @ rest)" for k
  proof -
    have "drop (p + Suc k) buf = drop (Suc k) (drop p buf)" by (simp add: add.commute)
    then show ?thesis using assms by (simp add: opt_head_def)
  qed
  have num: "opt_read buf (p + 1) (ucast (opt_nibble num)) = Some (num, p + 1 + length (opt_ext num))"
    using after [of 0] by (intro opt_read_ext) simp
  have len: "opt_read buf (p + 1 + length (opt_ext num)) (ucast (opt_nibble len))
      = Some (len, p + 1 + length (opt_ext num) + length (opt_ext len))"
    using after [of "length (opt_ext num)"] by (intro opt_read_ext) simp
  have "drop (p + 1 + length (opt_ext num) + length (opt_ext len)) buf = rest"
    using after [of "length (opt_ext num) + length (opt_ext len)"] by (simp add: add.assoc)
  then show ?thesis
    unfolding CoAPDeserialize_Option_def b bind.bind_lunit nibs num
    using len by (simp add: Let_def opt_head_def)
qed

section \<open>Reading back the options\<close>

definition opt_bytes :: "CoAPMsgOption \<Rightarrow> bytes" where
  "opt_bytes opt = opt_head (opt_num opt) (opt_len opt) @ the (opt_data opt)"

text \<open>The options of a message that is being built, with their absolute numbers.\<close>

fun numbered :: "u16 \<Rightarrow> CoAPMsgOption list \<Rightarrow> (u16 \<times> bytes) list" where
  "numbered d [] = []"
| "numbered d (opt # opts) = (d + opt_num opt, the (opt_data opt)) # numbered (d + opt_num opt) opts"

definition opt_content :: "CoAPMsgOption \<Rightarrow> u16 \<times> bytes" where
  "opt_content opt = (opt_num opt, the (opt_data opt))"

lemma opt_data_length: "opt_data opt = Some d \<Longrightarrow> length d = unat (opt_len opt)"
  by (auto simp: opt_data_def bind_eq_Some_conv mem_slice_length split: if_splits)

lemma opt_head_not_marker: "hd (opt_head num len) \<noteq> 0xFF"
proof
  assume "hd (opt_head num len) = 0xFF"
  then have "push_bit 4 (opt_nibble num) OR (opt_nibble len AND 15) = 0xFF" by (simp add: opt_head_def)
  with nibbles(2) [OF opt_nibble_bound [of num] opt_nibble_bound [of len]] have "opt_nibble len = 15" by simp
  then show False by (cases len rule: opt_cases) (auto simp: word_unat_eq_iff ucast_u8)
qed

lemma unat_u16: "n < 65536 \<Longrightarrow> unat (of_nat n :: u16) = n" "n < 65536 \<Longrightarrow> uint (of_nat n :: u16) = int n"
proof -
  assume "n < 65536"
  then show "unat (of_nat n :: u16) = n" by (simp add: unsigned_of_nat take_bit_nat_eq_self)
  then show "uint (of_nat n :: u16) = int n" by (metis of_nat_unat)
qed

lemma option_step:
  assumes "opt_data opt = Some v" and "length (opt_bytes opt) < 65536"
    and "drop p buf = opt_bytes opt @ rest" and "count < buflen"
  defines "n \<equiv> length (opt_bytes opt)"
  shows "\<exists>opt'. opt_content opt' = (d + opt_num opt, v) \<and> opt_data opt' = Some v
           \<and> deserialize_options_loop (Suc free) buf p count buflen d
             = do { (opts, q) \<leftarrow> deserialize_options_loop free buf (p + n) (count + int n) buflen (d + opt_num opt);
                    Some (opt' # opts, q) }"
    and "deserialize_options_loop 0 buf p count buflen d = None"
    and "drop (p + n) buf = rest"
proof -
  note len = opt_data_length [OF assms(1)]
  have ob: "opt_bytes opt = opt_head (opt_num opt) (opt_len opt) @ v" using assms(1) by (simp add: opt_bytes_def)
  have n: "n < 65536" "length (opt_head (opt_num opt) (opt_len opt)) + unat (opt_len opt) = n"
    using assms(2) ob len by (simp_all add: n_def)
  have at: "drop p buf = opt_head (opt_num opt) (opt_len opt) @ v @ rest" using assms(3) ob by simp
  note opt = deserialize_option [OF at, of d, unfolded n(2)]
  have first: "rd buf p = Some (hd (opt_head (opt_num opt) (opt_len opt)))"
    using rd_from [of buf p 0] at by (simp add: opt_head_def rd_def)
  let ?opt = "\<lparr>opt_num = d + opt_num opt, opt_len = opt_len opt, opt_val = Some (v @ rest)\<rparr>"
  have "opt_data ?opt = Some v" using len by (auto simp: opt_data_def mem_slice_def)
  with opt first opt_head_not_marker n(1) assms(4)
  show "\<exists>opt'. opt_content opt' = (d + opt_num opt, v) \<and> opt_data opt' = Some v
           \<and> deserialize_options_loop (Suc free) buf p count buflen d
             = do { (opts, q) \<leftarrow> deserialize_options_loop free buf (p + n) (count + int n) buflen (d + opt_num opt);
                    Some (opt' # opts, q) }"
    by (intro exI [of _ ?opt]) (simp add: opt_content_def unat_u16)
  show "deserialize_options_loop 0 buf p count buflen d = None"
    using first opt_head_not_marker assms(4) by simp
  have "drop (p + n) buf = drop n (drop p buf)" by (simp add: add.commute)
  then show "drop (p + n) buf = rest" using assms(3) by (simp add: n_def)
qed

lemma deserialize_options_loop:
  assumes "list_all (\<lambda>opt. opt_data opt \<noteq> None \<and> length (opt_bytes opt) < 65536) opts"
    and "length opts \<le> free" and "drop p buf = concat (map opt_bytes opts) @ tail"
    and "count + int (length (concat (map opt_bytes opts))) \<le> buflen"
    and "count + int (length (concat (map opt_bytes opts))) = buflen \<or> (tail \<noteq> [] \<and> hd tail = 0xFF)"
  shows "\<exists>opts'. deserialize_options_loop free buf p count buflen d
             = Some (opts', p + length (concat (map opt_bytes opts)))
           \<and> map opt_content opts' = numbered d opts
           \<and> list_all (\<lambda>opt. opt_data opt \<noteq> None) opts'"
  using assms
proof (induction opts arbitrary: free p count d)
  case Nil
  then have "tail \<noteq> [] \<Longrightarrow> rd buf p = Some (hd tail)" using rd_from [of buf p 0] by (simp add: rd_def hd_conv_nth)
  with Nil show ?case by (cases free) auto
next
  case (Cons opt opts)
  obtain f where free: "free = Suc f" using Cons.prems(2) by (cases free) simp_all
  obtain v where v: "opt_data opt = Some v" using Cons.prems(1) by auto
  let ?n = "length (opt_bytes opt)"
  have pos: "count < buflen"
  proof -
    have "0 < int ?n" by (simp add: opt_bytes_def opt_head_def)
    with Cons.prems(4) show ?thesis unfolding list.map concat.simps length_append of_nat_add by linarith
  qed
  have at: "drop p buf = opt_bytes opt @ concat (map opt_bytes opts) @ tail" using Cons.prems(3) by simp
  have small: "?n < 65536" using Cons.prems(1) by simp
  note step = option_step [OF v small at pos]
  obtain opt' where opt': "opt_content opt' = (d + opt_num opt, v)" "opt_data opt' = Some v"
    "deserialize_options_loop free buf p count buflen d
     = do { (opts, q) \<leftarrow> deserialize_options_loop f buf (p + ?n) (count + int ?n) buflen (d + opt_num opt);
            Some (opt' # opts, q) }"
    using step(1) [of d f] unfolding free by blast
  have "\<exists>opts'. deserialize_options_loop f buf (p + ?n) (count + int ?n) buflen (d + opt_num opt)
      = Some (opts', p + ?n + length (concat (map opt_bytes opts)))
      \<and> map opt_content opts' = numbered (d + opt_num opt) opts \<and> list_all (\<lambda>opt. opt_data opt \<noteq> None) opts'"
    using Cons.prems free step(3) by (intro Cons.IH) auto
  then obtain opts' where "deserialize_options_loop f buf (p + ?n) (count + int ?n) buflen (d + opt_num opt)
      = Some (opts', p + ?n + length (concat (map opt_bytes opts)))"
    "map opt_content opts' = numbered (d + opt_num opt) opts" "list_all (\<lambda>opt. opt_data opt \<noteq> None) opts'" by blast
  with opt' v show ?case by (intro exI [of _ "opt' # opts'"]) (simp add: add.assoc)
qed

lemma too_many_options:
  assumes "list_all (\<lambda>opt. opt_data opt \<noteq> None \<and> length (opt_bytes opt) < 65536) opts"
    and "free < length opts" and "drop p buf = concat (map opt_bytes opts) @ tail"
    and "count + int (length (concat (map opt_bytes opts))) \<le> buflen"
  shows "deserialize_options_loop free buf p count buflen d = None"
  using assms
proof (induction opts arbitrary: free p count d)
  case (Cons opt opts)
  obtain v where v: "opt_data opt = Some v" using Cons.prems(1) by auto
  have pos: "count < buflen"
  proof -
    have "0 < int (length (opt_bytes opt))" by (simp add: opt_bytes_def opt_head_def)
    with Cons.prems(4) show ?thesis unfolding list.map concat.simps length_append of_nat_add by linarith
  qed
  have at: "drop p buf = opt_bytes opt @ concat (map opt_bytes opts) @ tail" using Cons.prems(3) by simp
  have small: "length (opt_bytes opt) < 65536" using Cons.prems(1) by simp
  note step = option_step [OF v small at pos]
  show ?case
  proof (cases free)
    case (Suc f)
    with Cons step(3) have "deserialize_options_loop f buf (p + length (opt_bytes opt))
        (count + int (length (opt_bytes opt))) buflen (d + opt_num opt) = None"
      by (intro Cons.IH) auto
    moreover obtain opt' where "deserialize_options_loop (Suc f) buf p count buflen d
        = do { (opts, q) \<leftarrow> deserialize_options_loop f buf (p + length (opt_bytes opt))
                 (count + int (length (opt_bytes opt))) buflen (d + opt_num opt); Some (opt' # opts, q) }"
      using step(1) [of d f] by blast
    ultimately show ?thesis using Suc by (simp del: deserialize_options_loop.simps)
  qed (use step(2) in simp)
qed simp

section \<open>What is written\<close>

text \<open>The packet of a message, and when a message has one.\<close>

abbreviation sent_options :: "CoAPMessage \<Rightarrow> CoAPMsgOption list" where
  "sent_options m \<equiv> take (unat (optcount m)) (options m)"

definition payload_bytes :: "CoAPMessage \<Rightarrow> bytes" where
  "payload_bytes m = (if payloadlen m > 0 then 0xFF # take (unat (payloadlen m)) (the (payload m)) else [])"

definition coap_bytes :: "CoAPMessage \<Rightarrow> bytes" where
  "coap_bytes m = header_bytes (header m) @ take (unat (tokenlen (header m))) (token m)
     @ concat (map opt_bytes (sent_options m)) @ payload_bytes m"

definition coap_ok :: "CoAPMessage \<Rightarrow> bool" where
  "coap_ok m \<longleftrightarrow>
     version (header m) < 4 \<and> msg_type (header m) < 4
     \<and> unat (tokenlen (header m)) \<le> COAP_MSG_MAX_TOKEN_LEN \<and> length (token m) = COAP_MSG_MAX_TOKEN_LEN
     \<and> unat (optcount m) \<le> COAP_MSG_MAX_OPTION_NUM \<and> length (options m) = COAP_MSG_MAX_OPTION_NUM
     \<and> list_all (\<lambda>opt. opt_data opt \<noteq> None) (sent_options m)
     \<and> (payloadlen m > 0 \<longrightarrow> payload m \<noteq> None \<and> unat (payloadlen m) \<le> length (the (payload m)))
     \<and> length (coap_bytes m) < 65536"

lemma put_at: "length bs \<le> length mid \<Longrightarrow> put (pre @ mid) (length pre) bs = Some (pre @ bs @ drop (length bs) mid)"
  by (simp add: put_def)

lemma opt_bytes_pos: "0 < length (opt_bytes opt)"
  by (simp add: opt_bytes_def opt_head_def)

lemma serialize_option:
  assumes "opt_data opt \<noteq> None" and "length (opt_bytes opt) \<le> length mid"
  shows "CoAPSerialize_Option opt (pre @ mid) (length pre)
       = Some (of_nat (length (opt_bytes opt)), pre @ opt_bytes opt @ drop (length (opt_bytes opt)) mid)"
  using assms put_at [of "opt_bytes opt" mid pre]
  by (auto simp: CoAPSerialize_Option_def opt_bytes_def Let_def)

lemma serialize_options_loop:
  assumes "list_all (\<lambda>opt. opt_data opt \<noteq> None) opts"
    and "length (concat (map opt_bytes opts)) \<le> length mid"
    and "unat count + length (concat (map opt_bytes opts)) < 65536" and "p + unat count = length pre"
  shows "serialize_options_loop (opts @ others) (length opts) (pre @ mid) p count
       = Some (count + of_nat (length (concat (map opt_bytes opts))),
               pre @ concat (map opt_bytes opts) @ drop (length (concat (map opt_bytes opts))) mid)"
  using assms
proof (induction opts arbitrary: count pre mid)
  case (Cons opt opts)
  let ?n = "length (opt_bytes opt)"
  have n: "?n < 65536" "?n \<le> length mid" using Cons.prems(2,3) by simp_all
  have opt: "CoAPSerialize_Option opt (pre @ mid) (p + unat count)
      = Some (of_nat ?n, (pre @ opt_bytes opt) @ drop ?n mid)"
    using serialize_option [of opt mid pre] Cons.prems(1,4) n by simp
  have pos: "0 < (of_nat ?n :: u16)"
    using opt_bytes_pos n(1) by (simp add: word_greater_zero_iff word_unat_eq_iff unat_u16)
  have count: "unat (count + of_nat ?n) = unat count + ?n"
    using Cons.prems(3) n(1) by (simp add: unat_word_ariths unat_u16)
  have "serialize_options_loop (opts @ others) (length opts) ((pre @ opt_bytes opt) @ drop ?n mid) p (count + of_nat ?n)
      = Some (count + of_nat ?n + of_nat (length (concat (map opt_bytes opts))),
              (pre @ opt_bytes opt) @ concat (map opt_bytes opts) @ drop (length (concat (map opt_bytes opts))) (drop ?n mid))"
    using Cons.prems count by (intro Cons.IH) auto
  with opt pos show ?case by (simp add: add.assoc add.commute [of "length (concat (map opt_bytes opts))"])
qed simp

lemma option_len: "opt_data opt \<noteq> None \<Longrightarrow> CoAPSerialize_OptionLen opt = of_nat (length (opt_bytes opt))"
proof -
  assume "opt_data opt \<noteq> None"
  then obtain v where v: "opt_data opt = Some v" by blast
  have ext: "of_nat (length (opt_ext x)) = (if 269 \<le> x then 2 else if 13 \<le> x then 1 else 0 :: u16)" for x
    by (simp add: opt_ext_def)
  show ?thesis
    using v opt_data_length [OF v] ext [of "opt_num opt"] ext [of "opt_len opt"]
    by (simp add: CoAPSerialize_OptionLen_def opt_bytes_def opt_head_def add.assoc)
qed

lemma options_len_loop:
  assumes "list_all (\<lambda>opt. opt_data opt \<noteq> None) opts"
    and "unat count + length (concat (map opt_bytes opts)) < 65536"
  shows "options_len_loop (opts @ others) (length opts) count
       = Some (count + of_nat (length (concat (map opt_bytes opts))))"
  using assms
proof (induction opts arbitrary: count)
  case (Cons opt opts)
  let ?n = "length (opt_bytes opt)"
  have n: "?n < 65536" using Cons.prems(2) by simp
  have pos: "0 < (of_nat ?n :: u16)"
    using opt_bytes_pos n by (simp add: word_greater_zero_iff word_unat_eq_iff unat_u16)
  have count: "unat (count + of_nat ?n) = unat count + ?n"
    using Cons.prems(2) n by (simp add: unat_word_ariths unat_u16)
  with Cons option_len [of opt] pos show ?case by (simp add: add.assoc)
qed simp

lemma message_length:
  assumes "coap_ok m"
  shows "CoAPSerialize_MessageLength m = Some (of_nat (length (coap_bytes m)))"
proof -
  let ?opts = "sent_options m"
  have n: "length ?opts = unat (optcount m)" "length (token m) \<ge> unat (tokenlen (header m))"
    using assms by (simp_all add: coap_ok_def)
  have "CoAPSerialize_OptionsLen m = Some (of_nat (length (concat (map opt_bytes ?opts))))"
    using options_len_loop [of ?opts 0 "drop (unat (optcount m)) (options m)"] assms n(1)
    by (simp add: CoAPSerialize_OptionsLen_def coap_ok_def coap_bytes_def)
  moreover have "of_nat (length (payload_bytes m)) = (if 0 < payloadlen m then payloadlen m + 1 else 0)"
    using assms by (simp add: payload_bytes_def coap_ok_def)
  moreover have "of_nat (min (length (token m)) (unat (tokenlen (header m)))) = (ucast (tokenlen (header m)) :: u16)"
    using n(2) by (simp add: min_absorb2)
  ultimately show ?thesis
    by (simp add: CoAPSerialize_MessageLength_def coap_bytes_def header_bytes_def add.assoc)
qed

lemma serialize_message:
  assumes "coap_ok m" and "length (coap_bytes m) \<le> unat buflen" and "unat buflen \<le> length buf"
  shows "CoAPSerialize_Message (Some m) (Some buf) buflen
       = Some (int (length (coap_bytes m)), Some (coap_bytes m @ drop (length (coap_bytes m)) buf))"
proof -
  define H where "H = header_bytes (header m)"
  define T where "T = take (unat (tokenlen (header m))) (token m)"
  define Q where "Q = concat (map opt_bytes (sent_options m))"
  define L where "L = payload_bytes m"
  define R where "R = unat buflen"
  have bs: "coap_bytes m = H @ T @ Q @ L" by (simp add: coap_bytes_def H_def T_def Q_def L_def)
  have R: "buflen = of_nat R" "R < 65536" "length H + length T + length Q + length L \<le> R" "R \<le> length buf"
    using assms(2,3) bs unsigned_less [of buflen, where 'a = nat] by (simp_all add: R_def)
  have lens: "length H = 4" "length T = unat (tokenlen (header m))"
    using assms(1) by (simp_all add: H_def header_bytes_def T_def coap_ok_def)
  have header: "CoAPSerialize_Header m buf 0 buflen = Some (4, H @ drop 4 buf)"
    using R lens put_at [of H buf "[]"] unat_u16(1) [OF R(2)]
    by (simp add: CoAPSerialize_Header_def H_def word_less_nat_alt)
  have rem: "of_nat (R - k) - of_nat l = (of_nat (R - (k + l)) :: u16)" if "k + l \<le> R" for k l
    using that by (simp add: of_nat_diff)
  have rem1: "buflen - 4 = of_nat (R - 4)" using rem [of 0 4] R lens by simp
  have fits: "unat (of_nat (R - k) :: u16) = R - k" "uint (of_nat (R - k) :: u16) = int (R - k)" for k
    using R(2) by (intro unat_u16; simp)+
  have token: "CoAPSerialize_Token m (H @ drop 4 buf) 4 (buflen - 4)
      = Some (of_nat (length T), H @ T @ drop (length T) (drop 4 buf))"
  proof -
    have "mem_slice (token m) 0 (unat (tokenlen (header m))) = Some T"
      using assms(1) by (simp add: mem_slice_def T_def coap_ok_def)
    moreover have "\<not> buflen - 4 < ucast (tokenlen (header m))"
      unfolding rem1 using fits(1) [of 4] R lens
      by (simp add: word_less_nat_alt unsigned_ucast_eq unsigned_take_bit_eq take_bit_nat_eq_self)
    moreover have "put (H @ drop 4 buf) 4 T = Some (H @ T @ drop (length T) (drop 4 buf))"
      using put_at [of T "drop 4 buf" H] R lens by simp
    ultimately show ?thesis using lens(2) by (simp add: CoAPSerialize_Token_def Let_def)
  qed
  have options: "CoAPSerialize_Options m (H @ T @ drop (length T) (drop 4 buf)) (4 + length T) r
      = Some (of_nat (length Q), H @ T @ Q @ drop (length Q) (drop (length T) (drop 4 buf)))" for r
  proof -
    have "serialize_options_loop (sent_options m @ drop (unat (optcount m)) (options m)) (length (sent_options m))
        ((H @ T) @ drop (length T) (drop 4 buf)) (4 + length T) 0
      = Some (0 + of_nat (length Q), (H @ T) @ Q @ drop (length Q) (drop (length T) (drop 4 buf)))"
      unfolding Q_def
      by (rule serialize_options_loop) (use assms(1) R lens in \<open>simp_all add: coap_ok_def Q_def [symmetric]\<close>)
    moreover have "length (sent_options m) = unat (optcount m)" using assms(1) by (simp add: coap_ok_def)
    ultimately show ?thesis by (simp add: CoAPSerialize_Options_def)
  qed
  let ?r3 = "R - (4 + length T + length Q)"
  let ?tail = "drop (length Q) (drop (length T) (drop 4 buf))"
  have payload: "CoAPSerialize_Payload m (H @ T @ Q @ ?tail) (4 + length T + length Q) (int ?r3)
      = Some (of_nat (length L), H @ T @ Q @ L @ drop (length L) ?tail)"
  proof (cases "payloadlen m > 0")
    case True
    then have L: "L = 0xFF # take (unat (payloadlen m)) (the (payload m))" "length L = unat (payloadlen m) + 1"
      "payload m \<noteq> None" "unat (payloadlen m) \<le> length (the (payload m))"
      using assms(1) by (simp_all add: L_def payload_bytes_def coap_ok_def)
    have "length L \<le> length ?tail" "length (H @ T @ Q) = 4 + length T + length Q"
      using R(3,4) lens(1) by simp_all
    from put_at [OF this(1), of "H @ T @ Q", unfolded this(2)]
    have "put (H @ T @ Q @ ?tail) (4 + length T + length Q) L = Some (H @ T @ Q @ L @ drop (length L) ?tail)"
      by (simp only: append.assoc)
    moreover have "int (unat (payloadlen m) + 1) \<le> int ?r3"
      unfolding of_nat_le_iff using L(2) R(3) lens(1) by linarith
    ultimately show ?thesis
      using L True by (auto simp: CoAPSerialize_Payload_def mem_slice_def add.commute)
  next
    case False
    then show ?thesis by (auto simp: CoAPSerialize_Payload_def L_def payload_bytes_def)
  qed
  have left: "uint (of_nat ?r3 - of_nat (length L) :: u16) = int (R - (4 + length T + length Q + length L))"
  proof -
    have "4 + length T + length Q + length L \<le> R" using R(3) lens(1) by simp
    then show ?thesis by (simp only: rem fits(2))
  qed
  have "uint buflen - int (R - (4 + length T + length Q + length L)) = int (length (coap_bytes m))"
    using fits(2) [of 0] R lens bs by simp
  moreover have "coap_bytes m @ drop (length (coap_bytes m)) buf = H @ T @ Q @ L @ drop (length L) ?tail"
    using lens by (simp add: bs add.commute add.left_commute)
  moreover have "unat (of_nat (length T) :: u16) = length T" "unat (of_nat (length Q) :: u16) = length Q"
    by (intro unat_u16(1); use R(2,3) in linarith)+
  moreover have "buflen - 4 - of_nat (length T) - of_nat (length Q) = of_nat ?r3"
    using rem [of 4 "length T"] rem [of "4 + length T" "length Q"] R(3) lens(1) unfolding rem1 by simp
  ultimately show ?thesis
    using header token options payload left fits(2) [of "4 + length T + length Q"]
    by (simp add: CoAPSerialize_Message_def)
qed

section \<open>Reading back a message\<close>

lemma header_fields:
  assumes "version h < 4" and "msg_type h < 4" and "unat (tokenlen h) < 16"
  defines "b \<equiv> (push_bit 6 (version h AND 3) OR push_bit 4 (msg_type h AND 3)) OR (tokenlen h AND 0x0F)"
  shows "drop_bit 6 b AND 3 = version h" "drop_bit 4 b AND 3 = msg_type h" "b AND 0x0F = tokenlen h"
proof -
  have small: "take_bit 2 (version h) = version h" "take_bit 2 (msg_type h) = msg_type h"
    "take_bit 4 (tokenlen h) = tokenlen h"
    using assms(1-3) by (simp_all add: take_bit_small word_less_nat_alt)
  have "drop_bit 6 b AND 3 = take_bit 2 (version h)" "drop_bit 4 b AND 3 = take_bit 2 (msg_type h)"
    "b AND 0x0F = take_bit 4 (tokenlen h)"
    unfolding b_def byte_masks by (rule bit_word_eqI; auto simp: bit_simps)+
  then show "drop_bit 6 b AND 3 = version h" "drop_bit 4 b AND 3 = msg_type h" "b AND 0x0F = tokenlen h"
    unfolding small .
qed

lemma deserialize_header:
  assumes "version (header m) < 4" and "msg_type (header m) < 4" and "unat (tokenlen (header m)) < 16"
  shows "CoAPDeserialize_Header m0 (header_bytes (header m) @ rest) 0 = Some (4, m0\<lparr>header := header m\<rparr>)"
  using header_fields [OF assms] two_bytes [of "msgid (header m)"]
  by (simp add: CoAPDeserialize_Header_def header_bytes_def rd_Cons del: push_bit_and)

lemma deserialize_to_payload:
  assumes "coap_ok m" and "length (token m0) = COAP_MSG_MAX_TOKEN_LEN" and "length (options m0) = COAP_MSG_MAX_OPTION_NUM"
  shows "\<exists>m3. CoAPDeserialize_Message (Some m0) (Some (coap_bytes m @ tail)) (int (length (coap_bytes m)))
             = do { (_, m') \<leftarrow> CoAPDeserialize_Payload m3 (coap_bytes m @ tail)
                                (length (coap_bytes m) - length (payload_bytes m)) (int (length (payload_bytes m)));
                    Some (COAP_SUCCESS, Some m') }
           \<and> header m3 = header m
           \<and> take (unat (tokenlen (header m))) (token m3) = take (unat (tokenlen (header m))) (token m)
           \<and> map opt_content (sent_options m3) = numbered 0 (sent_options m)
           \<and> length (options m3) = COAP_MSG_MAX_OPTION_NUM \<and> unat (optcount m3) \<le> COAP_MSG_MAX_OPTION_NUM
           \<and> list_all (\<lambda>opt. opt_data opt \<noteq> None) (sent_options m3)
           \<and> payloadlen m3 = payloadlen m0 \<and> payload m3 = payload m0"
proof -
  define H where "H = header_bytes (header m)"
  define T where "T = take (unat (tokenlen (header m))) (token m)"
  define Q where "Q = concat (map opt_bytes (sent_options m))"
  define L where "L = payload_bytes m"
  have bs: "coap_bytes m = H @ T @ Q @ L" by (simp add: coap_bytes_def H_def T_def Q_def L_def)
  have lens: "length H = 4" "length T = unat (tokenlen (header m))"
    using assms(1) by (simp_all add: H_def header_bytes_def T_def coap_ok_def)
  have "length (coap_bytes m) < 65536" using assms(1) by (simp add: coap_ok_def)
  then have total: "length H + length T + length Q + length L < 65536" unfolding bs by simp
  let ?buf = "H @ T @ Q @ L @ tail"
  let ?m1 = "m0\<lparr>header := header m\<rparr>"
  have header: "CoAPDeserialize_Header m0 ?buf 0 = Some (4, ?m1)"
    using deserialize_header [of m m0 "T @ Q @ L @ tail"] assms(1) by (simp add: H_def coap_ok_def)
  let ?m2 = "?m1\<lparr>token := T @ drop (length T) (token m0)\<rparr>"
  have token: "CoAPDeserialize_Token ?m1 ?buf 4 = Some (int (length T), ?m2)"
    using put_at [of T "token m0" "[]"] lens assms(1,2)
    by (simp add: CoAPDeserialize_Token_def Let_def mem_slice_def coap_ok_def)
  have L: "L = [] \<and> payloadlen m = 0 \<or> (L \<noteq> [] \<and> hd L = 0xFF \<and> payloadlen m > 0)"
    by (auto simp: L_def payload_bytes_def word_greater_zero_iff)
  have "\<exists>opts'. deserialize_options_loop COAP_MSG_MAX_OPTION_NUM ?buf (4 + length T) 0 (int (length Q + length L)) 0
      = Some (opts', 4 + length T + length Q) \<and> map opt_content opts' = numbered 0 (sent_options m)
      \<and> list_all (\<lambda>opt. opt_data opt \<noteq> None) opts'"
    unfolding Q_def
  proof (rule deserialize_options_loop)
    have "length (opt_bytes opt) \<le> length Q" if "opt \<in> set (sent_options m)" for opt
      using that by (auto simp: Q_def length_concat intro: member_le_sum_list)
    then show "list_all (\<lambda>opt. opt_data opt \<noteq> None \<and> length (opt_bytes opt) < 65536) (sent_options m)"
      using assms(1) total by (fastforce simp: coap_ok_def list_all_iff)
  qed (use assms(1) lens(1) L in \<open>auto simp: coap_ok_def Q_def [symmetric]\<close>)
  then obtain opts' where opts': "deserialize_options_loop COAP_MSG_MAX_OPTION_NUM ?buf (4 + length T) 0 (int (length Q + length L)) 0
      = Some (opts', 4 + length T + length Q)" "map opt_content opts' = numbered 0 (sent_options m)"
    "list_all (\<lambda>opt. opt_data opt \<noteq> None) opts'" by blast
  have n: "length opts' = unat (optcount m)" "unat (optcount m) \<le> 12"
  proof -
    have "length (numbered d os) = length os" for d os by (induction d os rule: numbered.induct) simp_all
    with opts'(2) assms(1) show "length opts' = unat (optcount m)" "unat (optcount m) \<le> 12"
      by (auto simp: coap_ok_def dest: arg_cong [of _ _ length])
  qed
  let ?m3 = "?m2\<lparr>options := opts' @ drop (length opts') (options m0), optcount := of_nat (length opts')\<rparr>"
  have options: "CoAPDeserialize_Options ?m2 ?buf (4 + length T) (int (length Q + length L)) = Some (int (length Q), ?m3)"
    using opts'(1) by (simp add: CoAPDeserialize_Options_def)
  have sent: "sent_options ?m3 = opts'" "length (options ?m3) = 12" "unat (optcount ?m3) \<le> 12"
    using n assms(3) by simp_all
  have left: "int (length (coap_bytes m)) - 4 - int (length T) = int (length Q + length L)"
    "int (length Q + length L) - int (length Q) = int (length L)"
    using bs lens(1) by simp_all
  have "CoAPDeserialize_Message (Some m0) (Some (coap_bytes m @ tail)) (int (length (coap_bytes m)))
      = do { (_, m') \<leftarrow> CoAPDeserialize_Payload ?m3 (coap_bytes m @ tail)
                         (length (coap_bytes m) - length (payload_bytes m)) (int (length (payload_bytes m)));
             Some (COAP_SUCCESS, Some m') }"
    using header token options left bs lens(1) by (simp add: CoAPDeserialize_Message_def L_def [symmetric] add.assoc)
  with sent opts'(2,3) lens(2) show ?thesis by (intro exI [of _ ?m3]) (simp add: T_def)
qed

lemma deserialize_payload:
  assumes "coap_ok m"
  defines "p \<equiv> length (coap_bytes m) - length (payload_bytes m)"
  shows "rd (coap_bytes m @ tail) p = rd (payload_bytes m @ tail) 0"
    and "drop (p + 1) (coap_bytes m @ tail) = drop 1 (payload_bytes m @ tail)"
proof -
  define A where "A = header_bytes (header m) @ take (unat (tokenlen (header m))) (token m)
    @ concat (map opt_bytes (sent_options m))"
  have cut: "coap_bytes m = A @ payload_bytes m" "p = length A"
    by (simp_all add: p_def coap_bytes_def A_def)
  show "rd (coap_bytes m @ tail) p = rd (payload_bytes m @ tail) 0"
    using rd_from [of "coap_bytes m @ tail" p 0] by (simp add: cut)
  show "drop (p + 1) (coap_bytes m @ tail) = drop 1 (payload_bytes m @ tail)"
    by (simp add: cut)
qed

lemma deserialize_message:
  assumes "coap_ok m" and "length (token m0) = COAP_MSG_MAX_TOKEN_LEN" and "length (options m0) = COAP_MSG_MAX_OPTION_NUM"
    and "payloadlen m = 0 \<Longrightarrow> tail \<noteq> [] \<and> hd tail \<noteq> 0xFF"
  shows "\<exists>m'. CoAPDeserialize_Message (Some m0) (Some (coap_bytes m @ tail)) (int (length (coap_bytes m)))
             = Some (COAP_SUCCESS, Some m')
           \<and> header m' = header m
           \<and> take (unat (tokenlen (header m))) (token m') = take (unat (tokenlen (header m))) (token m)
           \<and> map opt_content (sent_options m') = numbered 0 (sent_options m)
           \<and> length (options m') = COAP_MSG_MAX_OPTION_NUM \<and> unat (optcount m') \<le> COAP_MSG_MAX_OPTION_NUM
           \<and> list_all (\<lambda>opt. opt_data opt \<noteq> None) (sent_options m')
           \<and> (if payloadlen m > 0
              then payloadlen m' = payloadlen m
                   \<and> payload m' = Some (take (unat (payloadlen m)) (the (payload m)) @ tail)
              else payloadlen m' = payloadlen m0 \<and> payload m' = payload m0)"
proof -
  obtain m3 where m3: "CoAPDeserialize_Message (Some m0) (Some (coap_bytes m @ tail)) (int (length (coap_bytes m)))
      = do { (_, m') \<leftarrow> CoAPDeserialize_Payload m3 (coap_bytes m @ tail)
                         (length (coap_bytes m) - length (payload_bytes m)) (int (length (payload_bytes m)));
             Some (COAP_SUCCESS, Some m') }"
    and kept: "header m3 = header m"
      "take (unat (tokenlen (header m))) (token m3) = take (unat (tokenlen (header m))) (token m)"
      "map opt_content (sent_options m3) = numbered 0 (sent_options m)"
      "length (options m3) = COAP_MSG_MAX_OPTION_NUM" "unat (optcount m3) \<le> COAP_MSG_MAX_OPTION_NUM"
      "list_all (\<lambda>opt. opt_data opt \<noteq> None) (sent_options m3)"
      "payloadlen m3 = payloadlen m0" "payload m3 = payload m0"
    using deserialize_to_payload [OF assms(1-3)] by blast
  note at = deserialize_payload [OF assms(1), of tail]
  show ?thesis
  proof (cases "payloadlen m > 0")
    case True
    then have L: "payload_bytes m = 0xFF # take (unat (payloadlen m)) (the (payload m))"
      "unat (payloadlen m) \<le> length (the (payload m))"
      using assms(1) by (simp_all add: payload_bytes_def coap_ok_def)
    let ?m4 = "m3\<lparr>payloadlen := payloadlen m, payload := Some (take (unat (payloadlen m)) (the (payload m)) @ tail)\<rparr>"
    have "CoAPDeserialize_Payload m3 (coap_bytes m @ tail) (length (coap_bytes m) - length (payload_bytes m))
        (int (length (payload_bytes m))) = Some (int (length (payload_bytes m)), ?m4)"
      using at L by (simp add: CoAPDeserialize_Payload_def rd_Cons)
    with m3 True kept show ?thesis by (intro exI [of _ ?m4]) simp
  next
    case False
    then have L: "payload_bytes m = []" by (simp add: payload_bytes_def)
    have "tail \<noteq> []" "hd tail \<noteq> 0xFF" using assms(4) False by (simp_all add: word_greater_zero_iff)
    then have "CoAPDeserialize_Payload m3 (coap_bytes m @ tail) (length (coap_bytes m) - length (payload_bytes m))
        (int (length (payload_bytes m))) = Some (0, m3)"
      using at L by (simp add: CoAPDeserialize_Payload_def rd_def hd_conv_nth)
    with m3 False kept show ?thesis by (intro exI [of _ m3]) simp
  qed
qed

text \<open>
  Property C11: a CoAP message survives the wire. A message within the limits of the packet
  layer is serialized to exactly \<open>CoAPSerialize_MessageLength\<close> bytes, nothing behind them is
  touched, and \<open>CoAPDeserialize_Message\<close> on these bytes gives a message with the same header,
  token and payload and with the same options, their differences turned into absolute
  numbers. (Without a payload the byte behind the datagram must be readable and not 0xFF.)
\<close>

theorem coap_round_trip:
  assumes "coap_ok m" and "length (coap_bytes m) \<le> unat buflen" and "unat buflen \<le> length buf"
    and "length (token m0) = COAP_MSG_MAX_TOKEN_LEN" and "length (options m0) = COAP_MSG_MAX_OPTION_NUM"
    and "payloadlen m = 0 \<Longrightarrow> tail \<noteq> [] \<and> hd tail \<noteq> 0xFF"
  shows "\<exists>n m'. CoAPSerialize_MessageLength m = Some (of_nat n)
       \<and> CoAPSerialize_Message (Some m) (Some buf) buflen = Some (int n, Some (coap_bytes m @ drop n buf))
       \<and> CoAPDeserialize_Message (Some m0) (Some (coap_bytes m @ tail)) (int n) = Some (COAP_SUCCESS, Some m')
       \<and> header m' = header m
       \<and> take (unat (tokenlen (header m))) (token m') = take (unat (tokenlen (header m))) (token m)
       \<and> map opt_content (sent_options m') = numbered 0 (sent_options m)
       \<and> (payloadlen m > 0 \<longrightarrow> payloadlen m' = payloadlen m
            \<and> payload m' = Some (take (unat (payloadlen m)) (the (payload m)) @ tail))"
proof -
  obtain m' where m': "CoAPDeserialize_Message (Some m0) (Some (coap_bytes m @ tail)) (int (length (coap_bytes m)))
      = Some (COAP_SUCCESS, Some m')" "header m' = header m"
    "take (unat (tokenlen (header m))) (token m') = take (unat (tokenlen (header m))) (token m)"
    "map opt_content (sent_options m') = numbered 0 (sent_options m)"
    "payloadlen m > 0 \<longrightarrow> payloadlen m' = payloadlen m
       \<and> payload m' = Some (take (unat (payloadlen m)) (the (payload m)) @ tail)"
    using deserialize_message [OF assms(1,4,5,6)] by (auto split: if_splits)
  with message_length [OF assms(1)] serialize_message [OF assms(1,2,3)]
  show ?thesis by (intro exI [of _ "length (coap_bytes m)"] exI [of _ m'] conjI)
qed

definition test_coap :: CoAPMessage where
  "test_coap = CoAPMessage_zero\<lparr>header := \<lparr>version = 1, msg_type = 0, tokenlen = 2, msg_code = 1, msgid = 0x1234\<rparr>,
     token := [7, 8, 0, 0, 0, 0, 0, 0],
     options := \<lparr>opt_num = 11, opt_len = 3, opt_val = Some [115, 121, 115]\<rparr>
                # \<lparr>opt_num = 50, opt_len = 1, opt_val = Some [9]\<rparr> # replicate 10 no_option,
     optcount := 2, payloadlen := 2, payload := Some [123, 125]\<rparr>"

lemma coap_ok_test: "coap_ok test_coap"
  by code_simp

theorem coap_round_trip_witness:
  "\<exists>n m'. CoAPSerialize_Message (Some test_coap) (Some (replicate 20 0)) 20 = Some (int n, Some (coap_bytes test_coap @ drop n (replicate 20 0)))
     \<and> CoAPDeserialize_Message (Some CoAPMessage_zero) (Some (coap_bytes test_coap)) (int n) = Some (COAP_SUCCESS, Some m')
     \<and> map opt_content (sent_options m') = [(11, [115, 121, 115]), (61, [9])]"
proof -
  have "length (coap_bytes test_coap) = 16" by code_simp
  moreover have "numbered 0 (sent_options test_coap) = [(11, [115, 121, 115]), (61, [9])]" by code_simp
  moreover have "length (token CoAPMessage_zero) = 8" "length (options CoAPMessage_zero) = 12"
    "payloadlen test_coap = 2"
    by (simp_all add: CoAPMessage_zero_def test_coap_def)
  ultimately show ?thesis
    using coap_round_trip [OF coap_ok_test, of 20 "replicate 20 0" CoAPMessage_zero "[]"] by auto
qed

section \<open>From the options that were added to the options that are found\<close>

text \<open>A client that adds options one after the other and gives up at the first failure.\<close>

fun add_options :: "(u16 \<times> bytes) list \<Rightarrow> CoAPMessage \<Rightarrow> CoAPMessage option" where
  "add_options [] m = Some m"
| "add_options ((num, d) # opts) m =
     do { (rc, m) \<leftarrow> CoAPStrOption_add True num d (of_nat (length d)) m;
          if rc = COAP_SUCCESS then add_options opts m else None }"

lemma numbered_append:
  "numbered d (xs @ ys) = numbered d xs @ numbered (d + sum_list (map opt_num xs)) ys"
  by (induction d xs rule: numbered.induct) (simp_all add: add.assoc)

definition options_only :: "CoAPMessage \<Rightarrow> CoAPMessage \<Rightarrow> bool" where
  "options_only m m' \<longleftrightarrow> header m' = header m \<and> token m' = token m \<and> payloadlen m' = payloadlen m
     \<and> payload m' = payload m"

lemma option_updates:
  "(opt :: CoAPMsgOption)\<lparr>opt_num := a, opt_len := n, opt_val := v\<rparr> = \<lparr>opt_num = a, opt_len = n, opt_val = v\<rparr>"
  by (cases opt) simp

lemma add_option:
  assumes "unat (optcount m) < 12" and "length (options m) = 12" and "length d < 65536"
    and "ucast (optdelta m) = sum_list (map opt_num (sent_options m))" and "num < 256"
  shows "\<exists>m'. CoAPStrOption_add True num d (of_nat (length d)) m = Some (COAP_SUCCESS, m')
       \<and> unat (optcount m') = Suc (unat (optcount m)) \<and> length (options m') = 12
       \<and> sent_options m' = sent_options m @ [\<lparr>opt_num = num - ucast (optdelta m), opt_len = of_nat (length d), opt_val = Some d\<rparr>]
       \<and> ucast (optdelta m') = sum_list (map opt_num (sent_options m'))
       \<and> numbered 0 (sent_options m') = numbered 0 (sent_options m) @ [(num, d)]
       \<and> options_only m m'"
proof -
  let ?i = "unat (optcount m)"
  let ?o = "\<lparr>opt_num = num - ucast (optdelta m), opt_len = of_nat (length d), opt_val = Some d\<rparr>"
  let ?m' = "m\<lparr>options := (options m)[?i := ?o], optdelta := ucast num, optcount := optcount m + 1\<rparr>"
  have run: "CoAPStrOption_add True num d (of_nat (length d)) m = Some (COAP_SUCCESS, ?m')"
    using assms(1-3) by (simp add: CoAPStrOption_add_def new_option_def close_option_def mem_slice_def unat_u16
        option_updates Let_def)
  have cnt: "unat (optcount m + 1) = Suc ?i"
    using assms(1) by (simp add: unat_word_ariths)
  have sent: "sent_options ?m' = sent_options m @ [?o]"
    using assms(1,2) cnt by (simp add: take_Suc_conv_app_nth)
  have num: "(ucast (ucast num :: u8) :: u16) = num"
    using assms(5) by (intro ucast_u8(2)) (simp add: word_less_nat_alt)
  have sum: "sum_list (map opt_num (sent_options ?m')) = num"
    unfolding sent using assms(4) by simp
  have data: "opt_data ?o = Some d"
    using assms(3) by (auto simp: opt_data_def mem_slice_def unat_u16 word_unat_eq_iff)
  have "numbered 0 (sent_options ?m') = numbered 0 (sent_options m) @ [(num, d)]"
    unfolding sent numbered_append using data assms(4) [symmetric] by simp
  with run cnt sent sum num assms(2) show ?thesis by (intro exI [of _ ?m']) (auto simp: options_only_def)
qed

lemma add_options_result:
  assumes "unat (optcount m) + length opts \<le> 12" and "length (options m) = 12"
    and "\<forall>(num, d) \<in> set opts. num < 256 \<and> length d < 65536"
    and "ucast (optdelta m) = sum_list (map opt_num (sent_options m))"
  shows "\<exists>m'. add_options opts m = Some m'
       \<and> numbered 0 (sent_options m') = numbered 0 (sent_options m) @ opts
       \<and> length (options m') = 12 \<and> unat (optcount m') = unat (optcount m) + length opts
       \<and> (list_all (\<lambda>opt. opt_data opt \<noteq> None) (sent_options m) \<longrightarrow> list_all (\<lambda>opt. opt_data opt \<noteq> None) (sent_options m'))
       \<and> options_only m m'"
  using assms
proof (induction opts arbitrary: m)
  case (Cons opt opts)
  obtain num d where opt: "opt = (num, d)" by force
  have "unat (optcount m) < 12" "num < 256" "length d < 65536" using Cons.prems(1,3) opt by auto
  from add_option [OF this(1) Cons.prems(2) this(3) Cons.prems(4) this(2)]
  obtain m1 where m1: "CoAPStrOption_add True num d (of_nat (length d)) m = Some (COAP_SUCCESS, m1)"
    "unat (optcount m1) = Suc (unat (optcount m))" "length (options m1) = 12"
    "sent_options m1 = sent_options m @ [\<lparr>opt_num = num - ucast (optdelta m), opt_len = of_nat (length d), opt_val = Some d\<rparr>]"
    "ucast (optdelta m1) = sum_list (map opt_num (sent_options m1))"
    "numbered 0 (sent_options m1) = numbered 0 (sent_options m) @ [(num, d)]"
    "options_only m m1" by blast
  obtain m2 where m2: "add_options opts m1 = Some m2"
    "numbered 0 (sent_options m2) = numbered 0 (sent_options m1) @ opts" "length (options m2) = 12"
    "unat (optcount m2) = unat (optcount m1) + length opts"
    "list_all (\<lambda>opt. opt_data opt \<noteq> None) (sent_options m1) \<longrightarrow> list_all (\<lambda>opt. opt_data opt \<noteq> None) (sent_options m2)"
    "options_only m1 m2"
    using Cons.IH [of m1] Cons.prems(1,3) m1(2,3,5) opt by auto
  have "opt_data \<lparr>opt_num = num - ucast (optdelta m), opt_len = of_nat (length d), opt_val = Some d\<rparr> \<noteq> None"
    using \<open>length d < 65536\<close> by (auto simp: opt_data_def mem_slice_def unat_u16)
  moreover have "options_only m m2" using m1(7) m2(6) by (simp add: options_only_def)
  ultimately show ?case using m1 m2 opt by (intro exI [of _ m2]) auto
qed (simp add: options_only_def)

lemma find_option_found:
  "n \<le> length opts \<Longrightarrow> find_option opts n num = Some (find (\<lambda>opt. opt_num opt = num) (take n opts))"
  by (induction opts n num rule: find_option.induct) auto

lemma find_content:
  "list_all (\<lambda>opt. opt_data opt \<noteq> None) opts \<Longrightarrow>
     (case find (\<lambda>opt. opt_num opt = num) opts of
        None \<Rightarrow> map_of (map opt_content opts) num = None
      | Some opt \<Rightarrow> map_of (map opt_content opts) num = opt_data opt \<and> opt_data opt \<noteq> None)"
  by (induction opts) (auto simp: opt_content_def split: option.split)

lemma get_option:
  assumes "length (options m) = 12" and "unat (optcount m) \<le> 12"
    and "list_all (\<lambda>opt. opt_data opt \<noteq> None) (sent_options m)"
  shows "CoAPStrOption_get m num cap
       = (case map_of (map opt_content (sent_options m)) num of
            None \<Rightarrow> Some (COAP_ERROR_NOT_FOUND, [], cap)
          | Some d \<Rightarrow> if length d \<le> unat cap then Some (COAP_SUCCESS, d, of_nat (length d))
                      else Some (COAP_ERROR_INVALID_LENGTH, [], cap))"
proof -
  have found: "find_option (options m) (unat (optcount m)) num = Some (find (\<lambda>opt. opt_num opt = num) (sent_options m))"
    using assms(1,2) by (intro find_option_found) simp
  note content = find_content [OF assms(3), of num]
  show ?thesis
  proof (cases "find (\<lambda>opt. opt_num opt = num) (sent_options m)")
    case None
    with found content show ?thesis by (simp add: CoAPStrOption_get_def)
  next
    case (Some opt)
    then obtain d where d: "opt_data opt = Some d" "map_of (map opt_content (sent_options m)) num = Some d"
      using content by auto
    have "opt_len opt = of_nat (length d)" "unat (opt_len opt) = length d"
      using opt_data_length [OF d(1)] by simp_all
    with d Some found show ?thesis
      by (auto simp: CoAPStrOption_get_def word_le_nat_alt)
  qed
qed

text \<open>
  Property C21: what a sender adds is what a receiver finds. Up to 12 options with numbers
  below 256 (\<open>optdelta\<close> is one byte), added in any order to a message without options, are
  all accepted; and if the message fits, then after the transfer \<open>CoAPStrOption_get\<close> gives for
  every number the data of the first option added with it, or an error if there is none or
  the caller's buffer is too small.
\<close>

theorem coap_options_delivered:
  assumes "optcount m = 0" and "optdelta m = 0" and "length (options m) = COAP_MSG_MAX_OPTION_NUM"
    and "length opts \<le> COAP_MSG_MAX_OPTION_NUM" and "\<forall>(num, d) \<in> set opts. num < 256 \<and> length d < 65536"
    and "length (token m0) = COAP_MSG_MAX_TOKEN_LEN" and "length (options m0) = COAP_MSG_MAX_OPTION_NUM"
    and "payloadlen m = 0 \<Longrightarrow> tail \<noteq> [] \<and> hd tail \<noteq> 0xFF"
  shows "\<exists>m1. add_options opts m = Some m1 \<and> header m1 = header m
       \<and> (coap_ok m1 \<longrightarrow>
            (\<exists>m2. CoAPDeserialize_Message (Some m0) (Some (coap_bytes m1 @ tail)) (int (length (coap_bytes m1)))
                    = Some (COAP_SUCCESS, Some m2)
               \<and> (\<forall>num cap. CoAPStrOption_get m2 num cap
                    = (case map_of opts num of
                         None \<Rightarrow> Some (COAP_ERROR_NOT_FOUND, [], cap)
                       | Some d \<Rightarrow> if length d \<le> unat cap then Some (COAP_SUCCESS, d, of_nat (length d))
                                   else Some (COAP_ERROR_INVALID_LENGTH, [], cap)))))"
proof -
  obtain m1 where m1: "add_options opts m = Some m1" "numbered 0 (sent_options m1) = opts"
    "length (options m1) = 12" "options_only m m1"
    using add_options_result [of m opts] assms(1-5) by auto
  have fetched: "\<exists>m2. CoAPDeserialize_Message (Some m0) (Some (coap_bytes m1 @ tail)) (int (length (coap_bytes m1)))
        = Some (COAP_SUCCESS, Some m2) \<and> map opt_content (sent_options m2) = opts
      \<and> length (options m2) = 12 \<and> unat (optcount m2) \<le> 12 \<and> list_all (\<lambda>opt. opt_data opt \<noteq> None) (sent_options m2)"
    if "coap_ok m1"
    using deserialize_message [OF that assms(6,7), of tail] assms(8) m1(2,4) by (auto simp: options_only_def)
  have "\<exists>m2. CoAPDeserialize_Message (Some m0) (Some (coap_bytes m1 @ tail)) (int (length (coap_bytes m1)))
        = Some (COAP_SUCCESS, Some m2)
      \<and> (\<forall>num cap. CoAPStrOption_get m2 num cap
            = (case map_of opts num of
                 None \<Rightarrow> Some (COAP_ERROR_NOT_FOUND, [], cap)
               | Some d \<Rightarrow> if length d \<le> unat cap then Some (COAP_SUCCESS, d, of_nat (length d))
                           else Some (COAP_ERROR_INVALID_LENGTH, [], cap)))"
    if "coap_ok m1"
  proof -
    obtain m2 where m2: "CoAPDeserialize_Message (Some m0) (Some (coap_bytes m1 @ tail)) (int (length (coap_bytes m1)))
        = Some (COAP_SUCCESS, Some m2)" "map opt_content (sent_options m2) = opts"
      "length (options m2) = 12" "unat (optcount m2) \<le> 12" "list_all (\<lambda>opt. opt_data opt \<noteq> None) (sent_options m2)"
      using fetched [OF \<open>coap_ok m1\<close>] by blast
    from get_option [OF m2(3,4,5)] m2(1,2) show ?thesis by auto
  qed
  with m1 show ?thesis by (auto simp: options_only_def)
qed

definition test_options :: "(u16 \<times> bytes) list" where
  "test_options = [(11, [115, 121, 115]), (12, [50]), (11, [116])]"

definition test_request :: CoAPMessage where
  "test_request = CoAPMessage_zero\<lparr>header := \<lparr>version = 1, msg_type = 1, tokenlen = 0, msg_code = 2, msgid = 7\<rparr>,
     payloadlen := 1, payload := Some [123]\<rparr>"

theorem coap_options_delivered_witness:
  "\<exists>m1 m2. add_options test_options test_request = Some m1
     \<and> CoAPDeserialize_Message (Some CoAPMessage_zero) (Some (coap_bytes m1)) (int (length (coap_bytes m1)))
       = Some (COAP_SUCCESS, Some m2)
     \<and> CoAPStrOption_get m2 11 3 = Some (COAP_SUCCESS, [115, 121, 115], 3)
     \<and> CoAPStrOption_get m2 11 2 = Some (COAP_ERROR_INVALID_LENGTH, [], 2)
     \<and> CoAPStrOption_get m2 60 2 = Some (COAP_ERROR_NOT_FOUND, [], 2)"
proof -
  have "case add_options test_options test_request of None \<Rightarrow> False | Some m1 \<Rightarrow> coap_ok m1"
    by code_simp
  moreover have "map_of test_options 11 = Some [115, 121, 115]" "map_of test_options 60 = None"
    by (simp_all add: test_options_def)
  moreover have "optcount test_request = 0" "optdelta test_request = 0" "length (options test_request) = 12"
    "length test_options \<le> 12" "\<forall>(num, d) \<in> set test_options. num < 256 \<and> length d < 65536"
    "length (token CoAPMessage_zero) = 8" "length (options CoAPMessage_zero) = 12" "payloadlen test_request \<noteq> 0"
    by (simp_all add: test_request_def test_options_def CoAPMessage_zero_def)
  ultimately obtain m1 m2 where "add_options test_options test_request = Some m1"
    "CoAPDeserialize_Message (Some CoAPMessage_zero) (Some (coap_bytes m1)) (int (length (coap_bytes m1)))
       = Some (COAP_SUCCESS, Some m2)"
    "\<forall>num cap. CoAPStrOption_get m2 num cap
       = (case map_of test_options num of
            None \<Rightarrow> Some (COAP_ERROR_NOT_FOUND, [], cap)
          | Some d \<Rightarrow> if length d \<le> unat cap then Some (COAP_SUCCESS, d, of_nat (length d))
                      else Some (COAP_ERROR_INVALID_LENGTH, [], cap))"
    using coap_options_delivered [of test_request test_options CoAPMessage_zero "[]"] by auto
  then show ?thesis by (intro exI [of _ m1] exI [of _ m2]) (simp add: test_options_def)
qed

section \<open>Datagrams that are not taken apart correctly\<close>

lemma token_overflow:
  assumes "length (token m0) = COAP_MSG_MAX_TOKEN_LEN" and "8 < unat (b AND 0x0F)" and "4 \<le> n"
  shows "CoAPDeserialize_Message (Some m0) (Some (b # buf)) n = None"
proof (rule ccontr)
  assume "CoAPDeserialize_Message (Some m0) (Some (b # buf)) n \<noteq> None"
  then obtain m1 k m2 where "CoAPDeserialize_Header m0 (b # buf) 0 = Some (k, m1)"
    "CoAPDeserialize_Token m1 (b # buf) (nat k) = Some m2"
    using assms(3) by (auto simp: CoAPDeserialize_Message_def Let_def bind_eq_Some_conv)
  then show False
    using assms(1,2)
    by (auto simp: CoAPDeserialize_Header_def CoAPDeserialize_Token_def Let_def bind_eq_Some_conv rd_Cons put_def
        dest!: mem_slice_length split: if_splits)
qed

lemma options_overflow:
  assumes "length (token m0) = COAP_MSG_MAX_TOKEN_LEN"
    and "list_all (\<lambda>opt. opt_data opt \<noteq> None \<and> length (opt_bytes opt) < 65536) opts"
    and "COAP_MSG_MAX_OPTION_NUM < length opts"
    and "version h < 4" and "msg_type h < 4" and "unat (tokenlen h) \<le> 8" and "length t = unat (tokenlen h)"
    and "int (4 + length t + length (concat (map opt_bytes opts))) \<le> n"
  shows "CoAPDeserialize_Message (Some m0) (Some (header_bytes h @ t @ concat (map opt_bytes opts) @ rest)) n = None"
proof -
  let ?Q = "concat (map opt_bytes opts)"
  let ?buf = "header_bytes h @ t @ ?Q @ rest"
  have H: "length (header_bytes h) = 4" by (simp add: header_bytes_def)
  have header: "CoAPDeserialize_Header m0 ?buf 0 = Some (4, m0\<lparr>header := h\<rparr>)"
    using deserialize_header [of "m0\<lparr>header := h\<rparr>" m0 "t @ ?Q @ rest"] assms(4-6) by simp
  have token: "CoAPDeserialize_Token (m0\<lparr>header := h\<rparr>) ?buf 4
      = Some (int (length t), m0\<lparr>header := h, token := t @ drop (length t) (token m0)\<rparr>)"
    using put_at [of t "token m0" "[]"] H assms(1,6,7)
    by (simp add: CoAPDeserialize_Token_def Let_def mem_slice_def)
  have "deserialize_options_loop COAP_MSG_MAX_OPTION_NUM ?buf (4 + length t) 0 (n - 4 - int (length t)) 0 = None"
    using assms(2,3,8) H by (intro too_many_options [of opts _ _ _ rest]) auto
  with header token show ?thesis
    using assms(8) by (simp add: CoAPDeserialize_Message_def CoAPDeserialize_Options_def)
qed

lemma payload_behind:
  assumes "coap_ok m" and "length (token m0) = COAP_MSG_MAX_TOKEN_LEN" and "length (options m0) = COAP_MSG_MAX_OPTION_NUM"
    and "payloadlen m = 0"
  shows "CoAPDeserialize_Message (Some m0) (Some (coap_bytes m)) (int (length (coap_bytes m))) = None"
    and "\<exists>m'. CoAPDeserialize_Message (Some m0) (Some (coap_bytes m @ 0xFF # rest)) (int (length (coap_bytes m)))
           = Some (COAP_SUCCESS, Some m') \<and> payloadlen m' = 65535"
proof -
  have L: "payload_bytes m = []" using assms(4) by (simp add: payload_bytes_def)
  show "CoAPDeserialize_Message (Some m0) (Some (coap_bytes m)) (int (length (coap_bytes m))) = None"
    using deserialize_to_payload [OF assms(1-3), of "[]"] deserialize_payload(1) [OF assms(1), of "[]"] L
    by (auto simp: CoAPDeserialize_Payload_def rd_def)
  show "\<exists>m'. CoAPDeserialize_Message (Some m0) (Some (coap_bytes m @ 0xFF # rest)) (int (length (coap_bytes m)))
           = Some (COAP_SUCCESS, Some m') \<and> payloadlen m' = 65535"
    using deserialize_to_payload [OF assms(1-3), of "0xFF # rest"] deserialize_payload(1) [OF assms(1), of "0xFF # rest"] L
    by (auto simp: CoAPDeserialize_Payload_def rd_Cons)
qed

lemma deserialize_result:
  "if k < 4 then CoAPDeserialize_Message (Some m0) (Some buf) k = Some (COAP_ERROR_INVALID_LENGTH, Some m0)
   else case CoAPDeserialize_Message (Some m0) (Some buf) k of None \<Rightarrow> True | Some (rc, _) \<Rightarrow> rc = COAP_SUCCESS"
  by (auto simp: CoAPDeserialize_Message_def Let_def bind_eq_Some_conv split: option.split)

text \<open>
  Property C30: what the deserializer checks is the length of the header and nothing else: a
  datagram of fewer than four bytes is refused with \<open>COAP_ERROR_INVALID_LENGTH\<close>, and for
  every longer one, whatever its bytes, the result is either success or not defined by C. Not
  defined are three of them: a token length above 8 makes \<open>memcpy\<close> overrun \<open>token\<close>; a
  thirteenth option is written behind \<open>options\<close>; a datagram without payload makes it read
  the byte behind the datagram, which is outside the object when the buffer ends there, and
  when it happens to be 0xFF the message gets a payload of 65535 bytes.
\<close>

theorem coap_malformed:
  assumes "length (token m0) = COAP_MSG_MAX_TOKEN_LEN" and "length (options m0) = COAP_MSG_MAX_OPTION_NUM"
    and "8 < unat (b AND 0x0F)"
    and "list_all (\<lambda>opt. opt_data opt \<noteq> None \<and> length (opt_bytes opt) < 65536) opts"
    and "COAP_MSG_MAX_OPTION_NUM < length opts"
    and "coap_ok m" and "payloadlen m = 0"
    and "int (4 + unat (tokenlen (header m)) + length (concat (map opt_bytes opts))) \<le> n"
  shows "(if k < 4 then CoAPDeserialize_Message (Some m0) (Some buf) k = Some (COAP_ERROR_INVALID_LENGTH, Some m0)
          else case CoAPDeserialize_Message (Some m0) (Some buf) k of
                 None \<Rightarrow> True | Some (rc, _) \<Rightarrow> rc = COAP_SUCCESS)
       \<and> CoAPDeserialize_Message (Some m0) (Some (b # buf)) n = None
       \<and> CoAPDeserialize_Message (Some m0)
           (Some (header_bytes (header m) @ take (unat (tokenlen (header m))) (token m)
                  @ concat (map opt_bytes opts) @ rest)) n = None
       \<and> CoAPDeserialize_Message (Some m0) (Some (coap_bytes m)) (int (length (coap_bytes m))) = None
       \<and> (\<exists>m'. CoAPDeserialize_Message (Some m0) (Some (coap_bytes m @ 0xFF # rest)) (int (length (coap_bytes m)))
                 = Some (COAP_SUCCESS, Some m') \<and> payloadlen m' = 65535)"
proof (intro conjI)
  show "if k < 4 then CoAPDeserialize_Message (Some m0) (Some buf) k = Some (COAP_ERROR_INVALID_LENGTH, Some m0)
        else case CoAPDeserialize_Message (Some m0) (Some buf) k of
               None \<Rightarrow> True | Some (rc, _) \<Rightarrow> rc = COAP_SUCCESS"
    by (rule deserialize_result)
  show "CoAPDeserialize_Message (Some m0) (Some (b # buf)) n = None"
    using assms(8) unfolding of_nat_add by (intro token_overflow [OF assms(1,3)]) linarith
  show "CoAPDeserialize_Message (Some m0)
      (Some (header_bytes (header m) @ take (unat (tokenlen (header m))) (token m)
             @ concat (map opt_bytes opts) @ rest)) n = None"
    using assms(6,8) by (intro options_overflow [OF assms(1,4,5)]) (simp_all add: coap_ok_def)
qed (use payload_behind [OF assms(6,1,2,7)] in blast)+

theorem coap_malformed_witness:
  "CoAPDeserialize_Message (Some CoAPMessage_zero) (Some [0x49, 1, 0, 7, 1, 2, 3, 4, 5, 6, 7, 8, 9]) 17 = None
   \<and> CoAPDeserialize_Message (Some CoAPMessage_zero) (Some ([0x40, 1, 0, 7] @ replicate 13 0)) 17 = None
   \<and> CoAPDeserialize_Message (Some CoAPMessage_zero) (Some [0x40, 1, 0, 7]) 4 = None"
proof -
  define m where "m = CoAPMessage_zero\<lparr>header := \<lparr>version = 1, msg_type = 0, tokenlen = 0, msg_code = 1, msgid = 7\<rparr>\<rparr>"
  have ok: "coap_ok m" "coap_bytes m = [0x40, 1, 0, 7]" "header_bytes (header m) = [0x40, 1, 0, 7]"
    unfolding m_def by code_simp+
  have bare: "opt_bytes no_option = [0]" "opt_data no_option = Some []"
    by (simp_all add: opt_bytes_def no_option_def opt_head_def opt_ext_def opt_nibble_def opt_data_def)
  have single: "concat (replicate k [x]) = replicate k x" for k and x :: u8 by (induction k) simp_all
  have opts: "concat (map opt_bytes (replicate 13 no_option)) = replicate 13 0"
    "list_all (\<lambda>opt. opt_data opt \<noteq> None \<and> length (opt_bytes opt) < 65536) (replicate 13 no_option)"
    using single by (simp_all add: bare list_all_iff)
  have long: "8 < unat ((0x49 :: u8) AND 0x0F)" by simp
  have small: "tokenlen (header m) = 0" "payloadlen m = 0"
    "length (token CoAPMessage_zero) = 8" "length (options CoAPMessage_zero) = 12"
    by (simp_all add: m_def CoAPMessage_zero_def)
  show ?thesis
    using coap_malformed [OF small(3,4) long opts(2) _ ok(1) small(2), of 17 0 "[1, 0, 7, 1, 2, 3, 4, 5, 6, 7, 8, 9]" "[]"] ok opts(1) small
    by simp
qed

end
