(* ===== verification/Coap_Context.thy ===== *)
theory Coap_Context
  imports Coap_Packet Infra_Digest
begin

text \<open>
  The state of the local CoAP server: addresses (\<open>server/CoAPPlatform.c\<close>), the context with its
  lists (\<open>server/CoAPInternal.h\<close>), the platform it runs on, and the resources
  (\<open>server/CoAPResource.c\<close>).
\<close>

section \<open>Addresses\<close>

definition is_digit :: "u8 \<Rightarrow> bool" where
  "is_digit c \<longleftrightarrow> 48 \<le> c \<and> c \<le> 57"

definition is_xdigit :: "u8 \<Rightarrow> bool" where
  "is_xdigit c \<longleftrightarrow> is_digit c \<or> (65 \<le> c \<and> c \<le> 70) \<or> (97 \<le> c \<and> c \<le> 102)"

definition is_lower :: "u8 \<Rightarrow> bool" where
  "is_lower c \<longleftrightarrow> 97 \<le> c \<and> c \<le> 122"

definition is_space :: "u8 \<Rightarrow> bool" where
  "is_space c \<longleftrightarrow> c = 32 \<or> (9 \<le> c \<and> c \<le> 13)"

text \<open>The digits of one part: its value and the rest of the string.\<close>

fun aton_digits :: "u32 \<Rightarrow> u32 \<Rightarrow> bytes \<Rightarrow> u32 \<times> bytes" where
  "aton_digits base val [] = (val, [])"
| "aton_digits base val (c # s) =
     (if is_digit c then aton_digits base (val * base + ucast (c - 48)) s
      else if base = 16 \<and> is_xdigit c
      then aton_digits base (push_bit 4 val OR (ucast c + 10 - (if is_lower c then 97 else 65))) s
      else (val, c # s))"

text \<open>One part with its prefix: \<open>0x\<close> is hexadecimal, \<open>0\<close> octal.\<close>

definition aton_part :: "bytes \<Rightarrow> (u32 \<times> bytes) option" where
  "aton_part s =
     (case s of
        [] \<Rightarrow> None
      | c # s' \<Rightarrow>
          if \<not> is_digit c then None
          else if c = 48
          then (case s' of
                  x # s'' \<Rightarrow> if x = 120 \<or> x = 88 then Some (aton_digits 16 0 s'') else Some (aton_digits 8 0 s')
                | [] \<Rightarrow> Some (aton_digits 8 0 s'))
          else Some (aton_digits 10 0 s))"

lemma aton_digits_shorter: "aton_digits base val s = (v, r) \<Longrightarrow> length r \<le> length s"
  by (induction base val s rule: aton_digits.induct) (auto split: if_splits)

lemma aton_part_shorter: "aton_part s = Some (v, r) \<Longrightarrow> length r < length s"
  by (auto simp: aton_part_def is_digit_def dest!: aton_digits_shorter split: list.splits if_splits)

text \<open>The address of the parts, the last one being \<open>val\<close>.\<close>

definition aton_address :: "u32 list \<Rightarrow> u32 \<Rightarrow> u32" where
  "aton_address parts val =
     (case parts of
        [] \<Rightarrow> val
      | [a] \<Rightarrow> if val > 0xFFFFFF then 0 else val OR push_bit 24 a
      | [a, b] \<Rightarrow> if val > 0xFFFF then 0 else val OR (push_bit 24 a OR push_bit 16 b)
      | [a, b, c] \<Rightarrow> if val > 0xFF then 0 else val OR (push_bit 24 a OR push_bit 16 b OR push_bit 8 c)
      | _ \<Rightarrow> val)"

function aton_parts :: "u32 list \<Rightarrow> bytes \<Rightarrow> u32" where
  "aton_parts parts s =
     (case aton_part s of
        None \<Rightarrow> 0
      | Some (val, r) \<Rightarrow>
          (case r of
             [] \<Rightarrow> aton_address parts val
           | c # r' \<Rightarrow> if c = 46 then (if 3 \<le> length parts then 0 else aton_parts (parts @ [val]) r')
                       else if \<not> is_space c then 0 else aton_address parts val))"
  by pat_completeness auto
termination
  by (relation "measure (\<lambda>(_, s). length s)") (auto dest: aton_part_shorter)

declare aton_parts.simps [simp del]

definition platform_aton :: "bytes \<Rightarrow> u32" where
  "platform_aton ip_str = aton_parts [] (c_str ip_str)"

definition platform_is_multicast :: "bytes \<Rightarrow> bool" where
  "platform_is_multicast ip_str =
     (let addr_in = platform_aton ip_str in 0xE00000FF < addr_in \<and> addr_in \<le> 0xEFFFFFFF)"

section \<open>The context\<close>

abbreviation "COAP_MSG_MAX_PDU_LEN \<equiv> 1280 :: nat"
abbreviation "COAP_MSG_MAX_PATH_LEN \<equiv> 128 :: nat"

abbreviation "COAP_OPTION_OBSERVE \<equiv> 6 :: u16"
abbreviation "COAP_OPTION_URI_PATH \<equiv> 11 :: u16"
abbreviation "COAP_OPTION_CONTENT_FORMAT \<equiv> 12 :: u16"
abbreviation "COAP_OPTION_MAXAGE \<equiv> 14 :: u16"
abbreviation "COAP_OPTION_ACCEPT \<equiv> 17 :: u16"

abbreviation "COAP_CT_APP_JSON \<equiv> 50 :: u32"

abbreviation "COAP_MSG_CODE_GET \<equiv> 1 :: u8"
abbreviation "COAP_MSG_CODE_POST \<equiv> 2 :: u8"
abbreviation "COAP_MSG_CODE_205_CONTENT \<equiv> 0x45 :: u8"
abbreviation "COAP_MSG_CODE_404_NOT_FOUND \<equiv> 0x84 :: u8"
abbreviation "COAP_MSG_CODE_405_METHOD_NOT_ALLOWED \<equiv> 0x85 :: u8"

abbreviation "COAP_ERROR_OBJ_ALREADY_EXIST \<equiv> 270 :: int"

text \<open>\<open>addr\<close> is an array of 16 bytes.\<close>

record NetworkAddr =
  addr :: bytes
  port :: u16

datatype path_type_t = PATH_NORMAL | PATH_FILTER

record CoAPResource =
  permission :: u16
  res_callback :: "nat option"
  res_ctype :: u32
  res_maxage :: u32
  res_path :: bytes
  filter_path :: bytes
  path_type :: path_type_t

text \<open>A resource is never removed, so its place in the list stands for its address.\<close>

record CoapObserver =
  obs_remote :: NetworkAddr
  obs_token :: bytes
  obs_tokenlen :: u8
  obs_ctype :: u8
  p_resource_of_interest :: nat
  observer_sequence_num :: u32
  obs_msg_type :: u8

record CoAPObservable =
  oc_remote :: NetworkAddr
  oc_token :: bytes
  oc_tokenlen :: u8
  oc_callback :: "nat option"
  oc_max_age :: u32
  oc_userdata :: nat

record CoAPSendNode =
  sn_header :: CoAPMsgHeader
  retrans_count :: u8
  sn_token :: bytes
  timeout :: u64
  timeout_val :: u16
  msglen :: u32
  sn_handler :: "nat option"
  sn_remote :: NetworkAddr
  sn_user :: nat
  sn_message :: bytes
  acked :: int
  sn_keep :: int

datatype CoAPReqResult = COAP_REQUEST_SUCCESS | COAP_RECV_RESP_TIMEOUT | COAP_RECV_RESP_SUC

text \<open>
  What the outside sees, in order: the datagrams given to the network with the network's
  answer, the calls of handlers and of the callbacks of resources. A callback is recorded and
  does not call back into the context: every critical section of the code is one step.
\<close>

datatype coap_observation =
    Written NetworkAddr bytes int
  | Handled nat CoAPReqResult nat NetworkAddr "CoAPMessage option"
  | Requested nat bytes NetworkAddr CoAPMessage

text \<open>
  The struct \<open>CoAPIntContext\<close> without its locks, buffers and socket; a list is kept with its
  \<open>count\<close> and \<open>maxcount\<close>. Behind it the number of platform calls made so far and the
  observations.
\<close>

record CoAPIntContext =
  message_id :: u16
  sendlist :: "CoAPSendNode list"
  send_count :: u8
  send_maxcount :: u8
  obsserver :: "CoapObserver list"
  obss_count :: u8
  obss_maxcount :: u8
  obsclient :: "CoAPObservable list"
  obsc_count :: u8
  obsc_maxcount :: u8
  resource :: "CoAPResource list"
  res_count :: u8
  res_maxcount :: u8
  coap_calls :: nat
  coap_seen :: "coap_observation list"

text \<open>The platform: the answer of its n-th call. Any functions are a platform.\<close>

record coap_platform =
  cp_malloc :: "nat \<Rightarrow> bool"
  cp_uptime :: "nat \<Rightarrow> u64"
  cp_sendto :: "nat \<Rightarrow> int"

definition coap_malloc :: "coap_platform \<Rightarrow> CoAPIntContext \<Rightarrow> bool \<times> CoAPIntContext" where
  "coap_malloc P ctx = (cp_malloc P (coap_calls ctx), ctx\<lparr>coap_calls := coap_calls ctx + 1\<rparr>)"

definition HAL_UptimeMs :: "coap_platform \<Rightarrow> CoAPIntContext \<Rightarrow> u64 \<times> CoAPIntContext" where
  "HAL_UptimeMs P ctx = (cp_uptime P (coap_calls ctx), ctx\<lparr>coap_calls := coap_calls ctx + 1\<rparr>)"

definition coap_observe :: "coap_observation \<Rightarrow> CoAPIntContext \<Rightarrow> CoAPIntContext" where
  "coap_observe ob ctx = ctx\<lparr>coap_seen := coap_seen ctx @ [ob]\<rparr>"

definition CoAPNetwork_write :: "coap_platform \<Rightarrow> NetworkAddr \<Rightarrow> bytes \<Rightarrow> CoAPIntContext \<Rightarrow> int \<times> CoAPIntContext" where
  "CoAPNetwork_write P remote data ctx =
     (let r = cp_sendto P (coap_calls ctx)
      in (r, coap_observe (Written remote data r) (ctx\<lparr>coap_calls := coap_calls ctx + 1\<rparr>)))"

text \<open>
  \<open>CoAPContext_create\<close> (0 stands for a default). The four tests: the memory for the context and
  for the receive buffer, the mutex, the network. A failure of the second or the third jumps to
  code that walks the lists before they are initialised (\<open>None\<close>); the others return NULL.
\<close>

definition CoAPContext_create ::
    "bool \<Rightarrow> bool \<Rightarrow> bool \<Rightarrow> bool \<Rightarrow> u8 \<Rightarrow> u8 \<Rightarrow> u8 \<Rightarrow> CoAPIntContext option option" where
  "CoAPContext_create ctx_ok recvbuf_ok mutex_ok network_ok p_send_maxcount p_obs_maxcount p_res_maxcount =
     (if \<not> ctx_ok then Some None
      else if \<not> recvbuf_ok \<or> \<not> mutex_ok then None
      else if \<not> network_ok then Some None
      else Some (Some
        \<lparr>message_id = 1, sendlist = [], send_count = 0,
         send_maxcount = (if p_send_maxcount \<noteq> 0 then p_send_maxcount else 8),
         obsserver = [], obss_count = 0, obss_maxcount = (if p_obs_maxcount = 0 then 8 else p_obs_maxcount),
         obsclient = [], obsc_count = 0, obsc_maxcount = (if p_obs_maxcount = 0 then 8 else p_obs_maxcount),
         resource = [], res_count = 0, res_maxcount = (if p_res_maxcount = 0 then 8 else p_res_maxcount),
         coap_calls = 0, coap_seen = []\<rparr>))"

section \<open>Resources\<close>

text \<open>Five bytes of the MD5 of the path; for an empty path \<open>outbuf\<close> keeps its zeros.\<close>

definition CoAPPathMD5_sum :: "bytes \<Rightarrow> bytes option" where
  "CoAPPathMD5_sum path =
     (if path = [] then Some (replicate 5 0)
      else do { md5 \<leftarrow> utils_md5 path (of_nat (length path)); mem_slice md5 0 5 })"

text \<open>\<open>strstr(s, "/#") != NULL\<close>\<close>

fun has_wildcard :: "bytes \<Rightarrow> bool" where
  "has_wildcard (a # b # s) = ((a = 47 \<and> b = 35) \<or> has_wildcard (b # s))"
| "has_wildcard _ = False"

definition CoAPResource_create ::
    "coap_platform \<Rightarrow> bytes \<Rightarrow> path_type_t \<Rightarrow> u16 \<Rightarrow> u32 \<Rightarrow> u32 \<Rightarrow> nat option \<Rightarrow> CoAPIntContext
      \<Rightarrow> (CoAPResource option \<times> CoAPIntContext) option" where
  "CoAPResource_create P path ty perm ctype maxage callback ctx =
     (if COAP_MSG_MAX_PATH_LEN \<le> length path then Some (None, ctx)
      else
        let (ok, ctx) = coap_malloc P ctx in
        if \<not> ok then Some (None, ctx)
        else if ty = PATH_NORMAL
        then do { md5sum \<leftarrow> CoAPPathMD5_sum path;
                  Some (Some \<lparr>permission = perm, res_callback = callback, res_ctype = ctype, res_maxage = maxage,
                              res_path = md5sum, filter_path = [], path_type = PATH_NORMAL\<rparr>, ctx) }
        else
          let (ok, ctx) = coap_malloc P ctx in
          if \<not> ok then Some (None, ctx)
          else Some (Some \<lparr>permission = perm, res_callback = callback, res_ctype = ctype, res_maxage = maxage,
                           res_path = replicate 5 0, filter_path = path, path_type = PATH_FILTER\<rparr>, ctx))"

text \<open>
  The loop of \<open>CoAPResource_register\<close>. For a filter of the same length, what should compare
  the paths is \<open>strncpy\<close>, which overwrites the caller's path and is never 0. The result:
  whether the path exists, the list, and the path.
\<close>

fun register_scan ::
    "path_type_t \<Rightarrow> bytes \<Rightarrow> u16 \<Rightarrow> u32 \<Rightarrow> u32 \<Rightarrow> nat option \<Rightarrow> bytes \<Rightarrow> CoAPResource list
      \<Rightarrow> bool \<times> CoAPResource list \<times> bytes" where
  "register_scan ty md5sum perm ctype maxage callback path [] = (False, [], path)"
| "register_scan ty md5sum perm ctype maxage callback path (node # nodes) =
     (if ty = PATH_NORMAL \<and> path_type node = PATH_NORMAL \<and> md5sum = res_path node
      then (True, node\<lparr>res_callback := callback, res_ctype := ctype, res_maxage := maxage, permission := perm\<rparr> # nodes, path)
      else
        let path = (if ty = PATH_FILTER \<and> path_type node = PATH_FILTER \<and> length path = length (filter_path node)
                    then filter_path node else path);
            (exist, nodes, path) = register_scan ty md5sum perm ctype maxage callback path nodes
        in (exist, node # nodes, path))"

definition CoAPResource_register ::
    "coap_platform \<Rightarrow> bytes \<Rightarrow> u16 \<Rightarrow> u32 \<Rightarrow> u32 \<Rightarrow> nat option \<Rightarrow> CoAPIntContext
      \<Rightarrow> (int \<times> CoAPIntContext) option" where
  "CoAPResource_register P path perm ctype maxage callback ctx =
     (if res_count ctx \<ge> res_maxcount ctx then Some (COAP_ERROR_DATA_SIZE, ctx)
      else
        let ty = (if has_wildcard path then PATH_FILTER else PATH_NORMAL) in
        do {
          md5sum \<leftarrow> (if ty = PATH_FILTER then Some (replicate 5 0) else CoAPPathMD5_sum path);
          let (exist, nodes, path) = register_scan ty md5sum perm ctype maxage callback path (resource ctx);
              ctx = ctx\<lparr>resource := nodes\<rparr>
          in if exist then Some (COAP_SUCCESS, ctx)
             else do {
               (newnode, ctx) \<leftarrow> CoAPResource_create P path ty perm ctype maxage callback ctx;
               Some (COAP_SUCCESS,
                     case newnode of None \<Rightarrow> ctx
                     | Some r \<Rightarrow> ctx\<lparr>resource := resource ctx @ [r], res_count := res_count ctx + 1\<rparr>) } })"

text \<open>The first resource whose checksum is the path's, or whose filter fits.\<close>

definition resource_fits :: "bytes \<Rightarrow> bytes \<Rightarrow> CoAPResource \<Rightarrow> bool" where
  "resource_fits path md5sum node \<longleftrightarrow>
     md5sum = res_path node
     \<or> (path_type node = PATH_FILTER \<and> 0 < length (filter_path node)
        \<and> take (length (filter_path node) - 1) path = take (length (filter_path node) - 1) (filter_path node))"

fun resource_index :: "(CoAPResource \<Rightarrow> bool) \<Rightarrow> nat \<Rightarrow> CoAPResource list \<Rightarrow> nat option" where
  "resource_index f i [] = None"
| "resource_index f i (r # rs) = (if f r then Some i else resource_index f (Suc i) rs)"

definition CoAPResourceByPath_get :: "bytes \<Rightarrow> CoAPIntContext \<Rightarrow> nat option option" where
  "CoAPResourceByPath_get path ctx =
     do { md5sum \<leftarrow> CoAPPathMD5_sum path; Some (resource_index (resource_fits path md5sum) 0 (resource ctx)) }"

end
