(* ===== verification/Coap_Message.thy ===== *)
theory Coap_Message
  imports Coap_Context
begin

text \<open>
  The message layer of the CoAP server: observed resources (\<open>server/CoAPObserve.c\<close>), sending with
  the list of messages to be retransmitted, the handling of received datagrams, timeouts and
  the cycle (\<open>server/CoAPMessage.c\<close>). The dumps are logging and left out. What the layer guarantees is in \<open>Coap_Message_Correct\<close>.
\<close>

section \<open>Message classes\<close>

definition CoAPAckMsg :: "CoAPMsgHeader \<Rightarrow> bool" where
  "CoAPAckMsg h \<longleftrightarrow> msg_code h = COAP_MSG_CODE_EMPTY_MESSAGE \<and> msg_type h = COAP_MESSAGE_TYPE_ACK"

definition CoAPRespMsg :: "CoAPMsgHeader \<Rightarrow> bool" where
  "CoAPRespMsg h \<longleftrightarrow> 0x40 \<le> msg_code h \<and> msg_code h < 0xc0"

definition CoAPPingMsg :: "CoAPMsgHeader \<Rightarrow> bool" where
  "CoAPPingMsg h \<longleftrightarrow> msg_code h = COAP_MSG_CODE_EMPTY_MESSAGE \<and> msg_type h = COAP_MESSAGE_TYPE_CON"

definition CoAPResetMsg :: "CoAPMsgHeader \<Rightarrow> bool" where
  "CoAPResetMsg h \<longleftrightarrow> msg_type h = COAP_MESSAGE_TYPE_RST"

definition CoAPCONRespMsg :: "CoAPMsgHeader \<Rightarrow> bool" where
  "CoAPCONRespMsg h \<longleftrightarrow> msg_code h = COAP_MSG_CODE_205_CONTENT \<and> msg_type h = COAP_MESSAGE_TYPE_CON"

definition CoAPReqMsg :: "CoAPMsgHeader \<Rightarrow> bool" where
  "CoAPReqMsg h \<longleftrightarrow> 1 \<le> msg_code h \<and> 32 > msg_code h"

abbreviation "NOKEEP \<equiv> 0 :: int"
abbreviation "KEEPING \<equiv> 1 :: int"
abbreviation "COAP_MAX_RETRY_COUNT \<equiv> 8 :: u8"
abbreviation "COAP_ACK_TIMEOUT \<equiv> 600 :: u16"

definition CoAPMessageId_gen :: "CoAPIntContext \<Rightarrow> u16 \<times> CoAPIntContext" where
  "CoAPMessageId_gen ctx =
     (if message_id ctx = 65535 then (1, ctx\<lparr>message_id := 1\<rparr>)
      else (message_id ctx, ctx\<lparr>message_id := message_id ctx + 1\<rparr>))"

definition CoAPMessageHandler_set :: "nat option \<Rightarrow> CoAPMessage option \<Rightarrow> int \<times> CoAPMessage option" where
  "CoAPMessageHandler_set h = on_message (\<lambda>m. (COAP_SUCCESS, m\<lparr>send_handler := h\<rparr>))"

section \<open>Tokens\<close>

text \<open>\<open>0 != len1 && len1 == len2 && 0 == memcmp(t1, t2, len)\<close> on two token arrays.\<close>

definition same_token :: "bytes \<Rightarrow> u8 \<Rightarrow> CoAPMessage \<Rightarrow> bool option" where
  "same_token tok n m =
     (if n \<noteq> 0 \<and> n = tokenlen (header m)
      then do { a \<leftarrow> mem_slice tok 0 (unat n); b \<leftarrow> mem_slice (token m) 0 (unat n); Some (a = b) }
      else Some False)"

text \<open>\<open>memcpy(token, message->token, message->header.tokenlen)\<close> into a zeroed array.\<close>

definition copy_token :: "CoAPMessage \<Rightarrow> bytes option" where
  "copy_token m = do { t \<leftarrow> mem_slice (token m) 0 (unat (tokenlen (header m)));
                       put (replicate COAP_MSG_MAX_TOKEN_LEN 0) 0 t }"

text \<open>The first element of a list that fits, taken apart: the ones before it, it, the ones behind.\<close>

fun split_first :: "('a \<Rightarrow> bool option) \<Rightarrow> 'a list \<Rightarrow> ('a list \<times> 'a \<times> 'a list) option option" where
  "split_first f [] = Some None"
| "split_first f (x # xs) =
     do { b \<leftarrow> f x;
          if b then Some (Some ([], x, xs))
          else do { r \<leftarrow> split_first f xs;
                    Some (case r of None \<Rightarrow> None | Some (ys, y, zs) \<Rightarrow> Some (x # ys, y, zs)) } }"

section \<open>Observed resources of other servers\<close>

definition CoAPObsClient_delete :: "CoAPMessage \<Rightarrow> CoAPIntContext \<Rightarrow> (int \<times> CoAPIntContext) option" where
  "CoAPObsClient_delete m ctx =
     (if msg_code (header m) \<noteq> COAP_MSG_CODE_GET then Some (COAP_SUCCESS, ctx)
      else do {
        p \<leftarrow> CoAPOption_present m COAP_OPTION_OBSERVE;
        if p \<noteq> COAP_SUCCESS then Some (COAP_SUCCESS, ctx)
        else do {
          (ret, observe_option) \<leftarrow> CoAPUintOption_get m COAP_OPTION_OBSERVE 0;
          if \<not> (ret = COAP_SUCCESS \<and> observe_option = 1) then Some (COAP_SUCCESS, ctx)
          else do {
            r \<leftarrow> split_first (\<lambda>node. same_token (oc_token node) (oc_tokenlen node) m) (obsclient ctx);
            Some (COAP_SUCCESS,
                  case r of None \<Rightarrow> ctx
                  | Some (ys, y, zs) \<Rightarrow> ctx\<lparr>obsclient := ys @ zs, obsc_count := obsc_count ctx - 1\<rparr>) } } })"

text \<open>
  \<open>CoAPObsClient_add\<close>: a response without the option ends an observation; with it, a first
  response (\<open>sendnode\<close> is the request) starts one and a later one is given to its callback.
\<close>

definition obsclient_notified :: "CoAPMessage \<Rightarrow> NetworkAddr \<Rightarrow> CoAPIntContext \<Rightarrow> CoAPIntContext option" where
  "obsclient_notified m remote ctx =
     do { r \<leftarrow> split_first (\<lambda>node. same_token (oc_token node) (oc_tokenlen node) m) (obsclient ctx);
          case r of
            None \<Rightarrow> Some ctx
          | Some (ys, node, zs) \<Rightarrow> do {
              (_, age) \<leftarrow> CoAPUintOption_get m COAP_OPTION_MAXAGE (oc_max_age node);
              let ctx = ctx\<lparr>obsclient := ys @ node\<lparr>oc_max_age := age\<rparr> # zs\<rparr> in
              Some (case oc_callback node of
                      None \<Rightarrow> ctx
                    | Some f \<Rightarrow> coap_observe (Handled f COAP_REQUEST_SUCCESS (oc_userdata node) remote (Some m)) ctx) } }"

definition obsclient_started ::
    "coap_platform \<Rightarrow> CoAPMessage \<Rightarrow> NetworkAddr \<Rightarrow> CoAPSendNode \<Rightarrow> CoAPIntContext \<Rightarrow> CoAPIntContext option" where
  "obsclient_started P m remote sendnode ctx =
     do { r \<leftarrow> split_first (\<lambda>node. same_token (oc_token node) (oc_tokenlen node) m) (obsclient ctx);
          if r = None \<and> obsc_count ctx < obsc_maxcount ctx
          then
            let (ok, ctx) = coap_malloc P ctx in
            if \<not> ok then Some ctx
            else do {
              t \<leftarrow> copy_token m;
              (_, age) \<leftarrow> CoAPUintOption_get m COAP_OPTION_MAXAGE 0;
              Some (ctx\<lparr>obsclient := obsclient ctx @
                          [\<lparr>oc_remote = remote, oc_token = t, oc_tokenlen = tokenlen (header m),
                            oc_callback = sn_handler sendnode, oc_max_age = age, oc_userdata = sn_user sendnode\<rparr>],
                        obsc_count := obsc_count ctx + 1\<rparr>) }
          else Some ctx }"

definition CoAPObsClient_add ::
    "coap_platform \<Rightarrow> CoAPMessage \<Rightarrow> NetworkAddr \<Rightarrow> CoAPSendNode option \<Rightarrow> CoAPIntContext \<Rightarrow> CoAPIntContext option" where
  "CoAPObsClient_add P m remote sendnode ctx =
     do { p \<leftarrow> CoAPOption_present m COAP_OPTION_OBSERVE;
          if p = COAP_SUCCESS
          then (case sendnode of None \<Rightarrow> obsclient_notified m remote ctx
                | Some node \<Rightarrow> obsclient_started P m remote node ctx)
          else do {
            r \<leftarrow> split_first (\<lambda>node. same_token (oc_token node) (oc_tokenlen node) m) (obsclient ctx);
            Some (case r of None \<Rightarrow> ctx
                  | Some (ys, y, zs) \<Rightarrow> ctx\<lparr>obsclient := ys @ zs, obsc_count := obsc_count ctx - 1\<rparr>) } }"

section \<open>Sending\<close>

text \<open>The node of \<open>CoAPMessageList_add\<close>.\<close>

definition new_node :: "NetworkAddr \<Rightarrow> CoAPMessage \<Rightarrow> bytes \<Rightarrow> u32 \<Rightarrow> u64 \<Rightarrow> bytes \<Rightarrow> CoAPSendNode" where
  "new_node remote m buffer len tick t =
     \<lparr>sn_header = header m,
      retrans_count = (if msg_type (header m) = COAP_MESSAGE_TYPE_CON then COAP_MAX_RETRY_COUNT else 0),
      sn_token = t,
      timeout = (if msg_type (header m) = COAP_MESSAGE_TYPE_CON then ucast COAP_ACK_TIMEOUT + tick
                 else ucast COAP_ACK_TIMEOUT * 4 + tick),
      timeout_val = COAP_ACK_TIMEOUT, msglen = len, sn_handler = send_handler m, sn_remote = remote,
      sn_user = user_data m, sn_message = buffer, acked = 0,
      sn_keep = (if platform_is_multicast (addr remote) \<or> keep_msg m = 1 then KEEPING else NOKEEP)\<rparr>"

definition CoAPMessageList_add ::
    "coap_platform \<Rightarrow> NetworkAddr \<Rightarrow> CoAPMessage \<Rightarrow> bytes \<Rightarrow> u32 \<Rightarrow> CoAPIntContext \<Rightarrow> (int \<times> CoAPIntContext) option" where
  "CoAPMessageList_add P remote m buffer len ctx =
     (let (ok, ctx) = coap_malloc P ctx in
      if \<not> ok then Some (COAP_ERROR_NULL, ctx)
      else
        let (tick, ctx) = HAL_UptimeMs P ctx in
        do { t \<leftarrow> copy_token m;
             if send_count ctx \<ge> send_maxcount ctx then Some (COAP_ERROR_DATA_SIZE, ctx)
             else Some (COAP_SUCCESS,
                        ctx\<lparr>sendlist := sendlist ctx @ [new_node remote m buffer len tick t],
                            send_count := send_count ctx + 1\<rparr>) })"

text \<open>\<open>msglen\<close> and \<open>readlen\<close> are unsigned short.\<close>

definition CoAPMessage_send ::
    "coap_platform \<Rightarrow> NetworkAddr \<Rightarrow> CoAPMessage \<Rightarrow> CoAPIntContext \<Rightarrow> (int \<times> CoAPIntContext) option" where
  "CoAPMessage_send P remote m ctx =
     do {
       n \<leftarrow> CoAPSerialize_MessageLength m;
       if COAP_MSG_MAX_PDU_LEN < unat n then Some (COAP_ERROR_DATA_SIZE, ctx)
       else
         let (ok, ctx) = coap_malloc P ctx in
         if \<not> ok then Some (COAP_ERROR_NULL, ctx)
         else do {
           (n, buff) \<leftarrow> CoAPSerialize_Message (Some m) (Some (replicate (unat n) 0)) n;
           let n = (word_of_int n :: u16); buff = the buff in
           do {
             (_, ctx) \<leftarrow> CoAPObsClient_delete m ctx;
             data \<leftarrow> mem_slice buff 0 (unat n);
             let (readlen, ctx) = CoAPNetwork_write P remote data ctx in
             if n = (word_of_int readlen :: u16)
             then if CoAPReqMsg (header m) \<or> CoAPCONRespMsg (header m)
                  then CoAPMessageList_add P remote m buff (ucast n) ctx
                  else Some (COAP_SUCCESS, ctx)
             else Some (COAP_ERROR_WRITE_FAILED, ctx) } } }"

text \<open>\<open>CoAPMessage_cancel\<close> and \<open>CoAPMessageId_cancel\<close>: every node with the identifier goes.\<close>

definition CoAPMessageId_cancel :: "u16 \<Rightarrow> CoAPIntContext \<Rightarrow> int \<times> CoAPIntContext" where
  "CoAPMessageId_cancel i ctx =
     (let gone = filter (\<lambda>node. msgid (sn_header node) = i) (sendlist ctx)
      in (COAP_SUCCESS, ctx\<lparr>sendlist := filter (\<lambda>node. msgid (sn_header node) \<noteq> i) (sendlist ctx),
                            send_count := send_count ctx - of_nat (length gone)\<rparr>))"

definition CoAPMessage_cancel :: "CoAPMessage \<Rightarrow> CoAPIntContext \<Rightarrow> int \<times> CoAPIntContext" where
  "CoAPMessage_cancel m ctx = CoAPMessageId_cancel (msgid (header m)) ctx"

text \<open>A message that is built by \<open>CoAPMessage_init\<close> and setters.\<close>

definition init_message :: CoAPMessage where
  "init_message = the (snd (CoAPMessage_init (Some CoAPMessage_zero)))"

definition set_message :: "(CoAPMessage option \<Rightarrow> int \<times> CoAPMessage option) \<Rightarrow> CoAPMessage \<Rightarrow> CoAPMessage" where
  "set_message f m = the (snd (f (Some m)))"

definition CoAPAckMessage_send :: "coap_platform \<Rightarrow> NetworkAddr \<Rightarrow> u16 \<Rightarrow> CoAPIntContext \<Rightarrow> (int \<times> CoAPIntContext) option" where
  "CoAPAckMessage_send P remote i ctx =
     CoAPMessage_send P remote (set_message (CoAPMessageId_set i) init_message) ctx"

definition CoAPRequestMessage_ack_send :: "coap_platform \<Rightarrow> NetworkAddr \<Rightarrow> u16 \<Rightarrow> CoAPIntContext \<Rightarrow> (int \<times> CoAPIntContext) option" where
  "CoAPRequestMessage_ack_send P remote i ctx =
     CoAPMessage_send P remote (set_message (CoAPMessageId_set i) init_message) ctx"

definition CoAPRestMessage_send :: "coap_platform \<Rightarrow> NetworkAddr \<Rightarrow> u16 \<Rightarrow> CoAPIntContext \<Rightarrow> (int \<times> CoAPIntContext) option" where
  "CoAPRestMessage_send P remote i ctx =
     CoAPMessage_send P remote
       (set_message (CoAPMessageId_set i) (set_message (CoAPMessageType_set COAP_MESSAGE_TYPE_RST) init_message)) ctx"

definition CoAPErrRespMessage_send ::
    "coap_platform \<Rightarrow> NetworkAddr \<Rightarrow> CoAPMessage \<Rightarrow> u8 \<Rightarrow> CoAPIntContext \<Rightarrow> (int \<times> CoAPIntContext) option" where
  "CoAPErrRespMessage_send P remote m err_code ctx =
     (let response = set_message (CoAPMessageId_set (msgid (header m))) (set_message (CoAPMessageCode_set err_code) init_message)
      in do {
        (_, r) \<leftarrow> CoAPMessageToken_set (Some (token m)) (tokenlen (header m)) (Some response);
        let response = set_message (CoAPMessageType_set
              (if msg_type (header m) = COAP_MESSAGE_TYPE_CON then COAP_MESSAGE_TYPE_ACK else msg_type (header m))) (the r)
        in CoAPMessage_send P remote response ctx })"

section \<open>Observers of this server's resources\<close>

definition same_remote :: "NetworkAddr \<Rightarrow> NetworkAddr \<Rightarrow> bool" where
  "same_remote a b \<longleftrightarrow> port a = port b \<and> addr a = addr b"

text \<open>\<open>junk\<close> is what the uninitialised variable \<open>observe\<close> holds; the option is or-ed into it.\<close>

definition CoAPObsServer_add ::
    "coap_platform \<Rightarrow> u32 \<Rightarrow> bytes \<Rightarrow> NetworkAddr \<Rightarrow> CoAPMessage \<Rightarrow> CoAPIntContext \<Rightarrow> (int \<times> CoAPIntContext) option" where
  "CoAPObsServer_add P junk path remote request ctx =
     do {
       res \<leftarrow> CoAPResourceByPath_get path ctx;
       (ret, observe) \<leftarrow> CoAPUintOption_get request COAP_OPTION_OBSERVE junk;
       case res of
         None \<Rightarrow> Some (COAP_ERROR_NOT_FOUND, ctx)
       | Some r \<Rightarrow>
           if \<not> (ret = COAP_SUCCESS \<and> observe = 0) then Some (COAP_ERROR_NOT_FOUND, ctx)
           else do {
             t \<leftarrow> copy_token request;
             known \<leftarrow> split_first (\<lambda>node. Some (p_resource_of_interest node = r \<and> same_remote (obs_remote node) remote))
                        (obsserver ctx);
             case known of
               Some (ys, node, zs) \<Rightarrow>
                 let n = unat (tokenlen (header request)) in
                 Some (COAP_ERROR_OBJ_ALREADY_EXIST,
                       ctx\<lparr>obsserver := ys @ node\<lparr>obs_token := take n t @ drop n (obs_token node),
                                                  obs_tokenlen := tokenlen (header request)\<rparr> # zs\<rparr>)
             | None \<Rightarrow>
                 let (ok, ctx) = coap_malloc P ctx in
                 if \<not> ok then Some (COAP_ERROR_MALLOC, ctx)
                 else do {
                   (_, acceptype) \<leftarrow> CoAPUintOption_get request COAP_OPTION_ACCEPT 0;
                   let obs = \<lparr>obs_remote = remote, obs_token = t, obs_tokenlen = tokenlen (header request),
                              obs_ctype = (if acceptype = 0 then ucast COAP_CT_APP_JSON else ucast acceptype),
                              p_resource_of_interest = r, observer_sequence_num = 0,
                              obs_msg_type = msg_type (header request)\<rparr>
                   in if obss_count ctx \<ge> obss_maxcount ctx then Some (COAP_ERROR_DATA_SIZE, ctx)
                      else Some (COAP_SUCCESS, ctx\<lparr>obsserver := obsserver ctx @ [obs], obss_count := obss_count ctx + 1\<rparr>) } } }"

definition CoapObsServer_delete :: "NetworkAddr \<Rightarrow> nat \<Rightarrow> CoAPIntContext \<Rightarrow> int \<times> CoAPIntContext" where
  "CoapObsServer_delete remote r ctx =
     (COAP_SUCCESS,
      case split_first (\<lambda>node. Some (p_resource_of_interest node = r \<and> same_remote (obs_remote node) remote)) (obsserver ctx) of
        Some (Some (ys, node, zs)) \<Rightarrow> ctx\<lparr>obsserver := ys @ zs, obss_count := obss_count ctx - 1\<rparr>
      | _ \<Rightarrow> ctx)"

definition CoapObsServerAll_delete :: "NetworkAddr \<Rightarrow> CoAPIntContext \<Rightarrow> int \<times> CoAPIntContext" where
  "CoapObsServerAll_delete remote ctx =
     (let gone = filter (\<lambda>node. same_remote (obs_remote node) remote) (obsserver ctx)
      in (COAP_SUCCESS, ctx\<lparr>obsserver := filter (\<lambda>node. \<not> same_remote (obs_remote node) remote) (obsserver ctx),
                            obss_count := obss_count ctx - of_nat (length gone)\<rparr>))"

text \<open>\<open>CoAPUintOption_add\<close> with the memory it asks for (none for 0).\<close>

definition add_uint_option :: "coap_platform \<Rightarrow> u16 \<Rightarrow> u32 \<Rightarrow> CoAPMessage \<Rightarrow> CoAPIntContext \<Rightarrow> CoAPMessage \<times> CoAPIntContext" where
  "add_uint_option P num d m ctx =
     (if COAP_MSG_MAX_OPTION_NUM \<le> unat (optcount m) \<or> d = 0 then (snd (CoAPUintOption_add True num d m), ctx)
      else let (ok, ctx) = coap_malloc P ctx in (snd (CoAPUintOption_add ok num d m), ctx))"

text \<open>
  The notifications of a resource. \<open>encrypt\<close> is the caller's function: its return code and
  the bytes it made of the payload.
\<close>

definition notify_message ::
    "coap_platform \<Rightarrow> u32 \<Rightarrow> (NetworkAddr \<Rightarrow> CoAPMessage \<Rightarrow> bytes \<Rightarrow> int \<times> bytes option \<times> int) option \<Rightarrow> bytes option \<Rightarrow> u16
      \<Rightarrow> CoapObserver \<Rightarrow> CoAPIntContext \<Rightarrow> (CoAPMessage \<times> CoAPIntContext) option" where
  "notify_message P maxage encrypt payld n node ctx =
     (let m = set_message (CoAPMessageCode_set COAP_MSG_CODE_205_CONTENT) (set_message (CoAPMessageType_set (obs_msg_type node)) init_message);
          (i, ctx) = CoAPMessageId_gen ctx;
          m = set_message (CoAPMessageHandler_set None) (set_message (CoAPMessageId_set i) m);
          m = set_message (CoAPMessageUserData_set (Some (p_resource_of_interest node))) m
      in do {
        (_, r) \<leftarrow> CoAPMessageToken_set (Some (obs_token node)) (obs_tokenlen node) (Some m);
        let (m, ctx) = add_uint_option P COAP_OPTION_OBSERVE (observer_sequence_num node) (the r) ctx;
            (m, ctx) = add_uint_option P COAP_OPTION_CONTENT_FORMAT (ucast (obs_ctype node)) m ctx;
            (m, ctx) = add_uint_option P COAP_OPTION_MAXAGE maxage m ctx
        in case encrypt of
             None \<Rightarrow> Some (set_message (CoAPMessagePayload_set payld n) m, ctx)
           | Some f \<Rightarrow> do {
               src \<leftarrow> payld;
               let (ret, dest, len) = f (obs_remote node) m src in
               Some (if ret = COAP_SUCCESS then set_message (CoAPMessagePayload_set dest (word_of_int len)) m else m, ctx) } })"

fun notify_loop ::
    "coap_platform \<Rightarrow> u32 \<Rightarrow> nat \<Rightarrow> (NetworkAddr \<Rightarrow> CoAPMessage \<Rightarrow> bytes \<Rightarrow> int \<times> bytes option \<times> int) option \<Rightarrow> bytes option \<Rightarrow> u16
      \<Rightarrow> nat \<Rightarrow> nat \<Rightarrow> int \<Rightarrow> CoAPIntContext \<Rightarrow> (int \<times> CoAPIntContext) option" where
  "notify_loop P maxage r encrypt payld n i 0 ret ctx = Some (ret, ctx)"
| "notify_loop P maxage r encrypt payld n i (Suc k) ret ctx =
     (let node = obsserver ctx ! i in
      if p_resource_of_interest node \<noteq> r then notify_loop P maxage r encrypt payld n (Suc i) k ret ctx
      else
        do {
          (m, ctx) \<leftarrow> notify_message P maxage encrypt payld n node ctx;
          let ctx = ctx\<lparr>obsserver := (obsserver ctx)[i := node\<lparr>observer_sequence_num := observer_sequence_num node + 1\<rparr>]\<rparr> in
          do { (ret, ctx) \<leftarrow> CoAPMessage_send P (obs_remote node) m ctx;
               notify_loop P maxage r encrypt payld n (Suc i) k ret ctx } })"

definition CoAPObsServer_notify ::
    "coap_platform \<Rightarrow> bytes \<Rightarrow> bytes option \<Rightarrow> u16
      \<Rightarrow> (NetworkAddr \<Rightarrow> CoAPMessage \<Rightarrow> bytes \<Rightarrow> int \<times> bytes option \<times> int) option
      \<Rightarrow> CoAPIntContext \<Rightarrow> (int \<times> CoAPIntContext) option" where
  "CoAPObsServer_notify P path payld n encrypt ctx =
     do { res \<leftarrow> CoAPResourceByPath_get path ctx;
          case res of None \<Rightarrow> Some (COAP_SUCCESS, ctx)
          | Some r \<Rightarrow> notify_loop P (res_maxage (resource ctx ! r)) r encrypt payld n 0 (length (obsserver ctx)) COAP_SUCCESS ctx }"

section \<open>Received messages\<close>

text \<open>An ACK or a reset: the first node with its identifier.\<close>

definition CoAPAckMessage_handle :: "CoAPMessage \<Rightarrow> CoAPIntContext \<Rightarrow> int \<times> CoAPIntContext" where
  "CoAPAckMessage_handle m ctx =
     (case split_first (\<lambda>node. Some (msgid (sn_header node) = msgid (header m))) (sendlist ctx) of
        Some (Some (ys, node, zs)) \<Rightarrow>
          let ctx = (if CoAPRespMsg (sn_header node)
                     then ctx\<lparr>sendlist := ys @ zs, send_count := send_count ctx - 1\<rparr>
                     else ctx\<lparr>sendlist := ys @ node\<lparr>acked := 1\<rparr> # zs\<rparr>)
          in (COAP_SUCCESS,
              case sn_handler node of None \<Rightarrow> ctx
              | Some f \<Rightarrow> coap_observe (Handled f COAP_RECV_RESP_SUC (sn_user node) (sn_remote node) None) ctx)
      | _ \<Rightarrow> (COAP_SUCCESS, ctx))"

text \<open>A response: the node with its token; what it returns is always the same.\<close>

definition CoAPRespMessage_handle ::
    "coap_platform \<Rightarrow> NetworkAddr \<Rightarrow> CoAPMessage \<Rightarrow> CoAPIntContext \<Rightarrow> (int \<times> CoAPIntContext) option" where
  "CoAPRespMessage_handle P remote m ctx =
     do {
       ctx \<leftarrow> (if msg_type (header m) = COAP_MESSAGE_TYPE_CON
              then map_option snd (CoAPAckMessage_send P remote (msgid (header m)) ctx) else Some ctx);
       r \<leftarrow> split_first (\<lambda>node. same_token (sn_token node) (tokenlen (sn_header node)) m) (sendlist ctx);
       case r of
         None \<Rightarrow> do { ctx \<leftarrow> CoAPObsClient_add P m remote None ctx; Some (COAP_ERROR_NOT_FOUND, ctx) }
       | Some (ys, node, zs) \<Rightarrow>
           let ctx = (if sn_keep node = NOKEEP
                      then ctx\<lparr>sendlist := ys @ zs, send_count := send_count ctx - 1\<rparr> else ctx);
               m = m\<lparr>user_data := sn_user node\<rparr>
           in (case sn_handler node of
                 None \<Rightarrow> Some (COAP_ERROR_NOT_FOUND, ctx)
               | Some f \<Rightarrow> do {
                   ctx \<leftarrow> CoAPObsClient_add P m remote (Some node) ctx;
                   Some (COAP_ERROR_NOT_FOUND,
                         coap_observe (Handled f COAP_REQUEST_SUCCESS (sn_user node) remote (Some m)) ctx) }) }"

text \<open>\<open>strncpy\<close>: up to a NUL, then zeros; an object that ends before is read beyond its end.\<close>

definition c_strncpy :: "bytes \<Rightarrow> nat \<Rightarrow> bytes option" where
  "c_strncpy src n =
     (let s = take n src; t = c_str s in
      if length t = n then Some t
      else if length t < length s then Some (t @ replicate (n - length t) 0) else None)"

text \<open>The path of a request in a zeroed array of 128 bytes; \<open>tmp\<close> is an index into it.\<close>

fun request_path :: "CoAPMsgOption list \<Rightarrow> nat \<Rightarrow> bytes \<Rightarrow> bytes option" where
  "request_path [] tmp path = Some path"
| "request_path (opt # opts) tmp path =
     (if opt_num opt = COAP_OPTION_URI_PATH \<and> COAP_MSG_MAX_PATH_LEN - 1 \<ge> tmp + unat (opt_len opt)
      then do {
        path \<leftarrow> put path tmp [47];
        v \<leftarrow> (if opt_len opt = 0 then Some [] else do { val \<leftarrow> opt_val opt; c_strncpy val (unat (opt_len opt)) });
        path \<leftarrow> put path (tmp + 1) v;
        request_path opts (tmp + 1 + unat (opt_len opt)) path }
      else request_path opts tmp path)"

text \<open>The string in an array; without a NUL in it, reading goes on behind it.\<close>

definition array_str :: "bytes \<Rightarrow> bytes option" where
  "array_str a = (if 0 \<in> set a then Some (c_str a) else None)"

definition CoAPRequestMessage_handle ::
    "coap_platform \<Rightarrow> NetworkAddr \<Rightarrow> CoAPMessage \<Rightarrow> CoAPIntContext \<Rightarrow> (int \<times> CoAPIntContext) option" where
  "CoAPRequestMessage_handle P remote m ctx =
     do {
       a \<leftarrow> request_path (take (unat (optcount m)) (options m)) 0 (replicate COAP_MSG_MAX_PATH_LEN 0);
       path \<leftarrow> array_str a;
       res \<leftarrow> CoAPResourceByPath_get path ctx;
       case res of
         None \<Rightarrow> CoAPErrRespMessage_send P remote m COAP_MSG_CODE_404_NOT_FOUND ctx
       | Some r \<Rightarrow>
           (case res_callback (resource ctx ! r) of
              None \<Rightarrow> CoAPErrRespMessage_send P remote m COAP_MSG_CODE_405_METHOD_NOT_ALLOWED ctx
            | Some f \<Rightarrow>
                if (ucast (permission (resource ctx ! r)) AND push_bit (unat (msg_code (header m)) - 1) (1 :: u32)) > 0
                then do {
                  ctx \<leftarrow> (if msg_type (header m) = COAP_MESSAGE_TYPE_CON
                         then map_option snd (CoAPRequestMessage_ack_send P remote (msgid (header m)) ctx) else Some ctx);
                  Some (COAP_SUCCESS, coap_observe (Requested f path remote m) ctx) }
                else CoAPErrRespMessage_send P remote m COAP_MSG_CODE_405_METHOD_NOT_ALLOWED ctx) }"

text \<open>A datagram. A datagram that cannot be read leaves the zeroed message, which is handled.\<close>

definition CoAPMessage_handle ::
    "coap_platform \<Rightarrow> NetworkAddr \<Rightarrow> bytes \<Rightarrow> u16 \<Rightarrow> CoAPIntContext \<Rightarrow> CoAPIntContext option" where
  "CoAPMessage_handle P remote buf datalen ctx =
     do {
       (_, r) \<leftarrow> CoAPDeserialize_Message (Some CoAPMessage_zero) (Some buf) (uint datalen);
       let m = the r in
       if CoAPAckMsg (header m) \<or> CoAPResetMsg (header m) then Some (snd (CoAPAckMessage_handle m ctx))
       else if CoAPRespMsg (header m) then map_option snd (CoAPRespMessage_handle P remote m ctx)
       else if CoAPPingMsg (header m) then map_option snd (CoAPRestMessage_send P remote (msgid (header m)) ctx)
       else if CoAPReqMsg (header m) then map_option snd (CoAPRequestMessage_handle P remote m ctx)
       else Some ctx }"

text \<open>
  \<open>CoAPMessage_process\<close> on what the network delivers until it has nothing more: each datagram
  with its sender, cut to and in a zeroed buffer. Datagrams from the own address \<open>ip\<close> are
  dropped (\<open>strncmp\<close> over the 17 bytes of \<open>ip_addr\<close>, of which an address has 16); an empty one
  ends the loop. A read that times out leaves the sender's address empty: while the own address
  is empty too, the loop goes on (\<open>None\<close>: it does not return).
\<close>

fun CoAPMessage_process ::
    "coap_platform \<Rightarrow> bytes \<Rightarrow> (NetworkAddr \<times> bytes) list \<Rightarrow> CoAPIntContext \<Rightarrow> CoAPIntContext option" where
  "CoAPMessage_process P ip [] ctx = (if c_str ip = [] then None else Some ctx)"
| "CoAPMessage_process P ip ((remote, datagram) # rest) ctx =
     (let data = take COAP_MSG_MAX_PDU_LEN datagram in
      if c_str ip = c_str (addr remote) then CoAPMessage_process P ip rest ctx
      else if data = [] then Some ctx
      else do {
        ctx \<leftarrow> CoAPMessage_handle P remote (data @ replicate (COAP_MSG_MAX_PDU_LEN - length data) 0)
                 (of_nat (length data)) ctx;
        CoAPMessage_process P ip rest ctx })"

section \<open>Retransmission and timeouts\<close>

text \<open>One node of \<open>Retansmit\<close> at the time \<open>tick\<close>.\<close>

definition retransmit_node :: "u64 \<Rightarrow> CoAPSendNode \<Rightarrow> CoAPSendNode" where
  "retransmit_node tick node =
     (let v = (word_of_int (uint (timeout_val node) * 3 div 2) :: u16); n = retrans_count node - 1
      in node\<lparr>timeout_val := v, retrans_count := n,
              timeout := (if n = 0 then tick + ucast COAP_ACK_TIMEOUT else tick + ucast v)\<rparr>)"

fun retransmit_loop ::
    "coap_platform \<Rightarrow> u64 \<Rightarrow> CoAPSendNode list \<Rightarrow> CoAPIntContext \<Rightarrow> CoAPSendNode list \<times> CoAPIntContext" where
  "retransmit_loop P tick [] ctx = ([], ctx)"
| "retransmit_loop P tick (node # nodes) ctx =
     (if timeout node > tick \<or> retrans_count node = 0
      then let (nodes, ctx) = retransmit_loop P tick nodes ctx in (node # nodes, ctx)
      else
        let ctx = (if acked node = 0 then snd (CoAPNetwork_write P (sn_remote node) (sn_message node) ctx) else ctx);
            (nodes, ctx) = retransmit_loop P tick nodes ctx
        in (retransmit_node tick node # nodes, ctx))"

definition Retansmit :: "coap_platform \<Rightarrow> CoAPIntContext \<Rightarrow> CoAPIntContext" where
  "Retansmit P ctx =
     (let (tick, ctx) = HAL_UptimeMs P ctx;
          (nodes, ctx) = retransmit_loop P tick (sendlist ctx) ctx
      in ctx\<lparr>sendlist := nodes\<rparr>)"

definition timed_out :: "u64 \<Rightarrow> CoAPSendNode \<Rightarrow> bool" where
  "timed_out tick node \<longleftrightarrow> sn_keep node = NOKEEP \<and> retrans_count node = 0 \<and> timeout node < tick"

text \<open>The loop of \<open>Check_timeout\<close>: one node per turn, so as many turns as nodes and one are enough.\<close>

fun check_timeout_loop :: "nat \<Rightarrow> u64 \<Rightarrow> CoAPIntContext \<Rightarrow> CoAPIntContext option" where
  "check_timeout_loop 0 tick ctx = None"
| "check_timeout_loop (Suc n) tick ctx =
     (case split_first (\<lambda>node. Some (timed_out tick node)) (sendlist ctx) of
        Some (Some (ys, node, zs)) \<Rightarrow>
          let ctx = ctx\<lparr>sendlist := ys @ zs, send_count := send_count ctx - 1\<rparr>;
              ctx = snd (CoapObsServerAll_delete (sn_remote node) ctx);
              ctx = (case sn_handler node of None \<Rightarrow> ctx
                     | Some f \<Rightarrow> coap_observe (Handled f COAP_RECV_RESP_TIMEOUT (sn_user node) (sn_remote node) None) ctx)
          in check_timeout_loop n tick ctx
      | _ \<Rightarrow> Some ctx)"

definition Check_timeout :: "coap_platform \<Rightarrow> CoAPIntContext \<Rightarrow> CoAPIntContext option" where
  "Check_timeout P ctx =
     (let (tick, ctx) = HAL_UptimeMs P ctx in check_timeout_loop (length (sendlist ctx) + 1) tick ctx)"

definition CoAPMessage_cycle ::
    "coap_platform \<Rightarrow> bytes \<Rightarrow> (NetworkAddr \<times> bytes) list \<Rightarrow> CoAPIntContext \<Rightarrow> CoAPIntContext option" where
  "CoAPMessage_cycle P ip received ctx =
     do { ctx \<leftarrow> CoAPMessage_process P ip received ctx; Check_timeout P (Retansmit P ctx) }"

end
