(* ===== verification/Coap_Server.thy ===== *)
theory Coap_Server
  imports Coap_Message
begin

text \<open>
  The calls of the CoAP server (\<open>server/CoAPServer.c\<close>): starting and stopping it, registering a
  resource, sending a multicast notification and a response. What they deliver is in
  \<open>Coap_Delivery\<close>.
\<close>

abbreviation "COAP_PERM_GET \<equiv> 0x0001 :: u16"
abbreviation "COAP_PERM_POST \<equiv> 0x0002 :: u16"
abbreviation "COAP_INIT_TOKEN \<equiv> 0x01020304 :: u32"

text \<open>
  The static variables. The context a caller holds is \<open>g_context\<close>, or there is none: then the
  calls see a pointer that differs from the NULL in \<open>g_context\<close>.
\<close>

record coap_server =
  g_context :: "CoAPIntContext option"
  g_coap_running :: bool
  token_value :: u32

definition coap_server_start :: coap_server where
  "coap_server_start = \<lparr>g_context = None, g_coap_running = False, token_value = COAP_INIT_TOKEN\<rparr>"

definition CoAPServerToken_get :: "coap_server \<Rightarrow> bytes \<times> coap_server" where
  "CoAPServerToken_get sv =
     (let v = token_value sv in
      ([ucast (v AND 0x00FF), ucast (drop_bit 8 (v AND 0xFF00)), ucast (drop_bit 16 (v AND 0xFF0000)),
        ucast (drop_bit 24 (v AND 0xFF000000))],
       sv\<lparr>token_value := v + 1\<rparr>))"

text \<open>\<open>CoAPStrOption_add\<close> with the memory it asks for.\<close>

definition add_str_option :: "coap_platform \<Rightarrow> u16 \<Rightarrow> bytes \<Rightarrow> CoAPMessage \<Rightarrow> CoAPIntContext \<Rightarrow> (CoAPMessage \<times> CoAPIntContext) option" where
  "add_str_option P num d m ctx =
     (if COAP_MSG_MAX_OPTION_NUM \<le> unat (optcount m)
      then do { (_, m) \<leftarrow> CoAPStrOption_add True num d (of_nat (length d)) m; Some (m, ctx) }
      else let (ok, ctx) = coap_malloc P ctx in
           do { (_, m) \<leftarrow> CoAPStrOption_add ok num d (of_nat (length d)) m; Some (m, ctx) })"

text \<open>
  The loop of \<open>CoAPServerPath_2_option\<close>: \<open>seg\<close> are the characters from \<open>pstr\<close> to \<open>ptr\<close>, then the
  rest of the string.
\<close>

fun path_options_loop :: "coap_platform \<Rightarrow> bytes \<Rightarrow> bytes \<Rightarrow> CoAPMessage \<Rightarrow> CoAPIntContext \<Rightarrow> (CoAPMessage \<times> CoAPIntContext) option" where
  "path_options_loop P seg [] m ctx = Some (m, ctx)"
| "path_options_loop P seg (c # s) m ctx =
     do {
       (m, ctx) \<leftarrow> (if c = 47 \<and> seg \<noteq> [] then add_str_option P COAP_OPTION_URI_PATH seg m ctx else Some (m, ctx));
       let seg = (if c = 47 then [] else seg @ [c]) in
       do {
         (m, ctx) \<leftarrow> (if s = [] \<and> seg \<noteq> [] then add_str_option P COAP_OPTION_URI_PATH seg m ctx else Some (m, ctx));
         path_options_loop P seg s m ctx } }"

definition CoAPServerPath_2_option ::
    "coap_platform \<Rightarrow> bytes \<Rightarrow> CoAPMessage \<Rightarrow> CoAPIntContext \<Rightarrow> (int \<times> CoAPMessage \<times> CoAPIntContext) option" where
  "CoAPServerPath_2_option P uri m ctx =
     (if COAP_MSG_MAX_PATH_LEN \<le> length uri then Some (COAP_ERROR_INVALID_LENGTH, m, ctx)
      else do { (m, ctx) \<leftarrow> path_options_loop P [] uri m ctx; Some (COAP_SUCCESS, m, ctx) })"

text \<open>
  \<open>CoAPServer_init\<close> with the tests of its resources: the semaphore, the mutex, and those of
  \<open>CoAPContext_create\<close>. The thread that runs \<open>CoAPServer_yield\<close> is the caller of the cycle.
\<close>

definition CoAPServer_init ::
    "bool \<Rightarrow> bool \<Rightarrow> bool \<times> bool \<times> bool \<times> bool \<Rightarrow> coap_server \<Rightarrow> (bool \<times> coap_server) option" where
  "CoAPServer_init semaphore_ok mutex_ok oks sv =
     (case g_context sv of
        Some ctx \<Rightarrow> Some (True, sv)
      | None \<Rightarrow>
          if \<not> semaphore_ok \<or> \<not> mutex_ok then Some (False, sv)
          else
            let (ctx_ok, recvbuf_ok, ctx_mutex_ok, network_ok) = oks in
            do { p \<leftarrow> CoAPContext_create ctx_ok recvbuf_ok ctx_mutex_ok network_ok 16 16 255;
                 Some (case p of
                         None \<Rightarrow> (False, sv)
                       | Some ctx \<Rightarrow> (True, sv\<lparr>g_context := Some ctx, g_coap_running := True\<rparr>)) })"

definition CoAPServer_deinit :: "coap_server \<Rightarrow> coap_server" where
  "CoAPServer_deinit sv =
     (case g_context sv of
        None \<Rightarrow> sv
      | Some ctx \<Rightarrow> sv\<lparr>g_context := None, g_coap_running := False\<rparr>)"

definition CoAPServer_thread_leave :: "coap_server \<Rightarrow> coap_server" where
  "CoAPServer_thread_leave sv = sv\<lparr>g_coap_running := False\<rparr>"

text \<open>A call on the context: without one it is refused.\<close>

definition on_context ::
    "(CoAPIntContext \<Rightarrow> (int \<times> CoAPIntContext) option) \<Rightarrow> coap_server \<Rightarrow> (int \<times> coap_server) option" where
  "on_context f sv =
     (case g_context sv of
        None \<Rightarrow> Some (COAP_ERROR_INVALID_PARAM, sv)
      | Some ctx \<Rightarrow> do { (ret, ctx) \<leftarrow> f ctx; Some (ret, sv\<lparr>g_context := Some ctx\<rparr>) })"

definition CoAPServer_register :: "coap_platform \<Rightarrow> bytes \<Rightarrow> nat option \<Rightarrow> coap_server \<Rightarrow> (int \<times> coap_server) option" where
  "CoAPServer_register P uri callback =
     on_context (CoAPResource_register P uri COAP_PERM_GET COAP_CT_APP_JSON 60 callback)"

text \<open>
  The message of \<open>CoAPServerMultiCast_send\<close>; the result is the return code, the identifier
  stored in \<open>*msgid\<close> (before the message is sent), and the server.
\<close>

definition multicast_message ::
    "coap_platform \<Rightarrow> u16 \<Rightarrow> bytes \<Rightarrow> bytes \<Rightarrow> bytes \<Rightarrow> u16 \<Rightarrow> nat option \<Rightarrow> CoAPIntContext
      \<Rightarrow> (CoAPMessage \<times> CoAPIntContext) option" where
  "multicast_message P i tok uri buff len callback ctx =
     (let m = set_message (CoAPMessageCode_set COAP_MSG_CODE_POST)
                (set_message (CoAPMessageType_set COAP_MESSAGE_TYPE_NON) init_message);
          m = set_message (CoAPMessageId_set i) m
      in do {
        (_, r) \<leftarrow> CoAPMessageToken_set (Some (tok @ replicate 4 0)) (of_nat (length tok)) (Some m);
        let m = set_message (CoAPMessageKeep_Set 1) (set_message (CoAPMessageHandler_set callback) (the r)) in
        do {
          (_, m, ctx) \<leftarrow> CoAPServerPath_2_option P uri m ctx;
          let (m, ctx) = add_uint_option P COAP_OPTION_CONTENT_FORMAT COAP_CT_APP_JSON m ctx in
          Some (set_message (CoAPMessagePayload_set (Some buff) len) m, ctx) } })"

definition CoAPServerMultiCast_send ::
    "coap_platform \<Rightarrow> NetworkAddr \<Rightarrow> bytes \<Rightarrow> bytes \<Rightarrow> u16 \<Rightarrow> nat option \<Rightarrow> coap_server
      \<Rightarrow> (int \<times> u16 option \<times> coap_server) option" where
  "CoAPServerMultiCast_send P remote uri buff len callback sv =
     (case g_context sv of
        None \<Rightarrow> Some (COAP_ERROR_INVALID_PARAM, None, sv)
      | Some ctx \<Rightarrow>
          let (i, ctx) = CoAPMessageId_gen ctx;
              (tok, sv) = CoAPServerToken_get sv
          in do {
            (m, ctx) \<leftarrow> multicast_message P i tok uri buff len callback ctx;
            (ret, ctx) \<leftarrow> CoAPMessage_send P remote m ctx;
            Some (ret, Some i, sv\<lparr>g_context := Some ctx\<rparr>) })"

text \<open>\<open>observe\<close> starts as 0; \<open>junk\<close> is the variable of \<open>CoAPObsServer_add\<close>.\<close>

definition CoAPServerResp_send ::
    "coap_platform \<Rightarrow> u32 \<Rightarrow> NetworkAddr \<Rightarrow> bytes \<Rightarrow> u16 \<Rightarrow> CoAPMessage \<Rightarrow> bytes \<Rightarrow> nat option \<Rightarrow> int \<Rightarrow> coap_server
      \<Rightarrow> (int \<times> coap_server) option" where
  "CoAPServerResp_send P junk remote buff len request paths callback qos = on_context (\<lambda>ctx.
     let m = set_message (CoAPMessageCode_set COAP_MSG_CODE_205_CONTENT)
                (set_message (CoAPMessageType_set (if qos = 0 then COAP_MESSAGE_TYPE_NON else COAP_MESSAGE_TYPE_CON)) init_message);
          m = set_message (CoAPMessageId_set (msgid (header request))) m
      in do {
        (_, r) \<leftarrow> CoAPMessageToken_set (Some (token request)) (tokenlen (header request)) (Some m);
        let m = set_message (CoAPMessageHandler_set callback) (the r) in
        do {
          (ret, observe) \<leftarrow> CoAPUintOption_get request COAP_OPTION_OBSERVE 0;
          (m, ctx) \<leftarrow>
            (if ret = COAP_SUCCESS \<and> observe = 0
             then do { (_, ctx) \<leftarrow> CoAPObsServer_add P junk paths remote request ctx;
                       Some (add_uint_option P COAP_OPTION_OBSERVE 0 m ctx) }
             else Some (m, ctx));
          let (m, ctx) = add_uint_option P COAP_OPTION_CONTENT_FORMAT COAP_CT_APP_JSON m ctx in
          CoAPMessage_send P remote (set_message (CoAPMessagePayload_set (Some buff) len) m) ctx } })"

end
