(* ===== verification/Coap_Delivery.thy ===== *)
theory Coap_Delivery
  imports Coap_Server Coap_Codec Infra_Digest_Correct
begin

text \<open>
  From the caller of one CoAP server to the callback of another: the path that
  \<open>CoAPServerPath_2_option\<close> takes apart is the path that \<open>CoAPRequestMessage_handle\<close> puts
  together, a registered resource is found under its path, and a notification that was sent
  reaches the callback of the resource with its payload.
\<close>

section \<open>Paths\<close>

text \<open>A path of segments: each is a non-empty string without a slash.\<close>

definition uri_of :: "bytes list \<Rightarrow> bytes" where
  "uri_of segs = concat (map (\<lambda>s. 47 # s) segs)"

definition path_ok :: "bytes list \<Rightarrow> bool" where
  "path_ok segs \<longleftrightarrow> (\<forall>s \<in> set segs. s \<noteq> [] \<and> 47 \<notin> set s \<and> is_c_str s)"

lemma uri_of_simps [simp]: "uri_of [] = []" "uri_of (s # segs) = 47 # s @ uri_of segs"
  by (simp_all add: uri_of_def)

lemma path_ok_simps [simp]:
  "path_ok []" "path_ok (s # segs) \<longleftrightarrow> s \<noteq> [] \<and> 47 \<notin> set s \<and> is_c_str s \<and> path_ok segs"
  by (auto simp: path_ok_def)

lemma uri_is_c_str: "path_ok segs \<Longrightarrow> is_c_str (uri_of segs)"
  by (induction segs) auto

fun add_segments :: "coap_platform \<Rightarrow> bytes list \<Rightarrow> CoAPMessage \<Rightarrow> CoAPIntContext \<Rightarrow> (CoAPMessage \<times> CoAPIntContext) option" where
  "add_segments P [] m ctx = Some (m, ctx)"
| "add_segments P (s # segs) m ctx =
     do { (m, ctx) \<leftarrow> add_str_option P COAP_OPTION_URI_PATH s m ctx; add_segments P segs m ctx }"

lemma bind_pair_Some [simp]: "Option.bind x (\<lambda>(a, b). Some (a, b)) = x"
  by (cases x) auto

lemma segment_steps [simp]:
  "path_options_loop P seg [] = (\<lambda>m ctx. Some (m, ctx))" "add_segments P [] = (\<lambda>m ctx. Some (m, ctx))"
  "add_segments P (s # segs) = (\<lambda>m ctx.
     do { (m, ctx) \<leftarrow> add_str_option P COAP_OPTION_URI_PATH s m ctx; add_segments P segs m ctx })"
  by (intro ext, simp)+

lemma segment_characters:
  "47 \<notin> set s \<Longrightarrow> r \<noteq> [] \<Longrightarrow> path_options_loop P seg (s @ r) m ctx = path_options_loop P (seg @ s) r m ctx"
proof (induction s arbitrary: seg)
  case (Cons c s)
  then show ?case using Cons.IH [of "seg @ [c]"] by simp
qed simp

lemma last_segment:
  "47 \<notin> set s \<Longrightarrow> s \<noteq> [] \<Longrightarrow> path_options_loop P seg s m ctx = add_str_option P COAP_OPTION_URI_PATH (seg @ s) m ctx"
proof (induction s arbitrary: seg)
  case (Cons c s)
  then show ?case using Cons.IH [of "seg @ [c]"] by (cases "s = []") (auto simp: Let_def)
qed simp

lemma path_options_loop_segments:
  assumes "path_ok segs" and "path_ok (s # segs)"
  shows "path_options_loop P [] (s @ uri_of segs) m ctx = add_segments P (s # segs) m ctx"
  using assms
proof (induction segs arbitrary: s m ctx)
  case Nil
  then show ?case by (simp add: last_segment)
next
  case (Cons s' segs)
  have "s' @ uri_of segs \<noteq> []" using Cons.prems by auto
  then have "path_options_loop P [] (s @ uri_of (s' # segs)) m ctx
      = do { (m, ctx) \<leftarrow> add_str_option P COAP_OPTION_URI_PATH s m ctx; path_options_loop P [] (s' @ uri_of segs) m ctx }"
    using Cons.prems segment_characters [of s "47 # s' @ uri_of segs" P "[]" m ctx] by auto
  with Cons.prems show ?case by (simp add: Cons.IH)
qed

lemma path_options:
  "path_ok segs \<Longrightarrow> path_options_loop P [] (uri_of segs) m ctx = add_segments P segs m ctx"
proof (cases segs)
  case (Cons s ss)
  moreover assume "path_ok segs"
  ultimately show ?thesis using path_options_loop_segments [of ss s P m ctx] by auto
qed simp


section \<open>The message of a notification\<close>

text \<open>A platform whose memory does not run out.\<close>

definition memory_ok :: "coap_platform \<Rightarrow> bool" where
  "memory_ok P \<longleftrightarrow> (\<forall>n. cp_malloc P n)"

lemma malloc_ok: "memory_ok P \<Longrightarrow> coap_malloc P ctx = (True, ctx\<lparr>coap_calls := coap_calls ctx + 1\<rparr>)"
  by (simp add: coap_malloc_def memory_ok_def)

lemma add_segments_options:
  assumes "memory_ok P" and "unat (optcount m) + length segs \<le> 12" and "length (options m) = 12"
    and "\<forall>s \<in> set segs. length s < 65536" and "ucast (optdelta m) = sum_list (map opt_num (sent_options m))"
  shows "\<exists>m'. add_segments P segs m ctx = Some (m', ctx\<lparr>coap_calls := coap_calls ctx + length segs\<rparr>)
       \<and> add_options (map (Pair COAP_OPTION_URI_PATH) segs) m = Some m'"
  using assms
proof (induction segs arbitrary: m ctx)
  case (Cons s segs)
  have "unat (optcount m) < 12" "length s < 65536" "(11 :: u16) < 256" using Cons.prems(2,4) by auto
  from add_option [OF this(1) Cons.prems(3) this(2) Cons.prems(5) this(3)]
  obtain m1 where m1: "CoAPStrOption_add True COAP_OPTION_URI_PATH s (of_nat (length s)) m = Some (COAP_SUCCESS, m1)"
    "unat (optcount m1) = Suc (unat (optcount m))" "length (options m1) = 12"
    "ucast (optdelta m1) = sum_list (map opt_num (sent_options m1))" by blast
  have "add_str_option P COAP_OPTION_URI_PATH s m ctx = Some (m1, ctx\<lparr>coap_calls := coap_calls ctx + 1\<rparr>)"
    using m1(1) \<open>unat (optcount m) < 12\<close> malloc_ok [OF Cons.prems(1)] by (simp add: add_str_option_def)
  moreover obtain m2 where "add_segments P segs m1 (ctx\<lparr>coap_calls := coap_calls ctx + 1\<rparr>)
      = Some (m2, ctx\<lparr>coap_calls := coap_calls ctx + 1 + length segs\<rparr>)"
    "add_options (map (Pair COAP_OPTION_URI_PATH) segs) m1 = Some m2"
    using Cons.IH [of m1 "ctx\<lparr>coap_calls := coap_calls ctx + 1\<rparr>"] Cons.prems(1,2,4) m1(2-4) by auto
  ultimately show ?case using m1(1) by simp
qed simp

lemma add_uint_is_str:
  assumes "unat (optcount m) < 12" and "0 < d" and "d \<le> 255" and "memory_ok P"
  shows "CoAPStrOption_add True num [ucast d] 1 m = Some (COAP_SUCCESS, fst (add_uint_option P num d m ctx))"
    and "snd (add_uint_option P num d m ctx) = ctx\<lparr>coap_calls := coap_calls ctx + 1\<rparr>"
  using assms malloc_ok [OF assms(4)]
  by (auto simp: add_uint_option_def CoAPUintOption_add_def CoAPStrOption_add_def uint_option_bytes_def mem_slice_def Let_def)

lemma add_options_append:
  "add_options (xs @ ys) m = do { m \<leftarrow> add_options xs m; add_options ys m }"
  by (induction xs arbitrary: m) (auto split: Option.bind_split)


text \<open>What \<open>CoAPServerMultiCast_send\<close> has built when it sets the payload.\<close>

lemma multicast_message_built:
  assumes "memory_ok P" and "path_ok segs" and "length segs \<le> 11" and "length (uri_of segs) < 128" and "length tok = 4"
  shows "\<exists>m. multicast_message P i tok (uri_of segs) buff len callback ctx
           = Some (m, ctx\<lparr>coap_calls := coap_calls ctx + length segs + 1\<rparr>)
       \<and> header m = \<lparr>version = 1, msg_type = COAP_MESSAGE_TYPE_NON, tokenlen = 4, msg_code = COAP_MSG_CODE_POST, msgid = i\<rparr>
       \<and> token m = tok @ replicate 4 0 \<and> payload m = Some buff \<and> payloadlen m = len
       \<and> numbered 0 (sent_options m) = map (Pair COAP_OPTION_URI_PATH) segs @ [(COAP_OPTION_CONTENT_FORMAT, [50])]
       \<and> length (options m) = 12 \<and> unat (optcount m) = length segs + 1
       \<and> list_all (\<lambda>opt. opt_data opt \<noteq> None) (sent_options m)"
proof -
  define m0 where "m0 = CoAPMessage_zero\<lparr>header := \<lparr>version = 1, msg_type = COAP_MESSAGE_TYPE_NON, tokenlen = 4,
      msg_code = COAP_MSG_CODE_POST, msgid = i\<rparr>, token := tok @ replicate 4 0, send_handler := callback, keep_msg := 1\<rparr>"
  have m0: "unat (optcount m0) = 0" "length (options m0) = 12" "ucast (optdelta m0) = sum_list (map opt_num (sent_options m0))"
    by (simp_all add: m0_def CoAPMessage_zero_def)
  have short: "length s < 65536" if "s \<in> set segs" for s
  proof -
    from that obtain as bs where "segs = as @ s # bs" by (metis split_list)
    then have "length s \<le> length (uri_of segs)" by (simp add: uri_of_def)
    with assms(4) show ?thesis by simp
  qed
  obtain m1 where m1: "add_segments P segs m0 ctx = Some (m1, ctx\<lparr>coap_calls := coap_calls ctx + length segs\<rparr>)"
    "add_options (map (Pair COAP_OPTION_URI_PATH) segs) m0 = Some m1"
    using add_segments_options [OF assms(1), of m0 segs ctx] m0 assms(3) short by auto
  have "unat (optcount m1) = length segs"
    using add_options_result [of m0 "map (Pair COAP_OPTION_URI_PATH) segs"] m0 m1(2) assms(3) short by auto
  then have room: "unat (optcount m1) < 12" using assms(3) by simp
  define m2 where "m2 = fst (add_uint_option P COAP_OPTION_CONTENT_FORMAT COAP_CT_APP_JSON m1
      (ctx\<lparr>coap_calls := coap_calls ctx + length segs\<rparr>))"
  have m2: "CoAPStrOption_add True COAP_OPTION_CONTENT_FORMAT [50] 1 m1 = Some (COAP_SUCCESS, m2)"
    "add_uint_option P COAP_OPTION_CONTENT_FORMAT COAP_CT_APP_JSON m1 (ctx\<lparr>coap_calls := coap_calls ctx + length segs\<rparr>)
       = (m2, ctx\<lparr>coap_calls := coap_calls ctx + length segs + 1\<rparr>)"
    using add_uint_is_str [OF room, of COAP_CT_APP_JSON P COAP_OPTION_CONTENT_FORMAT "ctx\<lparr>coap_calls := coap_calls ctx + length segs\<rparr>"]
      assms(1) by (auto simp: m2_def prod_eq_iff)
  let ?opts = "map (Pair COAP_OPTION_URI_PATH) segs @ [(COAP_OPTION_CONTENT_FORMAT, [50])]"
  have "add_options ?opts m0 = Some m2" using m1(2) m2(1) by (simp add: add_options_append)
  then have built: "numbered 0 (sent_options m2) = ?opts" "length (options m2) = 12" "unat (optcount m2) = length segs + 1"
    "list_all (\<lambda>opt. opt_data opt \<noteq> None) (sent_options m2)" "options_only m0 m2"
    using add_options_result [of m0 ?opts] m0 assms(3) short by auto
  have "multicast_message P i tok (uri_of segs) buff len callback ctx
      = Some (m2\<lparr>payload := Some buff, payloadlen := len\<rparr>, ctx\<lparr>coap_calls := coap_calls ctx + length segs + 1\<rparr>)"
    using m1(1) m2(2) assms(2,4,5) path_options [OF assms(2), of P m0 ctx]
    by (simp add: multicast_message_def set_message_def init_message_def CoAPMessageCode_set_def CoAPMessageType_set_def
        CoAPMessageId_set_def CoAPMessage_init_def on_message_def CoAPMessageToken_set_def mem_slice_def
        CoAPMessageKeep_Set_def CoAPMessageHandler_set_def CoAPServerPath_2_option_def CoAPMessagePayload_set_def
        m0_def CoAPMessage_zero_def)
  with built show ?thesis by (auto simp: options_only_def m0_def)
qed

section \<open>Lengths\<close>

lemma opt_head_length: "length (opt_head num len) \<le> 5"
  by (simp add: opt_head_def opt_ext_def)

lemma options_length:
  "list_all (\<lambda>opt. opt_data opt \<noteq> None) opts \<Longrightarrow>
     length (concat (map opt_bytes opts)) \<le> 5 * length opts + sum_list (map (length \<circ> snd) (numbered d opts))"
proof (induction opts arbitrary: d)
  case (Cons opt opts)
  have "length (opt_bytes opt) \<le> 5 + length (the (opt_data opt))"
    using opt_head_length [of "opt_num opt" "opt_len opt"] by (simp add: opt_bytes_def)
  with Cons.IH [of "d + opt_num opt"] Cons.prems show ?case by simp
qed simp

lemma uri_length: "length (uri_of segs) = length segs + sum_list (map length segs)"
  by (induction segs) simp_all

lemma notification_length:
  assumes "numbered 0 (sent_options m) = map (Pair COAP_OPTION_URI_PATH) segs @ [(COAP_OPTION_CONTENT_FORMAT, [50])]"
    and "list_all (\<lambda>opt. opt_data opt \<noteq> None) (sent_options m)" and "unat (optcount m) = length segs + 1"
    and "length segs \<le> 11" and "length (uri_of segs) < 128" and "unat (payloadlen m) \<le> 1024" and "unat (tokenlen (header m)) \<le> 8"
  shows "length (coap_bytes m) < 1280"
proof -
  have "length (sent_options m) \<le> 12" using assms(3,4) by simp
  moreover have "sum_list (map (length \<circ> snd) (numbered 0 (sent_options m))) \<le> 128"
    unfolding assms(1) using assms(5) uri_length [of segs] by (simp add: comp_def)
  ultimately have "length (concat (map opt_bytes (sent_options m))) \<le> 60 + (128 + 1)"
    using options_length [OF assms(2), of 0] by linarith
  moreover have "length (payload_bytes m) \<le> 1025" using assms(6) by (simp add: payload_bytes_def min_def)
  moreover have "length (coap_bytes m) \<le> 4 + 8 + length (concat (map opt_bytes (sent_options m))) + length (payload_bytes m)"
    using assms(7) by (simp add: coap_bytes_def header_bytes_def)
  ultimately show ?thesis by simp
qed


section \<open>The path of a request\<close>

lemma c_strncpy_segment:
  assumes "opt_data opt = Some s" and "is_c_str s" and "s \<noteq> []"
  shows "opt_len opt \<noteq> 0" and "unat (opt_len opt) = length s"
    and "\<exists>v. opt_val opt = Some v \<and> c_strncpy v (unat (opt_len opt)) = Some s"
proof -
  show n: "unat (opt_len opt) = length s" using opt_data_length [OF assms(1)] by simp
  with assms(3) show "opt_len opt \<noteq> 0" by auto
  then obtain v where v: "opt_val opt = Some v" "mem_slice v 0 (unat (opt_len opt)) = Some s"
    using assms(1) by (auto simp: opt_data_def bind_eq_Some_conv)
  then have "take (unat (opt_len opt)) v = s" by (auto simp: mem_slice_def split: if_splits)
  then have "c_strncpy v (unat (opt_len opt)) = Some s"
    using assms(2) n by (simp add: c_strncpy_def)
  with v(1) show "\<exists>v. opt_val opt = Some v \<and> c_strncpy v (unat (opt_len opt)) = Some s" by blast
qed

lemma request_path_other: "\<forall>opt \<in> set opts. opt_num opt \<noteq> COAP_OPTION_URI_PATH \<Longrightarrow> request_path opts tmp path = Some path"
  by (induction opts) auto

lemma request_path_segments:
  assumes "map opt_content opts = map (Pair COAP_OPTION_URI_PATH) segs @ [(num, d)]" and "num \<noteq> COAP_OPTION_URI_PATH"
    and "list_all (\<lambda>opt. opt_data opt \<noteq> None) opts" and "path_ok segs" and "length pre + length (uri_of segs) \<le> 128"
  shows "request_path opts (length pre) (pre @ replicate (128 - length pre) 0)
       = Some (pre @ uri_of segs @ replicate (128 - length pre - length (uri_of segs)) 0)"
  using assms
proof (induction segs arbitrary: opts pre)
  case Nil
  then have "\<forall>opt \<in> set opts. opt_num opt \<noteq> COAP_OPTION_URI_PATH" by (auto simp: opt_content_def)
  then show ?case by (simp add: request_path_other)
next
  case (Cons s segs)
  then obtain opt opts' where first: "opts = opt # opts'" "opt_content opt = (COAP_OPTION_URI_PATH, s)"
    "map opt_content opts' = map (Pair COAP_OPTION_URI_PATH) segs @ [(num, d)]"
    by (cases opts) auto
  with Cons.prems(3) have opts: "opts = opt # opts'" "opt_num opt = COAP_OPTION_URI_PATH" "opt_data opt = Some s"
    "map opt_content opts' = map (Pair COAP_OPTION_URI_PATH) segs @ [(num, d)]" "list_all (\<lambda>opt. opt_data opt \<noteq> None) opts'"
    by (auto simp: opt_content_def)
  have s: "s \<noteq> []" "is_c_str s" "path_ok segs" using Cons.prems(4) by simp_all
  note copy = c_strncpy_segment [OF opts(3) s(2) s(1)]
  have room: "length pre + 1 + length s \<le> 128" using Cons.prems(5) by simp
  have slash: "put (pre @ replicate (128 - length pre) 0) (length pre) [47] = Some ((pre @ [47]) @ replicate (127 - length pre) 0)"
    using room by (subst put_at) (simp_all add: drop_replicate)
  have seg: "put ((pre @ [47]) @ replicate (127 - length pre) 0) (length (pre @ [47])) s
      = Some ((pre @ 47 # s) @ replicate (128 - length (pre @ 47 # s)) 0)"
    using room by (subst put_at) (simp_all add: drop_replicate)
  have "request_path opts (length pre) (pre @ replicate (128 - length pre) 0)
      = request_path opts' (length (pre @ 47 # s)) ((pre @ 47 # s) @ replicate (128 - length (pre @ 47 # s)) 0)"
    using room opts(1,2) copy slash seg by (auto simp: add.assoc)
  also have "\<dots> = Some ((pre @ 47 # s) @ uri_of segs @ replicate (128 - length (pre @ 47 # s) - length (uri_of segs)) 0)"
    using Cons.prems(5) by (intro Cons.IH [OF opts(4) Cons.prems(2) opts(5) s(3)]) simp
  finally show ?case by simp
qed

lemma path_in_array:
  "is_c_str s \<Longrightarrow> 0 < n \<Longrightarrow> array_str (s @ replicate n 0) = Some s"
  by (auto simp: array_str_def c_str_def is_c_str_def takeWhile_append)


section \<open>Sending\<close>

lemma observations [simp]:
  "coap_seen (coap_observe e ctx) = coap_seen ctx @ [e]"
  "coap_seen (snd (coap_malloc P ctx)) = coap_seen ctx" "coap_seen (snd (HAL_UptimeMs P ctx)) = coap_seen ctx"
  "coap_seen (snd (CoAPNetwork_write P remote data ctx)) = coap_seen ctx @ [Written remote data (cp_sendto P (coap_calls ctx))]"
  by (simp_all add: coap_observe_def coap_malloc_def HAL_UptimeMs_def CoAPNetwork_write_def Let_def)

lemma list_add_seen: "CoAPMessageList_add P remote m buff n ctx = Some (ret, ctx') \<Longrightarrow> coap_seen ctx' = coap_seen ctx"
  by (auto simp: CoAPMessageList_add_def coap_malloc_def HAL_UptimeMs_def Let_def
      elim!: bind_SomeE split: if_splits)

lemma send_runs:
  assumes "coap_ok m" and "length (coap_bytes m) \<le> 1280" and "msg_code (header m) \<noteq> COAP_MSG_CODE_GET"
  shows "CoAPMessage_send P remote m ctx =
    (let (ok, ctx) = coap_malloc P ctx in
     if \<not> ok then Some (COAP_ERROR_NULL, ctx)
     else let (readlen, ctx) = CoAPNetwork_write P remote (coap_bytes m) ctx in
       if of_nat (length (coap_bytes m)) = (word_of_int readlen :: u16)
       then if CoAPReqMsg (header m) \<or> CoAPCONRespMsg (header m)
            then CoAPMessageList_add P remote m (coap_bytes m) (of_nat (length (coap_bytes m))) ctx
            else Some (COAP_SUCCESS, ctx)
       else Some (COAP_ERROR_WRITE_FAILED, ctx))"
proof -
  let ?n = "length (coap_bytes m)"
  have n: "unat (of_nat ?n :: u16) = ?n" using assms(2) by (simp add: unat_u16)
  have run: "CoAPSerialize_Message (Some m) (Some (replicate ?n 0)) (of_nat ?n) = Some (int ?n, Some (coap_bytes m))"
    using serialize_message [OF assms(1), of "of_nat ?n" "replicate ?n 0"] n by simp
  have len: "(ucast (of_nat ?n :: u16) :: u32) = of_nat ?n"
    using assms(2) by (simp add: word_unat_eq_iff unsigned_ucast_eq n unsigned_of_nat take_bit_nat_eq_self)
  have del: "CoAPObsClient_delete m c = Some (COAP_SUCCESS, c)" for c
    using assms(3) by (simp add: CoAPObsClient_delete_def)
  show ?thesis
    using assms(2) run
    by (cases "coap_malloc P ctx")
      (auto simp: CoAPMessage_send_def message_length [OF assms(1)] n del mem_slice_def Let_def simp flip: len
        split: prod.split)
qed

lemma send_delivers:
  assumes "coap_ok m" and "length (coap_bytes m) \<le> 1280" and "msg_code (header m) \<noteq> COAP_MSG_CODE_GET"
    and "CoAPMessage_send P remote m ctx = Some (COAP_SUCCESS, ctx')"
  shows "\<exists>r. coap_seen ctx' = coap_seen ctx @ [Written remote (coap_bytes m) r]"
  using assms(4) unfolding send_runs [OF assms(1-3)]
  by (auto simp: coap_malloc_def CoAPNetwork_write_def coap_observe_def Let_def dest!: list_add_seen split: if_splits)

section \<open>Receiving\<close>

lemma permitted_post:
  assumes "p AND COAP_PERM_POST \<noteq> 0"
  shows "(ucast p AND push_bit 1 1 :: u32) > 0"
proof -
  have "bit p 1"
  proof (rule ccontr)
    assume "\<not> bit p 1"
    then have "p AND push_bit 1 1 = 0" by (intro bit_word_eqI) (auto simp: bit_simps)
    with assms show False by simp
  qed
  then have "bit (ucast p AND push_bit 1 1 :: u32) 1" by (simp add: bit_simps)
  then have "(ucast p AND push_bit 1 1 :: u32) \<noteq> 0" by fastforce
  then show ?thesis by (simp only: word_neq_0_conv)
qed

text \<open>A request for a resource that permits it, with the datagram in the zeroed buffer.\<close>

lemma request_delivered:
  assumes "coap_ok m" and "length (coap_bytes m) < 1280" and "msg_type (header m) = COAP_MESSAGE_TYPE_NON"
    and "msg_code (header m) = COAP_MSG_CODE_POST"
    and "numbered 0 (sent_options m) = map (Pair COAP_OPTION_URI_PATH) segs @ [(COAP_OPTION_CONTENT_FORMAT, d)]"
    and "path_ok segs" and "length (uri_of segs) < 128"
    and "CoAPResourceByPath_get (uri_of segs) peer = Some (Some r)"
    and "res_callback (resource peer ! r) = Some f" and "permission (resource peer ! r) AND COAP_PERM_POST \<noteq> 0"
  shows "\<exists>m'. CoAPMessage_handle Q from (coap_bytes m @ replicate (1280 - length (coap_bytes m)) 0)
                (of_nat (length (coap_bytes m))) peer
              = Some (coap_observe (Requested f (uri_of segs) from m') peer)
       \<and> header m' = header m \<and> map opt_content (sent_options m') = numbered 0 (sent_options m)
       \<and> length (options m') = 12 \<and> unat (optcount m') \<le> 12 \<and> list_all (\<lambda>opt. opt_data opt \<noteq> None) (sent_options m')
       \<and> payloadlen m' = payloadlen m
       \<and> (0 < payloadlen m \<longrightarrow> (\<exists>rest. payload m' = Some (take (unat (payloadlen m)) (the (payload m)) @ rest)))"
proof -
  let ?n = "length (coap_bytes m)" and ?tail = "replicate (1280 - length (coap_bytes m)) (0 :: u8)"
  have "?tail \<noteq> [] \<and> hd ?tail \<noteq> 0xFF" using assms(2) by (cases "1280 - ?n") auto
  then obtain m' where m': "CoAPDeserialize_Message (Some CoAPMessage_zero) (Some (coap_bytes m @ ?tail)) (int ?n)
        = Some (COAP_SUCCESS, Some m')" "header m' = header m"
      "map opt_content (sent_options m') = numbered 0 (sent_options m)" "length (options m') = 12" "unat (optcount m') \<le> 12"
      "list_all (\<lambda>opt. opt_data opt \<noteq> None) (sent_options m')"
      "if payloadlen m > 0 then payloadlen m' = payloadlen m \<and> payload m' = Some (take (unat (payloadlen m)) (the (payload m)) @ ?tail)
       else payloadlen m' = payloadlen CoAPMessage_zero \<and> payload m' = payload CoAPMessage_zero"
    using deserialize_message [OF assms(1), of CoAPMessage_zero ?tail] by (auto simp: CoAPMessage_zero_def)
  have n: "uint (of_nat ?n :: u16) = int ?n" using assms(2) by (simp add: unat_u16)
  have path: "request_path (sent_options m') 0 (replicate 128 0) = Some (uri_of segs @ replicate (128 - length (uri_of segs)) 0)"
    using request_path_segments [of "sent_options m'" segs COAP_OPTION_CONTENT_FORMAT d "[]"] m'(3,6) assms(5-7) by simp
  have array: "array_str (uri_of segs @ replicate (128 - length (uri_of segs)) 0) = Some (uri_of segs)"
    using assms(7) uri_is_c_str [OF assms(6)] by (intro path_in_array) auto
  have permitted: "(ucast (permission (resource peer ! r)) AND push_bit (unat (COAP_MSG_CODE_POST) - 1) (1 :: u32)) > 0"
    using permitted_post [OF assms(10)] by simp
  have "CoAPRequestMessage_handle Q from m' peer = Some (COAP_SUCCESS, coap_observe (Requested f (uri_of segs) from m') peer)"
    using path array assms(3,4,8,9) m'(2) permitted by (simp add: CoAPRequestMessage_handle_def)
  then have "CoAPMessage_handle Q from (coap_bytes m @ ?tail) (of_nat ?n) peer
      = Some (coap_observe (Requested f (uri_of segs) from m') peer)"
    using m'(1,2) assms(3,4) n
    by (simp add: CoAPMessage_handle_def CoAPAckMsg_def CoAPResetMsg_def CoAPRespMsg_def CoAPPingMsg_def CoAPReqMsg_def)
  moreover have "payloadlen m' = payloadlen m"
      "0 < payloadlen m \<longrightarrow> (\<exists>rest. payload m' = Some (take (unat (payloadlen m)) (the (payload m)) @ rest))"
    using m'(7) by (cases "payloadlen m = 0"; auto simp: CoAPMessage_zero_def word_neq_0_conv)+
  ultimately show ?thesis using m'(2-6) by (intro exI [of _ m'] conjI)
qed


section \<open>Registered resources\<close>

lemma md5_digest_length: "length (md5.hash m) = 16"
proof -
  have "length (concat (map put_uint32_le ws)) = 4 * length ws" for ws
    by (induction ws) (simp_all add: words_length)
  then show ?thesis using md5.digest_length [of m] by (simp add: md5.hash_def)
qed

lemma path_sum:
  assumes "length path < 2 ^ 32"
  shows "\<exists>md5sum. CoAPPathMD5_sum path = Some md5sum \<and> length md5sum = 5"
proof (cases "path = []")
  case False
  have "unat (of_nat (length path) :: u32) = length path"
    using assms by (simp add: unsigned_of_nat take_bit_nat_eq_self)
  then have "utils_md5 path (of_nat (length path)) = Some (md5.hash path)"
    by (intro one_shot_digests) (simp add: mem_slice_def)
  with False show ?thesis by (simp add: CoAPPathMD5_sum_def mem_slice_def md5_digest_length)
qed (simp add: CoAPPathMD5_sum_def)

lemma resource_index_append:
  "(\<forall>r \<in> set rs. \<not> f r) \<Longrightarrow> f r' \<Longrightarrow> resource_index f i (rs @ [r']) = Some (i + length rs)"
  by (induction rs arbitrary: i) simp_all

lemma register_scan_new:
  "(\<forall>r \<in> set rs. md5sum \<noteq> res_path r) \<Longrightarrow>
     register_scan PATH_NORMAL md5sum perm ctype maxage callback path rs = (False, rs, path)"
  by (induction rs) (auto simp: Let_def)

text \<open>
  A path without a wildcard that is registered for the first time: no resource before it
  answers to it, and from then on it is found.
\<close>

lemma registered_found:
  assumes "\<not> has_wildcard path" and "length path < 128" and "memory_ok P" and "res_count ctx < res_maxcount ctx"
    and "CoAPPathMD5_sum path = Some md5sum" and "\<forall>r \<in> set (resource ctx). \<not> resource_fits path md5sum r"
  shows "\<exists>ctx'. CoAPResource_register P path perm ctype maxage callback ctx = Some (COAP_SUCCESS, ctx')
       \<and> CoAPResourceByPath_get path ctx' = Some (Some (length (resource ctx)))
       \<and> res_callback (resource ctx' ! length (resource ctx)) = callback
       \<and> permission (resource ctx' ! length (resource ctx)) = perm"
proof -
  have "\<forall>r \<in> set (resource ctx). md5sum \<noteq> res_path r" using assms(6) by (auto simp: resource_fits_def)
  then have "CoAPResource_register P path perm ctype maxage callback ctx = Some (COAP_SUCCESS,
      ctx\<lparr>coap_calls := coap_calls ctx + 1,
          resource := resource ctx @ [\<lparr>permission = perm, res_callback = callback, res_ctype = ctype, res_maxage = maxage,
                              res_path = md5sum, filter_path = [], path_type = PATH_NORMAL\<rparr>],
          res_count := res_count ctx + 1\<rparr>)"
    using assms(1-5) malloc_ok [OF assms(3)]
    by (simp add: CoAPResource_register_def CoAPResource_create_def register_scan_new)
  moreover have "resource_index (resource_fits path md5sum) 0 (resource ctx @ [\<lparr>permission = perm, res_callback = callback,
      res_ctype = ctype, res_maxage = maxage, res_path = md5sum, filter_path = [], path_type = PATH_NORMAL\<rparr>])
      = Some (length (resource ctx))"
    using resource_index_append [of "resource ctx" "resource_fits path md5sum" _ 0] assms(6) by (simp add: resource_fits_def)
  ultimately show ?thesis using assms(5) by (auto simp: CoAPResourceByPath_get_def)
qed

lemma json_option:
  assumes "length (options m) = 12" and "unat (optcount m) \<le> 12"
    and "list_all (\<lambda>opt. opt_data opt \<noteq> None) (sent_options m)"
    and "map opt_content (sent_options m) = map (Pair COAP_OPTION_URI_PATH) segs @ [(COAP_OPTION_CONTENT_FORMAT, [50])]"
  shows "CoAPUintOption_get m COAP_OPTION_CONTENT_FORMAT 0 = Some (COAP_SUCCESS, COAP_CT_APP_JSON)"
proof -
  have "map_of (map opt_content (sent_options m)) COAP_OPTION_CONTENT_FORMAT = Some [50]"
    unfolding assms(4) by (induction segs) simp_all
  with find_content [OF assms(3), of COAP_OPTION_CONTENT_FORMAT] obtain opt
    where opt: "find (\<lambda>opt. opt_num opt = COAP_OPTION_CONTENT_FORMAT) (sent_options m) = Some opt" "opt_data opt = Some [50]"
    by (auto split: option.splits)
  have len: "unat (opt_len opt) = 1" using opt_data_length [OF opt(2)] by simp
  then have "opt_len opt = 1" by (simp add: word_unat_eq_iff)
  with opt(2) obtain v where "opt_val opt = Some v" "mem_slice v 0 1 = Some [50]" by (auto simp: opt_data_def bind_eq_Some_conv)
  with opt(1) \<open>opt_len opt = 1\<close> show ?thesis
    using assms(1,2) by (simp add: CoAPUintOption_get_def find_option_found be_value_def)
qed

section \<open>The notification arrives\<close>

text \<open>
  Property C3: what is sent arrives. Take a caller of \<open>CoAPServerMultiCast_send\<close> that gets
  \<open>COAP_SUCCESS\<close> for a well-formed path of at most 11 segments, shorter than
  \<open>COAP_MSG_MAX_PATH_LEN\<close>, and a payload of at most 1024 bytes, on a platform on which no
  allocation of memory fails. Then exactly one datagram was given to the network, and any server that has a
  resource for this path, with a callback and the permission for POST, and an address other than the
  datagram's sender, calls this callback when \<open>CoAPMessage_process\<close> reads the datagram: with the path as it was given to the sender, with
  the identifier the sender was told, the payload, and the content format JSON.
\<close>

theorem coap_notification_delivered:
  assumes "CoAPServerMultiCast_send P remote (uri_of segs) buff len callback sv = Some (COAP_SUCCESS, i, sv')"
    and "g_context sv = Some ctx" and "memory_ok P"
    and "path_ok segs" and "length segs \<le> 11" and "length (uri_of segs) < COAP_MSG_MAX_PATH_LEN"
    and "unat len \<le> 1024" and "unat len \<le> length buff"
    and "CoAPResourceByPath_get (uri_of segs) peer = Some (Some r)"
    and "res_callback (resource peer ! r) = Some f" and "permission (resource peer ! r) AND COAP_PERM_POST \<noteq> 0"
    and "c_str ip \<noteq> []" and "c_str ip \<noteq> c_str (addr from)"
  shows "\<exists>ctx' data n m. g_context sv' = Some ctx' \<and> coap_seen ctx' = coap_seen ctx @ [Written remote data n]
       \<and> CoAPMessage_process Q ip [(from, data)] peer = Some (coap_observe (Requested f (uri_of segs) from m) peer)
       \<and> i = Some (msgid (header m)) \<and> payloadlen m = len
       \<and> (0 < len \<longrightarrow> (\<exists>rest. payload m = Some (take (unat len) buff @ rest)))
       \<and> CoAPUintOption_get m COAP_OPTION_CONTENT_FORMAT 0 = Some (COAP_SUCCESS, COAP_CT_APP_JSON)"
proof -
  define k where "k = fst (CoAPMessageId_gen ctx)"
  define ctx1 where "ctx1 = snd (CoAPMessageId_gen ctx)"
  define tok where "tok = fst (CoAPServerToken_get sv)"
  have gen: "CoAPMessageId_gen ctx = (k, ctx1)" "coap_seen ctx1 = coap_seen ctx"
    by (auto simp: k_def ctx1_def CoAPMessageId_gen_def)
  have tok: "length tok = 4" by (simp add: tok_def CoAPServerToken_get_def Let_def)
  obtain m where m: "multicast_message P k tok (uri_of segs) buff len callback ctx1
        = Some (m, ctx1\<lparr>coap_calls := coap_calls ctx1 + length segs + 1\<rparr>)"
      "header m = \<lparr>version = 1, msg_type = COAP_MESSAGE_TYPE_NON, tokenlen = 4, msg_code = COAP_MSG_CODE_POST, msgid = k\<rparr>"
      "token m = tok @ replicate 4 0" "payload m = Some buff" "payloadlen m = len"
      "numbered 0 (sent_options m) = map (Pair COAP_OPTION_URI_PATH) segs @ [(COAP_OPTION_CONTENT_FORMAT, [50])]"
      "length (options m) = 12" "unat (optcount m) = length segs + 1"
      "list_all (\<lambda>opt. opt_data opt \<noteq> None) (sent_options m)"
    using multicast_message_built [OF assms(3-6) tok] by blast
  have len: "length (coap_bytes m) < 1280"
    using notification_length [OF m(6,9,8) assms(5,6)] m(2,5) assms(7) by simp
  have ok: "coap_ok m" using m assms(5,8) len tok by (auto simp: coap_ok_def)
  obtain ctx' where sent: "CoAPMessage_send P remote m (ctx1\<lparr>coap_calls := coap_calls ctx1 + length segs + 1\<rparr>)
        = Some (COAP_SUCCESS, ctx')" "g_context sv' = Some ctx'" "i = Some k"
    using assms(1,2) gen m(1) by (auto simp: CoAPServerMultiCast_send_def tok_def bind_eq_Some_conv split: prod.splits)
  from send_delivers [OF ok _ _ this(1)] len m(2) gen(2) obtain n where
    seen: "coap_seen ctx' = coap_seen ctx @ [Written remote (coap_bytes m) n]" by auto
  obtain m' where m': "CoAPMessage_handle Q from (coap_bytes m @ replicate (1280 - length (coap_bytes m)) 0)
        (of_nat (length (coap_bytes m))) peer = Some (coap_observe (Requested f (uri_of segs) from m') peer)"
      "header m' = header m" "map opt_content (sent_options m') = numbered 0 (sent_options m)" "length (options m') = 12"
      "unat (optcount m') \<le> 12" "list_all (\<lambda>opt. opt_data opt \<noteq> None) (sent_options m')" "payloadlen m' = payloadlen m"
      "0 < payloadlen m \<longrightarrow> (\<exists>rest. payload m' = Some (take (unat (payloadlen m)) (the (payload m)) @ rest))"
    using request_delivered [OF ok len _ _ m(6) assms(4,6,9-11), of Q "from"] m(2) by auto
  have "coap_bytes m \<noteq> []" by (simp add: coap_bytes_def header_bytes_def)
  then have "CoAPMessage_process Q ip [(from, coap_bytes m)] peer = Some (coap_observe (Requested f (uri_of segs) from m') peer)"
    using m'(1) len assms(12,13) by simp
  moreover have "CoAPUintOption_get m' COAP_OPTION_CONTENT_FORMAT 0 = Some (COAP_SUCCESS, COAP_CT_APP_JSON)"
    using json_option [OF m'(4-6)] m'(3) m(6) by simp
  ultimately show ?thesis using sent(2,3) seen m(2,4,5) m'(2,7,8) by auto
qed


text \<open>Two servers: one registers \<open>/a/b\<close> for POST, the other sends a payload to it.\<close>

definition test_platform :: coap_platform where
  "test_platform = \<lparr>cp_malloc = (\<lambda>_. True), cp_uptime = (\<lambda>n. of_nat n * 100), cp_sendto = (\<lambda>_. 16)\<rparr>"

definition test_context :: CoAPIntContext where
  "test_context = the (the (CoAPContext_create True True True True 16 16 255))"

definition test_remote :: NetworkAddr where
  "test_remote = \<lparr>addr = ascii ''224.0.1.187'' @ replicate 5 0, port = 5683\<rparr>"

definition test_from :: NetworkAddr where
  "test_from = \<lparr>addr = ascii ''192.168.1.20'' @ replicate 4 0, port = 5683\<rparr>"

definition test_sender :: coap_server where
  "test_sender = \<lparr>g_context = Some test_context, g_coap_running = True, token_value = COAP_INIT_TOKEN\<rparr>"

definition test_path :: bytes where
  "test_path = uri_of [[97], [98]]"

lemma test_memory: "memory_ok test_platform"
  by (simp add: memory_ok_def test_platform_def)

lemma test_sent: "map_option (fst) (CoAPServerMultiCast_send test_platform test_remote test_path [123] 1 None test_sender) = Some COAP_SUCCESS"
  by code_simp

lemma test_registered:
  "\<exists>peer. CoAPResource_register test_platform test_path COAP_PERM_POST 50 60 (Some 3) test_context = Some (COAP_SUCCESS, peer)
     \<and> CoAPResourceByPath_get test_path peer = Some (Some 0)
     \<and> res_callback (resource peer ! 0) = Some 3 \<and> permission (resource peer ! 0) = COAP_PERM_POST"
proof -
  have fresh: "resource test_context = []" "res_count test_context < res_maxcount test_context"
    by (simp_all add: test_context_def CoAPContext_create_def)
  have path: "\<not> has_wildcard test_path" "length test_path < 128" by (simp_all add: test_path_def)
  have "length test_path < 2 ^ 32" by (simp add: test_path_def)
  then obtain md5sum where "CoAPPathMD5_sum test_path = Some md5sum" using path_sum by blast
  from registered_found [OF path test_memory fresh(2) this] fresh(1) show ?thesis by simp
qed

theorem coap_notification_delivered_witness:
  "\<exists>peer i sv' data n m.
     CoAPResource_register test_platform test_path COAP_PERM_POST 50 60 (Some 3) test_context = Some (COAP_SUCCESS, peer)
     \<and> CoAPServerMultiCast_send test_platform test_remote test_path [123] 1 None test_sender = Some (COAP_SUCCESS, i, sv')
     \<and> map_option coap_seen (g_context sv') = Some [Written test_remote data n]
     \<and> CoAPMessage_process test_platform (ascii ''192.168.1.30'' @ replicate 5 0) [(test_from, data)] peer
         = Some (coap_observe (Requested 3 test_path test_from m) peer)
     \<and> payloadlen m = 1"
proof -
  obtain peer where peer: "CoAPResource_register test_platform test_path COAP_PERM_POST 50 60 (Some 3) test_context = Some (COAP_SUCCESS, peer)"
    "CoAPResourceByPath_get test_path peer = Some (Some 0)"
    "res_callback (resource peer ! 0) = Some 3" "permission (resource peer ! 0) = COAP_PERM_POST"
    using test_registered by blast
  obtain i sv' where sent: "CoAPServerMultiCast_send test_platform test_remote test_path [123] 1 None test_sender = Some (COAP_SUCCESS, i, sv')"
    using test_sent by auto
  have small: "path_ok [[97], [98]]" "length [[97 :: u8], [98]] \<le> 11" "length (uri_of [[97], [98]]) < COAP_MSG_MAX_PATH_LEN"
    "unat (1 :: u16) \<le> 1024" "unat (1 :: u16) \<le> length [123 :: u8]" "permission (resource peer ! 0) AND COAP_PERM_POST \<noteq> 0"
    using peer(4) by simp_all
  have ips: "c_str (ascii ''192.168.1.30'' @ replicate 5 0) \<noteq> []"
    "c_str (ascii ''192.168.1.30'' @ replicate 5 0) \<noteq> c_str (addr test_from)"
    by code_simp+
  have ctx: "g_context test_sender = Some test_context" "coap_seen test_context = []"
    by (simp_all add: test_sender_def test_context_def CoAPContext_create_def)
  from coap_notification_delivered [where Q = test_platform, OF sent [unfolded test_path_def] ctx(1) test_memory
      small(1-5) peer(2) [unfolded test_path_def] peer(3) small(6) ips]
  obtain ctx' data n m where arrived: "g_context sv' = Some ctx'" "coap_seen ctx' = coap_seen test_context @ [Written test_remote data n]"
    "CoAPMessage_process test_platform (ascii ''192.168.1.30'' @ replicate 5 0) [(test_from, data)] peer
       = Some (coap_observe (Requested 3 (uri_of [[97], [98]]) test_from m) peer)" "payloadlen m = 1"
    by blast
  then have "map_option coap_seen (g_context sv') = Some [Written test_remote data n]" using ctx(2) by simp
  with arrived(3,4) [folded test_path_def]
  peer(1) sent show ?thesis by blast
qed


text \<open>
  The memory is needed: when an allocation for the path fails, \<open>CoAPServerPath_2_option\<close> goes on
  without that segment, and the caller is told success for a datagram with another path.
\<close>

lemma path_segment_lost:
  "map_option (\<lambda>(rc, i, sv). (rc, map_option coap_seen (g_context sv)))
     (CoAPServerMultiCast_send (test_platform\<lparr>cp_malloc := (\<lambda>n. n \<noteq> 0), cp_sendto := (\<lambda>_. 14)\<rparr>)
        test_remote test_path [123] 1 None test_sender)
   = Some (COAP_SUCCESS, Some [Written test_remote [0x54, 2, 0, 1, 4, 3, 2, 1, 0xB1, 98, 0x11, 50, 0xFF, 123] 14])"
  by code_simp

end
