(* ===== verification/Coap_Message_Correct.thy ===== *)
theory Coap_Message_Correct
  imports Coap_Server Coap_Codec
begin

text \<open>
  What the CoAP server guarantees whatever arrives: an invariant of its context that every
  operation keeps (the counts are the lengths of the lists, the limits hold, no message is
  sent more than eight more times, observers refer to registered resources), and that
  retransmission comes to an end.
\<close>

section \<open>Lists with a count and a limit\<close>

definition counted :: "'a list \<Rightarrow> u8 \<Rightarrow> u8 \<Rightarrow> bool" where
  "counted xs c m \<longleftrightarrow> length xs = unat c \<and> c \<le> m"

lemma counted_empty: "counted [] 0 m"
  by (simp add: counted_def)

lemma counted_add: "counted xs c m \<Longrightarrow> \<not> m \<le> c \<Longrightarrow> counted (xs @ [x]) (c + 1) m"
proof -
  assume a: "counted xs c m" "\<not> m \<le> c"
  then have "unat c < unat m" by (simp add: word_le_nat_alt)
  moreover have "unat m < 256" using unsigned_less [of m, where 'a = nat] by simp
  ultimately have "unat (c + 1) = Suc (unat c)" by (simp add: unat_word_ariths)
  with a(1) \<open>unat c < unat m\<close> show ?thesis by (simp add: counted_def word_le_nat_alt)
qed

lemma counted_filter:
  assumes "counted xs c m"
  shows "counted (filter (\<lambda>x. \<not> p x) xs) (c - of_nat (length (filter p xs))) m"
proof -
  have split: "length (filter p xs) + length (filter (\<lambda>x. \<not> p x) xs) = unat c"
    using assms sum_length_filter_compl [of p xs] by (simp add: counted_def)
  moreover have "unat c < 256" using unsigned_less [of c, where 'a = nat] by simp
  ultimately have n: "unat (of_nat (length (filter p xs)) :: u8) = length (filter p xs)"
    by (simp add: unsigned_of_nat take_bit_nat_eq_self)
  then have le: "(of_nat (length (filter p xs)) :: u8) \<le> c" using split by (simp add: word_le_nat_alt)
  then have "unat (c - of_nat (length (filter p xs))) = length (filter (\<lambda>x. \<not> p x) xs)"
    using n split by (simp add: unat_sub)
  moreover have "c - of_nat (length (filter p xs)) \<le> m"
    using assms calculation split by (simp add: counted_def word_le_nat_alt)
  ultimately show ?thesis by (simp add: counted_def)
qed

lemma counted_remove: "counted (ys @ y # zs) c m \<Longrightarrow> counted (ys @ zs) (c - 1) m"
proof -
  assume a: "counted (ys @ y # zs) c m"
  then have "1 \<le> c" by (simp add: counted_def word_le_nat_alt)
  moreover have "unat c = Suc (length (ys @ zs))" using a by (simp add: counted_def)
  ultimately have "unat (c - 1) = length (ys @ zs)" by (simp add: unat_sub)
  moreover from this have "c - 1 \<le> m" using a by (simp add: counted_def word_le_nat_alt)
  ultimately show ?thesis by (simp add: counted_def)
qed

lemma counted_length: "length xs = length ys \<Longrightarrow> counted xs c m = counted ys c m"
  by (simp add: counted_def)

lemma split_first_SomeD:
  "split_first f xs = Some (Some (ys, y, zs)) \<Longrightarrow> xs = ys @ y # zs \<and> f y = Some True"
  by (induction xs arbitrary: ys) (auto simp: bind_eq_Some_conv split: if_splits option.splits)

section \<open>The invariant\<close>

text \<open>The waiting times: 600 ms, and half as much again with each retransmission.\<close>

fun backoff :: "nat \<Rightarrow> nat" where
  "backoff 0 = 600"
| "backoff (Suc n) = backoff n * 3 div 2"

lemma backoff_bound: "n \<le> 8 \<Longrightarrow> backoff n \<le> 15372"
proof -
  note next_step = backoff.simps(2)
  have v1: "backoff 1 = 900" using next_step [of 0] by simp
  have v2: "backoff 2 = 1350" using next_step [of 1] unfolding v1 Suc_1 by simp
  have v3: "backoff 3 = 2025" using next_step [of 2] v2 by simp
  have v4: "backoff 4 = 3037" using next_step [of 3] v3 by simp
  have v5: "backoff 5 = 4555" using next_step [of 4] v4 by simp
  have v6: "backoff 6 = 6832" using next_step [of 5] v5 by simp
  have v7: "backoff 7 = 10248" using next_step [of 6] v6 by simp
  have v8: "backoff 8 = 15372" using next_step [of 7] v7 by simp
  assume "n \<le> 8"
  then have "n \<in> {0, 1, 2, 3, 4, 5, 6, 7, 8}" by auto
  then show ?thesis using v1 v2 v3 v4 v5 v6 v7 v8 by auto
qed

definition node_ok :: "CoAPSendNode \<Rightarrow> bool" where
  "node_ok node \<longleftrightarrow> length (sn_token node) = COAP_MSG_MAX_TOKEN_LEN \<and> unat (retrans_count node) \<le> 8
     \<and> (0 < retrans_count node \<longrightarrow> unat (timeout_val node) = backoff (8 - unat (retrans_count node)))"

text \<open>The limits that \<open>CoAPServer_init\<close> sets: messages, observers, observed resources, resources.\<close>

definition limits :: "CoAPIntContext \<Rightarrow> u8 \<times> u8 \<times> u8 \<times> u8" where
  "limits ctx = (send_maxcount ctx, obss_maxcount ctx, obsc_maxcount ctx, res_maxcount ctx)"

lemma limits_kept [simp]:
  "limits (ctx\<lparr>message_id := i\<rparr>) = limits ctx" "limits (ctx\<lparr>sendlist := ns\<rparr>) = limits ctx"
  "limits (ctx\<lparr>send_count := n\<rparr>) = limits ctx" "limits (ctx\<lparr>obsserver := os\<rparr>) = limits ctx"
  "limits (ctx\<lparr>obss_count := n\<rparr>) = limits ctx" "limits (ctx\<lparr>obsclient := cs\<rparr>) = limits ctx"
  "limits (ctx\<lparr>obsc_count := n\<rparr>) = limits ctx" "limits (ctx\<lparr>resource := rs\<rparr>) = limits ctx"
  "limits (ctx\<lparr>res_count := n\<rparr>) = limits ctx" "limits (ctx\<lparr>coap_calls := k\<rparr>) = limits ctx"
  "limits (ctx\<lparr>coap_seen := es\<rparr>) = limits ctx"
  by (simp_all add: limits_def)

definition coap_inv :: "CoAPIntContext \<Rightarrow> bool" where
  "coap_inv ctx \<longleftrightarrow>
     limits ctx = (16, 16, 16, 255)
     \<and> counted (sendlist ctx) (send_count ctx) (send_maxcount ctx)
     \<and> counted (obsserver ctx) (obss_count ctx) (obss_maxcount ctx)
     \<and> counted (obsclient ctx) (obsc_count ctx) (obsc_maxcount ctx)
     \<and> counted (resource ctx) (res_count ctx) (res_maxcount ctx)
     \<and> (\<forall>node \<in> set (sendlist ctx). node_ok node)
     \<and> (\<forall>node \<in> set (obsserver ctx). p_resource_of_interest node < length (resource ctx))"

text \<open>The platform calls and what is observed do not touch the lists.\<close>

lemma inv_platform [simp]:
  "coap_inv (ctx\<lparr>coap_calls := n\<rparr>) = coap_inv ctx" "coap_inv (ctx\<lparr>coap_seen := es\<rparr>) = coap_inv ctx"
  "coap_inv (ctx\<lparr>message_id := i\<rparr>) = coap_inv ctx" "coap_inv (coap_observe e ctx) = coap_inv ctx"
  by (simp_all add: coap_inv_def coap_observe_def)

lemma inv_malloc: "coap_malloc P ctx = (b, ctx') \<Longrightarrow> coap_inv ctx' = coap_inv ctx"
  and inv_uptime: "HAL_UptimeMs P ctx = (t, ctx') \<Longrightarrow> coap_inv ctx' = coap_inv ctx"
  and inv_write: "CoAPNetwork_write P remote data ctx = (n, ctx') \<Longrightarrow> coap_inv ctx' = coap_inv ctx"
  and inv_id: "CoAPMessageId_gen ctx = (i, ctx') \<Longrightarrow> coap_inv ctx' = coap_inv ctx"
  by (auto simp: coap_malloc_def HAL_UptimeMs_def CoAPNetwork_write_def CoAPMessageId_gen_def Let_def split: if_splits)

lemma inv_created: "CoAPContext_create a b c d 16 16 255 = Some (Some ctx) \<Longrightarrow> coap_inv ctx"
  by (auto simp: CoAPContext_create_def coap_inv_def counted_empty limits_def split: if_splits)


section \<open>Sending\<close>

lemma put_length: "put buf p bs = Some buf' \<Longrightarrow> length buf' = length buf"
  by (auto simp: put_def split: if_splits)

lemma copy_token_length: "copy_token m = Some t \<Longrightarrow> length t = COAP_MSG_MAX_TOKEN_LEN"
  by (auto simp: copy_token_def bind_eq_Some_conv dest!: put_length)

lemma new_node_ok: "length t = COAP_MSG_MAX_TOKEN_LEN \<Longrightarrow> node_ok (new_node remote m buffer len tick t)"
  by (simp add: node_ok_def new_node_def)

lemma inv_list_add:
  assumes "CoAPMessageList_add P remote m buffer len ctx = Some (ret, ctx')" and "coap_inv ctx"
  shows "coap_inv ctx'"
proof -
  have added: "coap_inv (c\<lparr>sendlist := sendlist c @ [new_node remote m buffer len tick t], send_count := send_count c + 1\<rparr>)"
    if "coap_inv c" "\<not> send_maxcount c \<le> send_count c" "length t = COAP_MSG_MAX_TOKEN_LEN" for c tick t
    using that counted_add [of "sendlist c"] new_node_ok [of t] by (auto simp: coap_inv_def)
  from assms show ?thesis
    by (auto simp: CoAPMessageList_add_def split: if_splits elim!: run_elims dest!: inv_malloc inv_uptime
        intro!: added copy_token_length)
qed

lemma inv_obsclient_shrink:
  "coap_inv ctx \<Longrightarrow> obsclient ctx = ys @ y # zs \<Longrightarrow> coap_inv (ctx\<lparr>obsclient := ys @ zs, obsc_count := obsc_count ctx - 1\<rparr>)"
  using counted_remove [of ys y zs] by (auto simp: coap_inv_def)

lemma inv_obsclient_delete:
  "CoAPObsClient_delete m ctx = Some (ret, ctx') \<Longrightarrow> coap_inv ctx \<Longrightarrow> coap_inv ctx'"
  by (auto simp: CoAPObsClient_delete_def elim!: run_elims split: option.splits
      dest!: split_first_SomeD intro: inv_obsclient_shrink)

lemma inv_send:
  "CoAPMessage_send P remote m ctx = Some (ret, ctx') \<Longrightarrow> coap_inv ctx \<Longrightarrow> coap_inv ctx'"
  by (auto simp: CoAPMessage_send_def elim!: run_elims dest!: inv_malloc inv_write
      intro: inv_list_add inv_obsclient_delete)

lemma inv_cancel: "coap_inv ctx \<Longrightarrow> coap_inv (snd (CoAPMessageId_cancel i ctx))"
  using counted_filter [of "sendlist ctx" _ _ "\<lambda>node. msgid (sn_header node) = i"]
  by (auto simp: coap_inv_def CoAPMessageId_cancel_def)

section \<open>Resources and observers\<close>

lemma resource_index_bound: "resource_index f i rs = Some r \<Longrightarrow> i \<le> r \<and> r < i + length rs"
  by (induction rs arbitrary: i) (fastforce split: if_splits)+

lemma path_get_bound: "CoAPResourceByPath_get path ctx = Some (Some r) \<Longrightarrow> r < length (resource ctx)"
  by (auto simp: CoAPResourceByPath_get_def bind_eq_Some_conv dest!: resource_index_bound)

lemma register_scan_length:
  "register_scan ty md5sum perm ctype maxage callback path rs = (exist, rs', path') \<Longrightarrow> length rs' = length rs"
  by (induction rs arbitrary: path exist rs' path') (auto simp: Let_def split: if_splits prod.splits)

lemma inv_resources_changed:
  "coap_inv ctx \<Longrightarrow> length rs = length (resource ctx) \<Longrightarrow> coap_inv (ctx\<lparr>resource := rs\<rparr>)"
  by (auto simp: coap_inv_def counted_def)

lemma inv_create: "CoAPResource_create P path ty perm ctype maxage callback ctx = Some (r, ctx')
    \<Longrightarrow> coap_inv ctx' = coap_inv ctx \<and> resource ctx' = resource ctx \<and> res_count ctx' = res_count ctx \<and> res_maxcount ctx' = res_maxcount ctx"
  by (auto simp: CoAPResource_create_def coap_malloc_def Let_def bind_eq_Some_conv split: if_splits)

lemma inv_resource_added:
  "coap_inv ctx \<Longrightarrow> res_count ctx = n \<Longrightarrow> \<not> res_maxcount ctx \<le> n
    \<Longrightarrow> coap_inv (ctx\<lparr>resource := resource ctx @ [r], res_count := n + 1\<rparr>)"
  using counted_add [of "resource ctx" n "res_maxcount ctx" r] by (fastforce simp: coap_inv_def)

lemma inv_register:
  assumes "CoAPResource_register P path perm ctype maxage callback ctx = Some (ret, ctx')" and "coap_inv ctx"
  shows "coap_inv ctx'"
  using assms
  by (auto simp: CoAPResource_register_def elim!: run_elims split: option.splits
      dest!: register_scan_length inv_create intro!: inv_resource_added inv_resources_changed)

lemma inv_observers:
  assumes "coap_inv ctx" and "counted obs n (obss_maxcount ctx)"
    and "\<forall>node \<in> set obs. p_resource_of_interest node < length (resource ctx)"
  shows "coap_inv (ctx\<lparr>obsserver := obs, obss_count := n\<rparr>)"
  using assms by (simp add: coap_inv_def)

lemma inv_observers_same_count:
  assumes "coap_inv ctx" and "map p_resource_of_interest obs = map p_resource_of_interest (obsserver ctx)"
  shows "coap_inv (ctx\<lparr>obsserver := obs\<rparr>)"
proof -
  have "length obs = length (obsserver ctx)" using assms(2) by (rule map_eq_imp_length_eq)
  moreover have "p_resource_of_interest ` set obs = p_resource_of_interest ` set (obsserver ctx)"
    using arg_cong [OF assms(2), of set] by simp
  ultimately show ?thesis using assms(1) by (force simp: coap_inv_def counted_def)
qed

lemma inv_observer_deleted: "coap_inv ctx \<Longrightarrow> coap_inv (snd (CoapObsServer_delete remote r ctx))"
proof -
  assume inv: "coap_inv ctx"
  have "coap_inv (ctx\<lparr>obsserver := ys @ zs, obss_count := obss_count ctx - 1\<rparr>)" if "obsserver ctx = ys @ y # zs" for ys y zs
    using inv that counted_remove [of ys y zs] by (intro inv_observers) (auto simp: coap_inv_def)
  with inv show ?thesis by (auto simp: CoapObsServer_delete_def split: option.split dest!: split_first_SomeD)
qed

lemma inv_observers_deleted: "coap_inv ctx \<Longrightarrow> coap_inv (snd (CoapObsServerAll_delete remote ctx))"
  using counted_filter [of "obsserver ctx" _ _ "\<lambda>node. same_remote (obs_remote node) remote"]
  by (auto simp: coap_inv_def CoapObsServerAll_delete_def)


lemma inv_observe_add:
  assumes "CoAPObsServer_add P junk path remote request ctx = Some (ret, ctx')" and "coap_inv ctx"
  shows "coap_inv ctx'"
proof -
  have renewed: "coap_inv (ctx\<lparr>obsserver := ys @ node\<lparr>obs_token := t, obs_tokenlen := n\<rparr> # zs\<rparr>)"
    if "obsserver ctx = ys @ node # zs" for ys node zs t n
    using assms(2) that by (intro inv_observers_same_count) simp_all
  have added: "coap_inv (ctx\<lparr>coap_calls := k, obsserver := obsserver ctx @ [obs], obss_count := obss_count ctx + 1\<rparr>)"
    if "\<not> obss_maxcount ctx \<le> obss_count ctx" "p_resource_of_interest obs < length (resource ctx)" for obs k
    using assms(2) that counted_add [of "obsserver ctx"] by (auto simp: coap_inv_def)
  from assms show ?thesis
    by (auto simp: CoAPObsServer_add_def Let_def coap_malloc_def bind_eq_Some_conv intro!: renewed added
        dest!: split_first_SomeD path_get_bound split: option.splits if_splits)
qed

lemma set_message_steps: "add_uint_option P num d m ctx = (m', ctx') \<Longrightarrow> coap_inv ctx' = coap_inv ctx \<and> obsserver ctx' = obsserver ctx"
  by (auto simp: add_uint_option_def coap_malloc_def Let_def split: if_splits)

lemma id_observers: "CoAPMessageId_gen ctx = (i, ctx') \<Longrightarrow> coap_inv ctx' = coap_inv ctx \<and> obsserver ctx' = obsserver ctx"
  by (auto simp: CoAPMessageId_gen_def split: if_splits)

lemma inv_notify_message:
  "notify_message P maxage encrypt payld n node ctx = Some (m, ctx') \<Longrightarrow> coap_inv ctx' = coap_inv ctx \<and> obsserver ctx' = obsserver ctx"
  by (auto simp: notify_message_def elim!: run_elims dest!: set_message_steps id_observers split: option.splits)

lemma platform_observers:
  "coap_malloc P ctx = (b, ctx') \<Longrightarrow> obsserver ctx' = obsserver ctx"
  "HAL_UptimeMs P ctx = (t, ctx') \<Longrightarrow> obsserver ctx' = obsserver ctx"
  "CoAPNetwork_write P remote data ctx = (n, ctx') \<Longrightarrow> obsserver ctx' = obsserver ctx"
  by (auto simp: coap_malloc_def HAL_UptimeMs_def CoAPNetwork_write_def coap_observe_def Let_def)

lemma list_add_observers: "CoAPMessageList_add P remote m buff n ctx = Some (ret, ctx') \<Longrightarrow> obsserver ctx' = obsserver ctx"
  by (auto simp: CoAPMessageList_add_def elim!: run_elims dest!: platform_observers split: if_splits)

lemma obsclient_observers: "CoAPObsClient_delete m ctx = Some (ret, ctx') \<Longrightarrow> obsserver ctx' = obsserver ctx"
  by (auto simp: CoAPObsClient_delete_def elim!: run_elims split: option.splits)

lemma send_observers:
  "CoAPMessage_send P remote m ctx = Some (ret, ctx') \<Longrightarrow> obsserver ctx' = obsserver ctx"
  by (auto simp: CoAPMessage_send_def elim!: run_elims dest!: platform_observers list_add_observers obsclient_observers)

lemma inv_notify_loop:
  "notify_loop P maxage r encrypt payld n i k ret ctx = Some (ret', ctx') \<Longrightarrow> coap_inv ctx
     \<Longrightarrow> i + k \<le> length (obsserver ctx) \<Longrightarrow> coap_inv ctx'"
proof (induction k arbitrary: i ret ctx)
  case (Suc k)
  let ?node = "obsserver ctx ! i"
  show ?case
  proof (cases "p_resource_of_interest ?node = r")
    case False
    with Suc show ?thesis by (simp add: Let_def)
  next
    case True
    with Suc.prems(1) obtain m ctx1 ret2 ctx2 where run: "notify_message P maxage encrypt payld n ?node ctx = Some (m, ctx1)"
      "CoAPMessage_send P (obs_remote ?node) m
         (ctx1\<lparr>obsserver := (obsserver ctx1)[i := ?node\<lparr>observer_sequence_num := observer_sequence_num ?node + 1\<rparr>]\<rparr>) = Some (ret2, ctx2)"
      "notify_loop P maxage r encrypt payld n (Suc i) k ret2 ctx2 = Some (ret', ctx')"
      by (auto simp: Let_def bind_eq_Some_conv)
    from inv_notify_message [OF run(1)] Suc.prems(2) have c1: "coap_inv ctx1" "obsserver ctx1 = obsserver ctx" by simp_all
    have "map p_resource_of_interest ((obsserver ctx1)[i := ?node\<lparr>observer_sequence_num := observer_sequence_num ?node + 1\<rparr>])
        = map p_resource_of_interest (obsserver ctx1)"
      using c1(2) by (simp add: map_update) (metis list_update_id map_update)
    then have "coap_inv ctx2" using inv_send [OF run(2)] inv_observers_same_count [OF c1(1)] by blast
    moreover have "length (obsserver ctx2) = length (obsserver ctx)" using send_observers [OF run(2)] c1(2) by simp
    ultimately show ?thesis using Suc.IH [OF run(3)] Suc.prems(3) by simp
  qed
qed simp

lemma inv_notify: "CoAPObsServer_notify P path payld n encrypt ctx = Some (ret, ctx') \<Longrightarrow> coap_inv ctx \<Longrightarrow> coap_inv ctx'"
  by (auto simp: CoAPObsServer_notify_def bind_eq_Some_conv split: option.splits intro: inv_notify_loop)


section \<open>Receiving\<close>

lemma inv_obsclient_replaced:
  "coap_inv ctx \<Longrightarrow> obsclient ctx = ys @ y # zs \<Longrightarrow> coap_inv (ctx\<lparr>obsclient := ys @ y' # zs\<rparr>)"
  by (auto simp: coap_inv_def counted_def)

lemma inv_obsclient_grown:
  "coap_inv ctx \<Longrightarrow> obsc_count ctx < obsc_maxcount ctx \<Longrightarrow>
     coap_inv (ctx\<lparr>obsclient := obsclient ctx @ [y], obsc_count := obsc_count ctx + 1\<rparr>)"
  using counted_add [of "obsclient ctx" "obsc_count ctx" "obsc_maxcount ctx" y] by (auto simp: coap_inv_def not_le)

lemma malloc_counts: "coap_malloc P ctx = (b, ctx') \<Longrightarrow> coap_inv ctx' = coap_inv ctx \<and> obsclient ctx' = obsclient ctx
    \<and> obsc_count ctx' = obsc_count ctx \<and> obsc_maxcount ctx' = obsc_maxcount ctx"
  by (auto simp: coap_malloc_def)

lemma inv_notified: "obsclient_notified m remote ctx = Some ctx' \<Longrightarrow> coap_inv ctx \<Longrightarrow> coap_inv ctx'"
  by (auto simp: obsclient_notified_def elim!: run_elims dest!: split_first_SomeD intro!: inv_obsclient_replaced
      split: option.splits)

lemma inv_started: "obsclient_started P m remote node ctx = Some ctx' \<Longrightarrow> coap_inv ctx \<Longrightarrow> coap_inv ctx'"
proof -
  assume run: "obsclient_started P m remote node ctx = Some ctx'" and inv: "coap_inv ctx"
  have grown: "coap_inv (c\<lparr>obsclient := obsclient c @ [y], obsc_count := obsc_count c + 1\<rparr>)"
    if "coap_malloc P ctx = (b, c)" "obsc_count ctx < obsc_maxcount ctx" for b c y
    using inv_obsclient_grown [of c y] malloc_counts [OF that(1)] that(2) inv by simp
  from run inv show ?thesis
    by (auto simp: obsclient_started_def elim!: run_elims intro!: grown dest: malloc_counts split: option.splits)
qed

lemma inv_obsclient_add: "CoAPObsClient_add P m remote node ctx = Some ctx' \<Longrightarrow> coap_inv ctx \<Longrightarrow> coap_inv ctx'"
  by (auto simp: CoAPObsClient_add_def elim!: run_elims dest!: split_first_SomeD
      intro: inv_notified inv_started inv_obsclient_shrink split: option.splits)

lemma inv_sendlist_shrink:
  "coap_inv ctx \<Longrightarrow> sendlist ctx = ys @ y # zs \<Longrightarrow> coap_inv (ctx\<lparr>sendlist := ys @ zs, send_count := send_count ctx - 1\<rparr>)"
  using counted_remove [of ys y zs] by (auto simp: coap_inv_def)

lemma inv_sendlist_replaced:
  "coap_inv ctx \<Longrightarrow> sendlist ctx = ys @ y # zs \<Longrightarrow> node_ok y' \<Longrightarrow> coap_inv (ctx\<lparr>sendlist := ys @ y' # zs\<rparr>)"
  by (auto simp: coap_inv_def counted_def)

lemma inv_acked:
  "coap_inv ctx \<Longrightarrow> sendlist ctx = ys @ y # zs \<Longrightarrow> coap_inv (ctx\<lparr>sendlist := ys @ y\<lparr>acked := n\<rparr> # zs\<rparr>)"
  by (rule inv_sendlist_replaced) (auto simp: coap_inv_def node_ok_def)

lemma inv_ack_handle: "coap_inv ctx \<Longrightarrow> coap_inv (snd (CoAPAckMessage_handle m ctx))"
  by (auto simp: CoAPAckMessage_handle_def Let_def intro: inv_sendlist_shrink inv_acked dest!: split_first_SomeD
      split: option.split)

lemma inv_ack_send: "CoAPAckMessage_send P remote i ctx = Some (ret, ctx') \<Longrightarrow> coap_inv ctx \<Longrightarrow> coap_inv ctx'"
  and inv_request_ack: "CoAPRequestMessage_ack_send P remote i ctx = Some (ret, ctx') \<Longrightarrow> coap_inv ctx \<Longrightarrow> coap_inv ctx'"
  and inv_reset_send: "CoAPRestMessage_send P remote i ctx = Some (ret, ctx') \<Longrightarrow> coap_inv ctx \<Longrightarrow> coap_inv ctx'"
  and inv_error_send: "CoAPErrRespMessage_send P remote m code ctx = Some (ret, ctx') \<Longrightarrow> coap_inv ctx \<Longrightarrow> coap_inv ctx'"
  by (auto simp: CoAPAckMessage_send_def CoAPRequestMessage_ack_send_def CoAPRestMessage_send_def
      CoAPErrRespMessage_send_def elim!: run_elims intro: inv_send)

lemma map_snd_SomeE: "map_option snd x = Some c \<Longrightarrow> (\<And>r. x = Some (r, c) \<Longrightarrow> thesis) \<Longrightarrow> thesis"
  by auto

lemma inv_resp_handle:
  assumes "CoAPRespMessage_handle P remote m ctx = Some (ret, ctx')" and "coap_inv ctx"
  shows "coap_inv ctx'"
proof -
  obtain c1 r where c1: "coap_inv c1"
      "split_first (\<lambda>node. same_token (sn_token node) (tokenlen (sn_header node)) m) (sendlist c1) = Some r"
      and rest: "(case r of
         None \<Rightarrow> do { ctx \<leftarrow> CoAPObsClient_add P m remote None c1; Some (COAP_ERROR_NOT_FOUND, ctx) }
       | Some (ys, node, zs) \<Rightarrow>
           let ctx = (if sn_keep node = NOKEEP
                      then c1\<lparr>sendlist := ys @ zs, send_count := send_count c1 - 1\<rparr> else c1);
               m = m\<lparr>user_data := sn_user node\<rparr>
           in (case sn_handler node of
                 None \<Rightarrow> Some (COAP_ERROR_NOT_FOUND, ctx)
               | Some f \<Rightarrow> do {
                   ctx \<leftarrow> CoAPObsClient_add P m remote (Some node) ctx;
                   Some (COAP_ERROR_NOT_FOUND,
                         coap_observe (Handled f COAP_REQUEST_SUCCESS (sn_user node) remote (Some m)) ctx) })) = Some (ret, ctx')"
    using assms unfolding CoAPRespMessage_handle_def
    by (auto elim!: bind_SomeE if_SomeE map_snd_SomeE Some_SomeE dest: inv_ack_send)
  show ?thesis
  proof (cases r)
    case None
    with rest c1(1) show ?thesis by (auto elim!: run_elims intro: inv_obsclient_add)
  next
    case (Some q)
    obtain ys node zs where q: "q = (ys, node, zs)" by (metis prod.exhaust)
    with Some c1(2) have "sendlist c1 = ys @ node # zs" by (auto dest: split_first_SomeD)
    from inv_sendlist_shrink [OF c1(1) this] rest Some q c1(1) show ?thesis
      by (auto simp: Let_def elim!: run_elims dest: inv_obsclient_add split: option.splits if_splits)
  qed
qed


lemma inv_request_handle:
  "CoAPRequestMessage_handle P remote m ctx = Some (ret, ctx') \<Longrightarrow> coap_inv ctx \<Longrightarrow> coap_inv ctx'"
  by (auto simp: CoAPRequestMessage_handle_def elim!: run_elims map_snd_SomeE split: option.splits;
      blast intro: inv_request_ack inv_error_send)

lemma inv_handle: "CoAPMessage_handle P remote buf n ctx = Some ctx' \<Longrightarrow> coap_inv ctx \<Longrightarrow> coap_inv ctx'"
  by (auto simp: CoAPMessage_handle_def elim!: run_elims map_snd_SomeE
      intro: inv_ack_handle inv_resp_handle inv_reset_send inv_request_handle)

lemma inv_process: "CoAPMessage_process P ip received ctx = Some ctx' \<Longrightarrow> coap_inv ctx \<Longrightarrow> coap_inv ctx'"
  by (induction P ip received ctx rule: CoAPMessage_process.induct)
    (auto simp: Let_def bind_eq_Some_conv split: if_splits dest: inv_handle)

section \<open>Retransmission and timeouts\<close>

lemma retransmit_node_ok:
  assumes "node_ok node" and "retrans_count node \<noteq> 0"
  shows "node_ok (retransmit_node tick node)"
proof -
  let ?k = "unat (retrans_count node)"
  have k: "0 < ?k" "?k \<le> 8" using assms by (auto simp: node_ok_def unat_gt_0)
  have val: "unat (timeout_val node) = backoff (8 - ?k)" using assms by (simp add: node_ok_def word_neq_0_conv)
  have less: "unat (retrans_count node - 1) = ?k - 1" using assms(2) by (simp add: unat_minus_one)
  have up: "8 - (?k - 1) = Suc (8 - ?k)" using k by simp
  have "uint (timeout_val node) = int (backoff (8 - ?k))" using val by (metis of_nat_unat)
  then have "uint (timeout_val node) * 3 div 2 = int (backoff (8 - (?k - 1)))" unfolding up by (simp add: zdiv_int)
  moreover have "backoff (8 - (?k - 1)) < 65536" using backoff_bound [of "8 - (?k - 1)"] by simp
  ultimately have "unat (word_of_int (uint (timeout_val node) * 3 div 2) :: u16) = backoff (8 - (?k - 1))"
    by (simp add: unsigned_of_nat take_bit_nat_eq_self)
  then show ?thesis using assms(1) less k by (auto simp: node_ok_def retransmit_node_def Let_def)
qed

lemma inv_retransmit_loop:
  "retransmit_loop P tick nodes ctx = (nodes', ctx') \<Longrightarrow> coap_inv ctx \<Longrightarrow> \<forall>node \<in> set nodes. node_ok node
     \<Longrightarrow> coap_inv ctx' \<and> (\<forall>node \<in> set nodes'. node_ok node) \<and> length nodes' = length nodes
       \<and> send_count ctx' = send_count ctx"
proof (induction nodes arbitrary: ctx nodes' ctx')
  case (Cons node nodes)
  define c where "c = (if timeout node > tick \<or> retrans_count node = 0 \<or> acked node \<noteq> 0 then ctx
      else snd (CoAPNetwork_write P (sn_remote node) (sn_message node) ctx))"
  have "coap_inv c" "send_count c = send_count ctx"
    using Cons.prems(2) inv_write [of P "sn_remote node" "sn_message node" ctx]
    by (auto simp: c_def CoAPNetwork_write_def coap_observe_def Let_def)
  moreover obtain ns c2 where run: "retransmit_loop P tick nodes c = (ns, c2)" by force
  ultimately have "coap_inv c2 \<and> (\<forall>node \<in> set ns. node_ok node) \<and> length ns = length nodes \<and> send_count c2 = send_count ctx"
    using Cons.IH [OF run] Cons.prems(3) by simp
  with Cons.prems(1,3) run retransmit_node_ok [of node tick] show ?case
    by (auto simp: c_def Let_def split: if_splits prod.splits)
qed simp

lemma inv_sendlist_same_length:
  "coap_inv ctx \<Longrightarrow> length nodes = unat (send_count ctx) \<Longrightarrow> \<forall>node \<in> set nodes. node_ok node
    \<Longrightarrow> coap_inv (ctx\<lparr>sendlist := nodes\<rparr>)"
  by (auto simp: coap_inv_def counted_def)

lemma inv_retransmit: "coap_inv ctx \<Longrightarrow> coap_inv (Retansmit P ctx)"
proof -
  assume inv: "coap_inv ctx"
  obtain tick c1 where c1: "HAL_UptimeMs P ctx = (tick, c1)" by force
  obtain nodes c2 where c2: "retransmit_loop P tick (sendlist c1) c1 = (nodes, c2)" by force
  have "coap_inv c1" using inv inv_uptime [OF c1] by simp
  moreover from this have "\<forall>node \<in> set (sendlist c1). node_ok node" "length (sendlist c1) = unat (send_count c1)"
    by (simp_all add: coap_inv_def counted_def)
  ultimately show ?thesis using inv_retransmit_loop [OF c2] c1 c2 by (simp add: Retansmit_def inv_sendlist_same_length)
qed

lemma inv_check_timeout_loop: "check_timeout_loop n tick ctx = Some ctx' \<Longrightarrow> coap_inv ctx \<Longrightarrow> coap_inv ctx'"
proof (induction n arbitrary: ctx)
  case (Suc n)
  show ?case
  proof (cases "split_first (\<lambda>node. Some (timed_out tick node)) (sendlist ctx)")
    case (Some r)
    show ?thesis
    proof (cases r)
      case (Some q)
      obtain ys node zs where q: "q = (ys, node, zs)" by (metis prod.exhaust)
      let ?c = "snd (CoapObsServerAll_delete (sn_remote node) (ctx\<lparr>sendlist := ys @ zs, send_count := send_count ctx - 1\<rparr>))"
      have "sendlist ctx = ys @ node # zs" using \<open>split_first _ _ = Some r\<close> Some q by (auto dest: split_first_SomeD)
      from inv_observers_deleted [OF inv_sendlist_shrink [OF Suc.prems(2) this]] have "coap_inv ?c" .
      with Suc.IH Suc.prems(1) \<open>split_first _ _ = Some r\<close> Some q show ?thesis
        by (auto simp: Let_def split: option.splits)
    qed (use Suc.prems \<open>split_first _ _ = Some r\<close> in simp)
  qed (use Suc.prems in simp)
qed simp

lemma inv_check_timeout: "Check_timeout P ctx = Some ctx' \<Longrightarrow> coap_inv ctx \<Longrightarrow> coap_inv ctx'"
  by (auto simp: Check_timeout_def simp del: check_timeout_loop.simps elim!: run_elims dest: inv_uptime
      intro: inv_check_timeout_loop)

lemma inv_cycle: "CoAPMessage_cycle P ip received ctx = Some ctx' \<Longrightarrow> coap_inv ctx \<Longrightarrow> coap_inv ctx'"
  by (auto simp: CoAPMessage_cycle_def elim!: run_elims intro: inv_check_timeout inv_retransmit inv_process)


section \<open>The server's calls\<close>

lemma inv_str_option: "add_str_option P num d m ctx = Some (m', ctx') \<Longrightarrow> coap_inv ctx' = coap_inv ctx"
  by (auto simp: add_str_option_def elim!: run_elims dest: inv_malloc)

lemma inv_path_loop: "path_options_loop P seg s m ctx = Some (m', ctx') \<Longrightarrow> coap_inv ctx' = coap_inv ctx"
proof (induction s arbitrary: seg m ctx)
  case (Cons c s)
  then show ?case by (auto elim!: run_elims dest!: inv_str_option Cons.IH)
qed simp

lemma inv_multicast_message:
  "multicast_message P i tok uri buff len callback ctx = Some (m, ctx') \<Longrightarrow> coap_inv ctx' = coap_inv ctx"
  by (auto simp: multicast_message_def CoAPServerPath_2_option_def elim!: run_elims dest!: inv_path_loop set_message_steps)

definition server_inv :: "coap_server \<Rightarrow> bool" where
  "server_inv sv \<longleftrightarrow> (\<forall>ctx. g_context sv = Some ctx \<longrightarrow> coap_inv ctx)"

lemma inv_on_context:
  assumes "on_context f sv = Some (ret, sv')" and "server_inv sv"
    and "\<And>ctx ret ctx'. f ctx = Some (ret, ctx') \<Longrightarrow> coap_inv ctx \<Longrightarrow> coap_inv ctx'"
  shows "server_inv sv'"
  using assms by (auto simp: on_context_def server_inv_def bind_eq_Some_conv split: option.splits)

lemma inv_server_init: "CoAPServer_init a b oks sv = Some (ok, sv') \<Longrightarrow> server_inv sv \<Longrightarrow> server_inv sv'"
  by (auto simp: CoAPServer_init_def server_inv_def elim!: run_elims split: option.splits;
      blast dest: inv_created)

lemma inv_server_deinit: "server_inv sv \<Longrightarrow> server_inv (CoAPServer_deinit sv)"
  by (auto simp: CoAPServer_deinit_def server_inv_def split: option.splits)

lemma inv_server_register: "CoAPServer_register P uri callback sv = Some (ret, sv') \<Longrightarrow> server_inv sv \<Longrightarrow> server_inv sv'"
  unfolding CoAPServer_register_def by (erule inv_on_context) (auto intro: inv_register)

lemma inv_multicast:
  assumes "CoAPServerMultiCast_send P remote uri buff len callback sv = Some (ret, i, sv')" and "server_inv sv"
  shows "server_inv sv'"
proof (cases "g_context sv")
  case (Some ctx)
  obtain k c1 where c1: "CoAPMessageId_gen ctx = (k, c1)" by force
  obtain tok sv1 where sv1: "CoAPServerToken_get sv = (tok, sv1)" by force
  from assms(1) Some c1 sv1 obtain m c2 c3 where run: "multicast_message P k tok uri buff len callback c1 = Some (m, c2)"
    "CoAPMessage_send P remote m c2 = Some (ret, c3)" "sv' = sv1\<lparr>g_context := Some c3\<rparr>"
    by (auto simp: CoAPServerMultiCast_send_def bind_eq_Some_conv)
  have "coap_inv c2" using assms(2) Some inv_id [OF c1] inv_multicast_message [OF run(1)] by (simp add: server_inv_def)
  with inv_send [OF run(2)] run(3) show ?thesis by (simp add: server_inv_def)
qed (use assms in \<open>simp add: CoAPServerMultiCast_send_def\<close>)

lemma inv_resp_send:
  assumes "CoAPServerResp_send P junk remote buff len request paths callback qos sv = Some (ret, sv')" and "server_inv sv"
  shows "server_inv sv'"
proof (rule inv_on_context [OF assms(1) [unfolded CoAPServerResp_send_def] assms(2)], elim run_elims, goal_cases)
  case (1 ctx ret' ctx' a r b c d e m ctx1 m2 ctx2)
  have "coap_inv ctx1"
    using 1 by (auto elim!: run_elims dest!: set_message_steps dest: inv_observe_add)
  with 1 show ?case by (auto dest!: set_message_steps intro: inv_send)
next
  case 2
  then show ?case by (auto dest!: set_message_steps intro: inv_send)
qed

end
