(* ===== verification/Coap_Session.thy ===== *)
theory Coap_Session
  imports Coap_Delivery Coap_Message_Correct
begin

text \<open>
  The CoAP server over time: the steps a program and the network can make it take, the
  invariant of all states reached, and the end of every retransmission.
\<close>

section \<open>Steps\<close>

inductive context_step :: "coap_platform \<Rightarrow> CoAPIntContext \<Rightarrow> CoAPIntContext \<Rightarrow> bool" for P where
  registering: "CoAPResource_register P path perm ctype maxage callback ctx = Some (ret, ctx') \<Longrightarrow> context_step P ctx ctx'"
| sending: "CoAPMessage_send P remote m ctx = Some (ret, ctx') \<Longrightarrow> context_step P ctx ctx'"
| cancelling: "CoAPMessageId_cancel i ctx = (ret, ctx') \<Longrightarrow> context_step P ctx ctx'"
| observing: "CoAPObsServer_add P junk path remote m ctx = Some (ret, ctx') \<Longrightarrow> context_step P ctx ctx'"
| forgetting: "CoapObsServer_delete remote r ctx = (ret, ctx') \<Longrightarrow> context_step P ctx ctx'"
| forgetting_all: "CoapObsServerAll_delete remote ctx = (ret, ctx') \<Longrightarrow> context_step P ctx ctx'"
| notifying: "CoAPObsServer_notify P path payld n encrypt ctx = Some (ret, ctx') \<Longrightarrow> context_step P ctx ctx'"
| cycling: "CoAPMessage_cycle P ip received ctx = Some ctx' \<Longrightarrow> context_step P ctx ctx'"

inductive server_step :: "coap_platform \<Rightarrow> coap_server \<Rightarrow> coap_server \<Rightarrow> bool" for P where
  starting: "CoAPServer_init semaphore_ok mutex_ok oks sv = Some (ok, sv') \<Longrightarrow> server_step P sv sv'"
| stopping: "server_step P sv (CoAPServer_deinit sv)"
| leaving: "server_step P sv (CoAPServer_thread_leave sv)"
| registering_get: "CoAPServer_register P uri callback sv = Some (ret, sv') \<Longrightarrow> server_step P sv sv'"
| multicasting: "CoAPServerMultiCast_send P remote uri buff len callback sv = Some (ret, i, sv') \<Longrightarrow> server_step P sv sv'"
| responding: "CoAPServerResp_send P junk remote buff len request paths callback qos sv = Some (ret, sv')
    \<Longrightarrow> server_step P sv sv'"
| in_context: "g_context sv = Some ctx \<Longrightarrow> context_step P ctx ctx' \<Longrightarrow> server_step P sv (sv\<lparr>g_context := Some ctx'\<rparr>)"

inductive_cases context_stepE: "context_step P ctx ctx'"
inductive_cases server_stepE: "server_step P sv sv'"

lemma inv_context_step: "context_step P ctx ctx' \<Longrightarrow> coap_inv ctx \<Longrightarrow> coap_inv ctx'"
proof (elim context_stepE)
  fix i ret assume "coap_inv ctx" "CoAPMessageId_cancel i ctx = (ret, ctx')"
  then show "coap_inv ctx'" using inv_cancel [of ctx i] by simp
next
  fix remote r ret assume "coap_inv ctx" "CoapObsServer_delete remote r ctx = (ret, ctx')"
  then show "coap_inv ctx'" using inv_observer_deleted [of ctx remote r] by simp
next
  fix remote ret assume "coap_inv ctx" "CoapObsServerAll_delete remote ctx = (ret, ctx')"
  then show "coap_inv ctx'" using inv_observers_deleted [of ctx remote] by simp
qed (erule (1) inv_register inv_send inv_observe_add inv_notify inv_cycle)+

lemma inv_server_step: "server_step P sv sv' \<Longrightarrow> server_inv sv \<Longrightarrow> server_inv sv'"
proof (elim server_stepE)
  fix ctx ctx'
  assume "server_inv sv" "sv' = sv\<lparr>g_context := Some ctx'\<rparr>" "g_context sv = Some ctx" "context_step P ctx ctx'"
  then show "server_inv sv'" by (simp add: server_inv_def inv_context_step)
next
  assume "server_inv sv" "sv' = CoAPServer_thread_leave sv"
  then show "server_inv sv'" by (simp add: server_inv_def CoAPServer_thread_leave_def)
qed (auto intro: inv_server_init inv_server_deinit inv_server_register inv_multicast inv_resp_send)

lemma inv_server_steps: "(server_step P)\<^sup>*\<^sup>* sv sv' \<Longrightarrow> server_inv sv \<Longrightarrow> server_inv sv'"
  by (induction rule: rtranclp_induct) (auto intro: inv_server_step)

text \<open>
  Property C5: the invariant of the CoAP server. Whatever the network delivers and refuses,
  the memory, the clock and the program do, in every state that a server reaches from its start:
  each list has as many elements as its counter says and no more than its limit (16 messages, 16
  observers, 16 observed resources, 255 resources); a message that waits for its
  acknowledgement has at most 8 retransmissions left, and the time it waits is 600 ms grown by
  half with each retransmission made; every observer refers to a registered resource.
\<close>

theorem coap_server_invariant:
  assumes "(server_step P)\<^sup>*\<^sup>* coap_server_start sv" and "g_context sv = Some ctx"
  shows "length (sendlist ctx) = unat (send_count ctx) \<and> length (sendlist ctx) \<le> 16
       \<and> length (obsserver ctx) = unat (obss_count ctx) \<and> length (obsserver ctx) \<le> 16
       \<and> length (obsclient ctx) = unat (obsc_count ctx) \<and> length (obsclient ctx) \<le> 16
       \<and> length (resource ctx) = unat (res_count ctx) \<and> length (resource ctx) \<le> 255
       \<and> (\<forall>node \<in> set (sendlist ctx). unat (retrans_count node) \<le> 8
            \<and> (0 < retrans_count node \<longrightarrow> unat (timeout_val node) = backoff (8 - unat (retrans_count node))))
       \<and> (\<forall>node \<in> set (obsserver ctx). p_resource_of_interest node < length (resource ctx))"
proof -
  have "server_inv coap_server_start" by (simp add: server_inv_def coap_server_start_def)
  with inv_server_steps [OF assms(1)] assms(2) have "coap_inv ctx" by (simp add: server_inv_def)
  then show ?thesis by (auto simp: coap_inv_def counted_def limits_def node_ok_def word_le_nat_alt)
qed


lemma test_started: "CoAPServer_init True True (True, True, True, True) coap_server_start = Some (True, test_sender)"
  by (simp add: CoAPServer_init_def coap_server_start_def test_sender_def test_context_def CoAPContext_create_def)

lemma test_waiting:
  "map_option (\<lambda>(ret, i, sv). map_option (\<lambda>ctx. length (sendlist ctx)) (g_context sv))
     (CoAPServerMultiCast_send test_platform test_remote test_path [123] 1 None test_sender) = Some (Some 1)"
  by code_simp

theorem coap_server_invariant_witness:
  "\<exists>sv ctx. (server_step test_platform)\<^sup>*\<^sup>* coap_server_start sv \<and> g_context sv = Some ctx \<and> length (sendlist ctx) = 1
     \<and> unat (send_count ctx) = 1 \<and> (\<forall>node \<in> set (sendlist ctx). unat (retrans_count node) \<le> 8)"
proof -
  obtain ret i sv ctx where sv: "CoAPServerMultiCast_send test_platform test_remote test_path [123] 1 None test_sender = Some (ret, i, sv)"
    "g_context sv = Some ctx" "length (sendlist ctx) = 1"
    using test_waiting by auto
  have "(server_step test_platform)\<^sup>*\<^sup>* coap_server_start sv"
    using server_step.starting [OF test_started] server_step.multicasting [OF sv(1)]
    by (meson rtranclp.rtrancl_into_rtrancl rtranclp.rtrancl_refl)
  with coap_server_invariant [OF this sv(2)] sv(2,3) show ?thesis by (intro exI [of _ sv] exI [of _ ctx]) auto
qed

section \<open>Retransmission ends\<close>

text \<open>Every message that waits afterwards waited before, with the same count and the same deadline.\<close>

definition same_schedule :: "CoAPSendNode \<Rightarrow> CoAPSendNode \<Rightarrow> bool" where
  "same_schedule a b \<longleftrightarrow> sn_keep a = sn_keep b \<and> retrans_count a = retrans_count b \<and> timeout a = timeout b"

definition waited :: "CoAPIntContext \<Rightarrow> CoAPIntContext \<Rightarrow> bool" where
  "waited ctx ctx' \<longleftrightarrow> (\<forall>node' \<in> set (sendlist ctx'). \<exists>node \<in> set (sendlist ctx). same_schedule node' node)"

lemma waited_refl: "sendlist ctx' = sendlist ctx \<Longrightarrow> waited ctx ctx'"
  by (auto simp: waited_def same_schedule_def)

lemma waited_trans: "waited a b \<Longrightarrow> waited b c \<Longrightarrow> waited a c"
  by (fastforce simp: waited_def same_schedule_def)

lemma waited_observe [simp]: "waited ctx (coap_observe e ctx') = waited ctx ctx'"
  by (simp add: waited_def coap_observe_def)

lemma platform_sendlist:
  "coap_malloc P ctx = (b, ctx') \<Longrightarrow> sendlist ctx' = sendlist ctx"
  "HAL_UptimeMs P ctx = (t, ctx') \<Longrightarrow> sendlist ctx' = sendlist ctx"
  "CoAPNetwork_write P remote data ctx = (n, ctx') \<Longrightarrow> sendlist ctx' = sendlist ctx"
  by (auto simp: coap_malloc_def HAL_UptimeMs_def CoAPNetwork_write_def coap_observe_def Let_def)

lemma obsclient_sendlist:
  "CoAPObsClient_delete m ctx = Some (ret, ctx') \<Longrightarrow> sendlist ctx' = sendlist ctx"
  by (auto simp: CoAPObsClient_delete_def elim!: run_elims split: option.splits)

lemma notified_sendlist: "obsclient_notified m remote ctx = Some ctx' \<Longrightarrow> sendlist ctx' = sendlist ctx"
  by (auto simp: obsclient_notified_def coap_observe_def elim!: run_elims split: option.splits)

lemma started_sendlist: "obsclient_started P m remote node ctx = Some ctx' \<Longrightarrow> sendlist ctx' = sendlist ctx"
  by (auto simp: obsclient_started_def elim!: run_elims dest!: platform_sendlist split: option.splits)

lemma obsclient_add_sendlist: "CoAPObsClient_add P m remote node ctx = Some ctx' \<Longrightarrow> sendlist ctx' = sendlist ctx"
  by (auto simp: CoAPObsClient_add_def elim!: run_elims dest!: notified_sendlist started_sendlist split: option.splits)

text \<open>Neither an acknowledgement nor a reset nor an error response waits for an answer.\<close>

lemma send_unanswered:
  "CoAPMessage_send P remote m ctx = Some (ret, ctx') \<Longrightarrow> \<not> CoAPReqMsg (header m) \<Longrightarrow> \<not> CoAPCONRespMsg (header m)
     \<Longrightarrow> sendlist ctx' = sendlist ctx"
  by (auto simp: CoAPMessage_send_def elim!: run_elims dest!: platform_sendlist obsclient_sendlist)

lemma small_sends:
  "CoAPAckMessage_send P remote i ctx = Some (ret, ctx') \<Longrightarrow> sendlist ctx' = sendlist ctx"
  "CoAPRequestMessage_ack_send P remote i ctx = Some (ret, ctx') \<Longrightarrow> sendlist ctx' = sendlist ctx"
  "CoAPRestMessage_send P remote i ctx = Some (ret, ctx') \<Longrightarrow> sendlist ctx' = sendlist ctx"
proof -
  let ?m = "set_message (CoAPMessageId_set i) init_message"
  have "\<not> CoAPReqMsg (header ?m)" "\<not> CoAPCONRespMsg (header ?m)"
    by (simp_all add: set_message_def CoAPMessageId_set_def init_message_def CoAPMessage_init_def on_message_def
        CoAPReqMsg_def CoAPCONRespMsg_def)
  then show "CoAPAckMessage_send P remote i ctx = Some (ret, ctx') \<Longrightarrow> sendlist ctx' = sendlist ctx"
    "CoAPRequestMessage_ack_send P remote i ctx = Some (ret, ctx') \<Longrightarrow> sendlist ctx' = sendlist ctx"
    unfolding CoAPAckMessage_send_def CoAPRequestMessage_ack_send_def by (blast dest: send_unanswered)+
  let ?r = "set_message (CoAPMessageId_set i) (set_message (CoAPMessageType_set COAP_MESSAGE_TYPE_RST) init_message)"
  have "\<not> CoAPReqMsg (header ?r)" "\<not> CoAPCONRespMsg (header ?r)"
    by (simp_all add: set_message_def CoAPMessageId_set_def CoAPMessageType_set_def init_message_def CoAPMessage_init_def
        on_message_def CoAPReqMsg_def CoAPCONRespMsg_def)
  then show "CoAPRestMessage_send P remote i ctx = Some (ret, ctx') \<Longrightarrow> sendlist ctx' = sendlist ctx"
    unfolding CoAPRestMessage_send_def by (blast dest: send_unanswered)
qed

lemma token_set_code: "CoAPMessageToken_set (Some t) n (Some m) = Some (rc, r) \<Longrightarrow> \<exists>m'. r = Some m' \<and> msg_code (header m') = msg_code (header m)"
  by (auto simp: CoAPMessageToken_set_def bind_eq_Some_conv split: if_splits)

lemma type_set_code: "msg_code (header (set_message (CoAPMessageType_set ty) m)) = msg_code (header m)"
  by (simp add: set_message_def CoAPMessageType_set_def on_message_def)

lemma error_send:
  assumes "CoAPErrRespMessage_send P remote m code ctx = Some (ret, ctx')"
    and "code = COAP_MSG_CODE_404_NOT_FOUND \<or> code = COAP_MSG_CODE_405_METHOD_NOT_ALLOWED"
  shows "sendlist ctx' = sendlist ctx"
proof -
  let ?r0 = "set_message (CoAPMessageId_set (msgid (header m))) (set_message (CoAPMessageCode_set code) init_message)"
  obtain rc r where r: "CoAPMessageToken_set (Some (token m)) (tokenlen (header m)) (Some ?r0) = Some (rc, r)"
    "CoAPMessage_send P remote (set_message (CoAPMessageType_set
       (if msg_type (header m) = COAP_MESSAGE_TYPE_CON then COAP_MESSAGE_TYPE_ACK else msg_type (header m))) (the r)) ctx
     = Some (ret, ctx')"
    using assms(1) unfolding CoAPErrRespMessage_send_def by (auto elim!: run_elims)
  have "msg_code (header ?r0) = code"
    by (simp add: set_message_def CoAPMessageId_set_def CoAPMessageCode_set_def on_message_def)
  with token_set_code [OF r(1)] assms(2) show ?thesis
    by (intro send_unanswered [OF r(2)]) (auto simp: CoAPReqMsg_def CoAPCONRespMsg_def type_set_code)
qed


lemma waited_ack: "waited ctx (snd (CoAPAckMessage_handle m ctx))"
proof -
  have "waited ctx (ctx\<lparr>sendlist := ys @ zs, send_count := n\<rparr>)" "waited ctx (ctx\<lparr>sendlist := ys @ node\<lparr>acked := k\<rparr> # zs\<rparr>)"
    if "sendlist ctx = ys @ node # zs" for ys node zs n k
    using that by (auto simp: waited_def same_schedule_def)
  then show ?thesis by (auto simp: CoAPAckMessage_handle_def Let_def waited_refl dest!: split_first_SomeD split: option.split)
qed

lemma waited_response:
  assumes "CoAPRespMessage_handle P remote m ctx = Some (ret, ctx')"
  shows "waited ctx ctx'"
proof -
  obtain c1 where c1: "sendlist c1 = sendlist ctx"
    and run: "do { r \<leftarrow> split_first (\<lambda>node. same_token (sn_token node) (tokenlen (sn_header node)) m) (sendlist c1);
       case r of
         None \<Rightarrow> do { ctx \<leftarrow> CoAPObsClient_add P m remote None c1; Some (COAP_ERROR_NOT_FOUND, ctx) }
       | Some (ys, node, zs) \<Rightarrow>
           let ctx = (if sn_keep node = NOKEEP
                      then c1\<lparr>sendlist := ys @ zs, send_count := send_count c1 - 1\<rparr> else c1);
               m = m\<lparr>user_data := sn_user node\<rparr>
           in (case sn_handler node of
                 None \<Rightarrow> Some (COAP_ERROR_NOT_FOUND, ctx)
               | Some f \<Rightarrow> do {
                   ctx \<leftarrow> CoAPObsClient_add P m remote (Some node) ctx;
                   Some (COAP_ERROR_NOT_FOUND,
                         coap_observe (Handled f COAP_REQUEST_SUCCESS (sn_user node) remote (Some m)) ctx) }) } = Some (ret, ctx')"
    using assms unfolding CoAPRespMessage_handle_def
    by (auto elim!: bind_SomeE if_SomeE map_snd_SomeE Some_SomeE dest!: small_sends)
  have shrunk: "waited ctx (c1\<lparr>sendlist := ys @ zs, send_count := n\<rparr>)" if "sendlist c1 = ys @ node # zs" for ys node zs n
    using that c1 by (auto simp: waited_def same_schedule_def)
  have observed: "waited ctx c3" if "waited ctx c2" "CoAPObsClient_add P m' remote node c2 = Some c3" for c2 c3 m' node
    using that obsclient_add_sendlist [OF that(2)] by (simp add: waited_def)
  show ?thesis
    using run waited_refl [OF c1]
    by (auto simp: Let_def elim!: bind_SomeE Some_SomeE dest!: split_first_SomeD split: option.splits if_splits;
        blast intro: shrunk observed)
qed

lemma request_sendlist: "CoAPRequestMessage_handle P remote m ctx = Some (ret, ctx') \<Longrightarrow> sendlist ctx' = sendlist ctx"
  by (auto simp: CoAPRequestMessage_handle_def coap_observe_def elim!: run_elims map_snd_SomeE split: option.splits
      dest!: small_sends; blast dest: error_send)

lemma waited_handle: "CoAPMessage_handle P remote buf n ctx = Some ctx' \<Longrightarrow> waited ctx ctx'"
  by (auto simp: CoAPMessage_handle_def elim!: run_elims map_snd_SomeE
      intro: waited_ack waited_response waited_refl small_sends request_sendlist)

lemma waited_process: "CoAPMessage_process P ip received ctx = Some ctx' \<Longrightarrow> waited ctx ctx'"
proof (induction P ip received ctx rule: CoAPMessage_process.induct)
  case (2 P ip remote datagram rest ctx)
  then show ?case
    by (auto simp: Let_def bind_eq_Some_conv split: if_splits intro: waited_refl waited_trans waited_handle)
qed (auto split: if_splits intro: waited_refl)

text \<open>
  A clock that shows times from \<open>lo\<close> to \<open>hi\<close> while a cycle runs. The messages that may be
  given up with at most \<open>k\<close> retransmissions left, all due by \<open>t\<close>:
\<close>

definition clock_within :: "coap_platform \<Rightarrow> nat \<Rightarrow> nat \<Rightarrow> bool" where
  "clock_within P lo hi \<longleftrightarrow> (\<forall>n. lo \<le> unat (cp_uptime P n) \<and> unat (cp_uptime P n) \<le> hi)"

definition due :: "nat \<Rightarrow> nat \<Rightarrow> CoAPIntContext \<Rightarrow> bool" where
  "due k t ctx \<longleftrightarrow> (\<forall>node \<in> set (sendlist ctx). sn_keep node = NOKEEP \<longrightarrow>
     unat (retrans_count node) < k \<and> unat (timeout node) \<le> t)"

lemma due_waited: "waited ctx ctx' \<Longrightarrow> due k t ctx \<Longrightarrow> due k t ctx'"
  by (fastforce simp: waited_def same_schedule_def due_def)

lemma clock_uptime: "clock_within P lo hi \<Longrightarrow> HAL_UptimeMs P ctx = (tick, ctx') \<Longrightarrow> lo \<le> unat tick \<and> unat tick \<le> hi"
  by (auto simp: HAL_UptimeMs_def clock_within_def)

text \<open>A retransmission at \<open>tick\<close>, when the message is due.\<close>

lemma retransmit_node_next:
  assumes "node_ok node" and "0 < retrans_count node" and "unat tick + 15372 < 2 ^ 64"
  shows "unat (retrans_count (retransmit_node tick node)) = unat (retrans_count node) - 1"
    and "unat (timeout (retransmit_node tick node)) \<le> unat tick + 15372"
    and "sn_keep (retransmit_node tick node) = sn_keep node"
proof -
  show "unat (retrans_count (retransmit_node tick node)) = unat (retrans_count node) - 1"
    using assms(2) by (simp add: retransmit_node_def Let_def unat_minus_one word_neq_0_conv)
  have "node_ok (retransmit_node tick node)" using retransmit_node_ok [OF assms(1)] assms(2) by (simp add: word_neq_0_conv)
  moreover define v where "v = (word_of_int (uint (timeout_val node) * 3 div 2) :: u16)"
  ultimately have "0 < retrans_count node - 1 \<longrightarrow> unat v \<le> 15372"
    using backoff_bound by (auto simp: node_ok_def retransmit_node_def v_def Let_def)
  then have "retrans_count node - 1 = 0 \<or> unat v \<le> 15372" using word_neq_0_conv by blast
  moreover have "unat (tick + ucast w) = unat tick + unat w" if "unat w \<le> 15372" for w :: u16
  proof -
    have "unat (ucast w :: u64) = unat w"
      using that by (simp add: unsigned_ucast_eq unsigned_take_bit_eq take_bit_nat_eq_self)
    with that assms(3) show ?thesis by (simp add: unat_word_ariths)
  qed
  moreover from this [of 600] have "unat (tick + 600) = unat tick + 600" by simp
  ultimately show "unat (timeout (retransmit_node tick node)) \<le> unat tick + 15372"
    by (auto simp: retransmit_node_def v_def [symmetric] Let_def)
  show "sn_keep (retransmit_node tick node) = sn_keep node" by (simp add: retransmit_node_def Let_def)
qed


lemma retransmit_loop_sendlist: "retransmit_loop P tick nodes ctx = (nodes', ctx') \<Longrightarrow> sendlist ctx' = sendlist ctx"
  by (induction nodes arbitrary: ctx nodes' ctx')
    (auto simp: Let_def CoAPNetwork_write_def coap_observe_def split: if_splits prod.splits)

lemma retransmit_loop_nodes:
  "retransmit_loop P tick nodes ctx = (nodes', ctx') \<Longrightarrow>
     nodes' = map (\<lambda>node. if timeout node > tick \<or> retrans_count node = 0 then node else retransmit_node tick node) nodes"
  by (induction nodes arbitrary: ctx nodes' ctx') (auto simp: Let_def split: if_splits prod.splits)

lemma split_first_None: "split_first (\<lambda>x. Some (p x)) xs = Some None \<Longrightarrow> \<forall>x \<in> set xs. \<not> p x"
  by (induction xs; auto simp: bind_eq_Some_conv split: if_splits option.splits; metis not_None_eq prod_cases3)

lemma split_first_total: "split_first (\<lambda>x. Some (p x)) xs \<noteq> None"
  by (induction xs) auto

lemma check_timeout_loop_nodes:
  "check_timeout_loop n tick ctx = Some ctx' \<Longrightarrow>
     set (sendlist ctx') \<subseteq> set (sendlist ctx) \<and> (\<forall>node \<in> set (sendlist ctx'). \<not> timed_out tick node)"
proof (induction n arbitrary: ctx)
  case (Suc n)
  let ?r = "split_first (\<lambda>node. Some (timed_out tick node)) (sendlist ctx)"
  have none: "?r = Some None \<Longrightarrow> \<forall>node \<in> set (sendlist ctx). \<not> timed_out tick node"
    by (rule split_first_None)
  show ?case
  proof (cases ?r)
    case (Some r)
    show ?thesis
    proof (cases r)
      case None
      with Suc.prems Some none show ?thesis by auto
    next
      case (Some q)
      obtain ys node zs where q: "q = (ys, node, zs)" by (metis prod.exhaust)
      have "sendlist ctx = ys @ node # zs" using \<open>?r = Some r\<close> Some q by (auto dest: split_first_SomeD)
      moreover obtain c where "check_timeout_loop n tick c = Some ctx'" "sendlist c = ys @ zs"
        using Suc.prems \<open>?r = Some r\<close> Some q
        by (auto simp: Let_def CoapObsServerAll_delete_def coap_observe_def split: option.splits)
      ultimately show ?thesis using Suc.IH [of c] by auto
    qed
  qed (use split_first_total in blast)
qed simp

text \<open>One cycle: what may be given up has one retransmission less, or is gone.\<close>

lemma due_cycle:
  assumes "CoAPMessage_cycle P ip received ctx = Some ctx'" and "coap_inv ctx" and "due k t ctx"
    and "clock_within P lo hi" and "t < lo" and "hi + 15372 < 2 ^ 64"
  shows "due (k - 1) (hi + 15372) ctx'"
proof -
  obtain c1 where c1: "CoAPMessage_process P ip received ctx = Some c1" "Check_timeout P (Retansmit P c1) = Some ctx'"
    using assms(1) by (auto simp: CoAPMessage_cycle_def bind_eq_Some_conv)
  have due1: "due k t c1" and inv1: "coap_inv c1"
    using due_waited [OF waited_process [OF c1(1)] assms(3)] inv_process [OF c1(1) assms(2)] by simp_all
  obtain tick c2 where c2: "HAL_UptimeMs P c1 = (tick, c2)" by force
  obtain nodes c3 where c3: "retransmit_loop P tick (sendlist c2) c2 = (nodes, c3)" by force
  obtain tick' c4 where c4: "HAL_UptimeMs P (c3\<lparr>sendlist := nodes\<rparr>) = (tick', c4)" by force
  have ticks: "lo \<le> unat tick" "unat tick \<le> hi" "lo \<le> unat tick'"
    using clock_uptime [OF assms(4) c2] clock_uptime [OF assms(4) c4] by simp_all
  have "check_timeout_loop (length (sendlist c4) + 1) tick' c4 = Some ctx'"
    using c1(2) c2 c3 c4 by (simp add: Retansmit_def Check_timeout_def del: check_timeout_loop.simps)
  then have left: "set (sendlist ctx') \<subseteq> set nodes" "\<forall>node \<in> set (sendlist ctx'). \<not> timed_out tick' node"
    using check_timeout_loop_nodes platform_sendlist(2) [OF c4] by fastforce+
  show ?thesis unfolding due_def
  proof (intro ballI impI)
    fix node' assume node': "node' \<in> set (sendlist ctx')" "sn_keep node' = NOKEEP"
    with left(1) obtain node where node: "node \<in> set (sendlist c2)"
      "node' = (if timeout node > tick \<or> retrans_count node = 0 then node else retransmit_node tick node)"
      using retransmit_loop_nodes [OF c3] by auto
    have "node \<in> set (sendlist c1)" using node(1) platform_sendlist(2) [OF c2] by simp
    then have ok: "node_ok node" using inv1 by (simp add: coap_inv_def)
    have keep: "sn_keep node = NOKEEP" using node(2) node'(2) by (auto simp: retransmit_node_def Let_def split: if_splits)
    then have n: "unat (retrans_count node) < k" "unat (timeout node) \<le> t"
      using due1 \<open>node \<in> set (sendlist c1)\<close> by (auto simp: due_def)
    then have past: "\<not> timeout node > tick" "timeout node < tick'"
      using ticks assms(5) by (simp_all add: word_less_nat_alt)
    have "retrans_count node \<noteq> 0"
    proof
      assume "retrans_count node = 0"
      then have "timed_out tick' node'" using node(2) keep past(2) by (simp add: timed_out_def)
      with left(2) node'(1) show False by blast
    qed
    then have more: "0 < retrans_count node" and "node' = retransmit_node tick node"
      using node(2) past(1) by (simp_all add: word_neq_0_conv)
    with retransmit_node_next [OF ok more, of tick] n ticks assms(6)
    show "unat (retrans_count node') < k - 1 \<and> unat (timeout node') \<le> hi + 15372"
      by (auto simp: word_less_nat_alt)
  qed
qed


lemma check_timeout_loop_returns: "length (sendlist ctx) < n \<Longrightarrow> check_timeout_loop n tick ctx \<noteq> None"
proof (induction n arbitrary: ctx)
  case (Suc n)
  let ?r = "split_first (\<lambda>node. Some (timed_out tick node)) (sendlist ctx)"
  show ?case
  proof (cases "?r = Some None \<or> ?r = None")
    case False
    then obtain ys node zs where r: "?r = Some (Some (ys, node, zs))" by (metis not_None_eq prod_cases3)
    then have "sendlist ctx = ys @ node # zs" by (auto dest: split_first_SomeD)
    with Suc.prems have short: "length (ys @ zs) < n" by simp
    show ?thesis
      using r Suc.IH short by (auto simp: Let_def CoapObsServerAll_delete_def coap_observe_def split: option.split)
  qed auto
qed simp

fun cycles :: "bytes \<Rightarrow> (coap_platform \<times> (NetworkAddr \<times> bytes) list) list \<Rightarrow> CoAPIntContext \<Rightarrow> CoAPIntContext option" where
  "cycles ip [] ctx = Some ctx"
| "cycles ip ((P, received) # steps) ctx = do { ctx \<leftarrow> CoAPMessage_cycle P ip received ctx; cycles ip steps ctx }"

text \<open>The times of the cycles: each begins more than 15372 ms after the end of the one before.\<close>

fun on_time :: "nat \<Rightarrow> (nat \<times> nat) list \<Rightarrow> bool" where
  "on_time t [] = True"
| "on_time t ((lo, hi) # spans) = (t < lo \<and> hi + 15372 < 2 ^ 64 \<and> on_time (hi + 15372) spans)"

lemma silent_cycle: "c_str ip \<noteq> [] \<Longrightarrow> CoAPMessage_cycle P ip [] ctx \<noteq> None"
  using check_timeout_loop_returns
  by (auto simp: CoAPMessage_cycle_def Check_timeout_def simp del: check_timeout_loop.simps split: prod.split)

lemma silent_cycles:
  "c_str ip \<noteq> [] \<Longrightarrow> \<forall>step \<in> set steps. snd step = [] \<Longrightarrow> cycles ip steps ctx \<noteq> None"
  by (induction ip steps ctx rule: cycles.induct) (use silent_cycle in \<open>auto simp: bind_eq_None_conv\<close>)

lemma due_cycles:
  assumes "cycles ip steps ctx = Some ctx'" and "coap_inv ctx" and "due k t ctx" and "on_time t spans"
    and "list_all2 (\<lambda>step (lo, hi). clock_within (fst step) lo hi) steps spans"
  shows "\<exists>t'. due (k - length steps) t' ctx'"
  using assms
proof (induction steps arbitrary: k t ctx spans)
  case (Cons step steps)
  obtain P received lo hi spans' where parts: "step = (P, received)" "spans = (lo, hi) # spans'"
    "clock_within P lo hi" "list_all2 (\<lambda>step (lo, hi). clock_within (fst step) lo hi) steps spans'"
    using Cons.prems(5) by (cases step) (auto simp: list_all2_Cons1)
  with Cons.prems(1) obtain c where c: "CoAPMessage_cycle P ip received ctx = Some c" "cycles ip steps c = Some ctx'"
    by (auto simp: bind_eq_Some_conv)
  have "due (k - 1) (hi + 15372) c"
    using due_cycle [OF c(1) Cons.prems(2,3) parts(3)] Cons.prems(4) parts(2) by simp
  from Cons.IH [OF c(2) inv_cycle [OF c(1) Cons.prems(2)] this _ parts(4)] Cons.prems(4) parts(2) show ?case by simp
qed auto

text \<open>
  Property C6: retransmission ends. In a context that satisfies the invariant, let nine
  cycles run, each beginning more than 15372 ms (the longest waiting time) after the one before
  ended, the first when every deadline is past. When nothing arrives they return; and whatever
  arrives, after them no message is waiting that may be given up (that is not marked as to be
  kept): each was answered or given up. After fewer cycles each has used up as many of its
  retransmissions.
\<close>

theorem retransmission_ends:
  assumes "coap_inv ctx" and "\<forall>node \<in> set (sendlist ctx). unat (timeout node) \<le> t"
    and "on_time t spans" and "list_all2 (\<lambda>step (lo, hi). clock_within (fst step) lo hi) steps spans"
  shows "(c_str ip \<noteq> [] \<and> (\<forall>step \<in> set steps. snd step = []) \<longrightarrow> cycles ip steps ctx \<noteq> None)
       \<and> (\<forall>ctx'. cycles ip steps ctx = Some ctx' \<longrightarrow>
            (\<forall>node \<in> set (sendlist ctx'). sn_keep node = NOKEEP \<longrightarrow> unat (retrans_count node) + length steps \<le> 8)
            \<and> (9 \<le> length steps \<longrightarrow> (\<forall>node \<in> set (sendlist ctx'). sn_keep node \<noteq> NOKEEP)))"
proof (intro conjI impI allI)
  assume "c_str ip \<noteq> [] \<and> (\<forall>step \<in> set steps. snd step = [])"
  then show "cycles ip steps ctx \<noteq> None" using silent_cycles by blast
next
  fix ctx' assume run: "cycles ip steps ctx = Some ctx'"
  have "due 9 t ctx" using assms(1,2) by (auto simp: due_def coap_inv_def node_ok_def)
  from due_cycles [OF run assms(1) this assms(3,4)] obtain t' where left: "due (9 - length steps) t' ctx'" by blast
  then show "\<forall>node \<in> set (sendlist ctx'). sn_keep node = NOKEEP \<longrightarrow> unat (retrans_count node) + length steps \<le> 8"
    unfolding due_def by fastforce
  assume "9 \<le> length steps"
  with left show "\<forall>node \<in> set (sendlist ctx'). sn_keep node \<noteq> NOKEEP" by (auto simp: due_def)
qed


text \<open>A request that nobody answers, and a cycle every 20 seconds.\<close>

definition test_node :: CoAPSendNode where
  "test_node = \<lparr>sn_header = \<lparr>version = 1, msg_type = COAP_MESSAGE_TYPE_CON, tokenlen = 0, msg_code = COAP_MSG_CODE_GET, msgid = 1\<rparr>,
     retrans_count = COAP_MAX_RETRY_COUNT, sn_token = replicate COAP_MSG_MAX_TOKEN_LEN 0, timeout = 600,
     timeout_val = COAP_ACK_TIMEOUT, msglen = 4, sn_handler = Some 1, sn_remote = test_from, sn_user = 0,
     sn_message = [0x40, 1, 0, 1], acked = 0, sn_keep = NOKEEP\<rparr>"

definition test_times :: "nat list" where
  "test_times = [20000, 40000, 60000, 80000, 100000, 120000, 140000, 160000, 180000]"

definition test_steps :: "(coap_platform \<times> (NetworkAddr \<times> bytes) list) list" where
  "test_steps = map (\<lambda>t. (test_platform\<lparr>cp_uptime := \<lambda>_. of_nat t\<rparr>, [])) test_times"

theorem retransmission_ends_witness:
  "\<exists>ctx'. cycles (ascii ''192.168.1.30'') test_steps (test_context\<lparr>sendlist := [test_node], send_count := 1\<rparr>) = Some ctx'
     \<and> (\<forall>node \<in> set (sendlist ctx'). sn_keep node \<noteq> NOKEEP)"
proof -
  let ?ctx = "test_context\<lparr>sendlist := [test_node], send_count := 1\<rparr>"
  let ?spans = "map (\<lambda>t. (t, t)) test_times"
  have inv: "coap_inv ?ctx"
    by (simp add: coap_inv_def counted_def limits_def node_ok_def test_node_def test_context_def CoAPContext_create_def)
  have deadline: "\<forall>node \<in> set (sendlist ?ctx). unat (timeout node) \<le> 600" by (simp add: test_node_def)
  have spans: "on_time 600 ?spans" by (simp add: test_times_def)
  have clocks: "list_all2 (\<lambda>step (lo, hi). clock_within (fst step) lo hi) test_steps ?spans"
    by (simp add: test_steps_def test_times_def clock_within_def)
  have silent: "c_str (ascii ''192.168.1.30'') \<noteq> [] \<and> (\<forall>step \<in> set test_steps. snd step = [])"
    by (rule conjI) (code_simp, simp add: test_steps_def)
  have nine: "9 \<le> length test_steps" by (simp add: test_steps_def test_times_def)
  show ?thesis
    using retransmission_ends [OF inv deadline spans clocks, of "ascii ''192.168.1.30''"] silent nine by blast
qed

end
