(* ===== verification/Infra_Json.thy ===== *)
theory Infra_Json
  imports Prelude
begin

text \<open>
  The JSON scanner (\<open>infra/infra_json_parser.c\<close>, without \<open>WITH_JSON_KEYS_OF\<close>): finding the members of
  an object and the value of a name in the text itself, without building a tree. A pointer is an
  index into the text \<open>s\<close>, a C string without its NUL; reading behind the NUL is undefined. What it
  finds is in \<open>Infra_Json_Correct\<close>.
\<close>

section \<open>Characters\<close>

datatype JSONTYPE = JNONE | JSTRING | JOBJECT | JARRAY | JNUMBER | JBOOLEAN

definition chr_at :: "bytes \<Rightarrow> nat \<Rightarrow> u8 option" where
  "chr_at s i = (if i < length s then Some (s ! i) else if i = length s then Some 0 else None)"

text \<open>The string at an index, and \<open>strchr\<close> for a character that is not NUL.\<close>

definition str_at :: "bytes \<Rightarrow> nat \<Rightarrow> bytes option" where
  "str_at s i = (if i \<le> length s then Some (c_str (drop i s)) else None)"

definition strchr_at :: "bytes \<Rightarrow> nat \<Rightarrow> u8 \<Rightarrow> nat option option" where
  "strchr_at s i c =
     do { t \<leftarrow> str_at s i;
          Some (if c \<in> set t then Some (i + length (takeWhile (\<lambda>b. b \<noteq> c) t)) else None) }"

section \<open>Objects and their members\<close>

text \<open>\<open>json_get_object\<close>: the brace or bracket behind the spaces. \<open>Some None\<close> is NULL.\<close>

fun skip_spaces :: "bytes \<Rightarrow> nat \<Rightarrow> nat \<Rightarrow> nat" where
  "skip_spaces [] i e = i"
| "skip_spaces (c # cs) i e = (if c = 32 \<and> i < e then skip_spaces cs (Suc i) e else i)"

definition json_get_object :: "JSONTYPE \<Rightarrow> bytes \<Rightarrow> nat \<Rightarrow> nat \<Rightarrow> nat option option" where
  "json_get_object ty s i e =
     (let ch = (if ty = JOBJECT then 123 else 91) in
      if length s < i then None
      else
        let j = skip_spaces (drop i s) i e in
        do { c \<leftarrow> chr_at s j;
             Some (if c \<noteq> 0 \<and> j < e \<and> c = ch then Some j else None) })"

text \<open>The first character that starts a value: its type, the value, and where the scan goes on.\<close>

fun value_start :: "bytes \<Rightarrow> nat \<Rightarrow> nat \<Rightarrow> (JSONTYPE \<times> nat \<times> nat) option" where
  "value_start [] i e = None"
| "value_start (c # cs) i e =
     (if c = 0 \<or> \<not> i < e then None
      else if c = 34 then Some (JSTRING, Suc i, Suc i)
      else if c = 123 then Some (JOBJECT, i, Suc i)
      else if c = 91 then Some (JARRAY, i, Suc i)
      else if c = 45 \<or> (48 \<le> c \<and> c \<le> 57) then Some (JNUMBER, i, Suc i)
      else if c = 116 \<or> c = 84 \<or> c = 102 \<or> c = 70 then Some (JBOOLEAN, i, i)
      else value_start cs (Suc i) e)"

definition number_char :: "u8 \<Rightarrow> bool" where
  "number_char c \<longleftrightarrow> (48 \<le> c \<and> c \<le> 57) \<or> c = 46 \<or> c = 43 \<or> c = 45 \<or> c = 101 \<or> c = 69"

text \<open>The length of a boolean value at \<open>v\<close>, 0 when there is none.\<close>

definition boolean_len :: "bytes \<Rightarrow> nat" where
  "boolean_len v =
     (if v \<noteq> [] \<and> hd v \<in> {116, 84} \<and> 4 \<le> length v \<and> take 4 v \<in> {ascii ''true'', ascii ''TRUE''} then 4
      else if v \<noteq> [] \<and> hd v \<in> {102, 70} \<and> 5 \<le> length v \<and> take 5 v \<in> {ascii ''false'', ascii ''FALSE''} then 5
      else 0)"

text \<open>
  The end of the value that starts at \<open>v\<close>, scanned from \<open>i\<close> on (\<open>rest\<close> is the text from there):
  its length, or 0. \<open>depth\<close> and \<open>in_str\<close> are \<open>iMarkDepth\<close> and \<open>iStringDepth\<close>. For a boolean every
  turn makes the same test.
\<close>

fun value_len :: "JSONTYPE \<Rightarrow> bytes \<Rightarrow> bytes \<Rightarrow> nat \<Rightarrow> nat \<Rightarrow> nat \<Rightarrow> nat \<Rightarrow> bool \<Rightarrow> nat" where
  "value_len ty val [] i e v depth in_str = 0"
| "value_len ty val (c # cs) i e v depth in_str =
     (if c = 0 \<or> \<not> i < e \<or> ty = JNONE then 0
      else if ty = JBOOLEAN
      then (if boolean_len val \<noteq> 0 then boolean_len val else value_len ty val cs (Suc i) e v depth in_str)
      else if ty = JNUMBER
      then (if \<not> number_char c then i - v else value_len ty val cs (Suc i) e v depth in_str)
      else if ty = JSTRING
      then (if c = 34 then i - v else value_len ty val cs (Suc i) e v depth in_str)
      else if c = (if ty = JOBJECT then 125 else 93)
      then (if \<not> in_str
            then (if depth = 0 then i - v + 1 else value_len ty val cs (Suc i) e v (depth - 1) in_str)
            else value_len ty val cs (Suc i) e v depth in_str)
      else if c = (if ty = JOBJECT then 123 else 91)
      then value_len ty val cs (Suc i) e v (if in_str then depth else depth + 1) in_str
      else if c = 34 then value_len ty val cs (Suc i) e v depth (\<not> in_str)
      else value_len ty val cs (Suc i) e v depth in_str)"

text \<open>
  \<open>json_get_next_object\<close> for the members of an object: \<open>Some None\<close> when it returns NULL (its
  callers stop then), else the new position and the key, its length, the value, its length and
  its type.
\<close>

definition next_value :: "bytes \<Rightarrow> nat \<Rightarrow> nat \<Rightarrow> (nat \<times> nat \<times> nat \<times> JSONTYPE) option" where
  "next_value s p e =
     (case value_start (drop p s) p e of
        None \<Rightarrow> None
      | Some (ty, v, q) \<Rightarrow>
          let n = value_len ty (c_str (drop v s)) (drop q s) q e v 0 False in
          if v + n > e then None
          else Some (if ty = JSTRING then v + n + 1 else v + n, v, n, ty))"

definition json_get_next_object ::
    "bytes \<Rightarrow> nat \<Rightarrow> nat \<Rightarrow> (nat \<times> nat \<times> nat \<times> nat \<times> nat \<times> JSONTYPE) option option" where
  "json_get_next_object s p e =
     do {
       q \<leftarrow> strchr_at s p 34;
       case q of
         None \<Rightarrow> Some None
       | Some q \<Rightarrow> do {
           let name = q + 1;
           r \<leftarrow> strchr_at s name 34;
           case r of
             None \<Rightarrow> Some None
           | Some r \<Rightarrow> do {
               colon \<leftarrow> strchr_at s r 58;
               Some (if r > e then None
                     else case colon of
                            None \<Rightarrow> None
                          | Some p \<Rightarrow> map_option (\<lambda>(pos, v, n, ty). (pos, name, r - name, v, n, ty)) (next_value s p e)) } } }"

text \<open>For the entries of an array the scan starts at the position itself.\<close>

definition json_get_next_entry :: "bytes \<Rightarrow> nat \<Rightarrow> nat \<Rightarrow> (nat \<times> nat \<times> nat \<times> JSONTYPE) option option" where
  "json_get_next_entry s p e = (if length s < p then None else Some (next_value s p e))"

section \<open>Looking for a name\<close>

text \<open>
  \<open>json_parse_name_value\<close>: each member that has a key and a value, neither of them empty, is
  given to \<open>cb\<close> with the data, until it says that it is finished. The result: whether
  there was such a member, and the data. Each turn moves the position forward, so \<open>fuel\<close>
  beyond the length of the text is enough.
\<close>

fun parse_members ::
    "(nat \<times> nat \<times> nat \<times> nat \<times> JSONTYPE \<Rightarrow> 'a \<Rightarrow> bool \<times> 'a) \<Rightarrow> nat \<Rightarrow> bytes \<Rightarrow> nat \<Rightarrow> nat \<Rightarrow> bool \<Rightarrow> 'a
      \<Rightarrow> (bool \<times> 'a) option" where
  "parse_members cb 0 s p e ok d = None"
| "parse_members cb (Suc fuel) s p e ok d =
     do {
       c \<leftarrow> chr_at s p;
       if c = 0 then Some (ok, d)
       else do {
         r \<leftarrow> json_get_next_object s p e;
         case r of
           None \<Rightarrow> Some (ok, d)
         | Some (pos, key, klen, val, vlen, ty) \<Rightarrow>
             if klen \<noteq> 0 \<and> vlen \<noteq> 0
             then let (fin, d) = cb (key, klen, val, vlen, ty) d in
                  if fin then Some (True, d) else parse_members cb fuel s pos e True d
             else parse_members cb fuel s pos e ok d } }"

definition json_parse_name_value ::
    "(nat \<times> nat \<times> nat \<times> nat \<times> JSONTYPE \<Rightarrow> 'a \<Rightarrow> bool \<times> 'a) \<Rightarrow> bytes \<Rightarrow> nat \<Rightarrow> nat \<Rightarrow> 'a \<Rightarrow> (bool \<times> 'a) option" where
  "json_parse_name_value cb s p len d =
     (if len = 0 then Some (False, d)
      else do { r \<leftarrow> json_get_object JOBJECT s p (p + len);
                case r of None \<Rightarrow> Some (False, d)
                | Some j \<Rightarrow> parse_members cb (length s + 3) s j (p + len) False d })"

record JSON_NV =
  nLen :: nat
  pN :: bytes
  nv_vLen :: nat
  nv_vType :: JSONTYPE
  pV :: "nat option"

definition json_get_value_by_name_cb ::
    "bytes \<Rightarrow> nat \<times> nat \<times> nat \<times> nat \<times> JSONTYPE \<Rightarrow> JSON_NV \<Rightarrow> bool \<times> JSON_NV" where
  "json_get_value_by_name_cb s m nv =
     (let (key, klen, val, vlen, ty) = m in
      if klen = nLen nv \<and> take klen (drop key s) = take klen (pN nv)
      then (True, nv\<lparr>pV := Some val, nv_vLen := vlen, nv_vType := ty\<rparr>)
      else (False, nv))"

text \<open>
  The value of a name: its pointer, and what is stored in \<open>*p_iValueLen\<close> and \<open>*p_iValueType\<close>
  (\<open>None\<close>: they keep their values).
\<close>

definition json_get_value_by_name_len ::
    "bytes \<Rightarrow> nat \<Rightarrow> nat \<Rightarrow> bytes \<Rightarrow> nat \<Rightarrow> (nat option \<times> (nat \<times> JSONTYPE) option) option" where
  "json_get_value_by_name_len s p len name nlen =
     do { (ok, nv) \<leftarrow> json_parse_name_value (json_get_value_by_name_cb s) s p len
                        \<lparr>nLen = nlen, pN = name, nv_vLen = 0, nv_vType = JSTRING, pV = None\<rparr>;
          Some (pV nv, if ok then Some (nv_vLen nv, nv_vType nv) else None) }"

definition json_get_value_by_name ::
    "bytes \<Rightarrow> nat \<Rightarrow> nat \<Rightarrow> bytes \<Rightarrow> (nat option \<times> (nat \<times> JSONTYPE) option) option" where
  "json_get_value_by_name s p len name = json_get_value_by_name_len s p len name (length name)"

text \<open>
  \<open>LITE_json_value_of\<close>: the names of a path with dots, one after the other; the copy of the value
  (\<open>ok\<close>: whether there is memory for it).
\<close>

function value_of_path :: "bytes \<Rightarrow> bytes \<Rightarrow> nat \<Rightarrow> nat \<Rightarrow> (nat \<times> nat) option option" where
  "value_of_path key s p len =
     (let name = takeWhile (\<lambda>b. b \<noteq> 46) key in
      do { (v, out) \<leftarrow> json_get_value_by_name_len s p len key (length name);
           case v of
             None \<Rightarrow> Some None
           | Some v \<Rightarrow>
               let n = (case out of Some (n, _) \<Rightarrow> n | None \<Rightarrow> 0) in
               if 46 \<in> set key then value_of_path (drop (length name + 1) key) s v n
               else Some (Some (v, n)) })"
  by pat_completeness auto
termination
proof (relation "measure (\<lambda>(key, _). length key)", goal_cases)
  case (2 key)
  then have "0 < length key" by (cases key) auto
  then show ?case by auto
qed simp

declare value_of_path.simps [simp del]

definition LITE_json_value_of :: "bool \<Rightarrow> bytes \<Rightarrow> bytes \<Rightarrow> bytes option option" where
  "LITE_json_value_of ok key src =
     do { r \<leftarrow> value_of_path key src 0 (length src);
          case r of
            None \<Rightarrow> Some None
          | Some (v, n) \<Rightarrow> if \<not> ok then Some None else Some (Some (take n (c_str (drop v src)))) }"

end
