(* ===== verification/Infra_Json_Correct.thy ===== *)
theory Infra_Json_Correct
  imports Infra_Json
begin

text \<open>
  What the JSON scanner finds. Documents are a datatype with their text; on the text of a
  document without escape sequences \<open>LITE_json_value_of\<close> is the look-up of a path in the tree.
\<close>

section \<open>Documents\<close>

datatype json = JStr bytes | JNum bytes | JBool bool | JObj "(bytes \<times> json) list" | JArr "json list"

fun commas :: "bytes list \<Rightarrow> bytes" where
  "commas [] = []"
| "commas [x] = x"
| "commas (x # y # xs) = x @ 44 # commas (y # xs)"

definition quoted :: "bytes \<Rightarrow> bytes" where
  "quoted s = 34 # s @ [34]"

fun render :: "json \<Rightarrow> bytes" where
  "render (JStr s) = quoted s"
| "render (JNum s) = s"
| "render (JBool b) = ascii (if b then ''true'' else ''false'')"
| "render (JObj ms) = 123 # commas (map (\<lambda>(k, v). quoted k @ 58 # render v) ms) @ [125]"
| "render (JArr vs) = 91 # commas (map render vs) @ [93]"

text \<open>A string without quotes (so none is escaped), a number in the scanner's characters.\<close>

definition text_ok :: "bytes \<Rightarrow> bool" where
  "text_ok s \<longleftrightarrow> 34 \<notin> set s \<and> is_c_str s"

definition number_ok :: "bytes \<Rightarrow> bool" where
  "number_ok s \<longleftrightarrow> s \<noteq> [] \<and> (hd s = 45 \<or> (48 \<le> hd s \<and> hd s \<le> 57)) \<and> (\<forall>c \<in> set s. number_char c)"

fun json_ok :: "json \<Rightarrow> bool" where
  "json_ok (JStr s) \<longleftrightarrow> text_ok s"
| "json_ok (JNum s) \<longleftrightarrow> number_ok s"
| "json_ok (JBool b) \<longleftrightarrow> True"
| "json_ok (JObj ms) \<longleftrightarrow> (\<forall>(k, v) \<in> set ms. text_ok k \<and> json_ok v)"
| "json_ok (JArr vs) \<longleftrightarrow> (\<forall>v \<in> set vs. json_ok v)"

text \<open>What the scanner gives as the value: a string without its quotes, else the text.\<close>

fun content :: "json \<Rightarrow> bytes" where
  "content (JStr s) = s"
| "content v = render v"

fun json_type :: "json \<Rightarrow> JSONTYPE" where
  "json_type (JStr s) = JSTRING"
| "json_type (JNum s) = JNUMBER"
| "json_type (JBool b) = JBOOLEAN"
| "json_type (JObj ms) = JOBJECT"
| "json_type (JArr vs) = JARRAY"

text \<open>The look-up in the tree. Members with an empty name or an empty string are passed over.\<close>

definition hit :: "bytes \<Rightarrow> bytes \<times> json \<Rightarrow> bool" where
  "hit name = (\<lambda>(k, v). k = name \<and> k \<noteq> [] \<and> content v \<noteq> [])"

definition find_member :: "bytes \<Rightarrow> (bytes \<times> json) list \<Rightarrow> json option" where
  "find_member name ms = map_option snd (find (hit name) ms)"

fun lookup :: "bytes list \<Rightarrow> json \<Rightarrow> json option" where
  "lookup [] v = Some v"
| "lookup (name # names) (JObj ms) = (case find_member name ms of None \<Rightarrow> None | Some v \<Rightarrow> lookup names v)"
| "lookup (name # names) _ = None"

section \<open>Texts that leave the depth as it is\<close>

definition balanced :: "JSONTYPE \<Rightarrow> bytes \<Rightarrow> bool" where
  "balanced ty t \<longleftrightarrow> (\<forall>val rest i e v depth. i + length t \<le> e \<longrightarrow>
     value_len ty val (t @ rest) i e v depth False = value_len ty val rest (i + length t) e v depth False)"

lemma balancedD: "balanced ty t \<Longrightarrow> i + length t \<le> e \<Longrightarrow>
    value_len ty val (t @ rest) i e v depth False = value_len ty val rest (i + length t) e v depth False"
  by (simp add: balanced_def)

lemma balanced_Nil: "balanced ty []"
  by (simp add: balanced_def)

lemma balanced_append: "balanced ty t \<Longrightarrow> balanced ty u \<Longrightarrow> balanced ty (t @ u)"
  by (simp add: balanced_def add.assoc)

lemma balanced_plain:
  assumes "ty = JOBJECT \<or> ty = JARRAY" and "c \<notin> {0, 34, 123, 125, 91, 93}"
  shows "balanced ty [c]"
  using assms by (auto simp: balanced_def)

lemma balanced_plains: "ty = JOBJECT \<or> ty = JARRAY \<Longrightarrow> \<forall>c \<in> set t. c \<notin> {0, 34, 123, 125, 91, 93} \<Longrightarrow> balanced ty t"
proof (induction t)
  case (Cons c t)
  then show ?case using balanced_append [OF balanced_plain [of ty c], of t] by auto
qed (simp add: balanced_Nil)

lemma in_string:
  "ty = JOBJECT \<or> ty = JARRAY \<Longrightarrow> text_ok s \<Longrightarrow> i + length s \<le> e \<Longrightarrow>
     value_len ty val (s @ rest) i e v depth True = value_len ty val rest (i + length s) e v depth True"
proof (induction s arbitrary: i)
  case (Cons c s)
  then show ?case using Cons.IH [of "Suc i"] by (auto simp: text_ok_def)
qed simp

lemma balanced_quoted: "ty = JOBJECT \<or> ty = JARRAY \<Longrightarrow> text_ok s \<Longrightarrow> balanced ty (quoted s)"
  unfolding balanced_def
proof (intro allI impI)
  fix val rest i e v depth
  assume a: "ty = JOBJECT \<or> ty = JARRAY" "text_ok s" "i + length (quoted s) \<le> e"
  then have "value_len ty val (quoted s @ rest) i e v depth False = value_len ty val (s @ 34 # rest) (Suc i) e v depth True"
    by (auto simp: quoted_def)
  also have "\<dots> = value_len ty val (34 # rest) (Suc i + length s) e v depth True"
    using a by (intro in_string) (simp_all add: quoted_def)
  finally show "value_len ty val (quoted s @ rest) i e v depth False = value_len ty val rest (i + length (quoted s)) e v depth False"
    using a by (auto simp: quoted_def)
qed

text \<open>A bracket of the kind that is counted goes one deeper and comes back.\<close>

lemma balanced_nested:
  assumes "balanced ty t" and "ty = JOBJECT \<and> a = 123 \<and> b = 125 \<or> ty = JARRAY \<and> a = 91 \<and> b = 93"
  shows "balanced ty (a # t @ [b])"
  unfolding balanced_def
proof (intro allI impI)
  fix val rest i e v depth
  assume e: "i + length (a # t @ [b]) \<le> e"
  then have "value_len ty val ((a # t @ [b]) @ rest) i e v depth False
      = value_len ty val (t @ b # rest) (Suc i) e v (depth + 1) False"
    using assms(2) by auto
  also have "\<dots> = value_len ty val (b # rest) (Suc i + length t) e v (depth + 1) False"
    using e by (intro balancedD [OF assms(1)]) simp
  finally show "value_len ty val ((a # t @ [b]) @ rest) i e v depth False
      = value_len ty val rest (i + length (a # t @ [b])) e v depth False"
    using e assms(2) by auto
qed

lemma balanced_commas:
  "ty = JOBJECT \<or> ty = JARRAY \<Longrightarrow> \<forall>t \<in> set ts. balanced ty t \<Longrightarrow> balanced ty (commas ts)"
proof (induction ts rule: commas.induct)
  case (3 x y xs)
  then have "balanced ty ([44] @ commas (y # xs))" by (intro balanced_append balanced_plain) auto
  with 3 show ?case using balanced_append [of ty x "44 # commas (y # xs)"] by auto
qed (simp_all add: balanced_Nil)

lemma number_char_plain: "number_char c \<Longrightarrow> c \<notin> {0, 32, 34, 123, 125, 91, 93, 44, 58}"
  by (auto simp: number_char_def)

lemma balanced_brackets:
  assumes "balanced ty t" and "ty = JOBJECT \<or> ty = JARRAY" and "a = 123 \<and> b = 125 \<or> a = 91 \<and> b = 93"
  shows "balanced ty (a # t @ [b])"
proof (cases "ty = JOBJECT \<and> a = 123 \<or> ty = JARRAY \<and> a = 91")
  case True
  then show ?thesis using assms by (intro balanced_nested) auto
next
  case False
  then have "balanced ty [a]" "balanced ty [b]" using assms(2,3) by (auto simp: balanced_def)
  with assms(1) show ?thesis using balanced_append [of ty "[a]" "t @ [b]"] balanced_append [of ty t "[b]"] by simp
qed

lemma balanced_render: "ty = JOBJECT \<or> ty = JARRAY \<Longrightarrow> json_ok v \<Longrightarrow> balanced ty (render v)"
proof (induction v)
  case (JNum s)
  then show ?case by (auto simp: number_ok_def intro!: balanced_plains dest: number_char_plain)
next
  case (JBool b)
  then show ?case by (auto simp: ascii_def intro!: balanced_plains)
next
  case (JObj ms)
  have "balanced ty (quoted k @ [58] @ render v)" if "(k, v) \<in> set ms" for k v
    using that JObj by (intro balanced_append balanced_quoted balanced_plain) auto
  then have "balanced ty (commas (map (\<lambda>(k, v). quoted k @ 58 # render v) ms))"
    using JObj.prems(1) by (intro balanced_commas) auto
  then show ?case using JObj.prems(1) balanced_brackets by auto
next
  case (JArr vs)
  then have "balanced ty (commas (map render vs))" by (intro balanced_commas) auto
  then show ?case using JArr.prems(1) balanced_brackets by auto
qed (simp add: balanced_quoted)


section \<open>One value\<close>

lemma drop_after: "drop p s = t @ u \<Longrightarrow> drop (p + length t) s = u"
  by (metis add.commute append_eq_conv_conj drop_drop)

lemma drop_next: "drop p s = c # t \<Longrightarrow> drop (Suc p) s = t"
  using drop_after [of p s "[c]" t] by simp

lemma c_str_part: "is_c_str s \<Longrightarrow> drop p s = t \<Longrightarrow> is_c_str t"
  by (auto simp: is_c_str_def dest: in_set_dropD)

lemma string_len:
  "text_ok t \<Longrightarrow> i + length t < e \<Longrightarrow> value_len JSTRING val (t @ 34 # r) i e w depth b = i + length t - w"
proof (induction t arbitrary: i)
  case (Cons c t)
  then show ?case using Cons.IH [of "Suc i"] by (auto simp: text_ok_def)
qed simp

lemma number_len:
  "\<forall>c \<in> set t. number_char c \<Longrightarrow> \<not> number_char c' \<Longrightarrow> c' \<noteq> 0 \<Longrightarrow> i + length t < e \<Longrightarrow>
     value_len JNUMBER val (t @ c' # r) i e w depth b = i + length t - w"
proof (induction t arbitrary: i)
  case (Cons c t)
  then have "c \<noteq> 0" by (auto simp: number_char_def)
  with Cons show ?case by simp
qed simp

lemma nested_len:
  assumes "balanced ty t" and "ty = JOBJECT \<and> b = 125 \<or> ty = JARRAY \<and> b = 93" and "i + length t < e"
  shows "value_len ty val (t @ b # r) i e w 0 False = i + length t - w + 1"
  using balancedD [OF assms(1), of i e val "b # r" w 0] assms(2,3) by auto

lemma boolean_found: "boolean_len (c_str (render (JBool b) @ r)) = length (render (JBool b))"
  by (cases b) (simp_all add: boolean_len_def c_str_def ascii_def)

lemma balanced_inside:
  "ty = JOBJECT \<or> ty = JARRAY \<Longrightarrow> json_ok (JObj ms) \<Longrightarrow> balanced ty (commas (map (\<lambda>(k, v). quoted k @ 58 # render v) ms))"
  "ty = JOBJECT \<or> ty = JARRAY \<Longrightarrow> json_ok (JArr vs) \<Longrightarrow> balanced ty (commas (map render vs))"
proof -
  assume ty: "ty = JOBJECT \<or> ty = JARRAY" and ok: "json_ok (JObj ms)"
  have "balanced ty (quoted k @ [58] @ render v)" if "(k, v) \<in> set ms" for k v
    using that ty ok by (intro balanced_append balanced_quoted balanced_plain balanced_render) auto
  then show "balanced ty (commas (map (\<lambda>(k, v). quoted k @ 58 # render v) ms))"
    using ty by (intro balanced_commas) auto
next
  assume "ty = JOBJECT \<or> ty = JARRAY" and "json_ok (JArr vs)"
  then show "balanced ty (commas (map render vs))" by (intro balanced_commas) (auto intro: balanced_render)
qed

text \<open>Behind a colon, with something behind the value that does not continue a number.\<close>

lemma value_found:
  assumes "is_c_str s" and "drop p s = 58 # render v @ c # rest" and "json_ok v" and "\<not> number_char c"
    and "p + 1 + length (render v) < e"
  shows "\<exists>w post. next_value s p e = Some (p + 1 + length (render v), w, length (content v), json_type v)
       \<and> drop w s = content v @ post"
proof -
  have at: "drop (Suc p) s = render v @ c # rest" using assms(2) by (rule drop_next)
  have "is_c_str (58 # render v @ c # rest)" using c_str_part [OF assms(1,2)] .
  then have c: "c \<noteq> 0" by simp
  show ?thesis
  proof (cases v)
    case (JStr t)
    then have "drop (Suc p) s = 34 # t @ 34 # c # rest" using at by (simp add: quoted_def)
    then have "drop (Suc (Suc p)) s = t @ 34 # c # rest" by (rule drop_next)
    moreover from this have "next_value s p e = Some (p + 1 + length (render v), p + 2, length t, JSTRING)"
      using assms(2,3,5) JStr string_len [of t "p + 2" e] by (simp add: next_value_def quoted_def Let_def)
    ultimately show ?thesis using JStr by (intro exI [of _ "p + 2"]) auto
  next
    case (JNum t)
    with assms(3) obtain d ds where t: "t = d # ds" "d = 45 \<or> (48 \<le> d \<and> d \<le> 57)" "\<forall>c \<in> set ds. number_char c"
      by (cases t) (auto simp: number_ok_def)
    then have d: "d \<notin> {0, 34, 123, 91}" by auto
    have "drop (Suc p) s = d # ds @ c # rest" using at JNum t by simp
    then have "drop (Suc (Suc p)) s = ds @ c # rest" by (rule drop_next)
    then have "next_value s p e = Some (p + 1 + length (render v), p + 1, length t, JNUMBER)"
      using assms(2,4,5) JNum t d c number_len [OF t(3) assms(4) c, of "p + 2" e] by (auto simp: next_value_def Let_def)
    with at JNum show ?thesis by (intro exI [of _ "p + 1"]) auto
  next
    case (JBool b)
    have "render v \<noteq> [] \<and> hd (render v) \<in> {116, 102}" using JBool by (simp add: ascii_def)
    then obtain x xs where x: "render v = x # xs" "x = 116 \<or> x = 102" by (cases "render v") auto
    have "value_start (drop p s) p e = Some (JBOOLEAN, Suc p, Suc p)"
      unfolding assms(2) x(1) using x(2) assms(5) by auto
    moreover have "boolean_len (c_str (drop (Suc p) s)) = length (render v)"
      unfolding at JBool by (rule boolean_found)
    then have "value_len JBOOLEAN (c_str (drop (Suc p) s)) (drop (Suc p) s) (Suc p) e (Suc p) 0 False = length (render v)"
      unfolding at x(1) using x(2) assms(5) by auto
    ultimately have "next_value s p e = Some (p + 1 + length (render v), p + 1, length (render v), JBOOLEAN)"
      using assms(5) by (simp add: next_value_def Let_def)
    with at JBool show ?thesis by (intro exI [of _ "p + 1"]) auto
  next
    case (JObj ms)
    let ?t = "commas (map (\<lambda>(k, v). quoted k @ 58 # render v) ms)"
    have "drop (Suc p) s = 123 # ?t @ 125 # c # rest" using at JObj by simp
    then have "drop (Suc (Suc p)) s = ?t @ 125 # c # rest" by (rule drop_next)
    then have "next_value s p e = Some (p + 1 + length (render v), p + 1, length (render v), JOBJECT)"
      using assms(2,3,5) JObj nested_len [OF balanced_inside(1) [of JOBJECT ms], of 125 "p + 2" e]
      by (auto simp: next_value_def Let_def)
    with at JObj show ?thesis by (intro exI [of _ "p + 1"]) auto
  next
    case (JArr vs)
    let ?t = "commas (map render vs)"
    have "drop (Suc p) s = 91 # ?t @ 93 # c # rest" using at JArr by simp
    then have "drop (Suc (Suc p)) s = ?t @ 93 # c # rest" by (rule drop_next)
    then have "next_value s p e = Some (p + 1 + length (render v), p + 1, length (render v), JARRAY)"
      using assms(2,3,5) JArr nested_len [OF balanced_inside(2) [of JARRAY vs], of 93 "p + 2" e]
      by (auto simp: next_value_def Let_def)
    with at JArr show ?thesis by (intro exI [of _ "p + 1"]) auto
  qed
qed


section \<open>The members of an object\<close>

abbreviation member :: "bytes \<times> json \<Rightarrow> bytes" where
  "member \<equiv> \<lambda>(k, v). quoted k @ 58 # render v"

lemma commas_Cons: "commas (x # xs) = x @ concat (map (\<lambda>y. 44 # y) xs)"
proof (induction xs arbitrary: x)
  case (Cons y xs)
  then show ?case using Cons.IH [of y] by simp
qed simp

lemma inside: "drop p s = t @ c # u \<Longrightarrow> p + length t < length s"
  by (metis drop_after drop_eq_Nil leI list.distinct(1))

lemma before_char: "c \<notin> set t \<Longrightarrow> takeWhile (\<lambda>b. b \<noteq> c) (t @ c # u) = t"
  by (subst takeWhile_append2) auto

lemma strchr_found:
  assumes "is_c_str s" and "drop p s = t @ c # u" and "c \<notin> set t"
  shows "strchr_at s p c = Some (Some (p + length t))"
proof -
  have "c_str (t @ c # u) = t @ c # u" using c_str_part [OF assms(1,2)] by simp
  then show ?thesis using inside [OF assms(2)] assms(3) by (simp add: strchr_at_def str_at_def assms(2) before_char)
qed

lemma next_member:
  assumes "is_c_str s" and at: "drop p s = sep # member (k, v) @ c # rest" and sep: "sep \<noteq> 34"
    and "text_ok k" and "json_ok v" and "\<not> number_char c" and e: "p + 1 + length (member (k, v)) < e"
  shows "\<exists>w post. json_get_next_object s p e =
           Some (Some (p + 1 + length (member (k, v)), p + 2, length k, w, length (content v), json_type v))
       \<and> drop w s = content v @ post"
proof -
  let ?r = "p + 2 + length k"
  have 1: "drop p s = [sep] @ 34 # k @ 34 # 58 # render v @ c # rest" using at by (simp add: quoted_def)
  have 2: "drop (p + 2) s = k @ 34 # 58 # render v @ c # rest"
    using drop_after [of p s "[sep, 34]"] 1 by simp
  have 3: "drop ?r s = [34] @ 58 # render v @ c # rest" using drop_after [OF 2] by simp
  have 4: "drop (?r + 1) s = 58 # render v @ c # rest" using drop_after [OF 3] by simp
  have "strchr_at s p 34 = Some (Some (p + 1))" using strchr_found [OF assms(1) 1] sep by simp
  moreover have "strchr_at s (p + 2) 34 = Some (Some ?r)"
    using strchr_found [OF assms(1) 2] assms(4) by (simp add: text_ok_def)
  moreover have "strchr_at s ?r 58 = Some (Some (?r + 1))" using strchr_found [OF assms(1) 3] by simp
  moreover obtain w post where "next_value s (?r + 1) e =
        Some (?r + 1 + 1 + length (render v), w, length (content v), json_type v)" "drop w s = content v @ post"
    using value_found [OF assms(1) 4 assms(5,6), of e] e by (auto simp: quoted_def)
  ultimately show ?thesis using e by (auto simp: json_get_next_object_def quoted_def)
qed

text \<open>\<open>strchr\<close> inside the text has a result, and it is inside.\<close>

lemma strchr_result:
  assumes "i \<le> length s"
  obtains "strchr_at s i c = Some None" | j where "strchr_at s i c = Some (Some j)" "i \<le> j" "j < length s"
proof (cases "c \<in> set (c_str (drop i s))")
  case True
  then obtain t u where t: "c_str (drop i s) = t @ c # u" "c \<notin> set t" by (meson split_list_first)
  have "length (c_str (drop i s)) \<le> length (drop i s)" unfolding c_str_def by (rule length_takeWhile_le)
  with t have "i + length t < length s" by simp
  then show ?thesis using that(2) [of "i + length t"] t by (simp add: strchr_at_def str_at_def before_char)
next
  case False
  then show ?thesis using that(1) assms by (simp add: strchr_at_def str_at_def)
qed

lemma strchr_behind:
  assumes "drop p s = x @ u" and "c \<notin> set x" and "strchr_at s p c = Some (Some j)"
  shows "p + length x \<le> j"
proof (cases "0 \<in> set x")
  case True
  then have "c_str (x @ u) = c_str x" unfolding c_str_def by (subst takeWhile_append1) auto
  with assms show ?thesis by (auto simp: strchr_at_def str_at_def c_str_def dest: set_takeWhileD split: if_splits)
next
  case False
  then have "c_str (x @ u) = x @ c_str u" unfolding c_str_def by (subst takeWhile_append2) auto
  moreover have "takeWhile (\<lambda>b. b \<noteq> c) (x @ c_str u) = x @ takeWhile (\<lambda>b. b \<noteq> c) (c_str u)"
    using assms(2) by (subst takeWhile_append2) auto
  ultimately show ?thesis using assms(1,3) by (auto simp: strchr_at_def str_at_def split: if_splits)
qed

text \<open>With no quote before the end there is no further member.\<close>

lemma no_member:
  assumes "drop p s = x @ u" and "34 \<notin> set x" and "p + length x = e" and "p \<le> length s"
  shows "json_get_next_object s p e = Some None"
proof (rule strchr_result [OF assms(4), of 34])
  fix q
  assume q: "strchr_at s p 34 = Some (Some q)" "q < length s"
  then have "e \<le> q" using strchr_behind [OF assms(1,2) q(1)] assms(3) by simp
  show ?thesis
  proof (rule strchr_result [of "Suc q" s 34])
    fix r
    assume r: "strchr_at s (Suc q) 34 = Some (Some r)" "Suc q \<le> r" "r < length s"
    have "r \<le> length s" using r by simp
    then obtain colon where "strchr_at s r 58 = Some colon" by (rule strchr_result [of r s 58])
    with q r \<open>e \<le> q\<close> show ?thesis by (simp add: json_get_next_object_def)
  qed (use q in \<open>auto simp: json_get_next_object_def\<close>)
qed (simp add: json_get_next_object_def)

section \<open>Looking for a member\<close>

definition found :: "bytes \<Rightarrow> json \<Rightarrow> JSON_NV \<Rightarrow> JSON_NV \<Rightarrow> bool" where
  "found s v nv nv' \<longleftrightarrow> (\<exists>w post. nv' = nv\<lparr>pV := Some w, nv_vLen := length (content v), nv_vType := json_type v\<rparr>
     \<and> drop w s = content v @ post)"

lemma foundI:
  "drop w s = content v @ post \<Longrightarrow> found s v nv (nv\<lparr>pV := Some w, nv_vLen := length (content v), nv_vType := json_type v\<rparr>)"
  by (auto simp: found_def)

text \<open>One turn on a member: it is the one that is looked for, or the scan goes on behind it.\<close>

lemma member_turn:
  assumes "is_c_str s" and at: "drop p s = sep # member (k, v) @ c # rest" and "sep \<noteq> 34"
    and "text_ok k" and "json_ok v" and "\<not> number_char c" and "p + 1 + length (member (k, v)) < e"
    and n: "nLen nv \<le> length (pN nv)"
  shows "if hit (take (nLen nv) (pN nv)) (k, v)
         then \<exists>nv'. parse_members (json_get_value_by_name_cb s) (Suc fuel) s p e ok nv = Some (True, nv') \<and> found s v nv nv'
         else \<exists>ok'. parse_members (json_get_value_by_name_cb s) (Suc fuel) s p e ok nv
            = parse_members (json_get_value_by_name_cb s) fuel s (p + 1 + length (member (k, v))) e ok' nv"
proof -
  obtain w post where nx: "json_get_next_object s p e =
      Some (Some (p + 1 + length (member (k, v)), p + 2, length k, w, length (content v), json_type v))"
    and w: "drop w s = content v @ post"
    using next_member [OF assms(1-7)] by blast
  have "sep \<noteq> 0" using c_str_part [OF assms(1) at] by (simp add: is_c_str_def)
  then have c: "\<exists>d. chr_at s p = Some d \<and> d \<noteq> 0"
    using at by (metis chr_at_def drop_eq_Nil leI list.distinct(1) hd_drop_conv_nth list.sel(1))
  have key: "drop (Suc (Suc p)) s = k @ 34 # 58 # render v @ c # rest"
    using at drop_after [of p s "[sep, 34]"] by (simp add: quoted_def)
  have same: "length k = nLen nv \<and> take (length k) k = take (length k) (pN nv) \<longleftrightarrow> k = take (nLen nv) (pN nv)"
    using n by auto
  show ?thesis
  proof (cases "hit (take (nLen nv) (pN nv)) (k, v)")
    case True
    then have "json_get_value_by_name_cb s (p + 2, length k, w, length (content v), json_type v) nv
        = (True, nv\<lparr>pV := Some w, nv_vLen := length (content v), nv_vType := json_type v\<rparr>)"
      using n by (auto simp: hit_def json_get_value_by_name_cb_def key)
    with True c nx foundI [OF w] show ?thesis by (auto simp: hit_def)
  next
    case False
    then have "length k \<noteq> 0 \<and> length (content v) \<noteq> 0 \<Longrightarrow>
        json_get_value_by_name_cb s (p + 2, length k, w, length (content v), json_type v) nv = (False, nv)"
      using same by (auto simp: hit_def json_get_value_by_name_cb_def key)
    with False c nx show ?thesis by auto
  qed
qed

text \<open>What follows a member: the other members, each behind a comma, and the closing brace.\<close>

abbreviation members :: "(bytes \<times> json) list \<Rightarrow> bytes" where
  "members ms \<equiv> concat (map (\<lambda>m. 44 # member m) ms)"

lemma render_members: "render (JObj (m # ms)) = 123 # member m @ members ms @ [125]"
  by (simp add: commas_Cons comp_def del: commas.simps)

lemma after_member: "\<exists>c t. members ms @ 125 # post = c # t \<and> \<not> number_char c \<and> c \<noteq> 34 \<and> (ms \<noteq> [] \<longrightarrow> c = 44)"
  by (cases ms) (auto simp: number_char_def)

lemma find_member_Cons: "find_member name (m # ms) = (if hit name m then Some (snd m) else find_member name ms)"
  by (simp add: find_member_def)

lemma members_scanned:
  assumes "is_c_str s" and "json_ok (JObj ms)" and "nLen nv \<le> length (pN nv)"
    and "drop p s = members ms @ 125 # post" and "e = p + length (members ms) + 1" and "length ms < fuel"
  shows "\<exists>ok' nv'. parse_members (json_get_value_by_name_cb s) fuel s p e ok nv = Some (ok', nv')
     \<and> (case find_member (take (nLen nv) (pN nv)) ms of None \<Rightarrow> nv' = nv | Some v \<Rightarrow> ok' \<and> found s v nv nv')"
  using assms
proof (induction ms arbitrary: p fuel ok)
  case Nil
  then obtain f where "fuel = Suc f" by (cases fuel) auto
  moreover have "p < length s" using inside [of p s "[]"] Nil.prems(4) by simp
  moreover from this have "json_get_next_object s p e = Some None"
    using Nil.prems no_member [of p s "[125]" post e] by simp
  ultimately show ?case by (auto simp: find_member_def chr_at_def)
next
  case (Cons m ms)
  obtain k v where m: "m = (k, v)" by (cases m)
  obtain f where f: "fuel = Suc f" "length ms < f" using Cons.prems(6) by (cases fuel) auto
  obtain c t where c: "members ms @ 125 # post = c # t" "\<not> number_char c" using after_member by blast
  have at: "drop p s = 44 # member (k, v) @ c # t" using Cons.prems(4) m c(1) by simp
  have ok: "text_ok k" "json_ok v" "json_ok (JObj ms)" using Cons.prems(2) m by auto
  have "p + 1 + length (member (k, v)) < e" using Cons.prems(5) m by simp
  note turn = member_turn [OF Cons.prems(1) at _ ok(1,2) c(2) this Cons.prems(3), of f ok]
  show ?case
  proof (cases "hit (take (nLen nv) (pN nv)) m")
    case True
    with turn m f show ?thesis by (auto simp: find_member_Cons)
  next
    case False
    let ?q = "p + 1 + length (member (k, v))"
    have "drop ?q s = members ms @ 125 # post"
      using drop_after [of p s "44 # member (k, v)"] at c(1) by simp
    then have "\<exists>ok' nv'. parse_members (json_get_value_by_name_cb s) f s ?q e b nv = Some (ok', nv')
       \<and> (case find_member (take (nLen nv) (pN nv)) ms of None \<Rightarrow> nv' = nv | Some v \<Rightarrow> ok' \<and> found s v nv nv')" for b
      using Cons.prems(5) m by (intro Cons.IH [OF Cons.prems(1) ok(3) Cons.prems(3) _ _ f(2)]) simp_all
    with False turn m f show ?thesis by (fastforce simp: find_member_Cons)
  qed
qed

section \<open>Looking for a path\<close>

text \<open>The members of an object, from its brace on.\<close>

lemma object_scanned:
  assumes "is_c_str s" and "json_ok (JObj ms)" and "nLen nv \<le> length (pN nv)"
    and at: "drop p s = render (JObj ms) @ post" and "e = p + length (render (JObj ms))" and "length ms < fuel"
  shows "\<exists>ok' nv'. parse_members (json_get_value_by_name_cb s) fuel s p e False nv = Some (ok', nv')
     \<and> (case find_member (take (nLen nv) (pN nv)) ms of None \<Rightarrow> nv' = nv | Some v \<Rightarrow> ok' \<and> found s v nv nv')"
proof (cases ms)
  case Nil
  then obtain f where "fuel = Suc f" using assms(6) by (cases fuel) auto
  moreover have "p < length s" using inside [of p s "[]"] at by simp
  moreover have "chr_at s p = Some 123" using at \<open>p < length s\<close> by (simp add: chr_at_def hd_drop_conv_nth [symmetric])
  moreover have "json_get_next_object s p e = Some None"
    using Nil assms(5) at \<open>p < length s\<close> no_member [of p s "[123, 125]" post e] by simp
  ultimately show ?thesis using Nil by (auto simp: find_member_def)
next
  case (Cons m ms')
  obtain k v where m: "m = (k, v)" by (cases m)
  obtain f where f: "fuel = Suc f" "length ms' < f" using assms(6) Cons by (cases fuel) auto
  obtain c t where c: "members ms' @ 125 # post = c # t" "\<not> number_char c" using after_member by blast
  have at': "drop p s = 123 # member (k, v) @ c # t"
    using at m c(1) unfolding Cons render_members by simp
  have ok: "text_ok k" "json_ok v" "json_ok (JObj ms')" using assms(2) m Cons by auto
  have e: "e = p + 1 + length (member (k, v)) + length (members ms') + 1"
    using assms(5) m unfolding Cons render_members by simp
  then have "p + 1 + length (member (k, v)) < e" by simp
  note turn = member_turn [OF assms(1) at' _ ok(1,2) c(2) this assms(3), of f False]
  show ?thesis
  proof (cases "hit (take (nLen nv) (pN nv)) m")
    case True
    with turn m f Cons show ?thesis by (auto simp: find_member_Cons)
  next
    case False
    let ?q = "p + 1 + length (member (k, v))"
    have "drop ?q s = members ms' @ 125 # post"
      using drop_after [of p s "123 # member (k, v)"] at' c(1) by simp
    then have "\<exists>ok' nv'. parse_members (json_get_value_by_name_cb s) f s ?q e b nv = Some (ok', nv')
       \<and> (case find_member (take (nLen nv) (pN nv)) ms' of None \<Rightarrow> nv' = nv | Some v \<Rightarrow> ok' \<and> found s v nv nv')" for b
      using e by (intro members_scanned [OF assms(1) ok(3) assms(3) _ _ f(2)]) simp_all
    with False turn m f Cons show ?thesis by (fastforce simp: find_member_Cons)
  qed
qed

lemma get_object_at:
  "drop p s = c # t \<Longrightarrow> c \<noteq> 0 \<Longrightarrow> c \<noteq> 32 \<Longrightarrow> p < e \<Longrightarrow>
     json_get_object ty s p e = Some (if c = (if ty = JOBJECT then 123 else 91) then Some p else None)"
  using inside [of p s "[]" c t] hd_drop_conv_nth [of p s] by (simp add: json_get_object_def chr_at_def)

lemma skip_spaces_bounds: "i \<le> skip_spaces t i e \<and> skip_spaces t i e \<le> i + length t"
proof (induction t arbitrary: i)
  case (Cons c t)
  have "Suc i \<le> skip_spaces t (Suc i) e" "skip_spaces t (Suc i) e \<le> Suc i + length t" using Cons.IH by blast+
  then show ?case by simp
qed simp

text \<open>A text without quotes has no members.\<close>

lemma no_quote_no_member:
  assumes "drop p s = x @ u" and "34 \<notin> set x" and "p \<le> length s" and "x \<noteq> []"
  shows "\<exists>ok. json_parse_name_value cb s p (length x) d = Some (ok, d) \<and> \<not> ok"
proof -
  let ?e = "p + length x" and ?j = "skip_spaces (drop p s) p (p + length x)"
  have j: "p \<le> ?j" "?j \<le> length s" using skip_spaces_bounds [of p "drop p s" ?e] assms(3) by simp_all
  have get: "json_get_object JOBJECT s p ?e = Some (if s ! ?j \<noteq> 0 \<and> ?j < ?e \<and> s ! ?j = 123 \<and> ?j < length s then Some ?j else None)"
    using j assms(3) by (auto simp: json_get_object_def chr_at_def Let_def)
  have "\<exists>ok. parse_members cb (Suc f) s ?j ?e False d = Some (ok, d) \<and> \<not> ok" if "?j < ?e" for f
  proof -
    have "drop (?j - p) (drop p s) = drop (?j - p) x @ u" using assms(1) that j by simp
    then have "drop ?j s = drop (?j - p) x @ u" using j by simp
    then have "json_get_next_object s ?j ?e = Some None"
      by (rule no_member) (use that j assms(2) in \<open>auto dest: in_set_dropD\<close>)
    then show ?thesis using j by (auto simp: chr_at_def)
  qed
  from this [of "length s + 2"] show ?thesis using get assms(4)
    by (auto simp: json_parse_name_value_def numeral_3_eq_3 numeral_2_eq_2)
qed

lemma members_length: "length ms \<le> length (render (JObj ms))"
proof -
  have "length ms \<le> length (members ms)" for ms by (induction ms) auto
  then show ?thesis by (cases ms) (simp_all add: render_members order_trans le_SucI trans_le_add2 del: render.simps)
qed

text \<open>The value of a name in any document: that of the member, or NULL.\<close>

lemma name_value:
  assumes "is_c_str s" and "json_ok v" and at: "drop p s = content v @ post" and "n \<le> length name" and "p \<le> length s"
  shows "\<exists>out w. json_get_value_by_name_len s p (length (content v)) name n = Some (w, out)
    \<and> (case lookup [take n name] v of
         None \<Rightarrow> w = None
       | Some u \<Rightarrow> \<exists>i post'. w = Some i \<and> out = Some (length (content u), json_type u) \<and> drop i s = content u @ post')"
proof (cases v)
  case (JObj ms)
  define nv where "nv = \<lparr>nLen = n, pN = name, nv_vLen = 0, nv_vType = JSTRING, pV = None\<rparr>"
  let ?e = "p + length (render v)"
  have r: "drop p s = render (JObj ms) @ post" using at JObj by simp
  have "length (render (JObj ms)) \<le> length s" using r by (metis diff_le_self le_trans length_append length_drop le_add1)
  then have "length ms < length s + 3" using members_length [of ms] by simp
  moreover have "json_get_object JOBJECT s p ?e = Some (Some p)" using get_object_at [of p s 123] r JObj by simp
  moreover have "length (content v) \<noteq> 0" using JObj by simp
  ultimately obtain ok' nv' where "json_parse_name_value (json_get_value_by_name_cb s) s p (length (content v)) nv = Some (ok', nv')"
    and "case find_member (take n name) ms of None \<Rightarrow> nv' = nv | Some v \<Rightarrow> ok' \<and> found s v nv nv'"
    using object_scanned [of s ms nv p post ?e "length s + 3"] assms(1,2,4) r JObj
    by (auto simp: json_parse_name_value_def nv_def)
  moreover from this(1) have
    "json_get_value_by_name_len s p (length (content v)) name n = Some (pV nv', if ok' then Some (nv_vLen nv', nv_vType nv') else None)"
    by (simp add: json_get_value_by_name_len_def nv_def)
  moreover have "pV nv = None" by (simp add: nv_def)
  ultimately show ?thesis using JObj
    by (cases "find_member (take n name) ms") (auto simp: found_def)
next
  case (JStr t)
  have "json_parse_name_value cb s p (length t) d = Some (False, d)" for cb and d :: JSON_NV
    using no_quote_no_member [of p s t post cb d] at assms(2,5) JStr
    by (cases "t = []") (auto simp: json_parse_name_value_def text_ok_def)
  then show ?thesis using JStr by (simp add: json_get_value_by_name_len_def)
next
  case (JNum t)
  obtain d ds where t: "t = d # ds" "number_char d" "d = 45 \<or> (48 \<le> d \<and> d \<le> 57)"
    using assms(2) JNum by (cases t) (auto simp: number_ok_def)
  with number_char_plain [OF t(2)] have "json_get_object JOBJECT s p (p + length t) = Some None"
    using get_object_at [of p s d] at JNum by auto
  then show ?thesis using JNum t by (simp add: json_get_value_by_name_len_def json_parse_name_value_def)
next
  case (JBool b)
  then have "json_get_object JOBJECT s p (p + length (content v)) = Some None"
    using get_object_at [of p s "hd (content v)"] at by (cases b) (auto simp: ascii_def)
  then show ?thesis using JBool by (simp add: json_get_value_by_name_len_def json_parse_name_value_def)
next
  case (JArr vs)
  then have "json_get_object JOBJECT s p (p + length (content v)) = Some None"
    using get_object_at [of p s 91] at by auto
  then show ?thesis using JArr by (simp add: json_get_value_by_name_len_def json_parse_name_value_def)
qed

text \<open>The dots of a path.\<close>

fun dotted :: "bytes list \<Rightarrow> bytes" where
  "dotted [] = []"
| "dotted [n] = n"
| "dotted (n # m # ns) = n @ 46 # dotted (m # ns)"

lemma find_member_ok:
  "find_member n ms = Some u \<Longrightarrow> content u \<noteq> [] \<and> (json_ok (JObj ms) \<longrightarrow> json_ok u)"
proof (induction ms)
  case (Cons m ms)
  then show ?case by (cases m) (auto simp: find_member_Cons hit_def split: if_splits)
qed (simp add: find_member_def)

lemma lookup_one: "lookup [n] v = Some u \<Longrightarrow> content u \<noteq> [] \<and> (json_ok v \<longrightarrow> json_ok u)"
  by (cases v) (auto simp del: json_ok.simps dest: find_member_ok split: option.splits)

lemma path_step:
  "46 \<notin> set n \<Longrightarrow> value_of_path (n @ 46 # rest) s p len =
     do { (v, out) \<leftarrow> json_get_value_by_name_len s p len (n @ 46 # rest) (length n);
          case v of None \<Rightarrow> Some None
          | Some i \<Rightarrow> value_of_path rest s i (case out of Some (n, _) \<Rightarrow> n | None \<Rightarrow> 0) }"
  by (subst value_of_path.simps) (simp add: before_char cong: option.case_cong)

lemma path_value:
  assumes "is_c_str s" and "json_ok v" and "drop p s = content v @ post" and "p \<le> length s"
    and "names \<noteq> []" and "\<forall>n \<in> set names. 46 \<notin> set n"
  shows "case lookup names v of
      None \<Rightarrow> value_of_path (dotted names) s p (length (content v)) = Some None
    | Some u \<Rightarrow> \<exists>i post'. value_of_path (dotted names) s p (length (content v)) = Some (Some (i, length (content u)))
        \<and> drop i s = content u @ post' \<and> is_c_str (content u)"
  using assms
proof (induction names arbitrary: v p post rule: dotted.induct)
  case (2 n)
  have name: "takeWhile (\<lambda>b. b \<noteq> 46) n = n" using 2(6) by (auto simp: takeWhile_eq_all_conv)
  obtain out w where w: "json_get_value_by_name_len s p (length (content v)) n (length n) = Some (w, out)"
     "case lookup [n] v of None \<Rightarrow> w = None
      | Some u \<Rightarrow> \<exists>i post'. w = Some i \<and> out = Some (length (content u), json_type u) \<and> drop i s = content u @ post'"
    using name_value [OF 2(1,2,3) _ 2(4), of "length n" n] by auto
  have "value_of_path n s p (length (content v)) = Some (case w of None \<Rightarrow> None
      | Some i \<Rightarrow> Some (i, case out of Some (n, _) \<Rightarrow> n | None \<Rightarrow> 0))"
    using 2(6) w(1) by (simp add: value_of_path.simps [of n] name split: option.split)
  moreover have "is_c_str t" if "drop i s = t @ u" for i t u
    using c_str_part [OF 2(1) that] by (simp add: is_c_str_def)
  ultimately show ?case using w(2) by (auto split: option.splits)
next
  case (3 n m ns)
  let ?key = "dotted (n # m # ns)"
  have n: "46 \<notin> set n" using 3(7) by simp
  obtain out w where w: "json_get_value_by_name_len s p (length (content v)) ?key (length n) = Some (w, out)"
     "case lookup [n] v of None \<Rightarrow> w = None
      | Some u \<Rightarrow> \<exists>i post'. w = Some i \<and> out = Some (length (content u), json_type u) \<and> drop i s = content u @ post'"
    using name_value [OF 3(2,3,4) _ 3(5), of "length n" ?key] by auto
  show ?case
  proof (cases "lookup [n] v")
    case None
    then have "lookup (n # m # ns) v = None" by (cases v) (auto split: option.splits)
    with None w path_step [OF n] show ?thesis by simp
  next
    case (Some u)
    with w(2) obtain i post' where i: "w = Some i" "out = Some (length (content u), json_type u)" "drop i s = content u @ post'"
      by auto
    have eq: "lookup (n # m # ns) v = lookup (m # ns) u" using Some by (cases v) (auto split: option.splits)
    have "json_ok u" using lookup_one [OF Some] 3(3) by simp
    have path: "value_of_path ?key s p (length (content v)) = value_of_path (dotted (m # ns)) s i (length (content u))"
      using w(1) i path_step [OF n] by simp
    have "i \<le> length s" using lookup_one [OF Some] i(3) by (cases "i \<le> length s") auto
    then show ?thesis unfolding eq path
      using 3(1) [OF 3(2) \<open>json_ok u\<close> i(3)] 3(7) by simp
  qed
qed simp

lemma set_commas: "set (commas ts) \<subseteq> insert 44 (\<Union>t \<in> set ts. set t)"
  by (induction ts rule: commas.induct) auto

lemma render_c_str: "json_ok v \<Longrightarrow> is_c_str (render v)"
proof (induction v)
  case (JNum s)
  then show ?case by (auto simp: number_ok_def is_c_str_def dest: number_char_plain)
next
  case (JObj ms)
  have "is_c_str (member m)" if "m \<in> set ms" for m
  proof (cases m)
    case (Pair k v)
    with that JObj have "is_c_str (render v)" "text_ok k" by auto
    with Pair show ?thesis by (simp add: quoted_def text_ok_def)
  qed
  then show ?case using set_commas [of "map member ms"] by (auto simp: is_c_str_def)
next
  case (JArr vs)
  then show ?case using set_commas [of "map render vs"] by (auto simp: is_c_str_def)
qed (auto simp: is_c_str_def quoted_def text_ok_def ascii_def)

text \<open>\<open>LITE_json_value_of\<close> is the look-up that passes over empty names and strings.\<close>

lemma scanned_path:
  assumes "json_ok (JObj ms)" and "names \<noteq> []" and "\<forall>n \<in> set names. 46 \<notin> set n"
  shows "LITE_json_value_of ok (dotted names) (render (JObj ms)) =
    Some (case lookup names (JObj ms) of None \<Rightarrow> None | Some v \<Rightarrow> if ok then Some (content v) else None)"
proof -
  have s: "is_c_str (render (JObj ms))" using assms(1) by (rule render_c_str)
  have "case lookup names (JObj ms) of
      None \<Rightarrow> value_of_path (dotted names) (render (JObj ms)) 0 (length (render (JObj ms))) = Some None
    | Some u \<Rightarrow> \<exists>i post'. value_of_path (dotted names) (render (JObj ms)) 0 (length (render (JObj ms))) = Some (Some (i, length (content u)))
        \<and> drop i (render (JObj ms)) = content u @ post' \<and> is_c_str (content u)"
    using path_value [OF s assms(1), of 0 "[]" names] assms(2,3) by (simp only: content.simps) simp
  moreover have "take (length t) (c_str (t @ u)) = t" if "is_c_str t" for t u
    using that by (simp add: c_str_def is_c_str_def takeWhile_append)
  ultimately show ?thesis by (auto simp: LITE_json_value_of_def split: option.splits)
qed

text \<open>The plain look-up of a path in a tree: of several members with one name, the first.\<close>

fun json_at :: "bytes list \<Rightarrow> json \<Rightarrow> json option" where
  "json_at [] v = Some v"
| "json_at (name # names) (JObj ms) = (case map_of ms name of None \<Rightarrow> None | Some v \<Rightarrow> json_at names v)"
| "json_at (name # names) _ = None"

text \<open>No object (outside of arrays) has a member with an empty name or with an empty string as its value.\<close>

fun no_empty_member :: "json \<Rightarrow> bool" where
  "no_empty_member (JObj ms) \<longleftrightarrow> (\<forall>(k, v) \<in> set ms. k \<noteq> [] \<and> v \<noteq> JStr [] \<and> no_empty_member v)"
| "no_empty_member _ \<longleftrightarrow> True"

lemma find_member_map_of:
  assumes "json_ok (JObj ms)" and "no_empty_member (JObj ms)"
  shows "find_member name ms = map_of ms name"
  using assms
proof (induction ms)
  case Nil
  then show ?case by (simp add: find_member_def)
next
  case (Cons m ms)
  obtain k v where m: "m = (k, v)" by (cases m)
  have "content v \<noteq> []" using Cons.prems m by (cases v) (auto simp: number_ok_def ascii_def)
  then have "hit name m \<longleftrightarrow> k = name" using Cons.prems m by (auto simp: hit_def)
  with Cons m show ?case by (simp add: find_member_Cons)
qed

lemma lookup_json_at: "json_ok v \<Longrightarrow> no_empty_member v \<Longrightarrow> lookup names v = json_at names v"
proof (induction names v rule: json_at.induct)
  case (2 name names ms)
  have "json_ok u \<and> no_empty_member u" if "map_of ms name = Some u" for u
    using map_of_SomeD [OF that] 2(2,3) by auto
  then show ?case using 2(1) by (simp add: find_member_map_of [OF 2(2,3)] split: option.split)
qed simp_all

text \<open>
  Property C15: on the compact text (no white space, no \<open>null\<close>) of a JSON object whose
  strings have no escape sequences and in which no member has an empty name or an empty string as
  its value, \<open>LITE_json_value_of\<close> with the names of a path joined by dots is the look-up of the path in
  the object: it returns a copy of exactly the value found (a string without its quotes, anything
  else as it is written, nested objects and arrays whole), and NULL when a name is missing, when a
  value on the way is not an object or when there is no memory. A number, a comma or a brace
  inside a string does not confuse it, and it never reads outside the text.
\<close>

theorem json_path_lookup:
  assumes "json_ok (JObj ms)" and "no_empty_member (JObj ms)" and "names \<noteq> []" and "\<forall>n \<in> set names. 46 \<notin> set n"
  shows "LITE_json_value_of ok (dotted names) (render (JObj ms)) =
    Some (case json_at names (JObj ms) of None \<Rightarrow> None | Some v \<Rightarrow> if ok then Some (content v) else None)"
  using scanned_path [OF assms(1,3,4), of ok] lookup_json_at [OF assms(1,2), of names] by simp

text \<open>
  The hypotheses are needed: a member with an empty string is not found; a \<open>null\<close> is passed
  over, so that the value of its name is taken to be the name of the next member, which is itself
  not found any more.
\<close>

lemma json_empty_and_null:
  "LITE_json_value_of True (ascii ''a'') (ascii ''{\"a\":\"\"}'') = Some None"
  "LITE_json_value_of True (ascii ''a'') (ascii ''{\"a\":null,\"b\":\"x\"}'') = Some (Some (ascii ''b''))"
  "LITE_json_value_of True (ascii ''b'') (ascii ''{\"a\":null,\"b\":\"x\"}'') = Some None"
  by code_simp+

text \<open>The reply to a request: its code is inside its data, behind a brace in a string.\<close>

theorem json_path_lookup_witness:
  "LITE_json_value_of True (ascii ''data.code'') (ascii ''{\"id\":\"}7{\",\"data\":{\"code\":200,\"list\":[true,{}]}}'')
     = Some (Some (ascii ''200''))"
proof -
  let ?ms = "[(ascii ''id'', JStr (ascii ''}7{'')), (ascii ''data'', JObj [(ascii ''code'', JNum (ascii ''200'')),
    (ascii ''list'', JArr [JBool True, JObj []])])]"
  have "json_ok (JObj ?ms)" by code_simp
  moreover have "render (JObj ?ms) = ascii ''{\"id\":\"}7{\",\"data\":{\"code\":200,\"list\":[true,{}]}}''" by code_simp
  moreover have "no_empty_member (JObj ?ms)" by code_simp
  moreover have "json_at [ascii ''data'', ascii ''code''] (JObj ?ms) = Some (JNum (ascii ''200''))" by code_simp
  moreover have "dotted [ascii ''data'', ascii ''code''] = ascii ''data.code''" by code_simp
  moreover have "\<forall>n \<in> set [ascii ''data'', ascii ''code'']. 46 \<notin> set n" by code_simp
  ultimately show ?thesis
    using json_path_lookup [of ?ms "[ascii ''data'', ascii ''code'']" True] by simp
qed

end
