(* ===== verification/Dm_Dispatch.thy ===== *)
theory Dm_Dispatch
  imports Dm_Utils
begin

text \<open>
  The messages of the device model on their way to the application: the bounded queue of events
  (\<open>dev_model/dm_ipc.c\<close>), the cache of requests that wait for their reply (\<open>dm_message_cache.c\<close>), the
  events they cause (\<open>_dm_msg_send_to_user\<close>, \<open>dm_msg_send_msg_timeout_to_user\<close> of \<open>dm_message.c\<close>), the
  notices of a new configuration or firmware (\<open>dm_cota.c\<close>, \<open>dm_fota.c\<close>) and \<open>iotx_dm_dispatch\<close> of \<open>dm_api.c\<close>,
  which gives them to the application. The static contexts are one record; \<open>mem n\<close> says whether
  the \<open>n\<close>-th allocation succeeds. The calls are
  atomic in the model: the mutexes guard the changes of the lists, and most callers hold the lock of the
  API around the whole call, but \<open>dm_msg_cache_insert\<close> reads \<open>dmc_list_size\<close> before it takes
  the mutex, so that without that lock two callers could both pass its limit.
\<close>

section \<open>State\<close>

datatype iotx_dm_event_types_t =
    IOTX_DM_EVENT_CLOUD_CONNECTED | IOTX_DM_EVENT_CLOUD_DISCONNECT | IOTX_DM_EVENT_CLOUD_RECONNECT
  | IOTX_DM_EVENT_LOCAL_CONNECTED | IOTX_DM_EVENT_LOCAL_DISCONNECT | IOTX_DM_EVENT_LOCAL_RECONNECT
  | IOTX_DM_EVENT_FOUND_DEVICE | IOTX_DM_EVENT_REMOVE_DEVICE | IOTX_DM_EVENT_REGISTER_RESULT
  | IOTX_DM_EVENT_UNREGISTER_RESULT | IOTX_DM_EVENT_INITIALIZED | IOTX_DM_EVENT_SEND_RESULT
  | IOTX_DM_EVENT_ADD_SERVICE_RESULT | IOTX_DM_EVENT_REMOVE_SERVICE_RESULT | IOTX_DM_EVENT_NEW_DATA_RECEIVED
  | IOTX_DM_EVENT_PROPERTY_SET | IOTX_DM_EVENT_PROPERTY_GET | IOTX_DM_EVENT_PROPERTY_DESIRED_GET_REPLY
  | IOTX_DM_EVENT_PROPERTY_DESIRED_DELETE_REPLY | IOTX_DM_EVENT_TOPO_ADD_NOTIFY | IOTX_DM_EVENT_THING_SERVICE_REQUEST
  | IOTX_DM_EVENT_THING_DISABLE | IOTX_DM_EVENT_THING_ENABLE | IOTX_DM_EVENT_THING_DELETE
  | IOTX_DM_EVENT_MODEL_DOWN_RAW | IOTX_DM_EVENT_GATEWAY_PERMIT | IOTX_DM_EVENT_SUBDEV_REGISTER_REPLY
  | IOTX_DM_EVENT_SUBDEV_UNREGISTER_REPLY | IOTX_DM_EVENT_TOPO_ADD_REPLY | IOTX_DM_EVENT_TOPO_DELETE_REPLY
  | IOTX_DM_EVENT_TOPO_GET_REPLY | IOTX_DM_EVENT_TOPO_ADD_NOTIFY_REPLY | IOTX_DM_EVENT_EVENT_PROPERTY_POST_REPLY
  | IOTX_DM_EVENT_EVENT_SPECIFIC_POST_REPLY | IOTX_DM_EVENT_DEVICEINFO_UPDATE_REPLY
  | IOTX_DM_EVENT_DEVICEINFO_DELETE_REPLY | IOTX_DM_EVENT_DSLTEMPLATE_GET_REPLY | IOTX_DM_EVENT_COMBINE_LOGIN_REPLY
  | IOTX_DM_EVENT_COMBINE_LOGOUT_REPLY | IOTX_DM_EVENT_MODEL_UP_RAW_REPLY | IOTX_DM_EVENT_LEGACY_THING_CREATED
  | IOTX_DM_EVENT_COTA_NEW_CONFIG | IOTX_DM_EVENT_FOTA_NEW_FIRMWARE | IOTX_DM_EVENT_NTP_RESPONSE
  | IOTX_DM_EVENT_RRPC_REQUEST | IOTX_DM_EVENT_MAX

record dm_ipc_msg_t =
  ipc_type :: iotx_dm_event_types_t
  ipc_data :: "bytes option"

record dm_ipc_t =
  ipc_mutex :: bool
  ipc_max_size :: int
  ipc_size :: int
  ipc_list :: "dm_ipc_msg_t list"

record dm_msg_cache_node_t =
  nd_msgid :: int
  nd_devid :: int
  nd_response_type :: iotx_dm_event_types_t
  nd_data :: "bytes option"
  nd_ctime :: u64

record dm_msg_cache_ctx_t =
  dmc_mutex :: bool
  dmc_list_size :: int
  dmc_list :: "dm_msg_cache_node_t list"

text \<open>The state of the OTA handle as \<open>IOT_OTA_Ioctl\<close> reads it; a string it cannot give is NULL.\<close>

datatype ota_kind = IOT_OTAT_NONE | IOT_OTAT_COTA | IOT_OTAT_FOTA

record ota_view =
  ov_fetching :: bool
  ov_type :: ota_kind
  ov_config_id :: "bytes option"
  ov_config_size :: u32
  ov_sign :: "bytes option"
  ov_sign_method :: "bytes option"
  ov_url :: "bytes option"
  ov_gettype :: "bytes option"
  ov_version :: bytes

text \<open>\<open>dm_seen\<close> are the calls of the event callback, \<open>dm_callback\<close> whether there is one.\<close>

record dm_ctx =
  g_dm_ipc :: dm_ipc_t
  g_dm_msg_cache :: dm_msg_cache_ctx_t
  cota_is_report_new_config :: bool
  fota_is_report_new_config :: bool
  dm_callback :: bool
  dm_allocs :: nat
  dm_seen :: "(iotx_dm_event_types_t \<times> bytes option) list"

text \<open>The static contexts before \<open>iotx_dm_open\<close>.\<close>

definition dm_static :: dm_ctx where
  "dm_static = \<lparr>g_dm_ipc = \<lparr>ipc_mutex = False, ipc_max_size = 0, ipc_size = 0, ipc_list = []\<rparr>,
     g_dm_msg_cache = \<lparr>dmc_mutex = False, dmc_list_size = 0, dmc_list = []\<rparr>, cota_is_report_new_config = False,
     fota_is_report_new_config = False, dm_callback = False, dm_allocs = 0, dm_seen = []\<rparr>"

definition CONFIG_DISPATCH_QUEUE_MAXLEN :: nat where "CONFIG_DISPATCH_QUEUE_MAXLEN = 50"
definition CONFIG_MSGCACHE_QUEUE_MAXLEN :: int where "CONFIG_MSGCACHE_QUEUE_MAXLEN = 50"
definition DM_MSG_CACHE_TIMEOUT_MS_DEFAULT :: u64 where "DM_MSG_CACHE_TIMEOUT_MS_DEFAULT = 10000"
definition IOTX_DM_ERR_CODE_TIMEOUT :: int where "IOTX_DM_ERR_CODE_TIMEOUT = 100000"

definition dm_malloc :: "(nat \<Rightarrow> bool) \<Rightarrow> dm_ctx \<Rightarrow> bool \<times> dm_ctx" where
  "dm_malloc mem ctx = (mem (dm_allocs ctx), ctx\<lparr>dm_allocs := dm_allocs ctx + 1\<rparr>)"

section \<open>The queue of events\<close>

definition dm_ipc_init :: "bool \<Rightarrow> int \<Rightarrow> dm_ctx \<Rightarrow> int \<times> dm_ctx" where
  "dm_ipc_init mutex_ok max_size ctx =
     (if \<not> mutex_ok
      then (DM_INVALID_PARAMETER, ctx\<lparr>g_dm_ipc := \<lparr>ipc_mutex = False, ipc_max_size = 0, ipc_size = 0, ipc_list = []\<rparr>\<rparr>)
      else (DM_SUCCESS, ctx\<lparr>g_dm_ipc := \<lparr>ipc_mutex = True, ipc_max_size = max_size, ipc_size = 0, ipc_list = []\<rparr>\<rparr>))"

text \<open>The nodes are freed; the size is not set back.\<close>

definition dm_ipc_deinit :: "dm_ctx \<Rightarrow> dm_ctx" where
  "dm_ipc_deinit ctx = ctx\<lparr>g_dm_ipc := (g_dm_ipc ctx)\<lparr>ipc_list := []\<rparr>\<rparr>"

definition dm_ipc_msg_insert :: "(nat \<Rightarrow> bool) \<Rightarrow> dm_ipc_msg_t option \<Rightarrow> dm_ctx \<Rightarrow> int \<times> dm_ctx" where
  "dm_ipc_msg_insert mem data ctx =
     (case data of
        None \<Rightarrow> (DM_INVALID_PARAMETER, ctx)
      | Some msg \<Rightarrow>
          if ipc_size (g_dm_ipc ctx) \<ge> ipc_max_size (g_dm_ipc ctx) then (DM_FAIL, ctx)
          else
            let (ok, ctx) = dm_malloc mem ctx; q = g_dm_ipc ctx in
            if \<not> ok then (DM_MEMORY_NOT_ENOUGH, ctx)
            else (DM_SUCCESS, ctx\<lparr>g_dm_ipc := q\<lparr>ipc_size := ipc_size q + 1, ipc_list := ipc_list q @ [msg]\<rparr>\<rparr>))"

text \<open>\<open>dm_ipc_msg_next\<close>; \<open>free\<close>: the caller's pointer is NULL, as it must be.\<close>

definition dm_ipc_msg_next :: "bool \<Rightarrow> dm_ctx \<Rightarrow> int \<times> dm_ipc_msg_t option \<times> dm_ctx" where
  "dm_ipc_msg_next free ctx =
     (if \<not> free then (DM_INVALID_PARAMETER, None, ctx)
      else case ipc_list (g_dm_ipc ctx) of
        [] \<Rightarrow> (DM_FAIL, None, ctx)
      | msg # rest \<Rightarrow>
          (DM_SUCCESS, Some msg,
           ctx\<lparr>g_dm_ipc := (g_dm_ipc ctx)\<lparr>ipc_size := ipc_size (g_dm_ipc ctx) - 1, ipc_list := rest\<rparr>\<rparr>))"

definition dm_msg_send_to_user :: "(nat \<Rightarrow> bool) \<Rightarrow> iotx_dm_event_types_t \<Rightarrow> bytes \<Rightarrow> dm_ctx \<Rightarrow> int \<times> dm_ctx" where
  "dm_msg_send_to_user mem ty message ctx =
     (let (ok, ctx) = dm_malloc mem ctx in
      if \<not> ok then (DM_MEMORY_NOT_ENOUGH, ctx)
      else let (res, ctx) = dm_ipc_msg_insert mem (Some \<lparr>ipc_type = ty, ipc_data = Some message\<rparr>) ctx in
           if res \<noteq> DM_SUCCESS then (DM_FAIL, ctx) else (DM_SUCCESS, ctx))"

section \<open>Requests that wait for a reply\<close>

definition timeout_text :: "int \<Rightarrow> int \<Rightarrow> bytes" where
  "timeout_text msgid devid =
     ascii ''{\"id\":'' @ format_d msgid @ ascii '',\"code\":'' @ format_d IOTX_DM_ERR_CODE_TIMEOUT
       @ ascii '',\"devid\":'' @ format_d devid @ ascii ''}''"

definition timeout_message :: "int \<Rightarrow> int \<Rightarrow> bytes" where
  "timeout_message msgid devid =
     stored (length ''{\"id\":%d,\"code\":%d,\"devid\":%d}'' + DM_UTILS_UINT32_STRLEN * 3 + 1) (timeout_text msgid devid)"

definition dm_msg_send_msg_timeout_to_user ::
    "(nat \<Rightarrow> bool) \<Rightarrow> int \<Rightarrow> int \<Rightarrow> iotx_dm_event_types_t \<Rightarrow> dm_ctx \<Rightarrow> int \<times> dm_ctx" where
  "dm_msg_send_msg_timeout_to_user mem msgid devid ty ctx =
     (let (ok, ctx) = dm_malloc mem ctx in
      if \<not> ok then (DM_MEMORY_NOT_ENOUGH, ctx)
      else let (res, ctx) = dm_msg_send_to_user mem ty (timeout_message msgid devid) ctx in
           if res \<noteq> DM_SUCCESS then (DM_FAIL, ctx) else (DM_SUCCESS, ctx))"

definition dm_msg_cache_init :: "bool \<Rightarrow> dm_ctx \<Rightarrow> int \<times> dm_ctx" where
  "dm_msg_cache_init mutex_ok ctx =
     (if mutex_ok then DM_SUCCESS else DM_MEMORY_NOT_ENOUGH,
      ctx\<lparr>g_dm_msg_cache := \<lparr>dmc_mutex = mutex_ok, dmc_list_size = 0, dmc_list = []\<rparr>\<rparr>)"

definition dm_msg_cache_deinit :: "dm_ctx \<Rightarrow> int \<times> dm_ctx" where
  "dm_msg_cache_deinit ctx = (DM_SUCCESS, ctx\<lparr>g_dm_msg_cache := (g_dm_msg_cache ctx)\<lparr>dmc_list := []\<rparr>\<rparr>)"

definition dm_msg_cache_insert ::
    "(nat \<Rightarrow> bool) \<Rightarrow> u64 \<Rightarrow> int \<Rightarrow> int \<Rightarrow> iotx_dm_event_types_t \<Rightarrow> bytes option \<Rightarrow> dm_ctx \<Rightarrow> int \<times> dm_ctx" where
  "dm_msg_cache_insert mem now msgid devid ty data ctx =
     (if dmc_list_size (g_dm_msg_cache ctx) \<ge> CONFIG_MSGCACHE_QUEUE_MAXLEN then (DM_FAIL, ctx)
      else
        let (ok, ctx) = dm_malloc mem ctx; c = g_dm_msg_cache ctx in
        if \<not> ok then (DM_MEMORY_NOT_ENOUGH, ctx)
        else (DM_SUCCESS, ctx\<lparr>g_dm_msg_cache := c\<lparr>
               dmc_list := dmc_list c @ [\<lparr>nd_msgid = msgid, nd_devid = devid, nd_response_type = ty, nd_data = data, nd_ctime = now\<rparr>],
               dmc_list_size := dmc_list_size c + 1\<rparr>\<rparr>))"

definition dm_msg_cache_search :: "int \<Rightarrow> bool \<Rightarrow> dm_ctx \<Rightarrow> int \<times> dm_msg_cache_node_t option" where
  "dm_msg_cache_search msgid free ctx =
     (if msgid \<le> 0 \<or> \<not> free then (DM_INVALID_PARAMETER, None)
      else case find (\<lambda>nd. nd_msgid nd = msgid) (dmc_list (g_dm_msg_cache ctx)) of
        None \<Rightarrow> (DM_FAIL, None) | Some nd \<Rightarrow> (DM_SUCCESS, Some nd))"

text \<open>The first node with the identifier.\<close>

fun remove_node :: "int \<Rightarrow> dm_msg_cache_node_t list \<Rightarrow> dm_msg_cache_node_t list option" where
  "remove_node msgid [] = None"
| "remove_node msgid (nd # nds) =
     (if nd_msgid nd = msgid then Some nds else map_option (\<lambda>r. nd # r) (remove_node msgid nds))"

definition dm_msg_cache_remove :: "int \<Rightarrow> dm_ctx \<Rightarrow> int \<times> dm_ctx" where
  "dm_msg_cache_remove msgid ctx =
     (let c = g_dm_msg_cache ctx in
      case remove_node msgid (dmc_list c) of
        None \<Rightarrow> (DM_FAIL, ctx)
      | Some nds \<Rightarrow> (DM_SUCCESS, ctx\<lparr>g_dm_msg_cache := c\<lparr>dmc_list := nds, dmc_list_size := dmc_list_size c - 1\<rparr>\<rparr>))"

text \<open>A clock that went back makes a node as old as now; ten seconds later it is reported.\<close>

definition clock_back :: "u64 \<Rightarrow> dm_msg_cache_node_t \<Rightarrow> dm_msg_cache_node_t" where
  "clock_back now nd = (if now < nd_ctime nd then nd\<lparr>nd_ctime := now\<rparr> else nd)"

definition expired :: "u64 \<Rightarrow> dm_msg_cache_node_t \<Rightarrow> bool" where
  "expired now nd \<longleftrightarrow> now - nd_ctime nd \<ge> DM_MSG_CACHE_TIMEOUT_MS_DEFAULT"

fun tick_loop ::
    "(nat \<Rightarrow> bool) \<Rightarrow> u64 \<Rightarrow> dm_msg_cache_node_t list \<Rightarrow> dm_ctx \<Rightarrow> dm_msg_cache_node_t list \<times> dm_ctx" where
  "tick_loop mem now [] ctx = ([], ctx)"
| "tick_loop mem now (nd # nds) ctx =
     (let nd = clock_back now nd in
      if expired now nd then
        let (_, ctx) = dm_msg_send_msg_timeout_to_user mem (nd_msgid nd) (nd_devid nd) (nd_response_type nd) ctx;
            c = g_dm_msg_cache ctx
        in tick_loop mem now nds (ctx\<lparr>g_dm_msg_cache := c\<lparr>dmc_list_size := dmc_list_size c - 1\<rparr>\<rparr>)
      else let (kept, ctx) = tick_loop mem now nds ctx in (nd # kept, ctx))"

definition dm_msg_cache_tick :: "(nat \<Rightarrow> bool) \<Rightarrow> u64 \<Rightarrow> dm_ctx \<Rightarrow> dm_ctx" where
  "dm_msg_cache_tick mem now ctx =
     (let (kept, ctx) = tick_loop mem now (dmc_list (g_dm_msg_cache ctx)) ctx
      in ctx\<lparr>g_dm_msg_cache := (g_dm_msg_cache ctx)\<lparr>dmc_list := kept\<rparr>\<rparr>)"

section \<open>New configurations and firmware\<close>

text \<open>\<open>_dm_cota_send_new_config_to_user\<close>; the size is printed with \<open>%d\<close>.\<close>

definition cota_fmt :: string where
  "cota_fmt = ''{\"configId\":\"%s\",\"configSize\":%d,\"getType\":\"%s\",\"sign\":\"%s\",\"signMethod\":\"%s\",\"url\":\"%s\"}''"

definition cota_message :: "bytes \<Rightarrow> u32 \<Rightarrow> bytes \<Rightarrow> bytes \<Rightarrow> bytes \<Rightarrow> bytes \<Rightarrow> bytes" where
  "cota_message config_id config_size get_type sign sign_method url =
     stored (length cota_fmt + length config_id + DM_UTILS_UINT32_STRLEN + length get_type + length sign
             + length sign_method + length url + 1)
       (ascii ''{\"configId\":\"'' @ config_id @ ascii ''\",\"configSize\":'' @ format_d (sint config_size)
        @ ascii '',\"getType\":\"'' @ get_type @ ascii ''\",\"sign\":\"'' @ sign @ ascii ''\",\"signMethod\":\"'' @ sign_method
        @ ascii ''\",\"url\":\"'' @ url @ ascii ''\"}'')"

definition dm_cota_send_new_config_to_user :: "(nat \<Rightarrow> bool) \<Rightarrow> ota_view \<Rightarrow> dm_ctx \<Rightarrow> int \<times> dm_ctx" where
  "dm_cota_send_new_config_to_user mem ota ctx =
     (case (ov_config_id ota, ov_sign ota, ov_sign_method ota, ov_url ota, ov_gettype ota) of
        (Some config_id, Some sign, Some sign_method, Some url, Some get_type) \<Rightarrow>
          let (ok, ctx) = dm_malloc mem ctx in
          if \<not> ok then (DM_MEMORY_NOT_ENOUGH, ctx)
          else let (res, ctx) = dm_msg_send_to_user mem IOTX_DM_EVENT_COTA_NEW_CONFIG
                                  (cota_message config_id (ov_config_size ota) get_type sign sign_method url) ctx in
               if res \<noteq> DM_SUCCESS then (DM_FAIL, ctx) else (DM_SUCCESS, ctx)
      | _ \<Rightarrow> (DM_FAIL, ctx))"

definition dm_cota_status_check :: "(nat \<Rightarrow> bool) \<Rightarrow> ota_view option \<Rightarrow> dm_ctx \<Rightarrow> int \<times> dm_ctx" where
  "dm_cota_status_check mem handle ctx =
     (case handle of
        None \<Rightarrow> (DM_FAIL, ctx)
      | Some ota \<Rightarrow>
          if ov_fetching ota \<and> ov_type ota = IOT_OTAT_COTA \<and> \<not> cota_is_report_new_config ctx
          then let (res, ctx) = dm_cota_send_new_config_to_user mem ota ctx in
               (DM_SUCCESS, if res = DM_SUCCESS then ctx\<lparr>cota_is_report_new_config := True\<rparr> else ctx)
          else (DM_SUCCESS, ctx))"

definition fota_message :: "bytes \<Rightarrow> bytes" where
  "fota_message version =
     stored (length ''{\"version\":\"%s\"}'' + length version + 1) (ascii ''{\"version\":\"'' @ version @ ascii ''\"}'')"

definition dm_fota_send_new_config_to_user :: "(nat \<Rightarrow> bool) \<Rightarrow> ota_view \<Rightarrow> dm_ctx \<Rightarrow> int \<times> dm_ctx" where
  "dm_fota_send_new_config_to_user mem ota ctx =
     (let (ok, ctx) = dm_malloc mem ctx in
      if \<not> ok then (DM_MEMORY_NOT_ENOUGH, ctx)
      else let (res, ctx) = dm_msg_send_to_user mem IOTX_DM_EVENT_FOTA_NEW_FIRMWARE (fota_message (ov_version ota)) ctx in
           if res \<noteq> DM_SUCCESS then (DM_FAIL, ctx) else (DM_SUCCESS, ctx))"

definition dm_fota_status_check :: "(nat \<Rightarrow> bool) \<Rightarrow> ota_view option \<Rightarrow> dm_ctx \<Rightarrow> int \<times> dm_ctx" where
  "dm_fota_status_check mem handle ctx =
     (case handle of
        None \<Rightarrow> (DM_FAIL, ctx)
      | Some ota \<Rightarrow>
          if ov_fetching ota \<and> ov_type ota = IOT_OTAT_FOTA \<and> \<not> fota_is_report_new_config ctx
          then let (res, ctx) = dm_fota_send_new_config_to_user mem ota ctx in
               (DM_SUCCESS, if res = DM_SUCCESS then ctx\<lparr>fota_is_report_new_config := True\<rparr> else ctx)
          else (DM_SUCCESS, ctx))"

section \<open>Dispatching\<close>

fun dispatch_loop :: "nat \<Rightarrow> dm_ctx \<Rightarrow> dm_ctx" where
  "dispatch_loop 0 ctx = ctx"
| "dispatch_loop (Suc n) ctx =
     (case dm_ipc_msg_next True ctx of
        (res, Some msg, ctx) \<Rightarrow>
          dispatch_loop n (if dm_callback ctx then ctx\<lparr>dm_seen := dm_seen ctx @ [(ipc_type msg, ipc_data msg)]\<rparr> else ctx)
      | (res, None, ctx) \<Rightarrow> ctx)"

definition iotx_dm_dispatch :: "(nat \<Rightarrow> bool) \<Rightarrow> u64 \<Rightarrow> ota_view option \<Rightarrow> dm_ctx \<Rightarrow> dm_ctx" where
  "iotx_dm_dispatch mem now handle ctx =
     (let ctx = dm_msg_cache_tick mem now ctx;
          ctx = snd (dm_cota_status_check mem handle ctx);
          ctx = snd (dm_fota_status_check mem handle ctx)
      in dispatch_loop CONFIG_DISPATCH_QUEUE_MAXLEN ctx)"

end
