(* ===== verification/Dm_Dispatch_Correct.thy ===== *)
theory Dm_Dispatch_Correct
  imports Dm_Dispatch
begin

text \<open>
  What becomes of the messages of \<open>Dm_Dispatch\<close>. The queue is a bounded FIFO, which is stated as a
  locale over any implementation (\<open>fifo_queue\<close>); the invariant of the two lists and their counters; and
  what one call of \<open>iotx_dm_dispatch\<close> gives to the application.
\<close>

section \<open>The contract of a queue\<close>

datatype 'm queue_call = Put 'm | Get

text \<open>A history of calls: what was accepted, what was delivered, and the state at the end.\<close>

fun history ::
    "('m \<Rightarrow> 's \<Rightarrow> int \<times> 's) \<Rightarrow> ('s \<Rightarrow> int \<times> 'm option \<times> 's) \<Rightarrow> 'm queue_call list \<Rightarrow> 's \<Rightarrow> 'm list \<times> 'm list \<times> 's" where
  "history put get [] s = ([], [], s)"
| "history put get (Put m # cs) s =
     (let (r, s) = put m s; (accepted, delivered, s) = history put get cs s
      in (if r = DM_SUCCESS then m # accepted else accepted, delivered, s))"
| "history put get (Get # cs) s =
     (let (r, m, s) = get s; (accepted, delivered, s) = history put get cs s
      in (accepted, case m of Some m \<Rightarrow> m # delivered | None \<Rightarrow> delivered, s))"

locale fifo_queue =
  fixes put :: "'m \<Rightarrow> 's \<Rightarrow> int \<times> 's"
    and get :: "'s \<Rightarrow> int \<times> 'm option \<times> 's"
    and items :: "'s \<Rightarrow> 'm list"
    and wf :: "'s \<Rightarrow> bool"
  assumes put_law: "wf s \<Longrightarrow> put m s = (r, s') \<Longrightarrow> wf s' \<and> items s' = (if r = DM_SUCCESS then items s @ [m] else items s)"
    and get_empty: "wf s \<Longrightarrow> items s = [] \<Longrightarrow> get s = (r, x, s') \<Longrightarrow> x = None \<and> s' = s"
    and get_next: "wf s \<Longrightarrow> items s = m # ms \<Longrightarrow> get s = (r, x, s') \<Longrightarrow> x = Some m \<and> items s' = ms \<and> wf s'"
begin

lemma in_order:
  "wf s \<Longrightarrow> history put get cs s = (accepted, delivered, s') \<Longrightarrow> items s @ accepted = delivered @ items s' \<and> wf s'"
proof (induction cs arbitrary: s accepted delivered)
  case (Cons c cs)
  show ?case
  proof (cases c)
    case (Put m)
    obtain r s1 where p: "put m s = (r, s1)" by (cases "put m s")
    obtain a d where h: "history put get cs s1 = (a, d, s')" using Cons.prems(2) Put p by (auto split: prod.splits)
    show ?thesis using Cons.IH [OF _ h] put_law [OF Cons.prems(1) p] Cons.prems(2) Put p h by (auto split: if_splits)
  next
    case Get
    obtain r x s1 where g: "get s = (r, x, s1)" by (cases "get s")
    obtain a d where h: "history put get cs s1 = (a, d, s')" using Cons.prems(2) Get g by (auto split: prod.splits)
    show ?thesis
    proof (cases "items s")
      case Nil
      then show ?thesis using Cons.IH [OF _ h] get_empty [OF Cons.prems(1) Nil g] Cons.prems Get g h by auto
    next
      case (Cons m ms)
      then show ?thesis using Cons.IH [OF _ h] get_next [OF \<open>wf s\<close> Cons g] Cons.prems Get g h by auto
    qed
  qed
qed simp

end

section \<open>The queue of events is one\<close>

definition queue_ok :: "dm_ctx \<Rightarrow> bool" where
  "queue_ok ctx \<longleftrightarrow> ipc_size (g_dm_ipc ctx) = int (length (ipc_list (g_dm_ipc ctx)))
     \<and> ipc_size (g_dm_ipc ctx) \<le> ipc_max_size (g_dm_ipc ctx)"

abbreviation events :: "dm_ctx \<Rightarrow> dm_ipc_msg_t list" where
  "events ctx \<equiv> ipc_list (g_dm_ipc ctx)"

lemma insert_ok:
  "queue_ok s \<Longrightarrow> dm_ipc_msg_insert mem (Some m) s = (r, s') \<Longrightarrow>
     queue_ok s' \<and> events s' = (if r = DM_SUCCESS then events s @ [m] else events s)"
  by (auto simp: dm_ipc_msg_insert_def dm_malloc_def queue_ok_def dm_results Let_def split: if_splits)

interpretation ipc: fifo_queue "\<lambda>m. dm_ipc_msg_insert mem (Some m)" "dm_ipc_msg_next True" events queue_ok
proof (unfold_locales, goal_cases)
  case (1 s m r s')
  then show ?case by (rule insert_ok)
qed (auto simp: dm_ipc_msg_next_def queue_ok_def)

text \<open>
  Property C36: whatever calls insert messages into the queue of events and take them out,
  in whatever order and with whatever allocations failing, the messages that were accepted come
  out unchanged, each once and in the order in which they went in.
\<close>

theorem event_queue_fifo:
  assumes "queue_ok s"
    and "history (\<lambda>m. dm_ipc_msg_insert mem (Some m)) (dm_ipc_msg_next True) calls s = (accepted, delivered, s')"
  shows "events s @ accepted = delivered @ events s' \<and> int (length (events s')) \<le> ipc_max_size (g_dm_ipc s')"
  using ipc.in_order [OF assms] by (simp add: queue_ok_def)

theorem event_queue_fifo_witness:
  "(let (accepted, delivered, s') = history (\<lambda>m. dm_ipc_msg_insert (\<lambda>n. n \<noteq> 1) (Some m)) (dm_ipc_msg_next True)
        [Put \<lparr>ipc_type = IOTX_DM_EVENT_INITIALIZED, ipc_data = None\<rparr>, Get,
         Put \<lparr>ipc_type = IOTX_DM_EVENT_THING_ENABLE, ipc_data = None\<rparr>, Get] (snd (dm_ipc_init True 2 dm_static))
      in accepted = delivered @ events s')"
proof -
  obtain accepted delivered s' where h: "history (\<lambda>m. dm_ipc_msg_insert (\<lambda>n. n \<noteq> 1) (Some m)) (dm_ipc_msg_next True)
        [Put \<lparr>ipc_type = IOTX_DM_EVENT_INITIALIZED, ipc_data = None\<rparr>, Get,
         Put \<lparr>ipc_type = IOTX_DM_EVENT_THING_ENABLE, ipc_data = None\<rparr>, Get] (snd (dm_ipc_init True 2 dm_static))
      = (accepted, delivered, s')" by (rule prod_cases3)
  have ok: "queue_ok (snd (dm_ipc_init True 2 dm_static))" "events (snd (dm_ipc_init True 2 dm_static)) = []"
    by (simp_all add: dm_ipc_init_def queue_ok_def)
  from event_queue_fifo [OF ok(1) h] ok(2) show ?thesis unfolding h by simp
qed

section \<open>The cache and the queue\<close>

text \<open>Identifiers are C integers; as many nodes as the counter says, and at most 50.\<close>

definition node_ok :: "dm_msg_cache_node_t \<Rightarrow> bool" where
  "node_ok nd \<longleftrightarrow> - (2 ^ 31) \<le> nd_msgid nd \<and> nd_msgid nd < 2 ^ 31 \<and> - (2 ^ 31) \<le> nd_devid nd \<and> nd_devid nd < 2 ^ 31"

definition cache_ok :: "dm_ctx \<Rightarrow> bool" where
  "cache_ok ctx \<longleftrightarrow> dmc_list_size (g_dm_msg_cache ctx) = int (length (dmc_list (g_dm_msg_cache ctx)))
     \<and> dmc_list_size (g_dm_msg_cache ctx) \<le> CONFIG_MSGCACHE_QUEUE_MAXLEN \<and> (\<forall>nd \<in> set (dmc_list (g_dm_msg_cache ctx)). node_ok nd)"

definition dm_ok :: "dm_ctx \<Rightarrow> bool" where
  "dm_ok ctx \<longleftrightarrow> queue_ok ctx \<and> cache_ok ctx \<and> ipc_max_size (g_dm_ipc ctx) = int CONFIG_DISPATCH_QUEUE_MAXLEN"

text \<open>The message about a request: the array for it is long enough for any identifiers.\<close>

lemma timeout_message_whole: "node_ok nd \<Longrightarrow> timeout_message (nd_msgid nd) (nd_devid nd) = timeout_text (nd_msgid nd) (nd_devid nd)"
proof -
  assume "node_ok nd"
  then have "length (format_d (nd_msgid nd)) \<le> 11" "length (format_d (nd_devid nd)) \<le> 11"
    by (auto simp: node_ok_def intro!: format_d_length)
  moreover have "length (format_d IOTX_DM_ERR_CODE_TIMEOUT) \<le> 6"
    using decimal_length [of 100000 6] by (simp add: format_d_def IOTX_DM_ERR_CODE_TIMEOUT_def)
  ultimately show ?thesis
    by (simp add: timeout_message_def timeout_text_def stored_def ascii_def DM_UTILS_UINT32_STRLEN_def)
qed

definition timeout_event :: "dm_msg_cache_node_t \<Rightarrow> dm_ipc_msg_t" where
  "timeout_event nd = \<lparr>ipc_type = nd_response_type nd, ipc_data = Some (timeout_text (nd_msgid nd) (nd_devid nd))\<rparr>"

text \<open>What happens to the queue while there is memory: it gets new events as long as it has room.\<close>

definition room :: "dm_ctx \<Rightarrow> nat" where
  "room ctx = nat (ipc_max_size (g_dm_ipc ctx)) - length (events ctx)"

definition reported :: "dm_ipc_msg_t list \<Rightarrow> dm_ctx \<Rightarrow> dm_ctx \<Rightarrow> bool" where
  "reported es ctx ctx' \<longleftrightarrow> queue_ok ctx' \<and> events ctx' = events ctx @ take (room ctx) es
     \<and> ipc_max_size (g_dm_ipc ctx') = ipc_max_size (g_dm_ipc ctx) \<and> dm_seen ctx' = dm_seen ctx
     \<and> dm_callback ctx' = dm_callback ctx \<and> cota_is_report_new_config ctx' = cota_is_report_new_config ctx
     \<and> fota_is_report_new_config ctx' = fota_is_report_new_config ctx"

lemma reported_trans: "reported es c c1 \<Longrightarrow> reported fs c1 c2 \<Longrightarrow> reported (es @ fs) c c2"
proof -
  assume 1: "reported es c c1" and 2: "reported fs c1 c2"
  then have len: "length (events c1) = length (events c) + min (length es) (room c)" by (simp add: reported_def)
  have "ipc_max_size (g_dm_ipc c1) = ipc_max_size (g_dm_ipc c)" using 1 by (simp add: reported_def)
  then have "room c1 = room c - length es" unfolding room_def len by (simp add: room_def min_def)
  with 1 2 show ?thesis by (simp add: reported_def)
qed

lemma queue_ok_cache [simp]: "queue_ok (ctx\<lparr>g_dm_msg_cache := c\<rparr>) \<longleftrightarrow> queue_ok ctx"
  by (simp add: queue_ok_def)

lemma reported_cache: "reported es ctx c1 \<Longrightarrow> reported es ctx (c1\<lparr>g_dm_msg_cache := c\<rparr>)"
  by (simp add: reported_def)

lemma send_to_user_reported:
  assumes "\<forall>n. mem n" and "queue_ok ctx"
  shows "\<exists>r ctx'. dm_msg_send_to_user mem ty message ctx = (r, ctx')
      \<and> reported [\<lparr>ipc_type = ty, ipc_data = Some message\<rparr>] ctx ctx' \<and> g_dm_msg_cache ctx' = g_dm_msg_cache ctx"
proof (cases "ipc_size (g_dm_ipc ctx) < ipc_max_size (g_dm_ipc ctx)")
  case True
  then have "room ctx \<noteq> 0" using assms(2) by (simp add: room_def queue_ok_def)
  then obtain k where "room ctx = Suc k" by (cases "room ctx") auto
  with True assms show ?thesis
    by (auto simp: dm_msg_send_to_user_def dm_ipc_msg_insert_def dm_malloc_def dm_results Let_def reported_def queue_ok_def)
next
  case False
  then have "room ctx = 0" using assms(2) by (auto simp: room_def queue_ok_def nat_le_iff)
  with False assms show ?thesis
    by (auto simp: dm_msg_send_to_user_def dm_ipc_msg_insert_def dm_malloc_def dm_results Let_def reported_def queue_ok_def)
qed

lemma send_timeout_reported:
  assumes "\<forall>n. mem n" and "queue_ok ctx" and "node_ok nd"
  shows "\<exists>r ctx'. dm_msg_send_msg_timeout_to_user mem (nd_msgid nd) (nd_devid nd) (nd_response_type nd) ctx = (r, ctx')
      \<and> reported [timeout_event nd] ctx ctx' \<and> g_dm_msg_cache ctx' = g_dm_msg_cache ctx"
proof -
  let ?c = "ctx\<lparr>dm_allocs := dm_allocs ctx + 1\<rparr>"
  have "queue_ok ?c" using assms(2) by (simp add: queue_ok_def)
  from send_to_user_reported [OF assms(1) this, of "nd_response_type nd" "timeout_text (nd_msgid nd) (nd_devid nd)"]
  obtain r ctx' where "dm_msg_send_to_user mem (nd_response_type nd) (timeout_text (nd_msgid nd) (nd_devid nd)) ?c = (r, ctx')"
    and "reported [timeout_event nd] ctx ctx'" "g_dm_msg_cache ctx' = g_dm_msg_cache ctx"
    by (auto simp: timeout_event_def reported_def room_def)
  with assms show ?thesis
    by (auto simp: dm_msg_send_msg_timeout_to_user_def dm_malloc_def timeout_message_whole)
qed

text \<open>The tick: nodes of ten seconds or more go, each with its event, the others stay.\<close>

abbreviation too_old :: "u64 \<Rightarrow> dm_msg_cache_node_t \<Rightarrow> bool" where
  "too_old now nd \<equiv> 10000 \<le> now - min now (nd_ctime nd)"

lemma expired_clock: "expired now (clock_back now nd) = too_old now nd"
  by (cases "now < nd_ctime nd")
    (simp_all add: expired_def clock_back_def DM_MSG_CACHE_TIMEOUT_MS_DEFAULT_def min_absorb1 min_absorb2 less_imp_le not_less)

lemma clock_back_node: "clock_back now nd = nd\<lparr>nd_ctime := min now (nd_ctime nd)\<rparr>"
  by (cases "now < nd_ctime nd") (simp_all add: clock_back_def min_absorb1 min_absorb2 less_imp_le not_less)

lemma timeout_event_clock: "timeout_event (clock_back now nd) = timeout_event nd"
  by (simp add: timeout_event_def clock_back_def)

lemma tick_loop_reported:
  assumes "\<forall>n. mem n" and "queue_ok ctx" and "\<forall>nd \<in> set nds. node_ok nd"
  shows "\<exists>ctx'. tick_loop mem now nds ctx = (map (clock_back now) (filter (\<lambda>nd. \<not> too_old now nd) nds), ctx')
     \<and> reported (map timeout_event (filter (too_old now) nds)) ctx ctx'
     \<and> dmc_list_size (g_dm_msg_cache ctx') = dmc_list_size (g_dm_msg_cache ctx) - int (length (filter (too_old now) nds))"
  using assms
proof (induction nds arbitrary: ctx)
  case Nil
  then show ?case by (simp add: reported_def)
next
  case (Cons nd nds)
  let ?nd = "clock_back now nd"
  have nd: "node_ok ?nd" using Cons.prems(3) by (simp add: node_ok_def clock_back_def)
  show ?case
  proof (cases "too_old now nd")
    case True
    obtain r c1 where c1: "dm_msg_send_msg_timeout_to_user mem (nd_msgid ?nd) (nd_devid ?nd) (nd_response_type ?nd) ctx = (r, c1)"
      "reported [timeout_event nd] ctx c1" "g_dm_msg_cache c1 = g_dm_msg_cache ctx"
      using send_timeout_reported [OF Cons.prems(1,2) nd] by (auto simp: timeout_event_clock)
    let ?c2 = "c1\<lparr>g_dm_msg_cache := (g_dm_msg_cache c1)\<lparr>dmc_list_size := dmc_list_size (g_dm_msg_cache c1) - 1\<rparr>\<rparr>"
    have "reported [timeout_event nd] ctx ?c2" using c1(2) by (rule reported_cache)
    then have q2: "queue_ok ?c2" by (simp add: reported_def)
    have "\<forall>nd \<in> set nds. node_ok nd" using Cons.prems(3) by simp
    from Cons.IH [OF Cons.prems(1) q2 this] obtain c3
      where c3: "tick_loop mem now nds ?c2 = (map (clock_back now) (filter (\<lambda>nd. \<not> too_old now nd) nds), c3)"
        "reported (map timeout_event (filter (too_old now) nds)) ?c2 c3"
        "dmc_list_size (g_dm_msg_cache c3) = dmc_list_size (g_dm_msg_cache ?c2) - int (length (filter (too_old now) nds))" by blast
    have "reported ([timeout_event nd] @ map timeout_event (filter (too_old now) nds)) ctx c3"
      using reported_trans [OF reported_cache [OF c1(2)] c3(2)] .
    then show ?thesis using True c1(1,3) c3(1,3) by (auto simp: expired_clock Let_def)
  next
    case False
    then show ?thesis using Cons.IH [of ctx] Cons.prems by (auto simp: expired_clock Let_def)
  qed
qed

lemma tick_reported:
  assumes "\<forall>n. mem n" and "dm_ok ctx"
  shows "\<exists>ctx'. dm_msg_cache_tick mem now ctx = ctx' \<and> dm_ok ctx'
     \<and> reported (map timeout_event (filter (too_old now) (dmc_list (g_dm_msg_cache ctx)))) ctx ctx'
     \<and> dmc_list (g_dm_msg_cache ctx') = map (clock_back now) (filter (\<lambda>nd. \<not> too_old now nd) (dmc_list (g_dm_msg_cache ctx)))"
proof -
  let ?nds = "dmc_list (g_dm_msg_cache ctx)"
  have ok: "queue_ok ctx" "\<forall>nd \<in> set ?nds. node_ok nd" using assms(2) by (simp_all add: dm_ok_def cache_ok_def)
  from tick_loop_reported [OF assms(1) ok, of now] obtain c where
    c: "tick_loop mem now ?nds ctx = (map (clock_back now) (filter (\<lambda>nd. \<not> too_old now nd) ?nds), c)"
      "reported (map timeout_event (filter (too_old now) ?nds)) ctx c"
      "dmc_list_size (g_dm_msg_cache c) = dmc_list_size (g_dm_msg_cache ctx) - int (length (filter (too_old now) ?nds))" by blast
  let ?c = "c\<lparr>g_dm_msg_cache := (g_dm_msg_cache c)\<lparr>dmc_list := map (clock_back now) (filter (\<lambda>nd. \<not> too_old now nd) ?nds)\<rparr>\<rparr>"
  have tick: "dm_msg_cache_tick mem now ctx = ?c" by (simp add: dm_msg_cache_tick_def c(1))
  have rep: "reported (map timeout_event (filter (too_old now) ?nds)) ctx ?c" using c(2) by (rule reported_cache)
  have len: "length ?nds = length (filter (too_old now) ?nds) + length (filter (\<lambda>nd. \<not> too_old now nd) ?nds)"
    by (rule sum_length_filter_compl [symmetric])
  have "node_ok (clock_back now nd) = node_ok nd" for nd by (simp add: node_ok_def clock_back_def)
  then have "cache_ok ?c" using assms(2) ok(2) c(3) len by (auto simp: dm_ok_def cache_ok_def)
  then have "dm_ok ?c" using rep assms(2) by (simp add: dm_ok_def reported_def)
  with tick rep show ?thesis by simp
qed

section \<open>The invariant\<close>

lemma dm_ok_init:
  assumes "dm_msg_cache_init True ctx = (r1, c1)" and "dm_ipc_init True (int CONFIG_DISPATCH_QUEUE_MAXLEN) c1 = (r2, c2)"
  shows "dm_ok c2"
  using assms by (auto simp: dm_msg_cache_init_def dm_ipc_init_def dm_ok_def queue_ok_def cache_ok_def
      CONFIG_MSGCACHE_QUEUE_MAXLEN_def)

lemma insert_frame:
  "dm_ipc_msg_insert mem m ctx = (r, ctx') \<Longrightarrow> g_dm_msg_cache ctx' = g_dm_msg_cache ctx
     \<and> ipc_max_size (g_dm_ipc ctx') = ipc_max_size (g_dm_ipc ctx)"
  by (auto simp: dm_ipc_msg_insert_def dm_malloc_def Let_def split: option.splits if_splits)

lemma dm_ok_insert: "dm_ok ctx \<Longrightarrow> dm_ipc_msg_insert mem m ctx = (r, ctx') \<Longrightarrow> dm_ok ctx'"
proof (cases m)
  case (Some x)
  assume "dm_ok ctx" and run: "dm_ipc_msg_insert mem m ctx = (r, ctx')"
  then show ?thesis using insert_ok [of ctx mem x r ctx'] insert_frame [OF run] Some by (simp add: dm_ok_def cache_ok_def)
qed (simp add: dm_ipc_msg_insert_def)

lemma dm_ok_allocs [simp]: "dm_ok (ctx\<lparr>dm_allocs := a\<rparr>) \<longleftrightarrow> dm_ok ctx"
  by (simp add: dm_ok_def queue_ok_def cache_ok_def)

lemma dm_ok_flags [simp]:
  "dm_ok (ctx\<lparr>cota_is_report_new_config := a\<rparr>) \<longleftrightarrow> dm_ok ctx"
  "dm_ok (ctx\<lparr>fota_is_report_new_config := a\<rparr>) \<longleftrightarrow> dm_ok ctx"
  "dm_ok (ctx\<lparr>dm_seen := e\<rparr>) \<longleftrightarrow> dm_ok ctx"
  by (simp_all add: dm_ok_def queue_ok_def cache_ok_def)

lemma dm_ok_send: "dm_ok ctx \<Longrightarrow> dm_msg_send_to_user mem ty message ctx = (r, ctx') \<Longrightarrow> dm_ok ctx'"
  by (auto simp: dm_msg_send_to_user_def dm_malloc_def Let_def dest!: dm_ok_insert [rotated] split: prod.splits if_splits)

lemma dm_ok_timeout: "dm_ok ctx \<Longrightarrow> dm_msg_send_msg_timeout_to_user mem i d ty ctx = (r, ctx') \<Longrightarrow> dm_ok ctx'"
  by (auto simp: dm_msg_send_msg_timeout_to_user_def dm_malloc_def Let_def dest!: dm_ok_send [rotated] split: prod.splits if_splits)

lemma dm_ok_checks:
  "dm_ok ctx \<Longrightarrow> dm_ok (snd (dm_cota_status_check mem handle ctx))"
  "dm_ok ctx \<Longrightarrow> dm_ok (snd (dm_fota_status_check mem handle ctx))"
  by (auto simp: dm_cota_status_check_def dm_fota_status_check_def dm_cota_send_new_config_to_user_def
      dm_fota_send_new_config_to_user_def dm_malloc_def Let_def dest!: dm_ok_send [rotated] split: option.splits prod.splits if_splits)

text \<open>The same identifier may wait twice; the first node goes.\<close>

lemma remove_node_set: "remove_node i nds = Some r \<Longrightarrow> length nds = length r + 1 \<and> set r \<subseteq> set nds"
  by (induction nds arbitrary: r) (auto split: if_splits)

lemma dm_ok_remove: "dm_ok ctx \<Longrightarrow> dm_msg_cache_remove i ctx = (r, ctx') \<Longrightarrow> dm_ok ctx'"
  using remove_node_set [of i "dmc_list (g_dm_msg_cache ctx)"]
  by (auto simp: dm_msg_cache_remove_def dm_ok_def cache_ok_def Let_def split: option.splits)

lemma dm_ok_cache_insert:
  "dm_ok ctx \<Longrightarrow> node_ok \<lparr>nd_msgid = i, nd_devid = d, nd_response_type = ty, nd_data = data, nd_ctime = now\<rparr> \<Longrightarrow>
     dm_msg_cache_insert mem now i d ty data ctx = (r, ctx') \<Longrightarrow> dm_ok ctx'"
  by (auto simp: dm_msg_cache_insert_def dm_malloc_def dm_ok_def cache_ok_def queue_ok_def Let_def
      CONFIG_MSGCACHE_QUEUE_MAXLEN_def split: if_splits)

text \<open>The tick, whatever the allocations do.\<close>

lemma queue_ok_allocs [simp]: "queue_ok (ctx\<lparr>dm_allocs := a\<rparr>) \<longleftrightarrow> queue_ok ctx"
  by (simp add: queue_ok_def)

lemma send_queue:
  assumes "queue_ok ctx" and "dm_msg_send_to_user mem ty message ctx = (r, ctx')"
  shows "queue_ok ctx' \<and> ipc_max_size (g_dm_ipc ctx') = ipc_max_size (g_dm_ipc ctx) \<and> g_dm_msg_cache ctx' = g_dm_msg_cache ctx"
proof -
  let ?c = "ctx\<lparr>dm_allocs := dm_allocs ctx + 1\<rparr>" and ?m = "\<lparr>ipc_type = ty, ipc_data = Some message\<rparr>"
  obtain r1 c1 where run: "dm_ipc_msg_insert mem (Some ?m) ?c = (r1, c1)" by (cases "dm_ipc_msg_insert mem (Some ?m) ?c")
  have "queue_ok ?c" using assms(1) by simp
  from insert_ok [OF this run] insert_frame [OF run] assms run show ?thesis
    by (auto simp: dm_msg_send_to_user_def dm_malloc_def split: if_splits)
qed

lemma timeout_queue:
  assumes "queue_ok ctx" and "dm_msg_send_msg_timeout_to_user mem i d ty ctx = (r, ctx')"
  shows "queue_ok ctx' \<and> ipc_max_size (g_dm_ipc ctx') = ipc_max_size (g_dm_ipc ctx) \<and> g_dm_msg_cache ctx' = g_dm_msg_cache ctx"
proof -
  let ?c = "ctx\<lparr>dm_allocs := dm_allocs ctx + 1\<rparr>"
  obtain r1 c1 where run: "dm_msg_send_to_user mem ty (timeout_message i d) ?c = (r1, c1)"
    by (cases "dm_msg_send_to_user mem ty (timeout_message i d) ?c")
  have "queue_ok ?c" using assms(1) by simp
  from send_queue [OF this run] assms run show ?thesis
    by (auto simp: dm_msg_send_msg_timeout_to_user_def dm_malloc_def split: if_splits)
qed

lemma dm_ok_tick_loop:
  assumes "queue_ok ctx" and "ipc_max_size (g_dm_ipc ctx) = int CONFIG_DISPATCH_QUEUE_MAXLEN"
    and "tick_loop mem now nds ctx = (kept, ctx')"
  shows "queue_ok ctx' \<and> ipc_max_size (g_dm_ipc ctx') = int CONFIG_DISPATCH_QUEUE_MAXLEN
    \<and> kept = map (clock_back now) (filter (\<lambda>nd. \<not> too_old now nd) nds)
    \<and> dmc_list_size (g_dm_msg_cache ctx') = dmc_list_size (g_dm_msg_cache ctx) - int (length (filter (too_old now) nds))"
  using assms
proof (induction nds arbitrary: ctx kept)
  case (Cons nd nds)
  let ?nd = "clock_back now nd"
  show ?case
  proof (cases "too_old now nd")
    case True
    obtain r c1 where c1: "dm_msg_send_msg_timeout_to_user mem (nd_msgid ?nd) (nd_devid ?nd) (nd_response_type ?nd) ctx = (r, c1)"
      by (cases "dm_msg_send_msg_timeout_to_user mem (nd_msgid ?nd) (nd_devid ?nd) (nd_response_type ?nd) ctx")
    note frame = timeout_queue [OF Cons.prems(1) c1]
    show ?thesis using Cons.IH [of "c1\<lparr>g_dm_msg_cache := (g_dm_msg_cache c1)\<lparr>dmc_list_size := dmc_list_size (g_dm_msg_cache c1) - 1\<rparr>\<rparr>" kept]
        frame Cons.prems c1 True by (auto simp: expired_clock Let_def)
  next
    case False
    then show ?thesis using Cons.IH [of ctx] Cons.prems by (auto simp: expired_clock Let_def split: prod.splits)
  qed
qed simp

lemma dm_ok_tick: "dm_ok ctx \<Longrightarrow> dm_ok (dm_msg_cache_tick mem now ctx)"
proof -
  assume ok: "dm_ok ctx"
  let ?nds = "dmc_list (g_dm_msg_cache ctx)"
  obtain kept c where run: "tick_loop mem now ?nds ctx = (kept, c)" by (cases "tick_loop mem now ?nds ctx")
  have len: "length ?nds = length (filter (too_old now) ?nds) + length (filter (\<lambda>nd. \<not> too_old now nd) ?nds)"
    by (rule sum_length_filter_compl [symmetric])
  have "node_ok (clock_back now nd) = node_ok nd" for nd by (simp add: node_ok_def clock_back_def)
  then show ?thesis using ok len dm_ok_tick_loop [OF _ _ run]
    by (auto simp: dm_msg_cache_tick_def run dm_ok_def cache_ok_def)
qed

lemma dm_ok_dispatch_loop: "dm_ok ctx \<Longrightarrow> dm_ok (dispatch_loop n ctx)"
proof (induction n arbitrary: ctx)
  case (Suc n)
  obtain r m c where run: "dm_ipc_msg_next True ctx = (r, m, c)" by (cases "dm_ipc_msg_next True ctx")
  have "dm_ok c" using Suc.prems run
    by (auto simp: dm_ipc_msg_next_def dm_ok_def queue_ok_def cache_ok_def split: list.splits)
  then show ?case using Suc.IH run by (auto split: option.splits)
qed simp

text \<open>
  The states that the calls of the device model reach, open (\<open>True\<close>) and closed. \<open>iotx_dm_open\<close>
  initialises the queue and the cache in whatever state they are, \<open>iotx_dm_close\<close> frees their
  nodes and destroys their mutexes, after which they can only be opened again.
\<close>

inductive dm_reachable :: "(nat \<Rightarrow> bool) \<Rightarrow> bool \<Rightarrow> dm_ctx \<Rightarrow> bool" for mem where
  opened: "dm_msg_cache_init True ctx = (r1, c1) \<Longrightarrow> dm_ipc_init True (int CONFIG_DISPATCH_QUEUE_MAXLEN) c1 = (r2, c2)
    \<Longrightarrow> dm_reachable mem True c2"
| sent: "dm_reachable mem True ctx \<Longrightarrow> dm_msg_send_to_user mem ty message ctx = (r, c) \<Longrightarrow> dm_reachable mem True c"
| waiting: "dm_reachable mem True ctx \<Longrightarrow> dm_msg_cache_insert mem now i d ty data ctx = (r, c)
    \<Longrightarrow> - (2 ^ 31) \<le> i \<Longrightarrow> i < 2 ^ 31 \<Longrightarrow> - (2 ^ 31) \<le> d \<Longrightarrow> d < 2 ^ 31 \<Longrightarrow> dm_reachable mem True c"
| answered: "dm_reachable mem True ctx \<Longrightarrow> dm_msg_cache_remove i ctx = (r, c) \<Longrightarrow> dm_reachable mem True c"
| dispatched: "dm_reachable mem True ctx \<Longrightarrow> dm_reachable mem True (iotx_dm_dispatch mem now handle ctx)"
| closed: "dm_reachable mem True ctx \<Longrightarrow> dm_msg_cache_deinit (dm_ipc_deinit ctx) = (r, c) \<Longrightarrow> dm_reachable mem False c"

lemma dm_ok_dispatch: "dm_ok ctx \<Longrightarrow> dm_ok (iotx_dm_dispatch mem now handle ctx)"
  by (simp add: iotx_dm_dispatch_def Let_def dm_ok_tick dm_ok_checks dm_ok_dispatch_loop)

lemma reachable_cases:
  "dm_reachable mem is_open ctx \<Longrightarrow>
     (if is_open then dm_ok ctx else ipc_list (g_dm_ipc ctx) = [] \<and> dmc_list (g_dm_msg_cache ctx) = [])"
proof (induction rule: dm_reachable.induct)
  case (waiting ctx now i d ty data r c)
  then have "dm_ok ctx" by simp
  with waiting have "dm_ok c" by (intro dm_ok_cache_insert [OF \<open>dm_ok ctx\<close>]) (simp_all add: node_ok_def)
  then show ?case by simp
next
  case (closed ctx r c)
  then show ?case by (auto simp: dm_msg_cache_deinit_def dm_ipc_deinit_def)
qed (auto intro: dm_ok_init dm_ok_send dm_ok_remove dm_ok_dispatch)

lemma reachable_ok: "dm_reachable mem True ctx \<Longrightarrow> dm_ok ctx"
  using reachable_cases by fastforce

text \<open>
  Property C37: in every state that the device model reaches, whatever allocations fail: while it
  is open, the two counters are the lengths of their lists, and neither the queue of events nor the
  cache of waiting requests has more than 50 entries; while it is closed, both are empty.
\<close>

theorem dm_lists_bounded:
  assumes "dm_reachable mem is_open ctx"
  shows "if is_open
    then ipc_size (g_dm_ipc ctx) = int (length (ipc_list (g_dm_ipc ctx))) \<and> length (ipc_list (g_dm_ipc ctx)) \<le> 50
      \<and> dmc_list_size (g_dm_msg_cache ctx) = int (length (dmc_list (g_dm_msg_cache ctx)))
      \<and> length (dmc_list (g_dm_msg_cache ctx)) \<le> 50
    else ipc_list (g_dm_ipc ctx) = [] \<and> dmc_list (g_dm_msg_cache ctx) = []"
  using reachable_cases [OF assms]
  by (cases is_open)
    (simp_all add: dm_ok_def queue_ok_def cache_ok_def CONFIG_DISPATCH_QUEUE_MAXLEN_def CONFIG_MSGCACHE_QUEUE_MAXLEN_def)

definition dm_open_state :: dm_ctx where
  "dm_open_state = snd (dm_ipc_init True (int CONFIG_DISPATCH_QUEUE_MAXLEN) (snd (dm_msg_cache_init True dm_static)))"

lemma open_reachable: "dm_reachable mem True dm_open_state"
  unfolding dm_open_state_def by (rule dm_reachable.opened [OF surjective_pairing surjective_pairing])

theorem dm_lists_bounded_witness:
  "dmc_list_size (g_dm_msg_cache (snd (dm_msg_cache_insert (\<lambda>_. True) 5 1 0 IOTX_DM_EVENT_TOPO_ADD_REPLY None dm_open_state))) = 1"
proof -
  let ?c = "snd (dm_msg_cache_insert (\<lambda>_. True) 5 1 0 IOTX_DM_EVENT_TOPO_ADD_REPLY None dm_open_state)"
  have "dm_reachable (\<lambda>_. True) True ?c"
    by (rule dm_reachable.waiting [OF open_reachable surjective_pairing]) simp_all
  from dm_lists_bounded [OF this] have "dmc_list_size (g_dm_msg_cache ?c) = int (length (dmc_list (g_dm_msg_cache ?c)))" by simp
  moreover have "length (dmc_list (g_dm_msg_cache ?c)) = 1"
    by (simp add: dm_open_state_def dm_msg_cache_insert_def dm_malloc_def dm_ipc_init_def dm_msg_cache_init_def
        CONFIG_MSGCACHE_QUEUE_MAXLEN_def)
  ultimately show ?thesis by simp
qed

section \<open>What a dispatch gives to the application\<close>

lemma dispatch_loop_drains:
  "queue_ok ctx \<Longrightarrow> dm_callback ctx \<Longrightarrow> length (events ctx) \<le> n \<Longrightarrow>
     events (dispatch_loop n ctx) = [] \<and> dm_seen (dispatch_loop n ctx) = dm_seen ctx @ map (\<lambda>m. (ipc_type m, ipc_data m)) (events ctx)
     \<and> g_dm_msg_cache (dispatch_loop n ctx) = g_dm_msg_cache ctx"
proof (induction n arbitrary: ctx)
  case (Suc n)
  show ?case
  proof (cases "events ctx")
    case Nil
    then show ?thesis by (simp add: dm_ipc_msg_next_def)
  next
    case (Cons m ms)
    let ?c = "ctx\<lparr>g_dm_ipc := (g_dm_ipc ctx)\<lparr>ipc_size := ipc_size (g_dm_ipc ctx) - 1, ipc_list := ms\<rparr>,
        dm_seen := dm_seen ctx @ [(ipc_type m, ipc_data m)]\<rparr>"
    have "queue_ok ?c" using Suc.prems(1) Cons by (simp add: queue_ok_def)
    from Suc.IH [OF this] Suc.prems Cons show ?thesis by (simp add: dm_ipc_msg_next_def)
  qed
qed simp

text \<open>Closing empties the cache but leaves its counter, which only the next opening sets back.\<close>

lemma close_keeps_counter:
  "let ctx = snd (dm_msg_cache_deinit (dm_ipc_deinit
       (snd (dm_msg_cache_insert (\<lambda>_. True) 5 1 0 IOTX_DM_EVENT_TOPO_ADD_REPLY None dm_open_state))))
   in dm_reachable (\<lambda>_. True) False ctx \<and> dmc_list (g_dm_msg_cache ctx) = [] \<and> dmc_list_size (g_dm_msg_cache ctx) = 1"
proof -
  let ?c = "snd (dm_msg_cache_insert (\<lambda>_. True) 5 1 0 IOTX_DM_EVENT_TOPO_ADD_REPLY None dm_open_state)"
  have "dm_reachable (\<lambda>_. True) True ?c"
    by (rule dm_reachable.waiting [OF open_reachable surjective_pairing]) simp_all
  then have "dm_reachable (\<lambda>_. True) False (snd (dm_msg_cache_deinit (dm_ipc_deinit ?c)))"
    by (rule dm_reachable.closed [OF _ surjective_pairing])
  then show ?thesis
    by (simp add: Let_def dm_msg_cache_deinit_def dm_ipc_deinit_def dm_open_state_def dm_msg_cache_insert_def dm_malloc_def
        dm_ipc_init_def dm_msg_cache_init_def CONFIG_MSGCACHE_QUEUE_MAXLEN_def)
qed

text \<open>
  Property C14: one call of \<open>iotx_dm_dispatch\<close> on the open device model, while no update is being fetched and there is memory,
  hands to the application's callback first all events that wait in the queue, in their
  order, and then, for every request whose reply is ten seconds late, its timeout with the
  identifiers of the request and of the device; these requests leave the cache, the
  others stay. Of the timeouts only as many are reported as the queue of 50 has room for;
  the rest are lost.
\<close>

theorem dispatch_reports:
  assumes "dm_reachable mem True ctx" and "\<forall>n. mem n" and "dm_callback ctx"
    and "\<forall>ota. handle = Some ota \<longrightarrow> \<not> ov_fetching ota"
  shows "let ctx' = iotx_dm_dispatch mem now handle ctx; waiting = dmc_list (g_dm_msg_cache ctx);
             late = filter (\<lambda>nd. 10000 \<le> now - min now (nd_ctime nd)) waiting in
    dm_seen ctx' = dm_seen ctx @ map (\<lambda>m. (ipc_type m, ipc_data m)) (ipc_list (g_dm_ipc ctx))
      @ map (\<lambda>nd. (nd_response_type nd, Some (timeout_text (nd_msgid nd) (nd_devid nd))))
          (take (50 - length (ipc_list (g_dm_ipc ctx))) late)
    \<and> ipc_list (g_dm_ipc ctx') = []
    \<and> dmc_list (g_dm_msg_cache ctx') = map (\<lambda>nd. nd\<lparr>nd_ctime := min now (nd_ctime nd)\<rparr>)
        (filter (\<lambda>nd. \<not> 10000 \<le> now - min now (nd_ctime nd)) waiting)"
proof -
  have ok: "dm_ok ctx" using assms(1) by (rule reachable_ok)
  obtain c where c: "dm_msg_cache_tick mem now ctx = c" "dm_ok c"
      "reported (map timeout_event (filter (too_old now) (dmc_list (g_dm_msg_cache ctx)))) ctx c"
      "dmc_list (g_dm_msg_cache c) = map (clock_back now) (filter (\<lambda>nd. \<not> too_old now nd) (dmc_list (g_dm_msg_cache ctx)))"
    using tick_reported [OF assms(2) ok] by blast
  have checks: "snd (dm_cota_status_check mem handle c) = c" "snd (dm_fota_status_check mem handle c) = c"
    using assms(4) by (auto simp: dm_cota_status_check_def dm_fota_status_check_def split: option.splits)
  have "queue_ok c" "dm_callback c" "length (events c) \<le> CONFIG_DISPATCH_QUEUE_MAXLEN"
    using c(2,3) assms(3) by (simp_all add: dm_ok_def reported_def queue_ok_def)
  note drained = dispatch_loop_drains [OF this]
  have "room ctx = 50 - length (events ctx)"
    using ok by (simp add: room_def dm_ok_def CONFIG_DISPATCH_QUEUE_MAXLEN_def)
  with c(3) have ev: "events c = events ctx @ take (50 - length (events ctx)) (map timeout_event
        (filter (too_old now) (dmc_list (g_dm_msg_cache ctx))))" "dm_seen c = dm_seen ctx"
    by (simp_all add: reported_def)
  show ?thesis
    using drained ev c(4) by (simp add: iotx_dm_dispatch_def Let_def c(1) checks take_map timeout_event_def comp_def
        clock_back_node [abs_def])
qed

theorem dispatch_reports_witness:
  "let ctx = snd (dm_msg_cache_insert (\<lambda>_. True) 5 7 0 IOTX_DM_EVENT_TOPO_ADD_REPLY None (dm_open_state\<lparr>dm_callback := True\<rparr>)) in
   dm_seen (iotx_dm_dispatch (\<lambda>_. True) 20000 None ctx)
     = [(IOTX_DM_EVENT_TOPO_ADD_REPLY, Some (ascii ''{\"id\":7,\"code\":100000,\"devid\":0}''))]"
proof -
  have "dm_open_state\<lparr>dm_callback := True\<rparr>
      = snd (dm_ipc_init True (int CONFIG_DISPATCH_QUEUE_MAXLEN) (snd (dm_msg_cache_init True (dm_static\<lparr>dm_callback := True\<rparr>))))"
    by (simp add: dm_open_state_def dm_ipc_init_def dm_msg_cache_init_def)
  then have 1: "dm_reachable (\<lambda>_. True) True (dm_open_state\<lparr>dm_callback := True\<rparr>)"
    using dm_reachable.opened [OF surjective_pairing surjective_pairing] by simp
  let ?c = "snd (dm_msg_cache_insert (\<lambda>_. True) 5 7 0 IOTX_DM_EVENT_TOPO_ADD_REPLY None (dm_open_state\<lparr>dm_callback := True\<rparr>))"
  have 2: "dm_reachable (\<lambda>_. True) True ?c" by (rule dm_reachable.waiting [OF 1 surjective_pairing]) simp_all
  have state: "dm_callback ?c" "dm_seen ?c = []" "events ?c = []" "dmc_list (g_dm_msg_cache ?c)
      = [\<lparr>nd_msgid = 7, nd_devid = 0, nd_response_type = IOTX_DM_EVENT_TOPO_ADD_REPLY, nd_data = None, nd_ctime = 5\<rparr>]"
    by (simp_all add: dm_open_state_def dm_msg_cache_insert_def dm_malloc_def dm_ipc_init_def dm_msg_cache_init_def
        CONFIG_MSGCACHE_QUEUE_MAXLEN_def dm_static_def)
  have msg_text: "timeout_text 7 0 = ascii ''{\"id\":7,\"code\":100000,\"devid\":0}''"
    by (simp add: timeout_text_def format_d_def IOTX_DM_ERR_CODE_TIMEOUT_def decimal.simps ascii_def)
  have "min (20000 :: u64) 5 = 5" by (simp add: min_def)
  then show ?thesis
    using dispatch_reports [OF 2 _ state(1), of None 20000] state msg_text by (simp add: Let_def)
qed

end
