(* ===== verification/Spec2Isabelle.thy ===== *)
theory Spec2Isabelle
  imports Mqtt_Online Infra_String Coap_Codec Infra_Digest_Correct Coap_Session Infra_Json_Correct Dev_Sign Dm_Dispatch_Correct
begin

text \<open>
  A verification development for the connectivity core of the Aliyun Link SDK, as it is built
  for the ESP32 (\<open>src/components/esp-aliyun/iotkit-embedded\<close>): the MQTT client (directory
  \<open>mqtt\<close>), the local CoAP server (\<open>coap_server\<close>), the signature of the device (\<open>dev_sign\<close>), the events
  of the device model (\<open>dev_model\<close>) and what they use of \<open>infra\<close>.

  \<^bold>\<open>The program.\<close> \<open>mqtt/MQTTPacket.c\<close> and its siblings serialize and deserialize MQTT
  packets in caller-supplied buffers. \<open>mqtt/iotx_mqtt_client.c\<close> is the client proper: a
  structure \<open>iotx_mc_client_t\<close> with the connection's state, two dynamic buffers, the list of
  subscriptions and the list of publishes that wait for an acknowledgement. The public calls
  connect, publish, subscribe, unsubscribe; \<open>wrapper_mqtt_yield\<close> drives everything else:
  it sends pings, reconnects with a back-off, reads packets, calls the application's handlers
  and repeats unacknowledged publishes. Timers come from \<open>infra/infra_timer.c\<close>; the topic
  check uses the tokenizer of \<open>infra/infra_string.c\<close>. The functions \<open>IOT_MQTT_...\<close> of
  \<open>mqtt/mqtt_api.c\<close> keep the one client of the program: \<open>IOT_MQTT_Construct\<close> fills in the parameters the
  application left open (the address, the names and the password from the signature), checks them,
  connects, and reports the device's identity and version (\<open>infra/infra_report.c\<close>). The application's
  settings are kept by \<open>IOT_Ioctl\<close> in \<open>infra/infra_compat.c\<close>, the names of the device by
  \<open>wrappers/wrapper_product.c\<close>.

  The CoAP server answers devices and phones of the local network. \<open>coap_server/CoAPPacket\<close> is
  its packet layer; \<open>coap_server/server\<close> keeps a context \<open>CoAPIntContext\<close> with four bounded
  lists: messages to be retransmitted, observers of its resources, resources of others that it
  observes, and its resources, which are found by five bytes of the MD5 of their path
  (\<open>infra/infra_md5.c\<close>) or by a filter. \<open>CoAPMessage_cycle\<close> reads datagrams, retransmits and
  gives up; \<open>CoAPServer.c\<close> starts and stops the server and sends notifications and responses.

  Before it connects, a device signs its names with its secret (\<open>IOT_Sign_MQTT\<close>); host, client
  identifier, user and password of the MQTT connection come from there. Above MQTT, the device
  model keeps a cache of requests that wait for a reply and a bounded queue of events for the application;
  \<open>iotx_dm_dispatch\<close> lets late requests time out and empties the queue. Topics name the device they are
  for; \<open>dm_msg_uri_parse_pkdn\<close> reads it from them.

  \<^bold>\<open>The theories\<close>, in the order of their imports:
  \<^item> \<open>Prelude\<close>: machine integers (\<open>u8\<close> .. \<open>u32\<close>, C's \<open>int\<close> with overflow as \<open>None\<close>), bounded
    memory reads, C strings, elimination rules for runs in the option monad.
  \<^item> \<open>Infra_Timer\<close> (\<open>infra_timer.c\<close>): countdown timers on the wrapping 32-bit uptime.
  \<^item> \<open>Infra_String\<close> (\<open>infra_string.c\<close>): hexadecimal and decimal conversions, \<open>infra_strtok\<close>.
  \<^item> \<open>Infra_Json\<close>, \<open>Infra_Json_Correct\<close> (\<open>infra_json_parser.c\<close>): finding the value of a path in the text
    of a JSON object, and what is found.
  \<^item> \<open>Mqtt_Packet\<close> (\<open>MQTTPacket.c\<close>, \<open>MQTTPacket.h\<close>): header bytes, remaining length, counted strings.
  \<^item> \<open>Mqtt_Codec\<close> (\<open>MQTTConnectClient.c\<close>, \<open>MQTTSerializePublish.c\<close>, \<open>MQTTDeserializePublish.c\<close>,
    \<open>MQTTSubscribeClient.c\<close>, \<open>MQTTUnsubscribeClient.c\<close>): all packets the client uses.
  \<^item> \<open>Mqtt_Topic\<close>: \<open>iotx_mc_check_topic\<close>, \<open>iotx_mc_is_topic_matched\<close>.
  \<^item> \<open>Mqtt_Client\<close>: the record \<open>iotx_mc_client_t\<close>, the platform, buffers, sending, initialisation.
  \<^item> \<open>Mqtt_Publish\<close>: packet identifiers, the list of waiting publishes, publishing.
  \<^item> \<open>Mqtt_Receive\<close>: framing packets from the stream, the handlers, \<open>iotx_mc_cycle\<close>.
  \<^item> \<open>Mqtt_Connect\<close>: the handshake, pings, keep-alive, reconnection, disconnecting, releasing.
  \<^item> \<open>Mqtt_Subscribe\<close>: subscribing, unsubscribing and the handlers' list.
  \<^item> \<open>Mqtt_Session\<close>: \<open>wrapper_mqtt_yield\<close>, the synchronous subscription, whole sessions.
  \<^item> \<open>Infra_Compat\<close> (\<open>infra_compat.c\<close>, \<open>dev_model/dm_opt.c\<close>): \<open>IOT_Ioctl\<close>, the options, the handlers of events.
  \<^item> \<open>Mqtt_Api\<close> (\<open>mqtt_api.c\<close>, \<open>infra_report.c\<close>, \<open>wrapper_product.c\<close>): the public functions on the program's
    state; \<open>Mqtt_Api_Correct\<close>: its invariant; \<open>Mqtt_Online\<close>: a construction that succeeds brings the device online.
  \<^item> \<open>Coap_Packet\<close> (\<open>CoAPMessage_common.c\<close>, \<open>CoAPSerialize_common.c\<close>, \<open>CoAPDeserialize_common.c\<close>, of
    which \<open>coap_cloud\<close> has identical copies) and \<open>Coap_Codec\<close>: CoAP messages and what their
    serialization guarantees.
  \<^item> \<open>Infra_Hash\<close>, \<open>Infra_Digest\<close>, \<open>Infra_Digest_Correct\<close> (\<open>infra_md5.c\<close>, \<open>infra_sha1.c\<close>, \<open>infra_sha256.c\<close>,
    \<open>dev_bind/impl/sha256.c\<close>): streaming over blocks, stated once for all digests in the locales
    \<open>md_hash\<close> and \<open>digest_function\<close>; the compression functions and HMACs; SHA-1 and SHA-256 against
    FIPS 180-4.
  \<^item> \<open>C_Buffer\<close>: arrays that strings are copied into, and \<open>Dev_Sign\<close> (\<open>dev_sign_mqtt.c\<close>): the signature.
  \<^item> \<open>Dm_Utils\<close> (\<open>dm_utils.c\<close>): numbers, hexadecimal, topics.
  \<^item> \<open>Dm_Dispatch\<close> (\<open>dm_ipc.c\<close>, \<open>dm_message_cache.c\<close>, parts of \<open>dm_message.c\<close>, \<open>dm_cota.c\<close>, \<open>dm_fota.c\<close>, \<open>dm_api.c\<close>) and
    \<open>Dm_Dispatch_Correct\<close>: events and waiting requests; the queue through the locale \<open>fifo_queue\<close>.
  \<^item> \<open>Coap_Context\<close> (\<open>CoAPPlatform.c\<close>, \<open>CoAPExport.c\<close>, \<open>CoAPResource.c\<close>): addresses, the context, resources.
  \<^item> \<open>Coap_Message\<close> (\<open>CoAPMessage.c\<close>, \<open>CoAPObserve.c\<close>): sending, observers, handlers, retransmission.
  \<^item> \<open>Coap_Server\<close> (\<open>CoAPServer.c\<close>): the server's calls.
  \<^item> \<open>Coap_Delivery\<close>: from the sender of a notification to the callback of the resource.
  \<^item> \<open>Coap_Message_Correct\<close>, \<open>Coap_Session\<close>: the invariant, the steps, the end of retransmission.

  \<^bold>\<open>How state and effects are modelled.\<close> Every function that changes the client takes and
  returns the record \<open>iotx_mc_client_t\<close>. The hardware layer (clock, memory, transport,
  mutexes) is the record \<open>platform\<close>, a parameter of the model: the answer to the n-th platform call
  is a function of n (field \<open>hal_calls\<close> counts them), so a platform is any behaviour of the
  environment. What the outside can see (bytes sent, callbacks, sleeps, connections) is
  appended to the field \<open>observed\<close>. \<open>None\<close> is a run that leaves the defined behaviour of C
  (reading outside an object, overflow of \<open>int\<close>, using an uninitialised variable, NULL
  dereference); error codes are values. Loops that the clock or the peer ends are partial
  functions in the option monad; \<open>send_packet_returns\<close> shows when sending comes to an end. The CoAP
  server is modelled the same way, with the record \<open>CoAPIntContext\<close>, the platform
  \<open>coap_platform\<close> and the field \<open>coap_seen\<close>. What the network delivers to a cycle is a list of
  datagrams. \<open>check_timeout_loop\<close> has fuel: as many turns as there are messages and one, since
  each turn but the last removes one (\<open>check_timeout_loop_returns\<close>).

  \<^bold>\<open>What the lemmas show.\<close> The codec: round trips, exact sizes and exact refusals, and the
  malformed packets that are accepted. Topics: the verdict of the checks in terms of the
  levels, matching against a recursive specification. The client: what each call sends,
  returns and leaves alone on every branch, through the frames \<open>env_step\<close>, \<open>io_step\<close>,
  \<open>linked\<close>, \<open>link_frame\<close>, \<open>cycled\<close>. Sessions: an invariant of every sequence of calls, and the
  moves of the connection's state each call can make, with their causes: only an accepted CONNACK connects,
  and a ping that was not sent completely starts a reconnection. The public functions: at most one
  client, and what a successful construction has sent. CoAP: round trips and
  malformed packets; a notification reaches the callback registered for its path; an invariant
  of every state the server reaches; every retransmission ends.

  \<^bold>\<open>Configuration.\<close> As the component builds it: \<open>PLATFORM_HAS_DYNMEM\<close>, \<open>WITH_MQTT_DYN_BUF\<close>; without
  \<open>WITH_MQTT_ZIP_TOPIC\<close>, \<open>WITH_MQTT_QOS2_PACKET\<close>, \<open>WITH_MQTT_FLOW_CTRL\<close>, \<open>SUB_PERSISTENCE_ENABLED\<close>,
  \<open>ASYNC_PROTOCOL_STACK\<close>. Logging is not modelled; the mutexes are, as far as creating them
  can fail: calls are atomic with respect to each other. The CoAP server has
  \<open>COAP_SERV_MULTITHREAD\<close> and both kinds of observation, and no DTLS; the thread that runs its cycle is
  the caller of \<open>CoAPMessage_cycle\<close>.

  \<^bold>\<open>Not modelled\<close>: the callbacks' effects on the client or the context (a handler that calls
  back), releasing the CoAP context, the CoAP cloud client, most of the
  device model (devices, services, properties), device binding apart from its SHA-256, OTA, Wi-Fi provisioning, HTTP and the platform
  layer.
\<close>

end
